(* ===== verification/Prelude.thy ===== *)
theory Prelude
  imports Main "HOL-Library.Word" "HOL-Library.AList" "HOL-Library.Char_ord"
    "HOL-Library.List_Lexorder" "HOL-Library.Multiset"
begin

text \<open>
  Shared vocabulary of the development: results with errors and panics, byte strings, the
  few functions of Rust's \<open>str\<close> the program calls, decimal numbers, paths as strings,
  association lists for \<open>HashMap\<close> and the lemmas the components share about them.

  Conventions. A \<open>String\<close> or \<open>&[u8]\<close> is a list of bytes (type \<open>string\<close>); every
  separator the program splits at is ASCII, so splitting the bytes of a UTF-8 string is splitting
  its characters. A \<open>u64\<close> is a 64-bit word and arithmetic on it wraps, as in a release build
  (no profile of the workspace turns overflow checks on).
\<close>

named_theorems outcome_simps "computation rules of the result type"

section \<open>Results\<close>

text \<open>What a fallible Rust function can do: return \<open>Ok\<close>, return \<open>Err\<close>, or panic.\<close>

datatype ('a, 'e) outcome = Ok 'a | Err 'e | Panic

fun obind :: "('a, 'e) outcome \<Rightarrow> ('a \<Rightarrow> ('b, 'e) outcome) \<Rightarrow> ('b, 'e) outcome" where
  "obind (Ok x) f = f x"
| "obind (Err e) f = Err e"
| "obind Panic f = Panic"

fun omap :: "('a \<Rightarrow> 'b) \<Rightarrow> ('a, 'e) outcome \<Rightarrow> ('b, 'e) outcome" where
  "omap f (Ok x) = Ok (f x)"
| "omap f (Err e) = Err e"
| "omap f Panic = Panic"

fun ok_or :: "'e \<Rightarrow> 'a option \<Rightarrow> ('a, 'e) outcome" where
  "ok_or e None = Err e"
| "ok_or e (Some x) = Ok x"

fun is_ok :: "('a, 'e) outcome \<Rightarrow> bool" where
  "is_ok (Ok x) = True"
| "is_ok (Err e) = False"
| "is_ok Panic = False"

lemma obind_eq_Ok [outcome_simps]:
  "obind m f = Ok y \<longleftrightarrow> (\<exists>x. m = Ok x \<and> f x = Ok y)"
  by (cases m) auto

lemma obind_eq_Panic [outcome_simps]:
  "obind m f = Panic \<longleftrightarrow> m = Panic \<or> (\<exists>x. m = Ok x \<and> f x = Panic)"
  by (cases m) auto

lemma ok_or_eq_Ok [outcome_simps]: "ok_or e m = Ok x \<longleftrightarrow> m = Some x"
  by (cases m) auto

lemma omap_eq_Ok [outcome_simps]: "omap f m = Ok y \<longleftrightarrow> (\<exists>x. m = Ok x \<and> y = f x)"
  by (cases m) auto

lemma ok_or_not_Panic [simp]: "ok_or e m \<noteq> Panic"
  by (cases m) auto

lemma is_ok_iff: "is_ok r \<longleftrightarrow> (\<exists>x. r = Ok x)"
  by (cases r) auto

text \<open>Reading a computed result: from an evaluated case distinction to the existence it states.\<close>

lemma case_Some_pairD:
  "(case x of None \<Rightarrow> False | Some (a, b) \<Rightarrow> P a b) \<Longrightarrow> \<exists>a b. x = Some (a, b) \<and> P a b"
  by (auto split: option.splits)

section \<open>Strings\<close>

type_synonym bytes = string
type_synonym u64 = "64 word"
type_synonym u32 = "32 word"

text \<open>\<open>str::split_once\<close> and \<open>str::rsplit_once\<close> at an ASCII character.\<close>

fun split_once :: "char \<Rightarrow> string \<Rightarrow> (string \<times> string) option" where
  "split_once c [] = None"
| "split_once c (x # xs) =
     (if x = c then Some ([], xs)
      else map_option (\<lambda>(a, b). (x # a, b)) (split_once c xs))"

fun rsplit_once :: "char \<Rightarrow> string \<Rightarrow> (string \<times> string) option" where
  "rsplit_once c [] = None"
| "rsplit_once c (x # xs) =
     (case rsplit_once c xs of
        Some (a, b) \<Rightarrow> Some (x # a, b)
      | None \<Rightarrow> if x = c then Some ([], xs) else None)"

text \<open>\<open>str::split(c)\<close>: the pieces between the separators; never empty.\<close>

fun split_on :: "char \<Rightarrow> string \<Rightarrow> string list" where
  "split_on c [] = [[]]"
| "split_on c (x # xs) =
     (if x = c then [] # split_on c xs
      else (case split_on c xs of p # ps \<Rightarrow> (x # p) # ps | [] \<Rightarrow> [[x]]))"

definition starts_with :: "string \<Rightarrow> string \<Rightarrow> bool" where
  "starts_with p s \<longleftrightarrow> take (length p) s = p"

definition ends_with :: "string \<Rightarrow> string \<Rightarrow> bool" where
  "ends_with p s \<longleftrightarrow> starts_with (rev p) (rev s)"

definition strip_prefix :: "string \<Rightarrow> string \<Rightarrow> string option" where
  "strip_prefix p s = (if starts_with p s then Some (drop (length p) s) else None)"

definition strip_suffix :: "string \<Rightarrow> string \<Rightarrow> string option" where
  "strip_suffix p s = (if ends_with p s then Some (take (length s - length p) s) else None)"

fun str_contains :: "string \<Rightarrow> string \<Rightarrow> bool" where
  "str_contains p [] \<longleftrightarrow> p = []"
| "str_contains p (x # xs) \<longleftrightarrow> starts_with p (x # xs) \<or> str_contains p xs"

text \<open>\<open>str::replace\<close> of one ASCII character by a string.\<close>

fun replace_char :: "char \<Rightarrow> string \<Rightarrow> string \<Rightarrow> string" where
  "replace_char c r [] = []"
| "replace_char c r (x # xs) = (if x = c then r else [x]) @ replace_char c r xs"

definition ascii_lower :: "char \<Rightarrow> char" where
  "ascii_lower c = (if CHR ''A'' \<le> c \<and> c \<le> CHR ''Z'' then char_of (of_char c + 32 :: nat) else c)"

definition to_ascii_lowercase :: "string \<Rightarrow> string" where
  "to_ascii_lowercase = map ascii_lower"

lemma split_once_None [simp]: "split_once c s = None \<longleftrightarrow> c \<notin> set s"
  by (induction s) auto

lemma split_once_append [simp]: "c \<notin> set a \<Longrightarrow> split_once c (a @ c # b) = Some (a, b)"
  by (induction a) auto

lemma split_once_SomeD: "split_once c s = Some (a, b) \<Longrightarrow> s = a @ c # b \<and> c \<notin> set a"
  by (induction s arbitrary: a) (auto split: if_splits)

lemma split_once_Some: "split_once c s = Some (a, b) \<longleftrightarrow> s = a @ c # b \<and> c \<notin> set a"
  using split_once_SomeD split_once_append by metis

lemma rsplit_once_None [simp]: "rsplit_once c s = None \<longleftrightarrow> c \<notin> set s"
  by (induction s) (auto split: option.splits)

lemma rsplit_once_append [simp]: "c \<notin> set b \<Longrightarrow> rsplit_once c (a @ c # b) = Some (a, b)"
proof (induction a)
  case Nil
  then have "rsplit_once c b = None" by simp
  then show ?case by (simp del: rsplit_once_None)
qed (simp del: rsplit_once_None)

lemma rsplit_once_SomeD: "rsplit_once c s = Some (a, b) \<Longrightarrow> s = a @ c # b \<and> c \<notin> set b"
proof (induction s arbitrary: a)
  case (Cons x xs)
  show ?case
  proof (cases "rsplit_once c xs")
    case None
    moreover have "c \<notin> set xs" using None by simp
    ultimately show ?thesis using Cons.prems
      by (auto split: if_splits simp del: rsplit_once_None)
  next
    case (Some p)
    then show ?thesis using Cons by (cases p) auto
  qed
qed simp

lemma rsplit_once_Some: "rsplit_once c s = Some (a, b) \<longleftrightarrow> s = a @ c # b \<and> c \<notin> set b"
  using rsplit_once_SomeD rsplit_once_append by metis

lemma starts_with_iff: "starts_with p s \<longleftrightarrow> (\<exists>t. s = p @ t)"
  unfolding starts_with_def by (metis append_eq_conv_conj append_take_drop_id)

lemma ends_with_iff: "ends_with p s \<longleftrightarrow> (\<exists>t. s = t @ p)"
  unfolding ends_with_def starts_with_iff by (metis rev_append rev_rev_ident)

lemma strip_prefix_Some: "strip_prefix p s = Some t \<longleftrightarrow> s = p @ t"
  by (auto simp: strip_prefix_def starts_with_iff)

lemma strip_suffix_Some: "strip_suffix p s = Some t \<longleftrightarrow> s = t @ p"
  by (auto simp: strip_suffix_def ends_with_iff)

lemma str_containsD: "str_contains p s \<Longrightarrow> \<exists>a b. s = a @ p @ b"
proof (induction s)
  case (Cons x xs)
  then consider "starts_with p (x # xs)" | "str_contains p xs" by auto
  then show ?case
  proof cases
    case 1
    then show ?thesis by (metis append_Nil starts_with_iff)
  next
    case 2
    then show ?thesis using Cons.IH by (metis append_Cons)
  qed
qed simp

lemma str_containsI: "str_contains p (a @ p @ b)"
proof (induction a)
  case Nil
  have "starts_with p (p @ b)" by (simp add: starts_with_def)
  then show ?case by (cases "p @ b") auto
qed simp

lemma str_contains_iff: "str_contains p s \<longleftrightarrow> (\<exists>a b. s = a @ p @ b)"
  using str_containsD str_containsI by blast

lemma split_on_not_Nil [simp]: "split_on c s \<noteq> []"
  by (induction s) (auto split: list.splits)

lemma split_on_no_sep: "p \<in> set (split_on c s) \<Longrightarrow> c \<notin> set p"
  by (induction s arbitrary: p) (auto split: list.splits if_splits)

lemma set_replace_char: "set (replace_char c r s) \<subseteq> (set s - {c}) \<union> set r"
  by (induction s) auto

lemma replace_char_id [simp]: "c \<notin> set s \<Longrightarrow> replace_char c r s = s"
  by (induction s) auto

section \<open>Decimal numbers\<close>

definition digit_char :: "nat \<Rightarrow> char" where
  "digit_char d = char_of (48 + d)"

definition is_digit :: "char \<Rightarrow> bool" where
  "is_digit c \<longleftrightarrow> CHR ''0'' \<le> c \<and> c \<le> CHR ''9''"

definition digit_val :: "char \<Rightarrow> nat" where
  "digit_val c = of_char c - 48"

text \<open>\<open>Display\<close> of an unsigned integer.\<close>

fun show_nat :: "nat \<Rightarrow> string" where
  "show_nat n = (if n < 10 then [digit_char n] else show_nat (n div 10) @ [digit_char (n mod 10)])"

declare show_nat.simps [simp del]

definition digits_val :: "string \<Rightarrow> nat" where
  "digits_val ds = foldl (\<lambda>n c. 10 * n + digit_val c) 0 ds"

text \<open>
  \<open>str::parse::<u64>\<close>: an optional leading \<open>+\<close>, at least one digit, only digits, and a value
  below \<open>2^64\<close>; anything else is an error.
\<close>

definition parse_uint :: "nat \<Rightarrow> string \<Rightarrow> nat option" where
  "parse_uint w s =
     (let ds = (case s of c # cs \<Rightarrow> if c = CHR ''+'' then cs else s | [] \<Rightarrow> s) in
      if ds \<noteq> [] \<and> list_all is_digit ds \<and> digits_val ds < 2 ^ w then Some (digits_val ds) else None)"

definition parse_u64 :: "string \<Rightarrow> u64 option" where
  "parse_u64 s = map_option of_nat (parse_uint 64 s)"

lemma of_char_digit_char [simp]: "d < 10 \<Longrightarrow> of_char (digit_char d) = (48 + d :: nat)"
  by (simp add: digit_char_def)

lemma digit_val_digit_char [simp]: "d < 10 \<Longrightarrow> digit_val (digit_char d) = d"
  by (simp add: digit_val_def)

lemma char_le_iff_nat: "(c :: char) \<le> d \<longleftrightarrow> (of_char c :: nat) \<le> of_char d"
  by (simp add: less_eq_char_def)

lemma is_digit_digit_char [simp]: "d < 10 \<Longrightarrow> is_digit (digit_char d)"
  by (simp add: is_digit_def char_le_iff_nat)

lemma show_nat_digits: "list_all is_digit (show_nat n)"
proof (induction n rule: show_nat.induct)
  case (1 n)
  then show ?case by (subst show_nat.simps) auto
qed

lemma show_nat_not_Nil [simp]: "show_nat n \<noteq> []"
  by (subst show_nat.simps) auto

lemma digits_val_show [simp]: "digits_val (show_nat n) = n"
proof (induction n rule: show_nat.induct)
  case (1 n)
  then show ?case
    by (subst show_nat.simps) (auto simp: digits_val_def)
qed

lemma plus_not_digit [simp]: "\<not> is_digit CHR ''+''"
  by (simp add: is_digit_def char_le_iff_nat)

lemma parse_uint_show: "n < 2 ^ w \<Longrightarrow> parse_uint w (show_nat n) = Some n"
proof -
  assume n: "n < 2 ^ w"
  obtain c cs where s: "show_nat n = c # cs" by (cases "show_nat n") auto
  have d: "list_all is_digit (show_nat n)" by (rule show_nat_digits)
  then have "is_digit c" using s by simp
  then have "c \<noteq> CHR ''+''" using plus_not_digit by blast
  then have "parse_uint w (show_nat n) =
      (if show_nat n \<noteq> [] \<and> list_all is_digit (show_nat n) \<and> digits_val (show_nat n) < 2 ^ w
       then Some (digits_val (show_nat n)) else None)"
    by (simp add: parse_uint_def s Let_def)
  then show ?thesis using n d by simp
qed

lemma parse_u64_show [simp]: "parse_u64 (show_nat (unat w)) = Some w"
proof -
  have "unat w < 2 ^ 64" using unsigned_less [where 'a = nat, of w] by simp
  then show ?thesis by (simp add: parse_u64_def parse_uint_show)
qed

section \<open>Paths\<close>

text \<open>
  A Unix \<open>PathBuf\<close> is its string. \<open>push\<close> (and \<open>join\<close>) of an absolute path replaces
  the buffer, otherwise a separator is added when the buffer is not empty and does not end in one.
\<close>

definition path_push :: "string \<Rightarrow> string \<Rightarrow> string" where
  "path_push base p =
     (if starts_with ''/'' p then p
      else if base = [] \<or> ends_with ''/'' base then base @ p
      else base @ ''/'' @ p)"

text \<open>
  Index \<open>i\<close> is a character boundary of the UTF-8 string: its end, or the place of a byte that is not
  a continuation byte. Slicing a \<open>str\<close> elsewhere panics.
\<close>

definition char_boundary :: "nat \<Rightarrow> string \<Rightarrow> bool" where
  "char_boundary i s \<longleftrightarrow>
     i = length s \<or> i < length s \<and> (of_char (s ! i) < (128 :: nat) \<or> 192 \<le> (of_char (s ! i) :: nat))"

section \<open>Association lists for hash maps\<close>

text \<open>
  A \<open>HashMap\<close> is an association list with distinct keys, in some iteration order:
  \<^const>\<open>map_of\<close> looks up, \<^const>\<open>AList.update\<close> inserts and \<^const>\<open>AList.delete\<close> removes.
\<close>

abbreviation keys_of :: "('k \<times> 'v) list \<Rightarrow> 'k list" where
  "keys_of m \<equiv> map fst m"

lemma keys_of_delete [simp]: "keys_of (AList.delete k m) = filter (\<lambda>x. x \<noteq> k) (keys_of m)"
  by (induction m) auto

lemma set_delete_subset: "set (AList.delete k m) \<subseteq> set m"
  by (auto simp: AList.delete_eq)

lemma distinct_keys_delete [intro]: "distinct (keys_of m) \<Longrightarrow> distinct (keys_of (AList.delete k m))"
  by simp

lemma keys_of_update_set [simp]: "fst ` set (AList.update k v m) = insert k (fst ` set m)"
  by (simp add: AList.dom_update)

lemma map_of_filter_keys:
  "map_of (filter (\<lambda>p. P (fst p)) m) k = (if P k then map_of m k else None)"
  by (induction m) auto

lemma map_of_filter_other: "h \<noteq> k \<Longrightarrow> map_of (filter (\<lambda>p. fst p \<noteq> k) m) h = map_of m h"
  by (induction m) auto

lemma map_of_map_values:
  "map_of (map (\<lambda>(k, v). (k, f v)) m) k = map_option f (map_of m k)"
  by (induction m) auto

lemma distinct_keys_filter [intro]: "distinct (keys_of m) \<Longrightarrow> distinct (keys_of (filter P m))"
  by (rule distinct_map_filter)

lemma filter_other_keys:
  "distinct (keys_of (p # es)) \<Longrightarrow> filter (\<lambda>q. fst q \<noteq> fst p) es = es"
  by (rule filter_True) (auto simp: image_iff)

lemma mset_distinct_map:
  assumes "mset xs = mset ys"
  shows "distinct (map f xs) = distinct (map f ys)"
proof (rule mset_eq_imp_distinct_iff)
  show "mset (map f xs) = mset (map f ys)" using assms by simp
qed

section \<open>\<open>filter_map\<close>\<close>

lemma map_filter_cong: "(\<And>x. x \<in> set xs \<Longrightarrow> f x = g x) \<Longrightarrow> List.map_filter f xs = List.map_filter g xs"
  by (induction xs) (auto simp: List.map_filter_simps split: option.split)

lemma set_map_filter: "set (List.map_filter f xs) = {y. \<exists>x\<in>set xs. f x = Some y}"
  by (induction xs) (auto simp: List.map_filter_simps split: option.split)

lemma map_filter_of_map_Some: "map f xs = map Some ys \<Longrightarrow> List.map_filter f xs = ys"
  by (induction xs arbitrary: ys) (auto simp: List.map_filter_simps)

section \<open>Machine words\<close>

lemma word_sub_le_self: "(a :: 'w::len word) \<le> b \<Longrightarrow> b - a \<le> b"
  by (simp add: word_sub_le)

text \<open>\<open>saturating_sub\<close>, and \<open>checked_div\<close> with the code's \<open>unwrap_or(0)\<close>.\<close>

definition sat_sub :: "'w::len word \<Rightarrow> 'w word \<Rightarrow> 'w word" where
  "sat_sub a b = (if a \<le> b then 0 else a - b)"

definition div_or_zero :: "'w::len word \<Rightarrow> 'w word \<Rightarrow> 'w word" where
  "div_or_zero a b = (if b = 0 then 0 else a div b)"

lemma unat_plus_one: "unat (a :: u64) + 1 < 2 ^ 64 \<Longrightarrow> unat (a + 1) = unat a + 1"
  by (simp add: unat_word_ariths)

lemma unat_sat_sub: "unat (sat_sub a b) = unat a - unat b"
  by (auto simp: sat_sub_def word_le_nat_alt unat_sub_if')

lemma unat_sum_list_le:
  "unat (sum_list (map f xs) :: 'w::len word) \<le> (\<Sum>x\<leftarrow>xs. unat (f x))"
proof (induction xs)
  case (Cons x xs)
  have "unat (f x + sum_list (map f xs)) \<le> unat (f x) + unat (sum_list (map f xs))"
    by (simp add: unat_word_ariths)
  then show ?case using Cons.IH by simp
qed simp

lemma unat_sum_list:
  "(\<Sum>x\<leftarrow>xs. unat (f x)) < 2 ^ LENGTH('w) \<Longrightarrow>
   unat (sum_list (map f xs) :: 'w::len word) = (\<Sum>x\<leftarrow>xs. unat (f x))"
  by (induction xs) (auto simp: unat_word_ariths)

end
