(* ===== verification/Core_Types.thy ===== *)
theory Core_Types
  imports Prelude
begin

text \<open>
  The types every crate shares (\<open>crates/ctxfs-core/src\<close>): the error enumeration
  (\<open>error.rs\<close>), content digests and their fan-out paths (\<open>digest.rs\<close>) and the mount
  backend (\<open>backend.rs\<close>). SHA-256 itself is third-party code: the digest of a byte string is
  the argument \<open>sha256\<close>, a function from bytes to the hex string.
\<close>

section \<open>Errors\<close>

text \<open>\<open>CtxfsError\<close>; an \<open>std::io::Error\<close> is carried as its message.\<close>

datatype ctxfs_error =
    Provider string
  | Cache string
  | Manifest string
  | Ipc string
  | NotFound string
  | InvalidSource string
  | Io string
  | RateLimited u64
  | NoSourceRepo string string

fun error_display :: "ctxfs_error \<Rightarrow> string" where
  "error_display (Provider m) = ''provider error: '' @ m"
| "error_display (Cache m) = ''cache error: '' @ m"
| "error_display (Manifest m) = ''manifest error: '' @ m"
| "error_display (Ipc m) = ''IPC error: '' @ m"
| "error_display (NotFound m) = ''not found: '' @ m"
| "error_display (InvalidSource m) = ''invalid source: '' @ m"
| "error_display (Io m) = ''I/O error: '' @ m"
| "error_display (RateLimited secs) = ''rate limited: retry after '' @ show_nat (unat secs) @ ''s''"
| "error_display (NoSourceRepo package registry) =
     ''no source repository found for '' @ registry @ '':'' @ package
       @ ''. Try: ctxfs mount github:owner/repo@ref''"

type_synonym 'a ctxfs_result = "('a, ctxfs_error) outcome"

text \<open>A string between single quotes, as the messages print it.\<close>

definition quoted :: "string \<Rightarrow> string" where
  "quoted s = [CHR 0x27] @ s @ [CHR 0x27]"

section \<open>Digests\<close>

datatype hash_algorithm = Sha256 | Sha1

fun algorithm_display :: "hash_algorithm \<Rightarrow> string" where
  "algorithm_display Sha256 = ''sha256''"
| "algorithm_display Sha1 = ''sha1''"

record digest =
  dg_algorithm :: hash_algorithm
  dg_hex :: string

definition digest_sha256 :: "(bytes \<Rightarrow> string) \<Rightarrow> bytes \<Rightarrow> digest" where
  "digest_sha256 sha256 data = \<lparr> dg_algorithm = Sha256, dg_hex = sha256 data \<rparr>"

definition from_sha256_hex :: "string \<Rightarrow> digest" where
  "from_sha256_hex h = \<lparr> dg_algorithm = Sha256, dg_hex = h \<rparr>"

definition from_sha1_hex :: "string \<Rightarrow> digest" where
  "from_sha1_hex h = \<lparr> dg_algorithm = Sha1, dg_hex = h \<rparr>"

definition digest_display :: "digest \<Rightarrow> string" where
  "digest_display d = algorithm_display (dg_algorithm d) @ '':'' @ dg_hex d"

text \<open>
  \<open>to_path\<close>: \<open>None\<close> is the panic of the two slices when byte 2 of the hex string is out of range
  or inside a character.
\<close>

definition to_path :: "digest \<Rightarrow> string option" where
  "to_path d =
     (if char_boundary 2 (dg_hex d)
      then Some (path_push (path_push (path_push [] (algorithm_display (dg_algorithm d)))
                              (take 2 (dg_hex d)))
                   (drop 2 (dg_hex d)))
      else None)"

text \<open>The hex strings the program stores: more than two characters, all of them hex digits.\<close>

definition is_hex_char :: "char \<Rightarrow> bool" where
  "is_hex_char c \<longleftrightarrow> is_digit c \<or> (CHR ''a'' \<le> c \<and> c \<le> CHR ''f'')"

definition hex_ok :: "string \<Rightarrow> bool" where
  "hex_ok h \<longleftrightarrow> 2 < length h \<and> list_all is_hex_char h"

lemma is_hex_char_bounds:
  "is_hex_char c \<Longrightarrow> (of_char c :: nat) < 128 \<and> c \<noteq> CHR ''/'' \<and> c \<noteq> CHR '':''"
  by (auto simp: is_hex_char_def is_digit_def char_le_iff_nat)

lemma algorithm_display_inject [simp]: "algorithm_display a = algorithm_display b \<longleftrightarrow> a = b"
  by (cases a; cases b) auto

lemma to_path_hex_ok:
  assumes "hex_ok (dg_hex d)"
  shows "to_path d = Some (algorithm_display (dg_algorithm d) @ ''/'' @ take 2 (dg_hex d) @ ''/'' @ drop 2 (dg_hex d))"
proof -
  obtain a b c cs where h: "dg_hex d = a # b # c # cs"
    using assms unfolding hex_ok_def
    by (cases "dg_hex d" rule: remdups_adj.cases; simp) (metis list.exhaust length_Cons less_Suc_eq list.size(3) nat_neq_iff)
  have hx: "is_hex_char a" "is_hex_char b" "is_hex_char c" using assms h by (auto simp: hex_ok_def)
  have "char_boundary 2 (dg_hex d)"
    using is_hex_char_bounds [OF hx(3)] h by (simp add: char_boundary_def)
  then show ?thesis
    using is_hex_char_bounds [OF hx(1)] is_hex_char_bounds [OF hx(2)] is_hex_char_bounds [OF hx(3)]
    by (cases "dg_algorithm d")
      (simp_all add: to_path_def path_push_def h starts_with_def ends_with_def)
qed

text \<open>On such digests the fan-out path determines the digest: no two blobs share a file.\<close>

lemma to_path_inject:
  assumes "hex_ok (dg_hex d)" "hex_ok (dg_hex e)" "to_path d = to_path e"
  shows "d = e"
proof -
  have eq: "algorithm_display (dg_algorithm d) @ ''/'' @ take 2 (dg_hex d) @ ''/'' @ drop 2 (dg_hex d)
      = algorithm_display (dg_algorithm e) @ ''/'' @ take 2 (dg_hex e) @ ''/'' @ drop 2 (dg_hex e)"
    using assms by (simp add: to_path_hex_ok)
  have alg: "dg_algorithm d = dg_algorithm e"
    using eq by (cases "dg_algorithm d"; cases "dg_algorithm e") auto
  have len: "length (take 2 (dg_hex d)) = length (take 2 (dg_hex e))"
    using assms by (auto simp: hex_ok_def min_def)
  have "take 2 (dg_hex d) @ ''/'' @ drop 2 (dg_hex d) = take 2 (dg_hex e) @ ''/'' @ drop 2 (dg_hex e)"
    using eq alg by simp
  then have "take 2 (dg_hex d) = take 2 (dg_hex e)" "drop 2 (dg_hex d) = drop 2 (dg_hex e)"
    using len by (simp_all add: append_eq_append_conv)
  then have "dg_hex d = dg_hex e" by (metis append_take_drop_id)
  then show ?thesis using alg by simp
qed

section \<open>Backends\<close>

datatype backend = Nfs | FsKit

fun backend_display :: "backend \<Rightarrow> string" where
  "backend_display Nfs = ''nfs''"
| "backend_display FsKit = ''fskit''"

definition backend_from_str :: "string \<Rightarrow> backend ctxfs_result" where
  "backend_from_str s =
     (if s = ''nfs'' then Ok Nfs
      else if s = ''fskit'' then Ok FsKit
      else Err (InvalidSource (''unsupported backend '' @ quoted s @ '', expected '' @ quoted ''nfs''
                  @ '' or '' @ quoted ''fskit'')))"

lemma backend_from_str_Ok: "backend_from_str s = Ok b \<longleftrightarrow> s = backend_display b"
  by (cases b) (auto simp: backend_from_str_def)

end
