(* ===== verification/Source_Spec.thy ===== *)
theory Source_Spec
  imports Core_Types
begin

text \<open>
  Source specifications, \<open>crates/ctxfs-core/src/source.rs\<close>: the parser of
  \<open>github:owner/repo@ref[:subpath]\<close> and \<open>registry:name@version[:subpath]\<close>, the printer and the
  mount identifier. The lemmas characterise exactly which strings parse and to what.
\<close>

datatype provider_type = GitHub | Npm | PyPI | Crate

fun provider_display :: "provider_type \<Rightarrow> string" where
  "provider_display GitHub = ''github''"
| "provider_display Npm = ''npm''"
| "provider_display PyPI = ''pypi''"
| "provider_display Crate = ''crate''"

definition provider_from_str :: "string \<Rightarrow> provider_type ctxfs_result" where
  "provider_from_str s =
     (if s = ''github'' then Ok GitHub
      else if s = ''npm'' then Ok Npm
      else if s = ''pypi'' then Ok PyPI
      else if s = ''crate'' then Ok Crate
      else Err (InvalidSource (''unsupported provider '' @ quoted s @ '', expected '' @ quoted ''github''
             @ '', '' @ quoted ''npm'' @ '', '' @ quoted ''pypi'' @ '', or '' @ quoted ''crate'')))"

record source_spec =
  sp_provider :: provider_type
  sp_name :: string
  sp_version :: string
  sp_subpath :: "string option"

text \<open>The common tail of both parsers: a text and an optional non-empty subpath after \<open>:\<close>.\<close>

definition split_subpath :: "string \<Rightarrow> string \<times> string option" where
  "split_subpath s =
     (case split_once CHR '':'' s of
        Some (v, sp) \<Rightarrow> if sp \<noteq> [] then (v, Some sp) else (v, None)
      | None \<Rightarrow> (s, None))"

definition parse_github :: "provider_type \<Rightarrow> string \<Rightarrow> string \<Rightarrow> source_spec ctxfs_result" where
  "parse_github pt rest original =
     (let (repo_ref, sp) = split_subpath rest in
      obind (ok_or (InvalidSource (''missing @ref in '' @ quoted original))
               (split_once CHR ''@'' repo_ref)) (\<lambda>(owner_repo, git_ref).
      obind (ok_or (InvalidSource (''missing owner/repo in '' @ quoted original))
               (split_once CHR ''/'' owner_repo)) (\<lambda>(owner, repo).
      if owner = [] \<or> repo = [] \<or> git_ref = []
      then Err (InvalidSource (''empty owner, repo, or ref in '' @ quoted original))
      else Ok \<lparr> sp_provider = pt, sp_name = owner @ ''/'' @ repo, sp_version = git_ref, sp_subpath = sp \<rparr>)))"

definition parse_registry :: "provider_type \<Rightarrow> string \<Rightarrow> string \<Rightarrow> source_spec ctxfs_result" where
  "parse_registry pt rest original =
     obind (ok_or (InvalidSource (''missing @version in '' @ quoted original))
              (rsplit_once CHR ''@'' rest)) (\<lambda>(nm, version_and_subpath).
     if nm = [] then Err (InvalidSource (''empty package name in '' @ quoted original))
     else
       (let (v, sp) = split_subpath version_and_subpath in
        if v = [] then Err (InvalidSource (''empty version in '' @ quoted original))
        else Ok \<lparr> sp_provider = pt, sp_name = nm, sp_version = v, sp_subpath = sp \<rparr>))"

definition parse :: "string \<Rightarrow> source_spec ctxfs_result" where
  "parse s =
     obind (ok_or (InvalidSource (''missing provider prefix in '' @ quoted s))
              (split_once CHR '':'' s)) (\<lambda>(provider_str, rest).
     obind (provider_from_str provider_str) (\<lambda>pt.
     case pt of
       GitHub \<Rightarrow> parse_github pt rest s
     | _ \<Rightarrow> parse_registry pt rest s))"

definition source_id :: "source_spec \<Rightarrow> string" where
  "source_id sp =
     provider_display (sp_provider sp) @ ''_''
       @ replace_char CHR ''/'' ''_'' (replace_char CHR ''@'' ''_at_'' (sp_name sp))
       @ ''_'' @ sp_version sp"

definition source_display :: "source_spec \<Rightarrow> string" where
  "source_display sp =
     provider_display (sp_provider sp) @ '':'' @ sp_name sp @ ''@'' @ sp_version sp
       @ (case sp_subpath sp of Some p \<Rightarrow> '':'' @ p | None \<Rightarrow> [])"

section \<open>Which specifications the parser returns\<close>

definition github_wf :: "source_spec \<Rightarrow> bool" where
  "github_wf sp \<longleftrightarrow>
     (case split_once CHR ''/'' (sp_name sp) of
        Some (owner, repo) \<Rightarrow> owner \<noteq> [] \<and> repo \<noteq> []
      | None \<Rightarrow> False)
     \<and> CHR ''@'' \<notin> set (sp_name sp) \<and> CHR '':'' \<notin> set (sp_name sp)
     \<and> sp_version sp \<noteq> [] \<and> CHR '':'' \<notin> set (sp_version sp) \<and> sp_subpath sp \<noteq> Some []"

definition registry_wf :: "source_spec \<Rightarrow> bool" where
  "registry_wf sp \<longleftrightarrow>
     sp_name sp \<noteq> [] \<and> sp_version sp \<noteq> []
     \<and> CHR '':'' \<notin> set (sp_version sp) \<and> CHR ''@'' \<notin> set (sp_version sp)
     \<and> (case sp_subpath sp of Some p \<Rightarrow> p \<noteq> [] \<and> CHR ''@'' \<notin> set p | None \<Rightarrow> True)"

definition spec_wf :: "source_spec \<Rightarrow> bool" where
  "spec_wf sp = (if sp_provider sp = GitHub then github_wf sp else registry_wf sp)"

lemma provider_from_str_Ok: "provider_from_str s = Ok p \<longleftrightarrow> s = provider_display p"
  by (cases p) (auto simp: provider_from_str_def)

lemma provider_display_no_colon [simp]: "CHR '':'' \<notin> set (provider_display p)"
  by (cases p) auto

text \<open>\<open>split_subpath\<close> read backwards: the text, and what was written after it.\<close>

definition subpath_suffix :: "string option \<Rightarrow> string" where
  "subpath_suffix q = (case q of Some p \<Rightarrow> '':'' @ p | None \<Rightarrow> [])"

lemma split_subpathD:
  assumes "split_subpath s = (v, q)"
  shows "CHR '':'' \<notin> set v \<and> q \<noteq> Some [] \<and> (s = v @ subpath_suffix q \<or> q = None \<and> s = v @ '':'')"
proof (cases "split_once CHR '':'' s")
  case None
  moreover from None have "CHR '':'' \<notin> set s" by simp
  ultimately show ?thesis
    using assms by (auto simp: split_subpath_def subpath_suffix_def simp del: split_once_None)
next
  case (Some p)
  then obtain a b where "split_once CHR '':'' s = Some (a, b)" by (cases p) auto
  with assms show ?thesis
    by (cases "b = []") (auto simp: split_subpath_def subpath_suffix_def split_once_Some)
qed

lemma split_subpath_suffix:
  assumes "CHR '':'' \<notin> set v" "q \<noteq> Some []"
  shows "split_subpath (v @ subpath_suffix q) = (v, q)"
proof (cases q)
  case None
  have "split_once CHR '':'' v = None" using assms by simp
  then show ?thesis using None by (simp add: split_subpath_def subpath_suffix_def del: split_once_None)
next
  case (Some p)
  then show ?thesis using assms by (simp add: split_subpath_def subpath_suffix_def)
qed

lemma split_subpath_colon [simp]:
  "CHR '':'' \<notin> set v \<Longrightarrow> split_subpath (v @ '':'') = (v, None)"
  by (simp add: split_subpath_def)

lemma split_subpath_iff:
  "split_subpath s = (v, q) \<longleftrightarrow>
     CHR '':'' \<notin> set v \<and> q \<noteq> Some [] \<and> (s = v @ subpath_suffix q \<or> q = None \<and> s = v @ '':'')"
  using split_subpathD split_subpath_suffix split_subpath_colon by metis

lemma source_display_suffix:
  "source_display sp =
     provider_display (sp_provider sp) @ '':'' @ sp_name sp @ ''@'' @ sp_version sp @ subpath_suffix (sp_subpath sp)"
  by (simp add: source_display_def subpath_suffix_def)

lemma parse_github_Ok:
  "parse_github GitHub rest s = Ok sp \<longleftrightarrow>
     sp_provider sp = GitHub \<and> github_wf sp \<and>
     (rest = sp_name sp @ ''@'' @ sp_version sp @ subpath_suffix (sp_subpath sp)
      \<or> sp_subpath sp = None \<and> rest = sp_name sp @ ''@'' @ sp_version sp @ '':'')"
  (is "?parses \<longleftrightarrow> ?wf \<and> ?text")
proof
  assume ?parses
  then obtain rr q owner_repo git_ref owner repo where
    sub: "split_subpath rest = (rr, q)" and
    at: "split_once CHR ''@'' rr = Some (owner_repo, git_ref)" and
    sl: "split_once CHR ''/'' owner_repo = Some (owner, repo)" and
    ne: "owner \<noteq> []" "repo \<noteq> []" "git_ref \<noteq> []" and
    sp: "sp = \<lparr> sp_provider = GitHub, sp_name = owner @ ''/'' @ repo, sp_version = git_ref, sp_subpath = q \<rparr>"
    by (auto simp: parse_github_def outcome_simps split: prod.splits if_splits)
  have rr: "rr = sp_name sp @ ''@'' @ sp_version sp" "CHR ''@'' \<notin> set (sp_name sp)" "CHR ''/'' \<notin> set owner"
    using split_once_SomeD [OF at] split_once_SomeD [OF sl] sp by auto
  have wf: "github_wf sp"
    using split_subpathD [OF sub] rr ne sp by (auto simp: github_wf_def)
  then show "?wf \<and> ?text"
    using split_subpathD [OF sub] rr sp by auto
next
  assume R: "?wf \<and> ?text"
  obtain owner repo where nm: "sp_name sp = owner @ CHR ''/'' # repo" "CHR ''/'' \<notin> set owner"
    and ne: "owner \<noteq> []" "repo \<noteq> []"
    using R by (auto simp: github_wf_def split_once_Some split: option.splits)
  have nc: "CHR '':'' \<notin> set (sp_name sp @ ''@'' @ sp_version sp)" "sp_subpath sp \<noteq> Some []"
    using R by (auto simp: github_wf_def)
  have "split_subpath rest = (sp_name sp @ ''@'' @ sp_version sp, sp_subpath sp)"
    using R nc by (auto simp: split_subpath_iff)
  moreover have "split_once CHR ''@'' (sp_name sp @ ''@'' @ sp_version sp) = Some (sp_name sp, sp_version sp)"
    using R by (simp add: github_wf_def)
  moreover have "split_once CHR ''/'' (sp_name sp) = Some (owner, repo)" using nm by simp
  ultimately show ?parses
    using R ne nm by (cases sp) (auto simp: parse_github_def github_wf_def)
qed

lemma parse_registry_Ok:
  "parse_registry pt rest s = Ok sp \<longleftrightarrow>
     sp_provider sp = pt \<and> registry_wf sp \<and>
     (rest = sp_name sp @ ''@'' @ sp_version sp @ subpath_suffix (sp_subpath sp)
      \<or> sp_subpath sp = None \<and> rest = sp_name sp @ ''@'' @ sp_version sp @ '':'')"
  (is "?parses \<longleftrightarrow> ?wf \<and> ?text")
proof
  assume ?parses
  then obtain vs q where
    at: "rsplit_once CHR ''@'' rest = Some (sp_name sp, vs)" and
    sub: "split_subpath vs = (sp_version sp, q)" and
    ne: "sp_name sp \<noteq> []" "sp_version sp \<noteq> []" and
    sp: "sp_provider sp = pt" "sp_subpath sp = q"
    by (auto simp: parse_registry_def outcome_simps split: prod.splits if_splits)
  have "rest = sp_name sp @ CHR ''@'' # vs" "CHR ''@'' \<notin> set vs"
    using rsplit_once_SomeD [OF at] by auto
  then show "?wf \<and> ?text"
    using split_subpathD [OF sub] ne sp
    by (auto simp: registry_wf_def subpath_suffix_def split: option.splits)
next
  assume R: "?wf \<and> ?text"
  define vs where "vs = (if rest = sp_name sp @ ''@'' @ sp_version sp @ subpath_suffix (sp_subpath sp)
    then sp_version sp @ subpath_suffix (sp_subpath sp) else sp_version sp @ '':'')"
  have rest: "rest = sp_name sp @ CHR ''@'' # vs" using R by (auto simp: vs_def)
  have nat: "CHR ''@'' \<notin> set vs"
    using R by (auto simp: vs_def registry_wf_def subpath_suffix_def split: option.splits)
  have "split_subpath vs = (sp_version sp, sp_subpath sp)"
    using R by (auto simp: vs_def split_subpath_iff registry_wf_def)
  moreover have "rsplit_once CHR ''@'' rest = Some (sp_name sp, vs)" using rest nat by simp
  ultimately show ?parses
    using R by (cases sp) (auto simp: parse_registry_def registry_wf_def)
qed

text \<open>
  C18. A string parses to a specification exactly when it is the specification's printed form, or
  that form with a trailing \<open>:\<close> and no subpath, and the specification is well formed; so parsing
  a printed well-formed specification gives it back, and nothing else parses.
\<close>

theorem parse_iff_display:
  "parse s = Ok sp \<longleftrightarrow>
     spec_wf sp \<and> (s = source_display sp \<or> sp_subpath sp = None \<and> s = source_display sp @ '':'')"
proof -
  have reg: "parse_registry pt rest s = Ok sp \<longleftrightarrow>
      sp_provider sp = pt \<and> spec_wf sp \<and>
      (rest = sp_name sp @ ''@'' @ sp_version sp @ subpath_suffix (sp_subpath sp)
       \<or> sp_subpath sp = None \<and> rest = sp_name sp @ ''@'' @ sp_version sp @ '':'')" if "pt \<noteq> GitHub" for pt rest
    using that by (auto simp: parse_registry_Ok spec_wf_def)
  have git: "parse_github GitHub rest s = Ok sp \<longleftrightarrow>
      sp_provider sp = GitHub \<and> spec_wf sp \<and>
      (rest = sp_name sp @ ''@'' @ sp_version sp @ subpath_suffix (sp_subpath sp)
       \<or> sp_subpath sp = None \<and> rest = sp_name sp @ ''@'' @ sp_version sp @ '':'')" for rest
    by (auto simp: parse_github_Ok spec_wf_def)
  have all: "(case pt of GitHub \<Rightarrow> parse_github pt rest s | _ \<Rightarrow> parse_registry pt rest s) = Ok sp \<longleftrightarrow>
      sp_provider sp = pt \<and> spec_wf sp \<and>
      (rest = sp_name sp @ ''@'' @ sp_version sp @ subpath_suffix (sp_subpath sp)
       \<or> sp_subpath sp = None \<and> rest = sp_name sp @ ''@'' @ sp_version sp @ '':'')" for pt rest
    using reg [of pt rest] git [of rest] by (cases pt) simp_all
  have "parse s = Ok sp \<longleftrightarrow> (\<exists>rest. split_once CHR '':'' s = Some (provider_display (sp_provider sp), rest)
      \<and> spec_wf sp \<and> (rest = sp_name sp @ ''@'' @ sp_version sp @ subpath_suffix (sp_subpath sp)
       \<or> sp_subpath sp = None \<and> rest = sp_name sp @ ''@'' @ sp_version sp @ '':''))"
    unfolding parse_def by (auto simp: outcome_simps provider_from_str_Ok all)
  then show ?thesis
    by (auto simp: split_once_Some source_display_suffix subpath_suffix_def)
qed

text \<open>
  The mount identifier does not determine the source: two different specifications the parser
  returns can share it, because the separators written between the parts also occur inside them
  and the subpath is not part of it; and a \<open>/\<close> in the version is kept.
\<close>

theorem source_id_not_injective:
  "\<exists>a b c d e.
     parse ''github:a/b_c@m'' = Ok a \<and> parse ''github:a_b/c@m'' = Ok b \<and>
     a \<noteq> b \<and> source_id a = source_id b \<and>
     parse ''github:a/b@m:docs'' = Ok c \<and> parse ''github:a/b@m:src'' = Ok d \<and>
     c \<noteq> d \<and> source_id c = source_id d \<and>
     parse ''github:a/b@feat/x'' = Ok e \<and> CHR ''/'' \<in> set (source_id e)"
proof -
  let ?s = "\<lambda>n v p. \<lparr> sp_provider = GitHub, sp_name = n, sp_version = v, sp_subpath = p \<rparr>"
  let ?a = "?s ''a/b_c'' ''m'' None" and ?b = "?s ''a_b/c'' ''m'' None"
    and ?c = "?s ''a/b'' ''m'' (Some ''docs'')" and ?d = "?s ''a/b'' ''m'' (Some ''src'')"
    and ?e = "?s ''a/b'' ''feat/x'' None"
  have "parse ''github:a/b_c@m'' = Ok ?a" "parse ''github:a_b/c@m'' = Ok ?b"
    "parse ''github:a/b@m:docs'' = Ok ?c" "parse ''github:a/b@m:src'' = Ok ?d"
    "parse ''github:a/b@feat/x'' = Ok ?e" by code_simp+
  moreover have "?a \<noteq> ?b" "?c \<noteq> ?d" by simp_all
  moreover have "source_id ?a = source_id ?b" "source_id ?c = source_id ?d"
    "CHR ''/'' \<in> set (source_id ?e)" by (simp_all add: source_id_def)
  ultimately show ?thesis by blast
qed

text \<open>
  A registry source is split at its last \<open>@\<close>, so an \<open>@\<close> in the subpath is taken for the one
  before the version: the name swallows the real version and the start of the subpath.
\<close>

theorem registry_subpath_at_misparsed:
  "parse ''npm:react@19.1.0:types/@x'' =
     Ok \<lparr> sp_provider = Npm, sp_name = ''react@19.1.0:types/'', sp_version = ''x'', sp_subpath = None \<rparr>"
  by code_simp

end
