(* ===== verification/Linked_Hash_Map.thy ===== *)
theory Linked_Hash_Map
  imports Prelude
begin

text \<open>
  The interface of the crate \<open>linked-hash-map\<close>, which the blob cache keeps its LRU index in. The
  crate is not part of the repository: its operations are an argument of the cache's definitions
  (the record \<open>lhm_ops\<close>), and the locale \<open>linked_hash_map\<close> states what its documentation
  promises, every operation through the entries in insertion order that \<open>iter\<close> returns: an
  inserted key moves to the back, \<open>get_refresh\<close> moves a present key to the back, the front is the
  oldest entry. The association list, oldest entry first, has these laws.
\<close>

record ('k, 'v, 'm) lhm_ops =
  lhm_new :: 'm
  lhm_iter :: "'m \<Rightarrow> ('k \<times> 'v) list"
  lhm_get :: "'k \<Rightarrow> 'm \<Rightarrow> 'v option"
  lhm_contains_key :: "'k \<Rightarrow> 'm \<Rightarrow> bool"
  lhm_insert :: "'k \<Rightarrow> 'v \<Rightarrow> 'm \<Rightarrow> 'm"
  lhm_get_refresh :: "'k \<Rightarrow> 'm \<Rightarrow> 'm"
  lhm_front :: "'m \<Rightarrow> ('k \<times> 'v) option"
  lhm_pop_front :: "'m \<Rightarrow> (('k \<times> 'v) \<times> 'm) option"
  lhm_len :: "'m \<Rightarrow> nat"
  lhm_is_empty :: "'m \<Rightarrow> bool"
  lhm_clear :: "'m \<Rightarrow> 'm"

text \<open>The order of the entries after an access: the entry at the back.\<close>

definition move_back :: "'k \<Rightarrow> ('k \<times> 'v) list \<Rightarrow> ('k \<times> 'v) list" where
  "move_back k xs =
     (case map_of xs k of
        None \<Rightarrow> xs
      | Some v \<Rightarrow> filter (\<lambda>p. fst p \<noteq> k) xs @ [(k, v)])"

definition insert_back :: "'k \<Rightarrow> 'v \<Rightarrow> ('k \<times> 'v) list \<Rightarrow> ('k \<times> 'v) list" where
  "insert_back k v xs = filter (\<lambda>p. fst p \<noteq> k) xs @ [(k, v)]"

locale linked_hash_map =
  fixes L :: "('k, 'v, 'm) lhm_ops"
  assumes iter_new: "lhm_iter L (lhm_new L) = []"
    and iter_distinct: "distinct (keys_of (lhm_iter L m))"
    and get_iter: "lhm_get L k m = map_of (lhm_iter L m) k"
    and contains_iter: "lhm_contains_key L k m \<longleftrightarrow> k \<in> fst ` set (lhm_iter L m)"
    and iter_insert: "lhm_iter L (lhm_insert L k v m) = insert_back k v (lhm_iter L m)"
    and iter_refresh: "lhm_iter L (lhm_get_refresh L k m) = move_back k (lhm_iter L m)"
    and front_Nil: "lhm_iter L m = [] \<Longrightarrow> lhm_front L m = None"
    and front_Cons: "lhm_iter L m = p # ps \<Longrightarrow> lhm_front L m = Some p"
    and pop_Nil: "lhm_iter L m = [] \<Longrightarrow> lhm_pop_front L m = None"
    and pop_Cons: "lhm_iter L m = p # ps \<Longrightarrow> \<exists>m'. lhm_pop_front L m = Some (p, m') \<and> lhm_iter L m' = ps"
    and len_iter: "lhm_len L m = length (lhm_iter L m)"
    and is_empty_iter: "lhm_is_empty L m \<longleftrightarrow> lhm_iter L m = []"
    and iter_clear: "lhm_iter L (lhm_clear L m) = []"
begin

lemmas iter_simps = iter_new iter_distinct get_iter contains_iter iter_insert iter_refresh
  len_iter is_empty_iter iter_clear

lemma refresh_front:
  "lhm_iter L m = (k, v) # ps \<Longrightarrow> lhm_iter L (lhm_get_refresh L k m) = ps @ [(k, v)]"
  using iter_distinct [of m]
  by (auto simp: iter_refresh move_back_def intro!: filter_True)

end

section \<open>The association list, oldest entry first\<close>

typedef ('k, 'v) lru_map = "{xs :: ('k \<times> 'v) list. distinct (keys_of xs)}"
  morphisms lru_items Lru_map
proof
  show "[] \<in> {xs :: ('k \<times> 'v) list. distinct (keys_of xs)}" by simp
qed

setup_lifting type_definition_lru_map

lemma distinct_insert_back: "distinct (keys_of xs) \<Longrightarrow> distinct (keys_of (insert_back k v xs))"
  by (auto simp: insert_back_def intro: distinct_keys_filter)

lemma distinct_move_back: "distinct (keys_of xs) \<Longrightarrow> distinct (keys_of (move_back k xs))"
  by (auto simp: move_back_def intro: distinct_keys_filter split: option.splits)

lift_definition lru_new :: "('k, 'v) lru_map" is "[]" by simp

lift_definition lru_insert :: "'k \<Rightarrow> 'v \<Rightarrow> ('k, 'v) lru_map \<Rightarrow> ('k, 'v) lru_map" is insert_back
  by (rule distinct_insert_back)

lift_definition lru_refresh :: "'k \<Rightarrow> ('k, 'v) lru_map \<Rightarrow> ('k, 'v) lru_map" is move_back
  by (rule distinct_move_back)

lift_definition lru_tail :: "('k, 'v) lru_map \<Rightarrow> ('k, 'v) lru_map" is tl
  by (metis distinct_tl map_tl)

definition lru_front :: "('k, 'v) lru_map \<Rightarrow> ('k \<times> 'v) option" where
  "lru_front m = (case lru_items m of [] \<Rightarrow> None | p # ps \<Rightarrow> Some p)"

definition lru_pop_front :: "('k, 'v) lru_map \<Rightarrow> (('k \<times> 'v) \<times> ('k, 'v) lru_map) option" where
  "lru_pop_front m = (case lru_items m of [] \<Rightarrow> None | p # ps \<Rightarrow> Some (p, lru_tail m))"

definition list_lhm :: "('k, 'v, ('k, 'v) lru_map) lhm_ops" where
  "list_lhm = \<lparr>
     lhm_new = lru_new, lhm_iter = lru_items, lhm_get = (\<lambda>k m. map_of (lru_items m) k),
     lhm_contains_key = (\<lambda>k m. k \<in> fst ` set (lru_items m)), lhm_insert = lru_insert,
     lhm_get_refresh = lru_refresh, lhm_front = lru_front, lhm_pop_front = lru_pop_front,
     lhm_len = (\<lambda>m. length (lru_items m)), lhm_is_empty = (\<lambda>m. lru_items m = []),
     lhm_clear = (\<lambda>m. lru_new) \<rparr>"

lemma distinct_items: "distinct (keys_of (lru_items m))"
  using lru_items [of m] by simp

interpretation lru: linked_hash_map list_lhm
proof
qed (auto simp: list_lhm_def lru_new.rep_eq lru_insert.rep_eq lru_refresh.rep_eq lru_tail.rep_eq
  distinct_items lru_front_def lru_pop_front_def)

lemmas list_lhm_simps =
  list_lhm_def lru_new.rep_eq lru_insert.rep_eq lru_refresh.rep_eq lru_tail.rep_eq
  lru_front_def lru_pop_front_def insert_back_def move_back_def

end
