(* ===== verification/Cache_State.thy ===== *)
theory Cache_State
  imports Core_Types Linked_Hash_Map
begin

text \<open>
  The state behind the blob cache's mutex (\<open>CacheState\<close> in \<open>crates/ctxfs-cache/src/lib.rs\<close>) and
  the reservations it holds (\<open>reservation.rs\<close>): the LRU entries with their byte total, the
  owners of each blob and the budget of each repository. The operations here are the ones that run
  with the lock held; \<open>Blob_Cache\<close> composes them.
\<close>

section \<open>Repository keys\<close>

datatype repo_key = RepoKey (rk_host: string) (rk_owner: string) (rk_repo: string)

text \<open>The derived \<open>Ord\<close>: field by field.\<close>

instantiation repo_key :: linorder
begin

definition less_eq_repo_key :: "repo_key \<Rightarrow> repo_key \<Rightarrow> bool" where
  "less_eq_repo_key a b \<longleftrightarrow>
     rk_host a < rk_host b \<or> rk_host a = rk_host b \<and>
       (rk_owner a < rk_owner b \<or> rk_owner a = rk_owner b \<and> rk_repo a \<le> rk_repo b)"

definition less_repo_key :: "repo_key \<Rightarrow> repo_key \<Rightarrow> bool" where
  "less_repo_key a b \<longleftrightarrow>
     rk_host a < rk_host b \<or> rk_host a = rk_host b \<and>
       (rk_owner a < rk_owner b \<or> rk_owner a = rk_owner b \<and> rk_repo a < rk_repo b)"

instance
  by standard (auto simp: less_eq_repo_key_def less_repo_key_def repo_key.expand)

end

text \<open>A \<open>BTreeSet<RepoKey>\<close> is its sorted list.\<close>

definition btree_insert :: "'a::linorder \<Rightarrow> 'a list \<Rightarrow> 'a list" where
  "btree_insert k ks = (if k \<in> set ks then ks else insort k ks)"

lemma set_btree_insert [simp]: "set (btree_insert k ks) = insert k (set ks)"
  by (auto simp: btree_insert_def set_insort_key)

lemma btree_insert_not_Nil [simp]: "btree_insert k ks \<noteq> []"
  by (metis empty_iff insertI1 list.set(1) set_btree_insert)

section \<open>The state\<close>

record reservation_entry =
  reserved_bytes :: u64
  is_explicit_override :: bool
  refcount :: u32

record cache_entry =
  entry_size :: u64
  entry_algorithm :: hash_algorithm

type_synonym 'm lru_ops = "(string, cache_entry, 'm) lhm_ops"

record 'm cache_state =
  entries :: 'm
  total_bytes :: u64
  blob_owners :: "(string \<times> repo_key list) list"
  reservations :: "(repo_key \<times> reservation_entry) list"

definition evict_oldest ::
  "'m lru_ops \<Rightarrow> 'm cache_state \<Rightarrow> (string \<times> u64 \<times> hash_algorithm) option \<times> 'm cache_state" where
  "evict_oldest L st =
     (case lhm_pop_front L (entries st) of
        Some ((key, entry), es) \<Rightarrow>
          (Some (key, entry_size entry, entry_algorithm entry),
           st\<lparr> entries := es, total_bytes := total_bytes st - entry_size entry \<rparr>)
      | None \<Rightarrow> (None, st))"

definition working_set_bytes_for :: "'m lru_ops \<Rightarrow> repo_key \<Rightarrow> 'm cache_state \<Rightarrow> u64" where
  "working_set_bytes_for L key st =
     sum_list (List.map_filter
       (\<lambda>(hex, owners). if key \<in> set owners then map_option entry_size (lhm_get L hex (entries st)) else None)
       (blob_owners st))"

definition is_protected_by_reservation :: "'m lru_ops \<Rightarrow> string \<Rightarrow> 'm cache_state \<Rightarrow> bool" where
  "is_protected_by_reservation L candidate_hex st =
     (if reservations st = [] then False
      else case map_of (blob_owners st) candidate_hex of
        None \<Rightarrow> False
      | Some owners \<Rightarrow>
          list_ex (\<lambda>owner.
            case map_of (reservations st) owner of
              None \<Rightarrow> False
            | Some e \<Rightarrow> 0 < reserved_bytes e \<and> working_set_bytes_for L owner st \<le> reserved_bytes e)
          owners)"

text \<open>\<open>saturating_sub\<close>, \<open>checked_div\<close>, and the wrapping sum of the explicit reservations.\<close>

definition rebalance_default_reservations :: "u64 \<Rightarrow> 'm cache_state \<Rightarrow> 'm cache_state" where
  "rebalance_default_reservations max_bytes st =
     (let es = map snd (reservations st);
          explicit_total = sum_list (map reserved_bytes (filter is_explicit_override es));
          default_count = of_nat (length (filter (\<lambda>e. \<not> is_explicit_override e) es));
          per = div_or_zero (sat_sub max_bytes explicit_total) default_count
      in st\<lparr> reservations := map (\<lambda>(k, e).
               (k, if is_explicit_override e then e else e\<lparr> reserved_bytes := per \<rparr>)) (reservations st) \<rparr>)"

text \<open>The entry API's \<open>or_default().insert(key)\<close> on the owner table.\<close>

definition add_owner_entry ::
  "repo_key \<Rightarrow> string \<Rightarrow> (string \<times> repo_key list) list \<Rightarrow> (string \<times> repo_key list) list" where
  "add_owner_entry key hex owners =
     AList.update hex (btree_insert key (case map_of owners hex of Some ks \<Rightarrow> ks | None \<Rightarrow> [])) owners"

definition seed_owners ::
  "repo_key \<Rightarrow> string list \<Rightarrow> (string \<times> repo_key list) list \<Rightarrow> (string \<times> repo_key list) list" where
  "seed_owners key hexes owners = foldl (\<lambda>os hex. add_owner_entry key hex os) owners hexes"

end
