(* ===== verification/Cache_Eviction.thy ===== *)
theory Cache_Eviction
  imports Cache_State
begin

text \<open>
  The loops that shrink the LRU index (\<open>crates/ctxfs-cache/src/lib.rs\<close>): the eviction loop of
  \<open>lru_insert_evict\<close>, which skips entries a reservation protects, and the plain oldest-first loops
  of \<open>prune\<close>, \<open>prune_blobs\<close> and \<open>set_max_bytes\<close>. Each is a \<open>partial_function\<close>, so that not
  returning is the value \<open>None\<close>; the lemmas of the locale show that under the laws of the map they
  return, what they return, and what they keep.
\<close>

section \<open>The loops\<close>

partial_function (option) evict_loop ::
  "'m lru_ops \<Rightarrow> u64 \<Rightarrow> nat \<Rightarrow> 'm cache_state \<Rightarrow> u64 \<Rightarrow> (string \<times> hash_algorithm) list \<Rightarrow>
     ('m cache_state \<times> u64 \<times> (string \<times> hash_algorithm) list) option" where
  "evict_loop L limit rotated st blocked evicted =
     (if limit < total_bytes st \<and> \<not> lhm_is_empty L (entries st) then
        if lhm_len L (entries st) \<le> rotated then Some (st, blocked, evicted)
        else (case lhm_front L (entries st) of
          None \<Rightarrow> Some (st, blocked, evicted)
        | Some (candidate_hex, e) \<Rightarrow>
            if is_protected_by_reservation L candidate_hex st then
              evict_loop L limit (rotated + 1)
                (st\<lparr> entries := lhm_get_refresh L candidate_hex (entries st) \<rparr>) (blocked + 1) evicted
            else (case lhm_pop_front L (entries st) of
              Some ((k, entry), es) \<Rightarrow>
                evict_loop L limit 0
                  (st\<lparr> entries := es, total_bytes := total_bytes st - entry_size entry,
                       blob_owners := AList.delete k (blob_owners st) \<rparr>)
                  blocked (evicted @ [(k, entry_algorithm entry)])
            | None \<Rightarrow> evict_loop L limit 0 st blocked evicted))
      else Some (st, blocked, evicted))"

partial_function (option) prune_loop ::
  "'m lru_ops \<Rightarrow> u64 \<Rightarrow> 'm cache_state \<Rightarrow> (string \<times> u64 \<times> hash_algorithm) list \<Rightarrow>
     ('m cache_state \<times> (string \<times> u64 \<times> hash_algorithm) list) option" where
  "prune_loop L limit st evicted =
     (if limit < total_bytes st \<and> \<not> lhm_is_empty L (entries st) then
        (case evict_oldest L st of
           (Some entry, st') \<Rightarrow> prune_loop L limit st' (evicted @ [entry])
         | (None, st') \<Rightarrow> prune_loop L limit st' evicted)
      else Some (st, evicted))"

partial_function (option) shrink_loop ::
  "'m lru_ops \<Rightarrow> u64 \<Rightarrow> 'm cache_state \<Rightarrow> (string \<times> u64 \<times> hash_algorithm) list \<Rightarrow>
     ('m cache_state \<times> (string \<times> u64 \<times> hash_algorithm) list) option" where
  "shrink_loop L target st evicted =
     (if target < total_bytes st then
        (case evict_oldest L st of
           (Some entry, st') \<Rightarrow> shrink_loop L target st' (evicted @ [entry])
         | (None, st') \<Rightarrow> Some (st', evicted))
      else Some (st, evicted))"

declare evict_loop.simps [code] prune_loop.simps [code] shrink_loop.simps [code]

section \<open>Bytes of a list of entries\<close>

definition bytes_of :: "(string \<times> cache_entry) list \<Rightarrow> u64" where
  "bytes_of es = sum_list (map (\<lambda>p. entry_size (snd p)) es)"

definition nat_bytes_of :: "(string \<times> cache_entry) list \<Rightarrow> nat" where
  "nat_bytes_of es = sum_list (map (\<lambda>p. unat (entry_size (snd p))) es)"

lemma bytes_of_simps [simp]:
  "bytes_of [] = 0" "bytes_of (p # es) = entry_size (snd p) + bytes_of es"
  "bytes_of (es @ fs) = bytes_of es + bytes_of fs"
  by (simp_all add: bytes_of_def)

lemma nat_bytes_of_simps [simp]:
  "nat_bytes_of [] = 0" "nat_bytes_of (p # es) = unat (entry_size (snd p)) + nat_bytes_of es"
  "nat_bytes_of (es @ fs) = nat_bytes_of es + nat_bytes_of fs"
  by (simp_all add: nat_bytes_of_def)

lemma unat_bytes_of: "nat_bytes_of es < 2 ^ 64 \<Longrightarrow> unat (bytes_of es) = nat_bytes_of es"
  unfolding bytes_of_def nat_bytes_of_def
  using unat_sum_list [where 'w = 64, of "\<lambda>p. entry_size (snd p)" es] by simp

text \<open>Removing the only entry of a key takes its size off the total.\<close>

lemma bytes_of_remove:
  "distinct (keys_of es) \<Longrightarrow>
   bytes_of es = bytes_of (filter (\<lambda>p. fst p \<noteq> k) es)
     + (case map_of es k of Some e \<Rightarrow> entry_size e | None \<Rightarrow> 0)"
proof (induction es)
  case (Cons p es)
  show ?case
  proof (cases "fst p = k")
    case True
    then have "filter (\<lambda>q. fst q \<noteq> k) es = es"
      using Cons.prems filter_other_keys [of p es] by simp
    then show ?thesis using True by (cases p) simp
  next
    case False
    then show ?thesis using Cons by (cases p) simp
  qed
qed simp

lemma nat_bytes_of_remove:
  "distinct (keys_of es) \<Longrightarrow>
   nat_bytes_of es = nat_bytes_of (filter (\<lambda>p. fst p \<noteq> k) es)
     + (case map_of es k of Some e \<Rightarrow> unat (entry_size e) | None \<Rightarrow> 0)"
proof (induction es)
  case (Cons p es)
  show ?case
  proof (cases "fst p = k")
    case True
    then have "filter (\<lambda>q. fst q \<noteq> k) es = es"
      using Cons.prems filter_other_keys [of p es] by simp
    then show ?thesis using True by (cases p) simp
  next
    case False
    then show ?thesis using Cons by (cases p) simp
  qed
qed simp

lemma bytes_of_insert_back:
  "distinct (keys_of es) \<Longrightarrow>
   bytes_of (insert_back k e es)
     = bytes_of es - (case map_of es k of Some e' \<Rightarrow> entry_size e' | None \<Rightarrow> 0) + entry_size e"
  using bytes_of_remove [of es k] by (simp add: insert_back_def)

section \<open>Oldest first: the specification of the plain loops\<close>

text \<open>
  The number of oldest entries to drop until the total fits (or none is left): the least number
  such that the remaining total is within the limit.
\<close>

fun drop_count :: "u64 \<Rightarrow> u64 \<Rightarrow> (string \<times> cache_entry) list \<Rightarrow> nat" where
  "drop_count limit tot [] = 0"
| "drop_count limit tot (p # es) =
     (if limit < tot then Suc (drop_count limit (tot - entry_size (snd p)) es) else 0)"

lemma drop_count_le: "drop_count limit tot es \<le> length es"
  by (induction es arbitrary: tot) auto

lemma drop_count_fits:
  "tot = bytes_of es \<Longrightarrow> bytes_of (drop (drop_count limit tot es) es) \<le> limit"
  by (induction es arbitrary: tot) (auto simp: not_less)

lemma drop_count_minimal:
  "tot = bytes_of es \<Longrightarrow> j < drop_count limit tot es \<Longrightarrow> limit < bytes_of (drop j es)"
  by (induction es arbitrary: tot j) (auto split: if_splits simp: less_Suc_eq_0_disj)

lemma bytes_of_take_drop: "bytes_of es = bytes_of (take n es) + bytes_of (drop n es)"
  by (metis append_take_drop_id bytes_of_simps(3))

abbreviation evicted_of :: "string \<times> cache_entry \<Rightarrow> string \<times> u64 \<times> hash_algorithm" where
  "evicted_of p \<equiv> (fst p, entry_size (snd p), entry_algorithm (snd p))"

section \<open>Protection, over the list of entries\<close>

definition ws_of :: "(string \<times> cache_entry) list \<Rightarrow> (string \<times> repo_key list) list \<Rightarrow> repo_key \<Rightarrow> u64" where
  "ws_of es bo key = sum_list (List.map_filter
     (\<lambda>(hex, owners). if key \<in> set owners then map_option entry_size (map_of es hex) else None) bo)"

definition prot_of :: "(string \<times> cache_entry) list \<Rightarrow> (string \<times> repo_key list) list \<Rightarrow>
    (repo_key \<times> reservation_entry) list \<Rightarrow> string \<Rightarrow> bool" where
  "prot_of es bo rs h \<longleftrightarrow>
     (\<exists>owners owner e. map_of bo h = Some owners \<and> owner \<in> set owners \<and> map_of rs owner = Some e
        \<and> 0 < reserved_bytes e \<and> ws_of es bo owner \<le> reserved_bytes e)"

lemma ws_of_cong: "map_of es = map_of fs \<Longrightarrow> ws_of es bo k = ws_of fs bo k"
  unfolding ws_of_def by (rule arg_cong [where f = "\<lambda>g. sum_list (List.map_filter g bo)"]) auto

lemma prot_of_cong: "map_of es = map_of fs \<Longrightarrow> prot_of es bo rs h = prot_of fs bo rs h"
  by (simp add: prot_of_def ws_of_cong [of es fs])

text \<open>The working set as a natural number: the cached blobs the repository owns.\<close>

definition ws_nat :: "(string \<times> cache_entry) list \<Rightarrow> (string \<times> repo_key list) list \<Rightarrow> repo_key \<Rightarrow> nat" where
  "ws_nat es bo k = (\<Sum>p\<leftarrow>bo. if k \<in> set (snd p)
     then (case map_of es (fst p) of Some e \<Rightarrow> unat (entry_size e) | None \<Rightarrow> 0) else 0)"

lemma ws_of_Cons:
  "ws_of es (p # bo) k =
     (if k \<in> set (snd p) then (case map_of es (fst p) of Some e \<Rightarrow> entry_size e | None \<Rightarrow> 0) else 0)
       + ws_of es bo k"
  by (cases p) (auto simp: ws_of_def map_filter_simps split: option.splits)

lemma ws_nat_Cons:
  "ws_nat es (p # bo) k =
     (if k \<in> set (snd p) then (case map_of es (fst p) of Some e \<Rightarrow> unat (entry_size e) | None \<Rightarrow> 0) else 0)
       + ws_nat es bo k"
  by (simp add: ws_nat_def)

lemma unat_ws_of: "ws_nat es bo k < 2 ^ 64 \<Longrightarrow> unat (ws_of es bo k) = ws_nat es bo k"
proof (induction bo)
  case Nil
  show ?case by (simp add: ws_of_def ws_nat_def map_filter_simps)
next
  case (Cons p bo)
  then show ?case
    by (auto simp: ws_of_Cons ws_nat_Cons unat_word_ariths split: option.splits)
qed

lemma ws_nat_cong:
  "(\<And>h. h \<in> fst ` set bo \<Longrightarrow> map_of es h = map_of fs h) \<Longrightarrow> ws_nat es bo k = ws_nat fs bo k"
  by (induction bo) (auto simp: ws_nat_def)

lemma ws_nat_le_bytes:
  "distinct (keys_of bo) \<Longrightarrow> distinct (keys_of es) \<Longrightarrow> ws_nat es bo k \<le> nat_bytes_of es"
proof (induction bo arbitrary: es)
  case Nil
  show ?case by (simp add: ws_nat_def)
next
  case (Cons p bo)
  let ?fs = "filter (\<lambda>q. fst q \<noteq> fst p) es"
  have "ws_nat es bo k = ws_nat ?fs bo k"
  proof (rule ws_nat_cong)
    fix h
    assume "h \<in> fst ` set bo"
    then have "h \<noteq> fst p" using Cons.prems by (auto simp: image_iff)
    then show "map_of es h = map_of ?fs h" by (simp add: map_of_filter_other)
  qed
  also have "\<dots> \<le> nat_bytes_of ?fs"
    using Cons.prems by (intro Cons.IH) (auto intro: distinct_keys_filter)
  finally show ?case
    using nat_bytes_of_remove [OF Cons.prems(2), of "fst p"] by (simp add: ws_nat_Cons)
qed

lemma ws_nat_delete_le: "ws_nat es (AList.delete h bo) k \<le> ws_nat es bo k"
  by (induction bo) (auto simp: ws_nat_def AList.delete_eq)

text \<open>
  Evicting a blob, from the index and from the owner table, leaves every other protected blob
  protected: the working sets of its owners only get smaller. This needs the total not to wrap.
\<close>

lemma prot_of_evict:
  assumes "prot_of (p # es) bo rs h" "h \<noteq> fst p" "distinct (keys_of bo)" "distinct (keys_of (p # es))"
    "nat_bytes_of (p # es) < 2 ^ 64"
  shows "prot_of es (AList.delete (fst p) bo) rs h"
proof -
  let ?bo = "AList.delete (fst p) bo"
  obtain owners owner e where o: "map_of bo h = Some owners" "owner \<in> set owners"
    "map_of rs owner = Some e" "0 < reserved_bytes e" "ws_of (p # es) bo owner \<le> reserved_bytes e"
    using assms(1) by (auto simp: prot_of_def)
  have "ws_nat es ?bo owner = ws_nat (p # es) ?bo owner"
    by (rule ws_nat_cong) (auto simp: AList.delete_eq)
  also have "\<dots> \<le> ws_nat (p # es) bo owner" by (rule ws_nat_delete_le)
  finally have le: "ws_nat es ?bo owner \<le> ws_nat (p # es) bo owner" .
  have lt: "ws_nat (p # es) bo owner < 2 ^ 64"
    using ws_nat_le_bytes [OF assms(3,4)] assms(5) by (rule le_less_trans)
  then have "unat (ws_of es ?bo owner) \<le> unat (ws_of (p # es) bo owner)"
    using le unat_ws_of [of es ?bo owner] unat_ws_of [OF lt] by linarith
  then have "ws_of es ?bo owner \<le> reserved_bytes e"
    using o(5) unfolding word_le_nat_alt by linarith
  moreover have "map_of ?bo h = Some owners" using o(1) assms(2) by (simp add: AList.delete_conv')
  ultimately show ?thesis using o by (auto simp: prot_of_def)
qed

abbreviation lru_list :: "'m lru_ops \<Rightarrow> 'm cache_state \<Rightarrow> (string \<times> cache_entry) list" where
  "lru_list L st \<equiv> lhm_iter L (entries st)"

locale lru_index = linked_hash_map L for L :: "'m lru_ops"
begin

lemma evict_oldest_Nil: "lru_list L st = [] \<Longrightarrow> evict_oldest L st = (None, st)"
  by (simp add: evict_oldest_def pop_Nil)

lemma evict_oldest_Cons:
  assumes "lru_list L st = p # es"
  obtains st' where "evict_oldest L st = (Some (evicted_of p), st')" "lru_list L st' = es"
    "total_bytes st' = total_bytes st - entry_size (snd p)"
    "blob_owners st' = blob_owners st" "reservations st' = reservations st"
proof -
  obtain m' where m': "lhm_pop_front L (entries st) = Some (p, m')" "lhm_iter L m' = es"
    using pop_Cons [OF assms] by blast
  show ?thesis
    by (rule that [of "st\<lparr> entries := m', total_bytes := total_bytes st - entry_size (snd p) \<rparr>"])
      (use m' in \<open>cases p; simp add: evict_oldest_def\<close>)+
qed

lemma prune_loop_spec:
  "\<exists>st'. prune_loop L limit st ev =
       Some (st', ev @ map evicted_of (take (drop_count limit (total_bytes st) (lru_list L st)) (lru_list L st)))
     \<and> lru_list L st' = drop (drop_count limit (total_bytes st) (lru_list L st)) (lru_list L st)
     \<and> total_bytes st' = total_bytes st
         - bytes_of (take (drop_count limit (total_bytes st) (lru_list L st)) (lru_list L st))
     \<and> blob_owners st' = blob_owners st \<and> reservations st' = reservations st"
proof (induction "lru_list L st" arbitrary: st ev)
  case Nil
  then show ?case by (subst prune_loop.simps) (simp add: iter_simps)
next
  case (Cons p es)
  show ?case
  proof (cases "limit < total_bytes st")
    case False
    then show ?thesis using Cons.hyps(2) [symmetric] by (subst prune_loop.simps) (simp add: iter_simps)
  next
    case True
    obtain st1 where st1: "evict_oldest L st = (Some (evicted_of p), st1)" "lru_list L st1 = es"
      "total_bytes st1 = total_bytes st - entry_size (snd p)"
      "blob_owners st1 = blob_owners st" "reservations st1 = reservations st"
      using evict_oldest_Cons Cons.hyps(2) [symmetric] by blast
    have "prune_loop L limit st ev = prune_loop L limit st1 (ev @ [evicted_of p])"
      using True Cons.hyps(2) [symmetric] st1(1) by (subst prune_loop.simps) (simp add: iter_simps)
    then show ?thesis
      using Cons.hyps(1) [of st1 "ev @ [evicted_of p]"] st1 True Cons.hyps(2) [symmetric]
      by (simp add: diff_diff_eq)
  qed
qed

lemma shrink_loop_prune_loop: "shrink_loop L limit st ev = prune_loop L limit st ev"
proof (induction "lru_list L st" arbitrary: st ev)
  case Nil
  then show ?case
    by (subst prune_loop.simps, subst shrink_loop.simps) (simp add: iter_simps evict_oldest_Nil)
next
  case (Cons p es)
  obtain st1 where st1: "evict_oldest L st = (Some (evicted_of p), st1)" "lru_list L st1 = es"
    using evict_oldest_Cons Cons.hyps(2) [symmetric] by blast
  show ?case
    using Cons.hyps(1) [of st1 "ev @ [evicted_of p]"] st1 Cons.hyps(2) [symmetric]
    by (subst prune_loop.simps, subst shrink_loop.simps) (simp add: iter_simps)
qed

lemma working_set_bytes_for_eq: "working_set_bytes_for L k st = ws_of (lru_list L st) (blob_owners st) k"
  unfolding working_set_bytes_for_def ws_of_def get_iter ..

lemma is_protected_eq:
  "is_protected_by_reservation L h st = prot_of (lru_list L st) (blob_owners st) (reservations st) h"
  by (auto simp: is_protected_by_reservation_def prot_of_def working_set_bytes_for_eq list_ex_iff
      split: option.splits)

end

section \<open>The eviction loop as a step relation\<close>

text \<open>
  A run of the loop over the entries (oldest first), the total and the owner table: a protected
  front moves to the back, an unprotected one is evicted with its owners.
\<close>

inductive evict_run ::
  "u64 \<Rightarrow> (repo_key \<times> reservation_entry) list \<Rightarrow>
     (string \<times> cache_entry) list \<times> u64 \<times> (string \<times> repo_key list) list \<Rightarrow>
     (string \<times> cache_entry) list \<Rightarrow>
     (string \<times> cache_entry) list \<times> u64 \<times> (string \<times> repo_key list) list \<Rightarrow> bool"
  for limit rs where
  run_done: "evict_run limit rs s [] s"
| run_rotate: "\<lbrakk> limit < tot; prot_of (p # es) bo rs (fst p);
      evict_run limit rs (es @ [p], tot, bo) gone s' \<rbrakk>
    \<Longrightarrow> evict_run limit rs (p # es, tot, bo) gone s'"
| run_evict: "\<lbrakk> limit < tot; \<not> prot_of (p # es) bo rs (fst p);
      evict_run limit rs (es, tot - entry_size (snd p), AList.delete (fst p) bo) gone s' \<rbrakk>
    \<Longrightarrow> evict_run limit rs (p # es, tot, bo) (p # gone) s'"

lemma map_of_rotate: "distinct (keys_of (p # es)) \<Longrightarrow> map_of (es @ [p]) = map_of (p # es)"
  by (rule map_of_inject_set [THEN iffD2]) auto

text \<open>The run keeps the entries: what is left and what is gone are what there was.\<close>

lemma evict_run_partition:
  "evict_run limit rs s gone s' \<Longrightarrow>
     mset (fst s) = mset (fst s') + mset gone
     \<and> fst (snd s') = fst (snd s) - bytes_of gone
     \<and> snd (snd s') = filter (\<lambda>p. fst p \<notin> fst ` set gone) (snd (snd s))"
  by (induction rule: evict_run.induct)
    (auto simp: AList.delete_eq diff_diff_eq case_prod_unfold intro!: filter_cong)

text \<open>Every eviction was needed: before it, the total was over the limit.\<close>

lemma evict_run_needed:
  "evict_run limit rs s gone s' \<Longrightarrow> j < length gone \<Longrightarrow>
     limit < fst (snd s) - bytes_of (take j gone)"
  by (induction arbitrary: j rule: evict_run.induct)
    (auto simp: less_Suc_eq_0_disj diff_diff_eq)

text \<open>An entry that is protected when the loop starts survives it.\<close>

lemma evict_run_keeps_protected:
  "evict_run limit rs s gone s' \<Longrightarrow>
   distinct (keys_of (fst s)) \<Longrightarrow> distinct (keys_of (snd (snd s))) \<Longrightarrow> nat_bytes_of (fst s) < 2 ^ 64 \<Longrightarrow>
   prot_of (fst s) (snd (snd s)) rs (fst q) \<Longrightarrow> q \<in> set (fst s) \<Longrightarrow> q \<in> set (fst s')"
proof (induction rule: evict_run.induct)
  case (run_done s)
  then show ?case by simp
next
  case (run_rotate tot p es bo gone s')
  have "prot_of (es @ [p]) bo rs (fst q)"
    using run_rotate.prems prot_of_cong [OF map_of_rotate] by simp
  then show ?case using run_rotate.prems run_rotate.IH by (simp add: add.commute)
next
  case (run_evict tot p es bo gone s')
  have ne: "fst q \<noteq> fst p" using run_evict.prems(4) run_evict.hyps(2) by auto
  have "prot_of es (AList.delete (fst p) bo) rs (fst q)"
    using prot_of_evict [of p es bo rs "fst q"] run_evict.prems ne by simp
  then show ?case using run_evict.prems run_evict.IH ne by auto
qed

context lru_index
begin

abbreviation view :: "'m cache_state \<Rightarrow> (string \<times> cache_entry) list \<times> u64 \<times> (string \<times> repo_key list) list" where
  "view st \<equiv> (lru_list L st, total_bytes st, blob_owners st)"

lemma evict_loop_unfold:
  assumes E: "lru_list L st = p # es" and lim: "limit < total_bytes st" and rot: "rotated < Suc (length es)"
  shows "\<exists>st1. view st1 = (if prot_of (p # es) (blob_owners st) (reservations st) (fst p)
             then (es @ [p], total_bytes st, blob_owners st)
             else (es, total_bytes st - entry_size (snd p), AList.delete (fst p) (blob_owners st)))
      \<and> reservations st1 = reservations st
      \<and> evict_loop L limit rotated st b ev =
          (if prot_of (p # es) (blob_owners st) (reservations st) (fst p)
           then evict_loop L limit (rotated + 1) st1 (b + 1) ev
           else evict_loop L limit 0 st1 b (ev @ [(fst p, entry_algorithm (snd p))]))"
proof (cases "prot_of (p # es) (blob_owners st) (reservations st) (fst p)")
  case True
  let ?st1 = "st\<lparr> entries := lhm_get_refresh L (fst p) (entries st) \<rparr>"
  have "lru_list L ?st1 = es @ [p]" using refresh_front [of "entries st"] E by (cases p) simp
  moreover have "evict_loop L limit rotated st b ev = evict_loop L limit (rotated + 1) ?st1 (b + 1) ev"
    using E lim rot front_Cons [OF E] True
    by (subst evict_loop.simps) (cases p; simp add: iter_simps is_protected_eq)
  ultimately show ?thesis using True by (intro exI [of _ ?st1]) simp
next
  case False
  obtain m' where m': "lhm_pop_front L (entries st) = Some (p, m')" "lhm_iter L m' = es"
    using pop_Cons [OF E] by blast
  let ?st1 = "st\<lparr> entries := m', total_bytes := total_bytes st - entry_size (snd p),
      blob_owners := AList.delete (fst p) (blob_owners st) \<rparr>"
  have "evict_loop L limit rotated st b ev = evict_loop L limit 0 ?st1 b (ev @ [(fst p, entry_algorithm (snd p))])"
    using E lim rot front_Cons [OF E] False m'
    by (subst evict_loop.simps) (cases p; simp add: iter_simps is_protected_eq)
  then show ?thesis using False m' by (intro exI [of _ ?st1]) simp
qed

lemma evict_loop_returns:
  assumes "\<forall>q\<in>set (drop (length (lru_list L st) - rotated) (lru_list L st)).
             prot_of (lru_list L st) (blob_owners st) (reservations st) (fst q)"
  shows "\<exists>st' b' gone.
      evict_loop L limit rotated st b ev = Some (st', b', ev @ map (\<lambda>p. (fst p, entry_algorithm (snd p))) gone)
      \<and> evict_run limit (reservations st) (view st) gone (view st')
      \<and> reservations st' = reservations st
      \<and> (total_bytes st' \<le> limit
         \<or> (\<forall>q\<in>set (lru_list L st'). is_protected_by_reservation L (fst q) st'))"
  using assms
proof (induction "length (lru_list L st) * (length (lru_list L st) + 2) + (length (lru_list L st) - rotated)"
    arbitrary: st rotated b ev rule: less_induct)
  case less
  show ?case
  proof (cases "limit < total_bytes st \<and> lru_list L st \<noteq> [] \<and> rotated < length (lru_list L st)")
    case False
    then have "evict_loop L limit rotated st b ev = Some (st, b, ev)"
      by (subst evict_loop.simps) (auto simp: iter_simps)
    moreover have "total_bytes st \<le> limit
        \<or> (\<forall>q\<in>set (lru_list L st). is_protected_by_reservation L (fst q) st)"
      using False less.prems by (auto simp: is_protected_eq)
    ultimately show ?thesis by (auto intro!: run_done)
  next
    case True
    then obtain p es where E: "lru_list L st = p # es" by (cases "lru_list L st") auto
    obtain st1 where st1: "view st1 = (if prot_of (p # es) (blob_owners st) (reservations st) (fst p)
             then (es @ [p], total_bytes st, blob_owners st)
             else (es, total_bytes st - entry_size (snd p), AList.delete (fst p) (blob_owners st)))"
      "reservations st1 = reservations st"
      "evict_loop L limit rotated st b ev =
          (if prot_of (p # es) (blob_owners st) (reservations st) (fst p)
           then evict_loop L limit (rotated + 1) st1 (b + 1) ev
           else evict_loop L limit 0 st1 b (ev @ [(fst p, entry_algorithm (snd p))]))"
      using evict_loop_unfold [OF E, of limit rotated b ev] True E by auto
    show ?thesis
    proof (cases "prot_of (p # es) (blob_owners st) (reservations st) (fst p)")
      case prot: True
      have mo: "map_of (es @ [p]) = map_of (p # es)"
        using map_of_rotate [of p es] iter_distinct [of "entries st"] E by simp
      have "\<forall>q\<in>set (drop (length (es @ [p]) - (rotated + 1)) (es @ [p])).
             prot_of (es @ [p]) (blob_owners st) (reservations st) (fst q)"
      proof
        fix q
        assume "q \<in> set (drop (length (es @ [p]) - (rotated + 1)) (es @ [p]))"
        then have "q \<in> set (drop (length es - rotated) es) \<or> q = p" by auto
        moreover have "drop (length (lru_list L st) - rotated) (lru_list L st) = drop (length es - rotated) es"
          using True E by (simp add: Suc_diff_le)
        ultimately have "prot_of (p # es) (blob_owners st) (reservations st) (fst q)"
          using less.prems E prot by auto
        then show "prot_of (es @ [p]) (blob_owners st) (reservations st) (fst q)"
          using prot_of_cong [OF mo] by simp
      qed
      moreover have "length (lru_list L st1) * (length (lru_list L st1) + 2)
            + (length (lru_list L st1) - (rotated + 1))
          < length (lru_list L st) * (length (lru_list L st) + 2) + (length (lru_list L st) - rotated)"
        using st1(1) prot E True by (simp add: Suc_diff_le)
      ultimately obtain st' b' gone where R:
        "evict_loop L limit (rotated + 1) st1 (b + 1) ev
           = Some (st', b', ev @ map (\<lambda>p. (fst p, entry_algorithm (snd p))) gone)"
        "evict_run limit (reservations st1) (view st1) gone (view st')"
        "reservations st' = reservations st1"
        "total_bytes st' \<le> limit \<or> (\<forall>q\<in>set (lru_list L st'). is_protected_by_reservation L (fst q) st')"
        using less.hyps [of st1 "rotated + 1" "b + 1" ev] st1(1,2) prot by (simp del: drop_append) blast
      have "evict_run limit (reservations st) (view st) gone (view st')"
        using R(2) st1 prot E True by (auto intro: run_rotate)
      then show ?thesis using R st1 prot by auto
    next
      case unprot: False
      obtain st' b' gone where R:
        "evict_loop L limit 0 st1 b (ev @ [(fst p, entry_algorithm (snd p))])
           = Some (st', b', (ev @ [(fst p, entry_algorithm (snd p))]) @ map (\<lambda>p. (fst p, entry_algorithm (snd p))) gone)"
        "evict_run limit (reservations st1) (view st1) gone (view st')"
        "reservations st' = reservations st1"
        "total_bytes st' \<le> limit \<or> (\<forall>q\<in>set (lru_list L st'). is_protected_by_reservation L (fst q) st')"
        using less.hyps [of st1 0 b "ev @ [(fst p, entry_algorithm (snd p))]"] st1 unprot E by auto
      have "evict_run limit (reservations st) (view st) (p # gone) (view st')"
        using R(2) st1 unprot E True by (auto intro: run_evict)
      then show ?thesis using R st1 unprot by (intro exI [of _ st'] exI [of _ b'] exI [of _ "p # gone"]) auto
    qed
  qed
qed

text \<open>With no reservation at all the loop is the plain oldest-first one.\<close>

lemma evict_run_no_reservations:
  "evict_run limit rs s gone s' \<Longrightarrow> rs = [] \<Longrightarrow> fst (snd s') \<le> limit \<or> fst s' = [] \<Longrightarrow>
     gone = take (drop_count limit (fst (snd s)) (fst s)) (fst s)
     \<and> fst s' = drop (drop_count limit (fst (snd s)) (fst s)) (fst s)"
proof (induction rule: evict_run.induct)
  case (run_done s)
  then show ?case by (cases "fst s") auto
qed (auto simp: prot_of_def)

end

interpretation lru_ix: lru_index list_lhm
proof
qed

end
