(* ===== verification/Blob_Cache.thy ===== *)
theory Blob_Cache
  imports Cache_Eviction
begin

text \<open>
  The blob cache, \<open>BlobCache\<close> in \<open>crates/ctxfs-cache/src/lib.rs\<close>, with its files, and the thin
  handle \<open>MountCacheView\<close> of \<open>reservation.rs\<close>. Every operation takes the cache and returns it
  updated with its result. The files under the cache root are a map from paths to contents; what
  the operating system answers (a directory that cannot be made, a write that stops half way, a
  removal that fails) is the argument \<open>io\<close>. An operation with a loop returns an option, \<open>None\<close> for a
  loop that does not end.
\<close>

section \<open>The cache and its environment\<close>

record 'm blob_cache =
  cache_root :: string
  max_bytes :: u64
  state :: "'m cache_state"
  eviction_blocked_total :: u64
  disk :: "string \<rightharpoonup> bytes"

text \<open>
  What the operating system answers: the error of creating a directory, or the parent directory of
  a file; the error of writing a file, with the number of bytes it left there when it was opened at
  all; whether removing and reading a file succeed; and the errors of the temporary-file steps.
  \<open>tmp_accept\<close> is the answer of one \<open>write\<close> on the temporary file.
\<close>

record io_env =
  mkdir_error :: "string \<Rightarrow> string option"
  mkdir_parent_error :: "string \<Rightarrow> string option"
  write_error :: "string \<Rightarrow> (string \<times> nat option) option"
  remove_ok :: "string \<Rightarrow> bool"
  read_ok :: "string \<Rightarrow> bool"
  tmp_create_error :: "string option"
  tmp_accept :: "bytes \<Rightarrow> nat + string"
  tmp_sync_error :: "string option"
  persist_error :: "string \<Rightarrow> string option"

definition blob_path :: "'m blob_cache \<Rightarrow> digest \<Rightarrow> string option" where
  "blob_path c d = map_option (path_push (cache_root c)) (to_path d)"

definition remove_blob_file ::
  "io_env \<Rightarrow> string \<Rightarrow> hash_algorithm \<Rightarrow> 'm blob_cache \<Rightarrow> 'm blob_cache \<times> unit ctxfs_result" where
  "remove_blob_file io h a c =
     (case blob_path c \<lparr> dg_algorithm = a, dg_hex = h \<rparr> of
        None \<Rightarrow> (c, Panic)
      | Some path \<Rightarrow>
          (if remove_ok io path then c\<lparr> disk := (disk c)(path := None) \<rparr> else c, Ok ()))"

fun remove_blob_files ::
  "io_env \<Rightarrow> (string \<times> hash_algorithm) list \<Rightarrow> 'm blob_cache \<Rightarrow> 'm blob_cache \<times> unit ctxfs_result" where
  "remove_blob_files io [] c = (c, Ok ())"
| "remove_blob_files io ((k, a) # evs) c =
     (case remove_blob_file io k a c of
        (c1, Ok _) \<Rightarrow> remove_blob_files io evs c1
      | (c1, r) \<Rightarrow> (c1, r))"

section \<open>Reading and writing blobs\<close>

definition blob_get ::
  "'m lru_ops \<Rightarrow> io_env \<Rightarrow> digest \<Rightarrow> 'm blob_cache \<Rightarrow> 'm blob_cache \<times> bytes option ctxfs_result" where
  "blob_get L io d c =
     (case lhm_get L (dg_hex d) (entries (state c)) of
        None \<Rightarrow> (c, Ok None)
      | Some entry \<Rightarrow>
          (let c1 = c\<lparr> state := (state c)\<lparr> entries := lhm_get_refresh L (dg_hex d) (entries (state c)) \<rparr> \<rparr>
           in case blob_path c \<lparr> dg_algorithm = entry_algorithm entry, dg_hex = dg_hex d \<rparr> of
                None \<Rightarrow> (c1, Panic)
              | Some path \<Rightarrow> (c1, Ok (if read_ok io path then disk c path else None))))"

definition lru_insert_evict ::
  "'m lru_ops \<Rightarrow> string \<Rightarrow> u64 \<Rightarrow> hash_algorithm \<Rightarrow> 'm blob_cache \<Rightarrow>
     ('m blob_cache \<times> (string \<times> hash_algorithm) list) option" where
  "lru_insert_evict L key sz a c =
     (let st = state c;
          tot = (case lhm_get L key (entries st) of
                   Some existing \<Rightarrow> total_bytes st - entry_size existing
                 | None \<Rightarrow> total_bytes st);
          st1 = st\<lparr> entries := lhm_insert L key \<lparr> entry_size = sz, entry_algorithm = a \<rparr> (entries st),
                    total_bytes := tot + sz \<rparr>
      in case evict_loop L (max_bytes c) 0 st1 (eviction_blocked_total c) [] of
           None \<Rightarrow> None
         | Some (st2, blocked, evicted) \<Rightarrow>
             Some (c\<lparr> state := st2, eviction_blocked_total := blocked \<rparr>, evicted))"

text \<open>The bookkeeping after a blob's file is in place: insert, evict, and remove the evicted files.\<close>

definition track_and_evict ::
  "'m lru_ops \<Rightarrow> io_env \<Rightarrow> digest \<Rightarrow> u64 \<Rightarrow> 'm blob_cache \<Rightarrow> ('m blob_cache \<times> unit ctxfs_result) option" where
  "track_and_evict L io d sz c =
     map_option (\<lambda>(c1, evicted). remove_blob_files io evicted c1)
       (lru_insert_evict L (dg_hex d) sz (dg_algorithm d) c)"

definition blob_put ::
  "'m lru_ops \<Rightarrow> io_env \<Rightarrow> digest \<Rightarrow> bytes \<Rightarrow> 'm blob_cache \<Rightarrow>
     ('m blob_cache \<times> unit ctxfs_result) option" where
  "blob_put L io d data c =
     (case blob_path c d of
        None \<Rightarrow> Some (c, Panic)
      | Some path \<Rightarrow>
          (case mkdir_parent_error io path of
             Some e \<Rightarrow> Some (c, Err (Cache (''mkdir failed: '' @ e)))
           | None \<Rightarrow>
               (case write_error io path of
                  Some (e, left) \<Rightarrow>
                    Some (case left of None \<Rightarrow> c | Some n \<Rightarrow> c\<lparr> disk := (disk c)(path \<mapsto> take n data) \<rparr>,
                          Err (Cache (''write failed: '' @ e)))
                | None \<Rightarrow>
                    track_and_evict L io d (of_nat (length data))
                      (c\<lparr> disk := (disk c)(path \<mapsto> data) \<rparr>))))"

section \<open>Committing through a temporary file\<close>

record temp_writer =
  temp :: bytes
  bytes_written :: u64

definition commit_atomic_with_writer :: "io_env \<Rightarrow> 'm blob_cache \<Rightarrow> temp_writer ctxfs_result" where
  "commit_atomic_with_writer io c =
     (case mkdir_error io (path_push (cache_root c) ''tmp'') of
        Some e \<Rightarrow> Err (Cache (''mkdir tmp failed: '' @ e))
      | None \<Rightarrow>
          (case tmp_create_error io of
             Some e \<Rightarrow> Err (Cache (''tmp file create: '' @ e))
           | None \<Rightarrow> Ok \<lparr> temp = [], bytes_written = 0 \<rparr>))"

text \<open>One \<open>write\<close>: the file takes a prefix of the buffer, and that many bytes are counted.\<close>

definition temp_write :: "nat \<Rightarrow> bytes \<Rightarrow> temp_writer \<Rightarrow> temp_writer" where
  "temp_write n buf w =
     w\<lparr> temp := temp w @ take n buf, bytes_written := bytes_written w + of_nat (min n (length buf)) \<rparr>"

text \<open>The standard library's \<open>write_all\<close> over it; a write of no bytes is its \<open>WriteZero\<close> error.\<close>

function write_all :: "(bytes \<Rightarrow> nat + string) \<Rightarrow> bytes \<Rightarrow> temp_writer \<Rightarrow> (temp_writer, string) outcome" where
  "write_all accept buf w =
     (if buf = [] then Ok w
      else (case accept buf of
        Inl n \<Rightarrow> if n = 0 then Err ''failed to write whole buffer''
                 else write_all accept (drop n buf) (temp_write n buf w)
      | Inr e \<Rightarrow> Err e))"
  by pat_completeness auto
termination
  by (relation "measure (\<lambda>(_, buf, _). length buf)") auto

declare write_all.simps [simp del]

definition writer_finalize ::
  "'m lru_ops \<Rightarrow> io_env \<Rightarrow> temp_writer \<Rightarrow> digest \<Rightarrow> 'm blob_cache \<Rightarrow>
     ('m blob_cache \<times> unit ctxfs_result) option" where
  "writer_finalize L io w expected c =
     (case tmp_sync_error io of
        Some e \<Rightarrow> Some (c, Err (Cache (''tmp fsync: '' @ e)))
      | None \<Rightarrow>
          (case blob_path c expected of
             None \<Rightarrow> Some (c, Panic)
           | Some dest \<Rightarrow>
               (case mkdir_parent_error io dest of
                  Some e \<Rightarrow> Some (c, Err (Cache (''mkdir parent failed: '' @ e)))
                | None \<Rightarrow>
                    (case persist_error io dest of
                       Some e \<Rightarrow> Some (c, Err (Cache (''rename to canonical: '' @ e)))
                     | None \<Rightarrow>
                         track_and_evict L io expected (bytes_written w)
                           (c\<lparr> disk := (disk c)(dest \<mapsto> temp w) \<rparr>)))))"

definition commit_atomic ::
  "(bytes \<Rightarrow> string) \<Rightarrow> 'm lru_ops \<Rightarrow> io_env \<Rightarrow> digest \<Rightarrow> bytes \<Rightarrow> 'm blob_cache \<Rightarrow>
     ('m blob_cache \<times> unit ctxfs_result) option" where
  "commit_atomic sha256 L io d data c =
     (let computed = digest_sha256 sha256 data in
      if dg_hex computed \<noteq> dg_hex d
      then Some (c, Err (Cache (''blob digest mismatch: expected '' @ dg_hex d @ '', got '' @ dg_hex computed)))
      else (case commit_atomic_with_writer io c of
        Err e \<Rightarrow> Some (c, Err e)
      | Panic \<Rightarrow> Some (c, Panic)
      | Ok writer \<Rightarrow>
          (case write_all (tmp_accept io) data writer of
             Err e \<Rightarrow> Some (c, Err (Cache (''commit write: '' @ e)))
           | Panic \<Rightarrow> Some (c, Panic)
           | Ok w \<Rightarrow> writer_finalize L io w d c)))"

section \<open>Mounts, owners and queries\<close>

text \<open>\<open>register_mount\<close>: the owner table is seeded, the entry created or updated, the defaults rebalanced.\<close>

definition register_entry :: "u64 option \<Rightarrow> reservation_entry option \<Rightarrow> reservation_entry" where
  "register_entry reservation_bytes existing =
     (case existing of
        Some e \<Rightarrow>
          (let e1 = e\<lparr> refcount := refcount e + 1 \<rparr>
           in case reservation_bytes of
                Some bytes \<Rightarrow> e1\<lparr> reserved_bytes := bytes, is_explicit_override := True \<rparr>
              | None \<Rightarrow> e1)
      | None \<Rightarrow>
          \<lparr> reserved_bytes = (case reservation_bytes of Some bytes \<Rightarrow> bytes | None \<Rightarrow> 0),
            is_explicit_override = (reservation_bytes \<noteq> None), refcount = 1 \<rparr>)"

definition register_mount ::
  "repo_key \<Rightarrow> u64 option \<Rightarrow> string list \<Rightarrow> 'm blob_cache \<Rightarrow> 'm blob_cache" where
  "register_mount key reservation_bytes manifest_hexes c =
     (let st = state c;
          st1 = st\<lparr> blob_owners := seed_owners key manifest_hexes (blob_owners st) \<rparr>;
          st2 = st1\<lparr> reservations := AList.update key
                   (register_entry reservation_bytes (map_of (reservations st1) key)) (reservations st1) \<rparr>
      in c\<lparr> state := rebalance_default_reservations (max_bytes c) st2 \<rparr>)"

definition drop_owner :: "repo_key \<Rightarrow> (string \<times> repo_key list) list \<Rightarrow> (string \<times> repo_key list) list" where
  "drop_owner key owners =
     filter (\<lambda>(_, ks). ks \<noteq> []) (map (\<lambda>(hex, ks). (hex, filter (\<lambda>k. k \<noteq> key) ks)) owners)"

definition unregister_mount :: "repo_key \<Rightarrow> 'm blob_cache \<Rightarrow> 'm blob_cache" where
  "unregister_mount key c =
     (let st = state c;
          (remove, st1) =
            (case map_of (reservations st) key of
               Some entry \<Rightarrow>
                 (let entry1 = entry\<lparr> refcount := sat_sub (refcount entry) 1 \<rparr>
                  in (refcount entry1 = 0, st\<lparr> reservations := AList.update key entry1 (reservations st) \<rparr>))
             | None \<Rightarrow> (False, st));
          st2 = (if remove
                 then st1\<lparr> reservations := AList.delete key (reservations st1),
                           blob_owners := drop_owner key (blob_owners st1) \<rparr>
                 else st1)
      in c\<lparr> state := rebalance_default_reservations (max_bytes c) st2 \<rparr>)"

definition contains :: "'m lru_ops \<Rightarrow> digest \<Rightarrow> 'm blob_cache \<Rightarrow> bool" where
  "contains L d c = lhm_contains_key L (dg_hex d) (entries (state c))"

definition contains_all :: "'m lru_ops \<Rightarrow> digest list \<Rightarrow> 'm blob_cache \<Rightarrow> bool" where
  "contains_all L ds c = list_all (\<lambda>d. lhm_contains_key L (dg_hex d) (entries (state c))) ds"

definition stats :: "'m lru_ops \<Rightarrow> 'm blob_cache \<Rightarrow> u64 \<times> nat" where
  "stats L c = (total_bytes (state c), lhm_len L (entries (state c)))"

definition blob_count :: "'m lru_ops \<Rightarrow> 'm blob_cache \<Rightarrow> u64" where
  "blob_count L c = of_nat (lhm_len L (entries (state c)))"

definition add_owner :: "repo_key \<Rightarrow> string \<Rightarrow> 'm blob_cache \<Rightarrow> 'm blob_cache" where
  "add_owner key h c =
     c\<lparr> state := (state c)\<lparr> blob_owners := add_owner_entry key h (blob_owners (state c)) \<rparr> \<rparr>"

definition add_owners :: "repo_key \<Rightarrow> string list \<Rightarrow> 'm blob_cache \<Rightarrow> 'm blob_cache" where
  "add_owners key hexes c =
     (if hexes = [] then c
      else c\<lparr> state := (state c)\<lparr> blob_owners := seed_owners key hexes (blob_owners (state c)) \<rparr> \<rparr>)"

definition put_for ::
  "'m lru_ops \<Rightarrow> io_env \<Rightarrow> repo_key \<Rightarrow> digest \<Rightarrow> bytes \<Rightarrow> 'm blob_cache \<Rightarrow>
     ('m blob_cache \<times> unit ctxfs_result) option" where
  "put_for L io key d data c =
     map_option (\<lambda>(c1, r). case r of Ok _ \<Rightarrow> (add_owner key (dg_hex d) c1, Ok ()) | _ \<Rightarrow> (c1, r))
       (blob_put L io d data c)"

definition working_set_bytes :: "'m lru_ops \<Rightarrow> repo_key \<Rightarrow> 'm blob_cache \<Rightarrow> u64" where
  "working_set_bytes L key c = working_set_bytes_for L key (state c)"

definition reservation_bytes :: "repo_key \<Rightarrow> 'm blob_cache \<Rightarrow> u64 option" where
  "reservation_bytes key c = map_option reserved_bytes (map_of (reservations (state c)) key)"

section \<open>Pruning\<close>

abbreviation evicted_files :: "(string \<times> u64 \<times> hash_algorithm) list \<Rightarrow> (string \<times> hash_algorithm) list" where
  "evicted_files evs \<equiv> map (\<lambda>(k, _, a). (k, a)) evs"

text \<open>A panic while the files are removed ends the call; otherwise the freed bytes are returned.\<close>

definition prune ::
  "'m lru_ops \<Rightarrow> io_env \<Rightarrow> u64 option \<Rightarrow> 'm blob_cache \<Rightarrow> ('m blob_cache \<times> u64 ctxfs_result) option" where
  "prune L io target c =
     (let limit = (case target of Some b \<Rightarrow> b | None \<Rightarrow> max_bytes c)
      in case prune_loop L limit (state c) [] of
           None \<Rightarrow> None
         | Some (st, evicted) \<Rightarrow>
             (let freed = sum_list (map (\<lambda>(_, sz, _). sz) evicted);
                  (c1, r) = remove_blob_files io (evicted_files evicted) (c\<lparr> state := st \<rparr>)
              in Some (c1, omap (\<lambda>_. freed) r)))"

definition prune_blobs ::
  "'m lru_ops \<Rightarrow> io_env \<Rightarrow> u64 \<Rightarrow> 'm blob_cache \<Rightarrow> ('m blob_cache \<times> u64 ctxfs_result) option" where
  "prune_blobs L io target c =
     (let initial = total_bytes (state c)
      in case shrink_loop L target (state c) [] of
           None \<Rightarrow> None
         | Some (st, evicted) \<Rightarrow>
             (let (c1, r) = remove_blob_files io (evicted_files evicted) (c\<lparr> state := st \<rparr>)
              in Some (c1, omap (\<lambda>_. sat_sub initial (total_bytes (state c1))) r)))"

definition set_max_bytes ::
  "'m lru_ops \<Rightarrow> io_env \<Rightarrow> u64 \<Rightarrow> 'm blob_cache \<Rightarrow> ('m blob_cache \<times> unit ctxfs_result) option" where
  "set_max_bytes L io new_max c =
     (let c0 = c\<lparr> max_bytes := new_max \<rparr>
      in case shrink_loop L new_max (state c0) [] of
           None \<Rightarrow> None
         | Some (st, evicted) \<Rightarrow> Some (remove_blob_files io (evicted_files evicted) (c0\<lparr> state := st \<rparr>)))"

text \<open>
  \<open>cleanup_orphan_temps\<close> over the listing of \<open>tmp/\<close>: \<open>None\<close> when the directory does not exist,
  \<open>Inr\<close> the error of reading it, otherwise its entries with their path, whether they are files and
  their modification time (the epoch when it cannot be read). Times are nanoseconds since the epoch.
\<close>

record tmp_entry =
  te_path :: string
  te_is_file :: bool
  te_mtime :: "nat option"

fun cleanup_tmp_entries ::
  "io_env \<Rightarrow> nat \<Rightarrow> nat \<Rightarrow> tmp_entry list \<Rightarrow> u64 \<Rightarrow> 'm blob_cache \<Rightarrow> 'm blob_cache \<times> u64" where
  "cleanup_tmp_entries io now older_than [] cleared c = (c, cleared)"
| "cleanup_tmp_entries io now older_than (e # es) cleared c =
     (if \<not> te_is_file e then cleanup_tmp_entries io now older_than es cleared c
      else (let mtime = (case te_mtime e of Some t \<Rightarrow> t | None \<Rightarrow> 0)
            in if mtime \<le> now \<and> older_than < now - mtime \<and> remove_ok io (te_path e)
               then cleanup_tmp_entries io now older_than es (cleared + 1)
                      (c\<lparr> disk := (disk c)(te_path e := None) \<rparr>)
               else cleanup_tmp_entries io now older_than es cleared c))"

definition cleanup_orphan_temps ::
  "io_env \<Rightarrow> nat \<Rightarrow> nat \<Rightarrow> (tmp_entry list + string) option \<Rightarrow> 'm blob_cache \<Rightarrow>
     'm blob_cache \<times> u64 ctxfs_result" where
  "cleanup_orphan_temps io now older_than listing c =
     (case listing of
        None \<Rightarrow> (c, Ok 0)
      | Some (Inr e) \<Rightarrow> (c, Err (Cache (''read_dir tmp: '' @ e)))
      | Some (Inl es) \<Rightarrow>
          (let (c1, cleared) = cleanup_tmp_entries io now older_than es 0 c in (c1, Ok cleared)))"

section \<open>Rebuilding the index from disk\<close>

text \<open>
  A directory listing as \<open>read_dir\<close> returns it: the names (as \<open>to_string_lossy\<close> gives them), what
  each entry is, and a blob file's length and modification time when its metadata can be read.
\<close>

record blob_file =
  bf_name :: string
  bf_is_file :: bool
  bf_metadata :: "(u64 \<times> nat option) option"

record prefix_dir =
  pd_name :: string
  pd_is_dir :: bool
  pd_files :: "blob_file list + string"

record algo_dir =
  ad_name :: string
  ad_is_dir :: bool
  ad_prefixes :: "prefix_dir list + string"

type_synonym scan_entry = "string \<times> hash_algorithm \<times> u64 \<times> nat"

definition scan_blob_files :: "string \<Rightarrow> hash_algorithm \<Rightarrow> blob_file list \<Rightarrow> scan_entry list" where
  "scan_blob_files prefix a fs =
     List.map_filter (\<lambda>f.
       if bf_is_file f
       then map_option (\<lambda>(len, mtime). (prefix @ bf_name f, a, len, case mtime of Some t \<Rightarrow> t | None \<Rightarrow> 0))
              (bf_metadata f)
       else None) fs"

fun scan_prefix_dirs ::
  "hash_algorithm \<Rightarrow> prefix_dir list \<Rightarrow> scan_entry list \<Rightarrow> scan_entry list ctxfs_result" where
  "scan_prefix_dirs a [] found = Ok found"
| "scan_prefix_dirs a (p # ps) found =
     (if \<not> pd_is_dir p then scan_prefix_dirs a ps found
      else (case pd_files p of
        Inr e \<Rightarrow> Err (Cache (''scan failed: '' @ e))
      | Inl fs \<Rightarrow> scan_prefix_dirs a ps (found @ scan_blob_files (pd_name p) a fs)))"

definition scan_fan_out_dir ::
  "prefix_dir list + string \<Rightarrow> hash_algorithm \<Rightarrow> scan_entry list \<Rightarrow> scan_entry list ctxfs_result" where
  "scan_fan_out_dir listing a found =
     (case listing of
        Inr e \<Rightarrow> Err (Cache (''scan failed: '' @ e))
      | Inl ps \<Rightarrow> scan_prefix_dirs a ps found)"

definition algo_of_dir :: "string \<Rightarrow> hash_algorithm option" where
  "algo_of_dir nm =
     (if nm = ''sha256'' then Some Sha256 else if nm = ''sha1'' then Some Sha1 else None)"

fun scan_root :: "algo_dir list \<Rightarrow> scan_entry list \<Rightarrow> scan_entry list ctxfs_result" where
  "scan_root [] found = Ok found"
| "scan_root (d # ds) found =
     (if \<not> ad_is_dir d then scan_root ds found
      else (case algo_of_dir (ad_name d) of
        None \<Rightarrow> scan_root ds found
      | Some a \<Rightarrow> obind (scan_fan_out_dir (ad_prefixes d) a found) (scan_root ds)))"

text \<open>One file per hex string: sha1 beats sha256, otherwise the first one (the older) stays.\<close>

fun dedupe_by_hex ::
  "scan_entry list \<Rightarrow> (string \<times> hash_algorithm \<times> u64 \<times> nat) list \<Rightarrow> (string \<times> hash_algorithm) list \<Rightarrow>
     (string \<times> hash_algorithm \<times> u64 \<times> nat) list \<times> (string \<times> hash_algorithm) list" where
  "dedupe_by_hex [] by_hex to_delete = (by_hex, to_delete)"
| "dedupe_by_hex ((hex, algo, sz, mtime) # es) by_hex to_delete =
     (case map_of by_hex hex of
        None \<Rightarrow> dedupe_by_hex es (AList.update hex (algo, sz, mtime) by_hex) to_delete
      | Some (existing_algo, _) \<Rightarrow>
          (if existing_algo = Sha1 then dedupe_by_hex es by_hex (to_delete @ [(hex, algo)])
           else if algo = Sha1
           then dedupe_by_hex es (AList.update hex (algo, sz, mtime) by_hex) (to_delete @ [(hex, existing_algo)])
           else dedupe_by_hex es by_hex (to_delete @ [(hex, algo)])))"

abbreviation mtime_of :: "scan_entry \<Rightarrow> nat" where
  "mtime_of e \<equiv> snd (snd (snd e))"

fun insert_sorted_entries :: "'m lru_ops \<Rightarrow> scan_entry list \<Rightarrow> 'm cache_state \<Rightarrow> 'm cache_state" where
  "insert_sorted_entries L [] st = st"
| "insert_sorted_entries L ((hex, algo, sz, _) # es) st =
     insert_sorted_entries L es
       (st\<lparr> total_bytes := total_bytes st + sz,
            entries := lhm_insert L hex \<lparr> entry_size = sz, entry_algorithm = algo \<rparr> (entries st) \<rparr>)"

text \<open>
  \<open>hash_order\<close> is the order in which \<open>HashMap::into_iter\<close> yields the entries; it decides between
  files with the same modification time. \<open>None\<close> as listing: the root cannot be read, nothing is found.
\<close>

definition rebuild_index ::
  "'m lru_ops \<Rightarrow> io_env \<Rightarrow> (scan_entry list \<Rightarrow> scan_entry list) \<Rightarrow> algo_dir list option \<Rightarrow>
     'm blob_cache \<Rightarrow> 'm blob_cache \<times> unit ctxfs_result" where
  "rebuild_index L io hash_order listing c =
     (case (case listing of None \<Rightarrow> Ok [] | Some ds \<Rightarrow> scan_root ds []) of
        Err e \<Rightarrow> (c, Err e)
      | Panic \<Rightarrow> (c, Panic)
      | Ok found \<Rightarrow>
          (let (by_hex, to_delete) = dedupe_by_hex (sort_key mtime_of found) [] [];
               sorted = sort_key mtime_of (hash_order by_hex);
               st = (state c)\<lparr> entries := lhm_clear L (entries (state c)), total_bytes := 0 \<rparr>
           in remove_blob_files io to_delete (c\<lparr> state := insert_sorted_entries L sorted st \<rparr>)))"

definition blob_cache_new ::
  "'m lru_ops \<Rightarrow> io_env \<Rightarrow> (scan_entry list \<Rightarrow> scan_entry list) \<Rightarrow> algo_dir list option \<Rightarrow>
     string \<Rightarrow> u64 \<Rightarrow> (string \<rightharpoonup> bytes) \<Rightarrow> 'm blob_cache ctxfs_result" where
  "blob_cache_new L io hash_order listing root mx files =
     (case mkdir_error io root of
        Some e \<Rightarrow> Err (Cache (''failed to create cache dir: '' @ e))
      | None \<Rightarrow>
          (let c = \<lparr> cache_root = root, max_bytes = mx,
                 state = \<lparr> entries = lhm_new L, total_bytes = 0, blob_owners = [], reservations = [] \<rparr>,
                 eviction_blocked_total = 0, disk = files \<rparr>;
               (c1, r) = rebuild_index L io hash_order listing c
           in omap (\<lambda>_. c1) r))"

section \<open>The provider's handle\<close>

text \<open>
  A \<open>MountCacheView\<close> shares the cache; its operations are the cache's with its repository key.
\<close>

record mount_cache_view =
  repo_key :: repo_key

definition view_put ::
  "'m lru_ops \<Rightarrow> io_env \<Rightarrow> mount_cache_view \<Rightarrow> digest \<Rightarrow> bytes \<Rightarrow> 'm blob_cache \<Rightarrow>
     ('m blob_cache \<times> unit ctxfs_result) option" where
  "view_put L io v d data c = put_for L io (repo_key v) d data c"

definition record_ownership_after_finalize ::
  "mount_cache_view \<Rightarrow> digest \<Rightarrow> 'm blob_cache \<Rightarrow> 'm blob_cache" where
  "record_ownership_after_finalize v d c = add_owner (repo_key v) (dg_hex d) c"

end
