(* ===== verification/Cache_Invariants.thy ===== *)
theory Cache_Invariants
  imports Blob_Cache
begin

text \<open>
  What the blob cache promises: the byte total is the sum of the tracked sizes, the owner and
  reservation tables are well formed, and every operation keeps this; what an insertion evicts;
  what pruning frees; what registering and unregistering mounts does to the budgets.
\<close>

section \<open>Well-formed states\<close>

definition owners_wf :: "(string \<times> repo_key list) list \<Rightarrow> bool" where
  "owners_wf bo \<longleftrightarrow> distinct (keys_of bo) \<and> (\<forall>p\<in>set bo. snd p \<noteq> [] \<and> sorted (snd p) \<and> distinct (snd p))"

definition state_wf :: "'m lru_ops \<Rightarrow> 'm cache_state \<Rightarrow> bool" where
  "state_wf L st \<longleftrightarrow>
     total_bytes st = bytes_of (lru_list L st) \<and> owners_wf (blob_owners st)
     \<and> distinct (keys_of (reservations st))"

lemma distinct_keys_update: "distinct (keys_of m) \<Longrightarrow> distinct (keys_of (AList.update k v m))"
  by (rule AList.distinct_update)

lemma sorted_btree_insert: "sorted ks \<Longrightarrow> sorted (btree_insert k ks)"
  by (simp add: btree_insert_def sorted_insort)

lemma distinct_btree_insert: "distinct ks \<Longrightarrow> distinct (btree_insert k ks)"
  by (simp add: btree_insert_def distinct_insort)

lemma set_updateD: "p \<in> set (AList.update k v m) \<Longrightarrow> p = (k, v) \<or> p \<in> set m"
  by (induction m) (auto split: if_splits)

lemma owners_wf_add: "owners_wf bo \<Longrightarrow> owners_wf (add_owner_entry key h bo)"
proof -
  assume wf: "owners_wf bo"
  let ?ks = "case map_of bo h of Some ks \<Rightarrow> ks | None \<Rightarrow> []"
  have "sorted ?ks \<and> distinct ?ks"
    using wf by (auto simp: owners_wf_def dest!: map_of_SomeD split: option.splits)
  then have "sorted (btree_insert key ?ks) \<and> distinct (btree_insert key ?ks)"
    by (simp add: sorted_btree_insert distinct_btree_insert)
  moreover have "distinct (keys_of (add_owner_entry key h bo))"
    using wf unfolding add_owner_entry_def owners_wf_def by (intro distinct_keys_update) simp
  ultimately show ?thesis
    using wf unfolding owners_wf_def add_owner_entry_def
    by (auto dest!: set_updateD)
qed

lemma owners_wf_seed: "owners_wf bo \<Longrightarrow> owners_wf (seed_owners key hs bo)"
  unfolding seed_owners_def by (induction hs arbitrary: bo) (auto simp: owners_wf_add)

lemma owners_wf_filter: "owners_wf bo \<Longrightarrow> owners_wf (filter P bo)"
  by (auto simp: owners_wf_def intro: distinct_keys_filter)

lemma keys_of_drop_owner: "keys_of (drop_owner key bo) = keys_of (filter (\<lambda>p. filter (\<lambda>k. k \<noteq> key) (snd p) \<noteq> []) bo)"
  by (induction bo) (auto simp: drop_owner_def case_prod_unfold)

lemma owners_wf_drop_owner: "owners_wf bo \<Longrightarrow> owners_wf (drop_owner key bo)"
  unfolding owners_wf_def keys_of_drop_owner
  by (auto simp: drop_owner_def sorted_wrt_filter intro: distinct_keys_filter)

lemma keys_of_rebalance [simp]:
  "keys_of (reservations (rebalance_default_reservations m st)) = keys_of (reservations st)"
  by (simp add: rebalance_default_reservations_def Let_def case_prod_unfold comp_def)

lemma rebalance_frame [simp]:
  "entries (rebalance_default_reservations m st) = entries st"
  "total_bytes (rebalance_default_reservations m st) = total_bytes st"
  "blob_owners (rebalance_default_reservations m st) = blob_owners st"
  by (simp_all add: rebalance_default_reservations_def Let_def)

lemma state_wf_rebalance [simp]:
  "state_wf L (rebalance_default_reservations m st) = state_wf L st"
  by (simp add: state_wf_def)

lemma state_wf_register: "state_wf L (state c) \<Longrightarrow> state_wf L (state (register_mount key rb hs c))"
  by (simp add: register_mount_def Let_def state_wf_def owners_wf_seed distinct_keys_update)

lemma state_wf_unregister: "state_wf L (state c) \<Longrightarrow> state_wf L (state (unregister_mount key c))"
  by (auto simp: unregister_mount_def Let_def state_wf_def owners_wf_drop_owner
      simp del: keys_of_delete split: option.splits
      intro!: distinct_keys_delete distinct_keys_update)

section \<open>Removing files leaves the state alone\<close>

lemma remove_blob_file_frame:
  "remove_blob_file io h a c = (c', r) \<Longrightarrow>
     state c' = state c \<and> max_bytes c' = max_bytes c \<and> cache_root c' = cache_root c
     \<and> eviction_blocked_total c' = eviction_blocked_total c"
  by (auto simp: remove_blob_file_def split: option.splits if_splits)

lemma remove_blob_files_frame:
  "remove_blob_files io evs c = (c', r) \<Longrightarrow>
     state c' = state c \<and> max_bytes c' = max_bytes c \<and> cache_root c' = cache_root c
     \<and> eviction_blocked_total c' = eviction_blocked_total c"
proof (induction evs arbitrary: c)
  case (Cons ev evs)
  obtain k a where ev: "ev = (k, a)" by (cases ev)
  obtain c1 r1 where s: "remove_blob_file io k a c = (c1, r1)" by (cases "remove_blob_file io k a c")
  show ?case
  proof (cases r1)
    case (Ok u)
    then have "remove_blob_files io evs c1 = (c', r)" using Cons.prems ev s by simp
    then show ?thesis using Cons.IH remove_blob_file_frame [OF s] by metis
  qed (use Cons.prems ev s remove_blob_file_frame [OF s] in auto)
qed simp

section \<open>Insertion and eviction\<close>

lemma bytes_of_mset: "mset es = mset fs \<Longrightarrow> bytes_of es = bytes_of fs"
  unfolding bytes_of_def sum_mset_sum_list [symmetric] mset_map by simp

lemma evict_run_wf:
  assumes "evict_run limit rs (es, bytes_of es, bo) gone (fs, tot, bo')"
  shows "mset es = mset fs + mset gone \<and> tot = bytes_of fs \<and> (owners_wf bo \<longrightarrow> owners_wf bo')"
proof -
  have p: "mset es = mset fs + mset gone" "tot = bytes_of es - bytes_of gone"
    "bo' = filter (\<lambda>p. fst p \<notin> fst ` set gone) bo"
    using evict_run_partition [OF assms] by auto
  have "bytes_of es = bytes_of (fs @ gone)" by (rule bytes_of_mset) (simp add: p(1))
  then show ?thesis using p by (simp add: owners_wf_filter)
qed

context lru_index
begin

text \<open>The state the eviction loop starts from.\<close>

lemma lru_insert_evict_spec:
  assumes wf: "state_wf L (state c)"
    and es_def: "es = insert_back key \<lparr> entry_size = sz, entry_algorithm = a \<rparr> (lru_list L (state c))"
  obtains c' gone where
    "lru_insert_evict L key sz a c = Some (c', map (\<lambda>p. (fst p, entry_algorithm (snd p))) gone)"
    "evict_run (max_bytes c) (reservations (state c)) (es, bytes_of es, blob_owners (state c)) gone
       (lru_list L (state c'), total_bytes (state c'), blob_owners (state c'))"
    "reservations (state c') = reservations (state c)"
    "max_bytes c' = max_bytes c" "cache_root c' = cache_root c" "disk c' = disk c"
    "total_bytes (state c') \<le> max_bytes c
       \<or> (\<forall>q\<in>set (lru_list L (state c')). is_protected_by_reservation L (fst q) (state c'))"
proof -
  let ?e = "\<lparr> entry_size = sz, entry_algorithm = a \<rparr>"
  let ?tot = "case lhm_get L key (entries (state c)) of
      Some existing \<Rightarrow> total_bytes (state c) - entry_size existing | None \<Rightarrow> total_bytes (state c)"
  let ?st1 = "(state c)\<lparr> entries := lhm_insert L key ?e (entries (state c)), total_bytes := ?tot + sz \<rparr>"
  have E1: "lru_list L ?st1 = es" by (simp add: iter_insert es_def)
  have T1: "total_bytes ?st1 = bytes_of es"
    using wf bytes_of_insert_back [OF iter_distinct [of "entries (state c)"], where k = key and e = ?e]
    by (auto simp: state_wf_def es_def get_iter split: option.splits)
  obtain st2 b gone where R:
    "evict_loop L (max_bytes c) 0 ?st1 (eviction_blocked_total c) []
      = Some (st2, b, map (\<lambda>p. (fst p, entry_algorithm (snd p))) gone)"
    "evict_run (max_bytes c) (reservations ?st1) (view ?st1) gone (view st2)"
    "reservations st2 = reservations ?st1"
    "total_bytes st2 \<le> max_bytes c \<or> (\<forall>q\<in>set (lru_list L st2). is_protected_by_reservation L (fst q) st2)"
    using evict_loop_returns [of ?st1 0 "max_bytes c" "eviction_blocked_total c" "[]"] by auto
  show ?thesis
  proof (rule that [of "c\<lparr> state := st2, eviction_blocked_total := b \<rparr>" gone])
    show "lru_insert_evict L key sz a c
      = Some (c\<lparr> state := st2, eviction_blocked_total := b \<rparr>, map (\<lambda>p. (fst p, entry_algorithm (snd p))) gone)"
      using R(1) by (simp add: lru_insert_evict_def Let_def)
    show "evict_run (max_bytes c) (reservations (state c)) (es, bytes_of es, blob_owners (state c)) gone
       (lru_list L (state (c\<lparr> state := st2, eviction_blocked_total := b \<rparr>)),
        total_bytes (state (c\<lparr> state := st2, eviction_blocked_total := b \<rparr>)),
        blob_owners (state (c\<lparr> state := st2, eviction_blocked_total := b \<rparr>)))"
      using R(2) E1 T1 by simp
  qed (use R in simp_all)
qed

text \<open>The run of one insertion, with the conclusion each property below takes from it.\<close>

lemma insert_evict_fits:
  assumes wf: "state_wf L (state c)"
  obtains c' evicted where "lru_insert_evict L key sz a c = Some (c', evicted)" "state_wf L (state c')"
    "total_bytes (state c') \<le> max_bytes c
       \<or> (\<forall>q\<in>set (lru_list L (state c')). is_protected_by_reservation L (fst q) (state c'))"
proof -
  obtain c' gone where R:
    "lru_insert_evict L key sz a c = Some (c', map (\<lambda>p. (fst p, entry_algorithm (snd p))) gone)"
    "evict_run (max_bytes c) (reservations (state c))
       (insert_back key \<lparr> entry_size = sz, entry_algorithm = a \<rparr> (lru_list L (state c)),
        bytes_of (insert_back key \<lparr> entry_size = sz, entry_algorithm = a \<rparr> (lru_list L (state c))),
        blob_owners (state c)) gone (view (state c'))"
    "reservations (state c') = reservations (state c)"
    "total_bytes (state c') \<le> max_bytes c
       \<or> (\<forall>q\<in>set (lru_list L (state c')). is_protected_by_reservation L (fst q) (state c'))"
    by (rule lru_insert_evict_spec [OF wf refl])
  then have "state_wf L (state c')"
    using evict_run_wf [OF R(2)] wf by (simp add: state_wf_def)
  then show ?thesis using R that by blast
qed

lemma insert_evict_protects:
  assumes wf: "state_wf L (state c)"
    and q: "q \<in> set (lhm_iter L (lhm_insert L key \<lparr> entry_size = sz, entry_algorithm = a \<rparr> (entries (state c))))"
    and prot: "is_protected_by_reservation L (fst q) ((state c)\<lparr>
           entries := lhm_insert L key \<lparr> entry_size = sz, entry_algorithm = a \<rparr> (entries (state c)) \<rparr>)"
    and nowrap: "nat_bytes_of (lhm_iter L (lhm_insert L key \<lparr> entry_size = sz, entry_algorithm = a \<rparr>
           (entries (state c)))) < 2 ^ 64"
  shows "\<exists>c' evicted. lru_insert_evict L key sz a c = Some (c', evicted) \<and> q \<in> set (lru_list L (state c'))"
proof -
  let ?es = "insert_back key \<lparr> entry_size = sz, entry_algorithm = a \<rparr> (lru_list L (state c))"
  obtain c' gone where R:
    "lru_insert_evict L key sz a c = Some (c', map (\<lambda>p. (fst p, entry_algorithm (snd p))) gone)"
    "evict_run (max_bytes c) (reservations (state c)) (?es, bytes_of ?es, blob_owners (state c)) gone
       (view (state c'))"
    by (rule lru_insert_evict_spec [OF wf refl])
  have "prot_of ?es (blob_owners (state c)) (reservations (state c)) (fst q)"
    using prot by (simp add: is_protected_eq iter_insert)
  moreover have "distinct (keys_of ?es)"
    using distinct_insert_back [OF iter_distinct [of "entries (state c)"]] by simp
  ultimately have "q \<in> set (lru_list L (state c'))"
    using evict_run_keeps_protected [OF R(2), of q] wf q nowrap
    by (simp add: iter_insert state_wf_def owners_wf_def)
  then show ?thesis using R(1) by blast
qed

lemma insert_evict_partition:
  assumes wf: "state_wf L (state c)"
    and es: "es = insert_back key \<lparr> entry_size = sz, entry_algorithm = a \<rparr> (lru_list L (state c))"
  obtains c' gone where
    "lru_insert_evict L key sz a c = Some (c', map (\<lambda>p. (fst p, entry_algorithm (snd p))) gone)"
    "mset es = mset (lru_list L (state c')) + mset gone"
    "blob_owners (state c') = filter (\<lambda>p. fst p \<notin> fst ` set gone) (blob_owners (state c))"
    "\<forall>j<length gone. max_bytes c < bytes_of es - bytes_of (take j gone)"
    "reservations (state c) = [] \<longrightarrow>
       gone = take (drop_count (max_bytes c) (bytes_of es) es) es
       \<and> lru_list L (state c') = drop (drop_count (max_bytes c) (bytes_of es) es) es"
proof -
  obtain c' gone where R:
    "lru_insert_evict L key sz a c = Some (c', map (\<lambda>p. (fst p, entry_algorithm (snd p))) gone)"
    "evict_run (max_bytes c) (reservations (state c)) (es, bytes_of es, blob_owners (state c)) gone
       (view (state c'))"
    "reservations (state c') = reservations (state c)"
    "total_bytes (state c') \<le> max_bytes c
       \<or> (\<forall>q\<in>set (lru_list L (state c')). is_protected_by_reservation L (fst q) (state c'))"
    by (rule lru_insert_evict_spec [OF wf es])
  have "reservations (state c) = [] \<Longrightarrow> total_bytes (state c') \<le> max_bytes c \<or> lru_list L (state c') = []"
    using R(3,4) by (cases "lru_list L (state c')") (auto simp: is_protected_by_reservation_def)
  then have "reservations (state c) = [] \<longrightarrow>
       gone = take (drop_count (max_bytes c) (bytes_of es) es) es
       \<and> lru_list L (state c') = drop (drop_count (max_bytes c) (bytes_of es) es) es"
    using evict_run_no_reservations [OF R(2)] by auto
  then show ?thesis
    using that [OF R(1)] evict_run_partition [OF R(2)] evict_run_needed [OF R(2)] by auto
qed

end

end
