(* ===== verification/Cache_Budget.thy ===== *)
theory Cache_Budget
  imports Cache_Invariants
begin

text \<open>
  Reservations (\<open>register_mount\<close>, \<open>unregister_mount\<close> and the rebalance they end in,
  \<open>crates/ctxfs-cache/src/lib.rs\<close>): the shares the formula hands out, and the life of a mount's
  entry and of its ownership of blobs.
\<close>

section \<open>The rebalance formula\<close>

text \<open>The explicit reservations as a natural number, and the number of default mounts.\<close>

definition explicit_sum :: "(repo_key \<times> reservation_entry) list \<Rightarrow> nat" where
  "explicit_sum rs = (\<Sum>p\<leftarrow>rs. if is_explicit_override (snd p) then unat (reserved_bytes (snd p)) else 0)"

definition default_mounts :: "(repo_key \<times> reservation_entry) list \<Rightarrow> nat" where
  "default_mounts rs = length (filter (\<lambda>p. \<not> is_explicit_override (snd p)) rs)"

definition reserved_sum :: "(repo_key \<times> reservation_entry) list \<Rightarrow> nat" where
  "reserved_sum rs = (\<Sum>p\<leftarrow>rs. unat (reserved_bytes (snd p)))"

definition default_share :: "u64 \<Rightarrow> (repo_key \<times> reservation_entry) list \<Rightarrow> nat" where
  "default_share mx rs = (if default_mounts rs = 0 then 0 else (unat mx - explicit_sum rs) div default_mounts rs)"

lemma explicit_total_unat:
  assumes "explicit_sum rs < 2 ^ 64"
  shows "unat (sum_list (map reserved_bytes (filter is_explicit_override (map snd rs))) :: u64) = explicit_sum rs"
  using assms
proof (induction rs)
  case (Cons p rs)
  then show ?case by (auto simp: explicit_sum_def unat_word_ariths)
qed (simp add: explicit_sum_def)

lemma default_count_length: "length (filter (\<lambda>e. \<not> is_explicit_override e) (map snd rs)) = default_mounts rs"
  by (induction rs) (auto simp: default_mounts_def)

text \<open>The share of one default mount, as the code computes it.\<close>

definition rebalance_share :: "u64 \<Rightarrow> (repo_key \<times> reservation_entry) list \<Rightarrow> u64" where
  "rebalance_share mx rs =
     div_or_zero (sat_sub mx (sum_list (map reserved_bytes (filter is_explicit_override (map snd rs)))))
       (of_nat (length (filter (\<lambda>e. \<not> is_explicit_override e) (map snd rs))))"

lemma reservations_rebalance:
  "reservations (rebalance_default_reservations mx st) =
     map (\<lambda>(k, e). (k, if is_explicit_override e then e
                        else e\<lparr> reserved_bytes := rebalance_share mx (reservations st) \<rparr>)) (reservations st)"
  unfolding rebalance_default_reservations_def rebalance_share_def Let_def by simp

lemma rebalance_share_unat:
  assumes "explicit_sum rs < 2 ^ 64" "length rs < 2 ^ 64"
  shows "unat (rebalance_share mx rs) = default_share mx rs"
proof -
  have "default_mounts rs \<le> length rs" by (simp add: default_mounts_def)
  then have "default_mounts rs < 2 ^ 64" using assms(2) by simp
  then have c: "unat (of_nat (default_mounts rs) :: u64) = default_mounts rs"
    by (simp add: unat_of_nat)
  have z: "(of_nat (default_mounts rs) :: u64) = 0 \<longleftrightarrow> default_mounts rs = 0"
    using c by (metis unat_eq_zero of_nat_0)
  show ?thesis
    using c z explicit_total_unat [OF assms(1)]
    unfolding rebalance_share_def default_count_length
    by (simp add: default_share_def div_or_zero_def unat_div unat_sat_sub)
qed

lemma reserved_sum_split:
  "reserved_sum (map (\<lambda>(k, e). (k, if is_explicit_override e then e else e\<lparr> reserved_bytes := share \<rparr>)) rs)
     = explicit_sum rs + default_mounts rs * unat share"
  by (induction rs) (auto simp: reserved_sum_def explicit_sum_def default_mounts_def)

lemma filter_explicit_share:
  "filter (\<lambda>p. is_explicit_override (snd p))
     (map (\<lambda>(k, e). (k, if is_explicit_override e then e else e\<lparr> reserved_bytes := share \<rparr>)) rs)
   = filter (\<lambda>p. is_explicit_override (snd p)) rs"
  by (induction rs) (auto split: if_splits)

text \<open>
  Rebalancing leaves the explicit reservations and the set of mounts alone, gives each default
  mount the same share of what the explicit ones leave of the cache, and hands out no more than the
  cache (unless the explicit reservations alone exceed it), as long as their sum stays below \<open>2^64\<close>.
\<close>

theorem rebalance_fair:
  assumes "explicit_sum (reservations st) < 2 ^ 64" "length (reservations st) < 2 ^ 64"
    and "rs' = reservations (rebalance_default_reservations mx st)"
  shows "map (\<lambda>p. (fst p, is_explicit_override (snd p), refcount (snd p))) rs'
       = map (\<lambda>p. (fst p, is_explicit_override (snd p), refcount (snd p))) (reservations st)
     \<and> filter (\<lambda>p. is_explicit_override (snd p)) rs' = filter (\<lambda>p. is_explicit_override (snd p)) (reservations st)
     \<and> (\<forall>p\<in>set rs'. \<not> is_explicit_override (snd p)
          \<longrightarrow> unat (reserved_bytes (snd p)) = default_share mx (reservations st))
     \<and> reserved_sum rs' \<le> max (unat mx) (explicit_sum (reservations st))"
proof (intro conjI)
  let ?rs = "reservations st"
  have rs': "rs' = map (\<lambda>(k, e). (k, if is_explicit_override e then e
                        else e\<lparr> reserved_bytes := rebalance_share mx ?rs \<rparr>)) ?rs"
    using assms(3) by (simp add: reservations_rebalance)
  have share: "unat (rebalance_share mx ?rs) = default_share mx ?rs"
    by (rule rebalance_share_unat [OF assms(1,2)])
  show "map (\<lambda>p. (fst p, is_explicit_override (snd p), refcount (snd p))) rs'
       = map (\<lambda>p. (fst p, is_explicit_override (snd p), refcount (snd p))) ?rs"
    by (auto simp: rs' split: if_splits)
  show "filter (\<lambda>p. is_explicit_override (snd p)) rs' = filter (\<lambda>p. is_explicit_override (snd p)) ?rs"
    using filter_explicit_share [of "rebalance_share mx ?rs" ?rs] by (simp add: rs')
  show "\<forall>p\<in>set rs'. \<not> is_explicit_override (snd p) \<longrightarrow> unat (reserved_bytes (snd p)) = default_share mx ?rs"
    using share by (auto simp: rs' split: if_splits)
  have "reserved_sum rs' = explicit_sum ?rs + default_mounts ?rs * default_share mx ?rs"
    by (simp add: rs' reserved_sum_split share)
  moreover have "default_mounts ?rs * default_share mx ?rs \<le> unat mx - explicit_sum ?rs"
    by (simp add: default_share_def)
  ultimately show "reserved_sum rs' \<le> max (unat mx) (explicit_sum ?rs)" by linarith
qed

text \<open>One explicit mount of 6 bytes and two default mounts in a cache of 20.\<close>

definition demo_mounts :: "(repo_key \<times> reservation_entry) list" where
  "demo_mounts =
     [(RepoKey ''h'' ''o'' ''a'', \<lparr> reserved_bytes = 6, is_explicit_override = True, refcount = 1 \<rparr>),
      (RepoKey ''h'' ''o'' ''b'', \<lparr> reserved_bytes = 0, is_explicit_override = False, refcount = 1 \<rparr>),
      (RepoKey ''h'' ''o'' ''c'', \<lparr> reserved_bytes = 9, is_explicit_override = False, refcount = 2 \<rparr>)]"

theorem rebalance_fair_witness:
  "let rs' = reservations (rebalance_default_reservations 20
        \<lparr> entries = (), total_bytes = 0, blob_owners = [], reservations = demo_mounts \<rparr>)
   in reserved_sum rs' \<le> 20 \<and> map (\<lambda>p. unat (reserved_bytes (snd p))) rs' = [6, 7, 7]"
proof -
  let ?st = "\<lparr> entries = (), total_bytes = 0, blob_owners = [], reservations = demo_mounts \<rparr>"
  have sum: "explicit_sum (reservations ?st) = 6" by (simp add: explicit_sum_def demo_mounts_def)
  then have "explicit_sum (reservations ?st) < 2 ^ 64" "length (reservations ?st) < 2 ^ 64"
    by (simp_all add: demo_mounts_def)
  from rebalance_fair [OF this refl, of 20] sum
  have "reserved_sum (reservations (rebalance_default_reservations 20 ?st)) \<le> 20" by simp
  moreover have "map (\<lambda>p. unat (reserved_bytes (snd p))) (reservations (rebalance_default_reservations 20 ?st)) = [6, 7, 7]"
    by code_simp
  ultimately show ?thesis unfolding Let_def by blast
qed

text \<open>
  The explicit reservations are added up modulo \<open>2^64\<close>: two mounts that reserve \<open>2^63\<close> bytes
  each count as nothing, and a default mount beside them is given the whole cache.
\<close>

theorem rebalance_sum_wraps:
  "let e = \<lparr> reserved_bytes = 2 ^ 63, is_explicit_override = True, refcount = 1 \<rparr>;
       d = \<lparr> reserved_bytes = 0, is_explicit_override = False, refcount = 1 \<rparr>;
       st = \<lparr> entries = (), total_bytes = 0, blob_owners = [],
              reservations = [(RepoKey [] [] ''a'', e), (RepoKey [] [] ''b'', e), (RepoKey [] [] ''c'', d)] \<rparr>
   in map_of (reservations (rebalance_default_reservations 1000 st)) (RepoKey [] [] ''c'')
        = Some (d\<lparr> reserved_bytes := 1000 \<rparr>)"
  by (simp add: rebalance_default_reservations_def Let_def div_or_zero_def sat_sub_def)

section \<open>Mounting and unmounting\<close>

lemma map_of_rebalance:
  "map_of (reservations (rebalance_default_reservations mx st)) k =
     map_option (\<lambda>e. if is_explicit_override e then e
                     else e\<lparr> reserved_bytes := rebalance_share mx (reservations st) \<rparr>) (map_of (reservations st) k)"
  unfolding reservations_rebalance by (rule map_of_map_values)

lemma refcount_rebalance:
  "map_option refcount (map_of (reservations (rebalance_default_reservations mx st)) k)
     = map_option refcount (map_of (reservations st) k)"
  by (cases "map_of (reservations st) k") (auto simp: map_of_rebalance)

text \<open>How many mounts of a repository are counted.\<close>

definition mounts_of :: "repo_key \<Rightarrow> 'm blob_cache \<Rightarrow> nat" where
  "mounts_of k c = (case map_of (reservations (state c)) k of Some e \<Rightarrow> unat (refcount e) | None \<Rightarrow> 0)"

definition owns :: "repo_key \<Rightarrow> string \<Rightarrow> 'm blob_cache \<Rightarrow> bool" where
  "owns k h c \<longleftrightarrow> (case map_of (blob_owners (state c)) h of Some ks \<Rightarrow> k \<in> set ks | None \<Rightarrow> False)"

lemma mounts_of_eq:
  "mounts_of k c = (case map_option refcount (map_of (reservations (state c)) k) of Some n \<Rightarrow> unat n | None \<Rightarrow> 0)"
  by (simp add: mounts_of_def split: option.splits)

lemma map_of_add_owner_entry:
  "map_of (add_owner_entry key h bo) h' =
     (if h' = h then Some (btree_insert key (case map_of bo h of Some ks \<Rightarrow> ks | None \<Rightarrow> [])) else map_of bo h')"
  by (simp add: add_owner_entry_def AList.update_conv')

lemma owner_seed:
  "(case map_of (seed_owners key hs bo) h of Some ks \<Rightarrow> k \<in> set ks | None \<Rightarrow> False) \<longleftrightarrow>
     (case map_of bo h of Some ks \<Rightarrow> k \<in> set ks | None \<Rightarrow> False) \<or> k = key \<and> h \<in> set hs"
proof (induction hs arbitrary: bo)
  case (Cons h1 hs)
  have "(case map_of (add_owner_entry key h1 bo) h of Some ks \<Rightarrow> k \<in> set ks | None \<Rightarrow> False) \<longleftrightarrow>
     (case map_of bo h of Some ks \<Rightarrow> k \<in> set ks | None \<Rightarrow> False) \<or> k = key \<and> h = h1"
    by (auto simp: map_of_add_owner_entry split: option.splits)
  then show ?case using Cons.IH [of "add_owner_entry key h1 bo"] by (auto simp: seed_owners_def)
qed (simp add: seed_owners_def)

lemma map_of_drop_owner:
  "distinct (keys_of bo) \<Longrightarrow> map_of (drop_owner key bo) h =
     (case map_of bo h of
        Some ks \<Rightarrow> if filter (\<lambda>k. k \<noteq> key) ks = [] then None else Some (filter (\<lambda>k. k \<noteq> key) ks)
      | None \<Rightarrow> None)"
proof (induction bo)
  case (Cons p bo)
  obtain h1 ks where p: "p = (h1, ks)" by (cases p)
  have "h1 \<notin> fst ` set bo" using Cons.prems p by simp
  then have n: "map_of bo h1 = None" by (simp add: map_of_eq_None_iff)
  have "drop_owner key (p # bo) =
      (if filter (\<lambda>k. k \<noteq> key) ks = [] then drop_owner key bo
       else (h1, filter (\<lambda>k. k \<noteq> key) ks) # drop_owner key bo)"
    by (simp add: drop_owner_def p)
  then show ?case using Cons p n by (auto split: option.splits)
qed (simp add: drop_owner_def)

lemma mounts_register:
  "mounts_of k (register_mount key rb hs c) =
     (if k = key then (case map_of (reservations (state c)) key of
          Some e \<Rightarrow> unat (refcount e + 1) | None \<Rightarrow> 1) else mounts_of k c)"
  unfolding mounts_of_eq register_mount_def Let_def
  by (auto simp: refcount_rebalance AList.update_conv' register_entry_def Let_def split: option.splits)

lemma owns_register: "owns k h (register_mount key rb hs c) \<longleftrightarrow> owns k h c \<or> k = key \<and> h \<in> set hs"
  unfolding owns_def register_mount_def Let_def using owner_seed [where key = key and hs = hs and bo = "blob_owners (state c)" and h = h and k = k]
  by simp

text \<open>The state after the table update of \<open>unregister_mount\<close>, before the rebalance.\<close>

lemma unregister_cases:
  "unregister_mount key c =
     c\<lparr> state := rebalance_default_reservations (max_bytes c)
       (case map_of (reservations (state c)) key of
          None \<Rightarrow> state c
        | Some e \<Rightarrow>
            if unat (refcount e) \<le> 1
            then (state c)\<lparr> reservations := AList.delete key (reservations (state c)),
                            blob_owners := drop_owner key (blob_owners (state c)) \<rparr>
            else (state c)\<lparr> reservations := AList.update key (e\<lparr> refcount := refcount e - 1 \<rparr>)
                              (reservations (state c)) \<rparr>) \<rparr>"
proof (cases "map_of (reservations (state c)) key")
  case (Some e)
  have z: "sat_sub (refcount e) 1 = 0 \<longleftrightarrow> unat (refcount e) \<le> 1"
    by (metis diff_is_0_eq unat_sat_sub unat_1 unat_eq_zero)
  have s: "\<not> unat (refcount e) \<le> 1 \<Longrightarrow> sat_sub (refcount e) 1 = refcount e - 1"
    by (simp add: sat_sub_def word_le_nat_alt)
  have d: "AList.delete key (AList.update key x m) = AList.delete key m" for x :: reservation_entry and m
    by (induction m) auto
  show ?thesis
    using Some z s by (simp add: unregister_mount_def Let_def d)
qed (simp add: unregister_mount_def)

lemma mounts_unregister:
  "mounts_of k (unregister_mount key c) = (if k = key then mounts_of k c - 1 else mounts_of k c)"
proof (cases "map_of (reservations (state c)) key")
  case None
  then show ?thesis by (auto simp: unregister_cases mounts_of_eq refcount_rebalance)
next
  case (Some e)
  have "1 < unat (refcount e) \<Longrightarrow> unat (refcount e - 1) = unat (refcount e) - 1"
    by (simp add: unat_sub word_le_nat_alt)
  then show ?thesis
    using Some
    by (auto simp: unregister_cases mounts_of_eq refcount_rebalance AList.update_conv' AList.delete_conv')
qed

lemma owns_unregister:
  assumes "distinct (keys_of (blob_owners (state c)))"
  shows "owns k h (unregister_mount key c) \<longleftrightarrow>
     owns k h c \<and> (k = key \<longrightarrow> map_of (reservations (state c)) key = None \<or> 1 < mounts_of key c)"
proof (cases "map_of (reservations (state c)) key")
  case None
  then show ?thesis by (simp add: unregister_cases owns_def)
next
  case (Some e)
  have "(case map_of (drop_owner key (blob_owners (state c))) h of Some ks \<Rightarrow> k \<in> set ks | None \<Rightarrow> False)
      \<longleftrightarrow> owns k h c \<and> k \<noteq> key"
    using map_of_drop_owner [OF assms, of key h]
    by (auto simp: owns_def filter_empty_conv split: option.splits)
  then show ?thesis using Some by (auto simp: unregister_cases owns_def mounts_of_def)
qed

text \<open>
  Registering a mount counts it and makes its repository an owner of every blob of its manifest;
  unregistering takes one mount off; the last one removes the budget and every ownership of the
  repository. Other repositories keep their counts and their blobs through both.
\<close>

theorem mount_lifecycle:
  assumes "distinct (keys_of (blob_owners (state c)))" "mounts_of key c < 2 ^ 32 - 1"
    and "c1 = register_mount key rb hexes c" "c2 = unregister_mount key c"
  shows "mounts_of k c1 = (if k = key then mounts_of k c + 1 else mounts_of k c)
     \<and> (owns k h c1 \<longleftrightarrow> owns k h c \<or> k = key \<and> h \<in> set hexes)
     \<and> mounts_of k c2 = (if k = key then mounts_of k c - 1 else mounts_of k c)
     \<and> (k \<noteq> key \<longrightarrow> (owns k h c2 \<longleftrightarrow> owns k h c))
     \<and> (mounts_of key c = 1 \<longrightarrow> reservation_bytes key c2 = None \<and> \<not> owns key h c2)
     \<and> (1 < mounts_of key c \<longrightarrow> reservation_bytes key c2 \<noteq> None \<and> (owns key h c2 \<longleftrightarrow> owns key h c))"
proof (intro conjI impI)
  have "unat (refcount e + 1) = unat (refcount e) + 1"
    if "map_of (reservations (state c)) key = Some e" for e
    using assms(2) that by (simp add: mounts_of_def unat_word_ariths)
  then show "mounts_of k c1 = (if k = key then mounts_of k c + 1 else mounts_of k c)"
    unfolding assms(3) mounts_register by (auto simp: mounts_of_def split: option.splits)
  show "owns k h c1 \<longleftrightarrow> owns k h c \<or> k = key \<and> h \<in> set hexes"
    unfolding assms(3) by (rule owns_register)
  show "mounts_of k c2 = (if k = key then mounts_of k c - 1 else mounts_of k c)"
    unfolding assms(4) by (rule mounts_unregister)
  show "k \<noteq> key \<Longrightarrow> owns k h c2 \<longleftrightarrow> owns k h c"
    unfolding assms(4) owns_unregister [OF assms(1)] by simp
  show "mounts_of key c = 1 \<Longrightarrow> reservation_bytes key c2 = None"
    unfolding assms(4)
    by (auto simp: mounts_of_def reservation_bytes_def unregister_cases map_of_rebalance AList.delete_conv'
        split: option.splits)
  show "mounts_of key c = 1 \<Longrightarrow> \<not> owns key h c2"
    unfolding assms(4) owns_unregister [OF assms(1)] by (auto simp: mounts_of_def split: option.splits)
  show "1 < mounts_of key c \<Longrightarrow> reservation_bytes key c2 \<noteq> None"
    unfolding assms(4)
    by (auto simp: mounts_of_def reservation_bytes_def unregister_cases map_of_rebalance AList.update_conv'
        split: option.splits)
  show "1 < mounts_of key c \<Longrightarrow> owns key h c2 \<longleftrightarrow> owns key h c"
    unfolding assms(4) owns_unregister [OF assms(1)] by simp
qed

theorem mount_lifecycle_witness:
  "let c = \<lparr> cache_root = ''/c'', max_bytes = 20, state = \<lparr> entries = (), total_bytes = 0,
         blob_owners = [(''aa0'', [RepoKey ''h'' ''o'' ''b''])], reservations = demo_mounts \<rparr>,
         eviction_blocked_total = 0, disk = Map.empty \<rparr>;
       k = RepoKey ''h'' ''o'' ''b''
   in mounts_of k c = 1 \<and> owns k ''aa0'' c
     \<and> mounts_of k (register_mount k None [''bb1''] c) = 2
     \<and> reservation_bytes k (unregister_mount k c) = None \<and> \<not> owns k ''aa0'' (unregister_mount k c)"
proof -
  let ?c = "\<lparr> cache_root = ''/c'', max_bytes = 20, state = \<lparr> entries = (), total_bytes = 0,
         blob_owners = [(''aa0'', [RepoKey ''h'' ''o'' ''b''])], reservations = demo_mounts \<rparr>,
         eviction_blocked_total = 0, disk = Map.empty \<rparr>" and ?k = "RepoKey ''h'' ''o'' ''b''"
  have m: "mounts_of ?k ?c = 1" by (simp add: mounts_of_def demo_mounts_def)
  have o: "owns ?k ''aa0'' ?c" by (simp add: owns_def)
  have d: "distinct (keys_of (blob_owners (state ?c)))" by simp
  have l: "mounts_of ?k ?c < 2 ^ 32 - 1" using m by simp
  show ?thesis
    using mount_lifecycle [OF d l refl refl, where rb = None and hexes = "[''bb1'']" and k = ?k and h = "''aa0''"] m o
    unfolding Let_def by simp
qed

end
