(* ===== verification/Cache_Files.thy ===== *)
theory Cache_Files
  imports Cache_Invariants
begin

text \<open>
  The blob cache and its files together: the operations as a step relation, with the two
  invariants every sequence of steps keeps. The index is well formed, and every tracked blob has a
  file at the path the cache reads it from.
\<close>

section \<open>Paths of blobs\<close>

abbreviation entry_digest :: "string \<times> cache_entry \<Rightarrow> digest" where
  "entry_digest q \<equiv> \<lparr> dg_algorithm = entry_algorithm (snd q), dg_hex = fst q \<rparr>"

lemma path_push_inject:
  "\<not> starts_with ''/'' p \<Longrightarrow> \<not> starts_with ''/'' q \<Longrightarrow> path_push b p = path_push b q \<longleftrightarrow> p = q"
  by (auto simp: path_push_def)

lemma to_path_relative: "to_path d = Some p \<Longrightarrow> hex_ok (dg_hex d) \<Longrightarrow> hd p = CHR ''s'' \<and> p \<noteq> []"
  by (cases "dg_algorithm d") (auto simp: to_path_hex_ok)

lemma blob_path_inject:
  assumes "hex_ok (dg_hex d)" "hex_ok (dg_hex e)" "blob_path c d = blob_path c e"
  shows "d = e"
proof -
  obtain p q where p: "to_path d = Some p" and q: "to_path e = Some q"
    using assms by (simp add: to_path_hex_ok)
  have "\<not> starts_with ''/'' p" "\<not> starts_with ''/'' q"
    using to_path_relative [OF p assms(1)] to_path_relative [OF q assms(2)]
    by (cases p; cases q; simp add: starts_with_def)+
  then have "to_path d = to_path e"
    using assms(3) p q by (simp add: blob_path_def path_push_inject)
  then show ?thesis using to_path_inject assms by blast
qed

lemma blob_path_hex_ok: "hex_ok (dg_hex d) \<Longrightarrow> \<exists>p. blob_path c d = Some p"
  by (simp add: blob_path_def to_path_hex_ok)

lemma blob_path_root: "cache_root c' = cache_root c \<Longrightarrow> blob_path c' d = blob_path c d"
  by (simp add: blob_path_def)

text \<open>A file under \<open>tmp/\<close> is never a blob's file.\<close>

lemma tmp_path_not_blob:
  assumes "hex_ok (dg_hex d)" "nm \<noteq> []" "\<not> starts_with ''/'' nm"
  shows "blob_path c d \<noteq> Some (path_push (path_push (cache_root c) ''tmp'') nm)"
proof
  assume eq: "blob_path c d = Some (path_push (path_push (cache_root c) ''tmp'') nm)"
  obtain p where p: "to_path d = Some p" using assms(1) by (simp add: to_path_hex_ok)
  have s: "hd p = CHR ''s''" "p \<noteq> []" using to_path_relative [OF p assms(1)] by auto
  then have rel: "\<not> starts_with ''/'' p" by (cases p) (auto simp: starts_with_def)
  have "path_push (path_push (cache_root c) ''tmp'') nm = path_push (cache_root c) (''tmp/'' @ nm)"
    using assms(3) by (auto simp: path_push_def starts_with_def ends_with_def)
  then have "path_push (cache_root c) p = path_push (cache_root c) (''tmp/'' @ nm)"
    using eq p by (simp add: blob_path_def)
  moreover have "\<not> starts_with ''/'' (''tmp/'' @ nm)" by (simp add: starts_with_def)
  ultimately have "p = ''tmp/'' @ nm" using path_push_inject rel by blast
  then show False using s by simp
qed

section \<open>What removing files touches\<close>

lemma remove_blob_file_disk:
  "remove_blob_file io h a c = (c', r) \<Longrightarrow> blob_path c \<lparr> dg_algorithm = a, dg_hex = h \<rparr> \<noteq> Some p \<Longrightarrow>
     disk c' p = disk c p"
  by (auto simp: remove_blob_file_def split: option.splits if_splits)

lemma remove_blob_files_disk:
  "remove_blob_files io evs c = (c', r) \<Longrightarrow>
   \<forall>(k, a)\<in>set evs. blob_path c \<lparr> dg_algorithm = a, dg_hex = k \<rparr> \<noteq> Some p \<Longrightarrow> disk c' p = disk c p"
proof (induction evs arbitrary: c)
  case (Cons ev evs)
  obtain k a where ev: "ev = (k, a)" by (cases ev)
  obtain c1 r1 where s: "remove_blob_file io k a c = (c1, r1)" by (cases "remove_blob_file io k a c")
  have d1: "disk c1 p = disk c p" using remove_blob_file_disk [OF s] Cons.prems(2) ev by auto
  have root: "blob_path c1 d = blob_path c d" for d
    by (rule blob_path_root) (use remove_blob_file_frame [OF s] in simp)
  show ?case
  proof (cases r1)
    case (Ok u)
    then have "remove_blob_files io evs c1 = (c', r)" using Cons.prems ev s by simp
    then show ?thesis using Cons.IH [of c1] Cons.prems(2) root d1 by simp
  qed (use Cons.prems ev s d1 in auto)
qed simp

lemma remove_blob_files_ok:
  "\<forall>ev\<in>set evs. hex_ok (fst ev) \<Longrightarrow> snd (remove_blob_files io evs c) = Ok ()"
proof (induction evs arbitrary: c)
  case (Cons ev evs)
  obtain k a where ev: "ev = (k, a)" by (cases ev)
  obtain p where "blob_path c \<lparr> dg_algorithm = a, dg_hex = k \<rparr> = Some p"
    using blob_path_hex_ok [of "\<lparr> dg_algorithm = a, dg_hex = k \<rparr>"] Cons.prems ev by auto
  then obtain c1 where "remove_blob_file io k a c = (c1, Ok ())"
    by (auto simp: remove_blob_file_def)
  then have "remove_blob_files io (ev # evs) c = remove_blob_files io evs c1" using ev by simp
  moreover have "snd (remove_blob_files io evs c1) = Ok ()" using Cons.IH Cons.prems by simp
  ultimately show ?case by simp
qed simp

section \<open>Tracking a blob, with its files\<close>

definition files_wf :: "'m lru_ops \<Rightarrow> 'm blob_cache \<Rightarrow> bool" where
  "files_wf L c \<longleftrightarrow>
     (\<forall>q\<in>set (lru_list L (state c)). hex_ok (fst q) \<and>
        (\<exists>p data. blob_path c (entry_digest q) = Some p \<and> disk c p = Some data))"

context lru_index
begin

lemma track_and_evict_spec:
  assumes wf: "state_wf L (state c)"
  obtains c' r gone where
    "track_and_evict L io d sz c = Some (c', r)" "state_wf L (state c')"
    "mset (insert_back (dg_hex d) \<lparr> entry_size = sz, entry_algorithm = dg_algorithm d \<rparr> (lru_list L (state c)))
       = mset (lru_list L (state c')) + mset gone"
    "\<forall>p. (\<forall>q\<in>set gone. blob_path c (entry_digest q) \<noteq> Some p) \<longrightarrow> disk c' p = disk c p"
    "cache_root c' = cache_root c" "max_bytes c' = max_bytes c"
    "(\<forall>q\<in>set gone. hex_ok (fst q)) \<longrightarrow> r = Ok ()"
    "total_bytes (state c') \<le> max_bytes c
       \<or> (\<forall>q\<in>set (lru_list L (state c')). is_protected_by_reservation L (fst q) (state c'))"
proof -
  let ?es = "insert_back (dg_hex d) \<lparr> entry_size = sz, entry_algorithm = dg_algorithm d \<rparr> (lru_list L (state c))"
  obtain c1 gone where R:
    "lru_insert_evict L (dg_hex d) sz (dg_algorithm d) c
       = Some (c1, map (\<lambda>p. (fst p, entry_algorithm (snd p))) gone)"
    "evict_run (max_bytes c) (reservations (state c)) (?es, bytes_of ?es, blob_owners (state c)) gone (view (state c1))"
    "reservations (state c1) = reservations (state c)"
    "max_bytes c1 = max_bytes c" "cache_root c1 = cache_root c" "disk c1 = disk c"
    "total_bytes (state c1) \<le> max_bytes c
       \<or> (\<forall>q\<in>set (lru_list L (state c1)). is_protected_by_reservation L (fst q) (state c1))"
    by (rule lru_insert_evict_spec [OF wf refl])
  obtain c2 r where s: "remove_blob_files io (map (\<lambda>p. (fst p, entry_algorithm (snd p))) gone) c1 = (c2, r)"
    by (cases "remove_blob_files io (map (\<lambda>p. (fst p, entry_algorithm (snd p))) gone) c1")
  note frame = remove_blob_files_frame [OF s]
  have wf1: "state_wf L (state c1)"
    using evict_run_wf [OF R(2)] wf R(3) by (simp add: state_wf_def)
  have "(\<forall>q\<in>set gone. hex_ok (fst q)) \<longrightarrow> r = Ok ()"
    using remove_blob_files_ok [of "map (\<lambda>p. (fst p, entry_algorithm (snd p))) gone" io c1] s by auto
  moreover have "disk c2 p = disk c p" if "\<forall>q\<in>set gone. blob_path c (entry_digest q) \<noteq> Some p" for p
    using remove_blob_files_disk [OF s, of p] that R(5,6) blob_path_root [OF R(5)] by auto
  ultimately show ?thesis
    using that [of c2 r gone] R s frame wf1 evict_run_wf [OF R(2)]
    by (simp add: track_and_evict_def)
qed

lemma track_and_evict_files:
  assumes wf: "state_wf L (state c)" and ok: "hex_ok (dg_hex d)"
    and files: "\<forall>q\<in>set (lru_list L (state c)). fst q \<noteq> dg_hex d \<longrightarrow> hex_ok (fst q) \<and>
        (\<exists>p data. blob_path c (entry_digest q) = Some p \<and> disk c p = Some data)"
    and new: "blob_path c d = Some path" "disk c path = Some data"
  obtains c' where "track_and_evict L io d sz c = Some (c', Ok ())" "state_wf L (state c')" "files_wf L c'"
    "cache_root c' = cache_root c" "max_bytes c' = max_bytes c"
    "dg_hex d \<in> fst ` set (lru_list L (state c')) \<longrightarrow>
       map_of (lru_list L (state c')) (dg_hex d) = Some \<lparr> entry_size = sz, entry_algorithm = dg_algorithm d \<rparr>
       \<and> disk c' path = Some data"
proof -
  let ?e = "\<lparr> entry_size = sz, entry_algorithm = dg_algorithm d \<rparr>"
  let ?es = "insert_back (dg_hex d) ?e (lru_list L (state c))"
  obtain c' r gone where T:
    "track_and_evict L io d sz c = Some (c', r)" "state_wf L (state c')"
    "mset ?es = mset (lru_list L (state c')) + mset gone"
    "\<forall>p. (\<forall>q\<in>set gone. blob_path c (entry_digest q) \<noteq> Some p) \<longrightarrow> disk c' p = disk c p"
    "cache_root c' = cache_root c" "max_bytes c' = max_bytes c"
    "(\<forall>q\<in>set gone. hex_ok (fst q)) \<longrightarrow> r = Ok ()"
    using track_and_evict_spec [OF wf] by metis
  have es: "set ?es = set (lru_list L (state c')) \<union> set gone"
    using T(3) by (metis set_mset_mset set_mset_union)
  have esfiles: "hex_ok (fst q) \<and> (\<exists>p data. blob_path c (entry_digest q) = Some p \<and> disk c p = Some data)"
    if "q \<in> set ?es" for q
    using that files ok new by (cases d) (auto simp: insert_back_def)
  have dist: "distinct (keys_of (lru_list L (state c') @ gone))"
    using distinct_insert_back [OF iter_distinct [of "entries (state c)"], where k = "dg_hex d" and v = ?e] T(3)
    by (metis mset_append mset_eq_imp_distinct_iff mset_map)
  have keep: "disk c' p = disk c p"
    if "q \<in> set (lru_list L (state c'))" "blob_path c (entry_digest q) = Some p" for q p
  proof -
    have "blob_path c (entry_digest g) \<noteq> Some p" if g: "g \<in> set gone" for g
    proof
      assume "blob_path c (entry_digest g) = Some p"
      then have "entry_digest g = entry_digest q"
        using blob_path_inject [of "entry_digest g" "entry_digest q" c] esfiles es g \<open>q \<in> _\<close> \<open>blob_path c (entry_digest q) = _\<close>
        by simp
      then show False using dist g \<open>q \<in> _\<close> by (auto simp: image_iff)
    qed
    then show ?thesis using T(4) by blast
  qed
  have fw: "files_wf L c'"
    unfolding files_wf_def
    using esfiles es keep blob_path_root [OF T(5)] by (metis Un_iff)
  have hit: "map_of (lru_list L (state c')) (dg_hex d) = Some ?e \<and> disk c' path = Some data"
    if mem: "dg_hex d \<in> fst ` set (lru_list L (state c'))"
  proof -
    obtain q where q: "q \<in> set (lru_list L (state c'))" "dg_hex d = fst q" using mem by blast
    then have "q \<in> set ?es" using es by blast
    then have qe: "q = (dg_hex d, ?e)" using q(2) unfolding insert_back_def by simp
    have "blob_path c (entry_digest q) = Some path" using new qe by (cases d) simp
    then have "disk c' path = Some data" using keep [OF q(1)] new(2) by simp
    moreover have "(dg_hex d, ?e) \<in> set (lru_list L (state c'))" using q(1) qe by metis
    ultimately show ?thesis using map_of_is_SomeI [OF iter_distinct] by metis
  qed
  have "\<forall>q\<in>set gone. hex_ok (fst q)" using esfiles es by blast
  then have "r = Ok ()" using T(7) by blast
  then show ?thesis using that [of c'] T(1,2,5,6) fw hit by blast
qed

end

end
