(* ===== verification/Cache_Steps.thy ===== *)
theory Cache_Steps
  imports Cache_Files
begin

text \<open>
  Every operation of the blob cache as one step, under any answers of the operating system, and the
  invariants along every sequence of steps.
\<close>

section \<open>The step relation\<close>

text \<open>
  The guards are facts about the callers: the digests written are hex strings, and the entries of
  \<open>tmp/\<close> are named as \<open>read_dir\<close> names them.
\<close>

definition tmp_listing_of :: "'m blob_cache \<Rightarrow> (tmp_entry list + string) option \<Rightarrow> bool" where
  "tmp_listing_of c listing \<longleftrightarrow>
     (case listing of
        Some (Inl es) \<Rightarrow> list_all (\<lambda>e. \<exists>nm. te_path e = path_push (path_push (cache_root c) ''tmp'') nm
            \<and> nm \<noteq> [] \<and> \<not> starts_with ''/'' nm) es
      | _ \<Rightarrow> True)"

inductive cache_step :: "'m lru_ops \<Rightarrow> 'm blob_cache \<Rightarrow> 'm blob_cache \<Rightarrow> bool" for L where
  step_get: "blob_get L io d c = (c', r) \<Longrightarrow> cache_step L c c'"
| step_put: "blob_put L io d data c = Some (c', r) \<Longrightarrow> hex_ok (dg_hex d) \<Longrightarrow> cache_step L c c'"
| step_put_for: "put_for L io key d data c = Some (c', r) \<Longrightarrow> hex_ok (dg_hex d) \<Longrightarrow> cache_step L c c'"
| step_finalize: "writer_finalize L io w d c = Some (c', r) \<Longrightarrow> hex_ok (dg_hex d) \<Longrightarrow> cache_step L c c'"
| step_commit: "commit_atomic sha256 L io d data c = Some (c', r) \<Longrightarrow> hex_ok (dg_hex d) \<Longrightarrow> cache_step L c c'"
| step_register: "cache_step L c (register_mount key rb hexes c)"
| step_unregister: "cache_step L c (unregister_mount key c)"
| step_add_owner: "cache_step L c (add_owner key h c)"
| step_add_owners: "cache_step L c (add_owners key hexes c)"
| step_prune: "prune L io tgt c = Some (c', r) \<Longrightarrow> cache_step L c c'"
| step_prune_blobs: "prune_blobs L io target c = Some (c', r) \<Longrightarrow> cache_step L c c'"
| step_set_max: "set_max_bytes L io new_max c = Some (c', r) \<Longrightarrow> cache_step L c c'"
| step_cleanup: "cleanup_orphan_temps io now older_than listing c = (c', r) \<Longrightarrow>
     tmp_listing_of c listing \<Longrightarrow> cache_step L c c'"

section \<open>The steps that only change the tables\<close>

definition cache_inv :: "'m lru_ops \<Rightarrow> 'm blob_cache \<Rightarrow> bool" where
  "cache_inv L c \<longleftrightarrow> state_wf L (state c) \<and> files_wf L c"

lemma blob_path_disk [simp]: "blob_path (c\<lparr> disk := x \<rparr>) d = blob_path c d"
  by (simp add: blob_path_def)

lemma files_wf_cong:
  assumes "set (lru_list L (state c')) \<subseteq> set (lru_list L (state c))" "cache_root c' = cache_root c"
    "\<And>q p. q \<in> set (lru_list L (state c')) \<Longrightarrow> blob_path c (entry_digest q) = Some p \<Longrightarrow> disk c p \<noteq> None
      \<Longrightarrow> disk c' p \<noteq> None"
    "files_wf L c"
  shows "files_wf L c'"
  unfolding files_wf_def
proof
  fix q
  assume q: "q \<in> set (lru_list L (state c'))"
  then obtain p data where p: "hex_ok (fst q)" "blob_path c (entry_digest q) = Some p" "disk c p = Some data"
    using assms(1,4) unfolding files_wf_def by blast
  then have "blob_path c' (entry_digest q) = Some p" using blob_path_root [OF assms(2)] by simp
  moreover have "disk c' p \<noteq> None" using assms(3) [OF q p(2)] p(3) by simp
  ultimately show "hex_ok (fst q) \<and> (\<exists>p data. blob_path c' (entry_digest q) = Some p \<and> disk c' p = Some data)"
    using p(1) by blast
qed

lemma cache_inv_tables:
  "lru_list L (state c') = lru_list L (state c) \<Longrightarrow> cache_root c' = cache_root c \<Longrightarrow> disk c' = disk c \<Longrightarrow>
   state_wf L (state c') \<Longrightarrow> cache_inv L c \<Longrightarrow> cache_inv L c'"
  unfolding cache_inv_def using files_wf_cong [of L c' c] by simp

lemma register_frame:
  "entries (state (register_mount key rb hs c)) = entries (state c)"
  "disk (register_mount key rb hs c) = disk c" "cache_root (register_mount key rb hs c) = cache_root c"
  by (simp_all add: register_mount_def Let_def)

lemma unregister_frame:
  "entries (state (unregister_mount key c)) = entries (state c)"
  "disk (unregister_mount key c) = disk c" "cache_root (unregister_mount key c) = cache_root c"
  by (simp_all add: unregister_mount_def Let_def split: option.splits prod.splits if_splits)

lemma cache_inv_register: "cache_inv L c \<Longrightarrow> cache_inv L (register_mount key rb hs c)"
  by (rule cache_inv_tables [of _ _ c]) (simp_all add: register_frame state_wf_register cache_inv_def)

lemma cache_inv_unregister: "cache_inv L c \<Longrightarrow> cache_inv L (unregister_mount key c)"
  by (rule cache_inv_tables [of _ _ c]) (simp_all add: unregister_frame state_wf_unregister cache_inv_def)

lemma cache_inv_add_owner: "cache_inv L c \<Longrightarrow> cache_inv L (add_owner key h c)"
  by (rule cache_inv_tables [of _ _ c]) (simp_all add: add_owner_def state_wf_def cache_inv_def owners_wf_add)

lemma cache_inv_add_owners: "cache_inv L c \<Longrightarrow> cache_inv L (add_owners key hs c)"
  by (rule cache_inv_tables [of _ _ c]) (simp_all add: add_owners_def state_wf_def cache_inv_def owners_wf_seed)

lemma cleanup_tmp_entries_frame:
  "cleanup_tmp_entries io now older es n c = (c', n') \<Longrightarrow>
     state c' = state c \<and> cache_root c' = cache_root c \<and> max_bytes c' = max_bytes c
     \<and> (\<forall>p. p \<notin> te_path ` set es \<longrightarrow> disk c' p = disk c p)"
  by (induction io now older es n c rule: cleanup_tmp_entries.induct)
    (auto simp: Let_def split: if_splits)

lemma cache_inv_cleanup:
  assumes "cleanup_orphan_temps io now older listing c = (c', r)" "tmp_listing_of c listing" "cache_inv L c"
  shows "cache_inv L c'"
proof (cases "\<exists>es. listing = Some (Inl es)")
  case False
  then have "c' = c" using assms(1)
    by (auto simp: cleanup_orphan_temps_def split: option.splits sum.splits)
  then show ?thesis using assms(3) by simp
next
  case True
  then obtain es where es: "listing = Some (Inl es)" by blast
  obtain n where n: "cleanup_tmp_entries io now older es 0 c = (c', n)"
    using assms(1) es by (auto simp: cleanup_orphan_temps_def split: prod.splits)
  note frame = cleanup_tmp_entries_frame [OF n]
  have "disk c' p = disk c p"
    if q: "q \<in> set (lru_list L (state c))" "blob_path c (entry_digest q) = Some p" for q p
  proof -
    have "hex_ok (dg_hex (entry_digest q))" using assms(3) q by (auto simp: cache_inv_def files_wf_def)
    then have "p \<notin> te_path ` set es"
      using assms(2) es q(2) tmp_path_not_blob [of "entry_digest q" _ c]
      by (auto simp: tmp_listing_of_def list_all_iff)
    then show ?thesis using frame by blast
  qed
  then have "files_wf L c'"
    using files_wf_cong [of L c' c] frame assms(3) by (auto simp: cache_inv_def)
  then show ?thesis using frame assms(3) by (simp add: cache_inv_def)
qed

section \<open>The steps that read, write and prune\<close>

context lru_index
begin

lemma cache_inv_get:
  assumes "blob_get L io d c = (c', r)" "cache_inv L c"
  shows "cache_inv L c'"
proof (cases "lhm_get L (dg_hex d) (entries (state c))")
  case None
  then show ?thesis using assms by (simp add: blob_get_def)
next
  case (Some e)
  let ?es = "lhm_get_refresh L (dg_hex d) (entries (state c))"
  have c': "c' = c\<lparr> state := (state c)\<lparr> entries := ?es \<rparr> \<rparr>"
    using assms(1) Some by (auto simp: blob_get_def Let_def split: option.splits)
  have m: "map_of (lru_list L (state c)) (dg_hex d) = Some e" using Some by (simp add: get_iter)
  have E: "lhm_iter L ?es = filter (\<lambda>p. fst p \<noteq> dg_hex d) (lru_list L (state c)) @ [(dg_hex d, e)]"
    using m by (simp add: iter_refresh move_back_def)
  have "bytes_of (lhm_iter L ?es) = bytes_of (lru_list L (state c))"
    using bytes_of_remove [OF iter_distinct, of "entries (state c)" "dg_hex d"] m E by simp
  then have "state_wf L (state c')" using assms(2) c' by (simp add: cache_inv_def state_wf_def)
  moreover have "set (lhm_iter L ?es) \<subseteq> set (lru_list L (state c))"
    using E map_of_SomeD [OF m] by auto
  then have "files_wf L c'"
    using files_wf_cong [of L c' c] c' assms(2) by (simp add: cache_inv_def)
  ultimately show ?thesis by (simp add: cache_inv_def)
qed

lemma files_wf_write:
  assumes "files_wf L c"
  shows "files_wf L (c\<lparr> disk := (disk c)(path \<mapsto> data) \<rparr>)"
  by (rule files_wf_cong [of _ _ c]) (use assms in \<open>simp_all split: if_splits\<close>)

lemma cache_inv_write:
  assumes "cache_inv L c"
  shows "cache_inv L (c\<lparr> disk := (disk c)(path \<mapsto> data) \<rparr>)"
  using files_wf_write [of c path data] assms by (simp add: cache_inv_def)

text \<open>Writing a blob's file and tracking it: the common end of \<open>put\<close> and \<open>finalize\<close>.\<close>

lemma write_and_track:
  assumes inv: "cache_inv L c" and ok: "hex_ok (dg_hex d)" and path: "blob_path c d = Some path"
  obtains c' where
    "track_and_evict L io d sz (c\<lparr> disk := (disk c)(path \<mapsto> data) \<rparr>) = Some (c', Ok ())" "cache_inv L c'"
    "cache_root c' = cache_root c" "max_bytes c' = max_bytes c"
    "dg_hex d \<in> fst ` set (lru_list L (state c')) \<longrightarrow>
       map_of (lru_list L (state c')) (dg_hex d) = Some \<lparr> entry_size = sz, entry_algorithm = dg_algorithm d \<rparr>
       \<and> disk c' path = Some data"
proof -
  let ?c = "c\<lparr> disk := (disk c)(path \<mapsto> data) \<rparr>"
  have 1: "state_wf L (state ?c)" using inv by (simp add: cache_inv_def)
  have 2: "\<forall>q\<in>set (lru_list L (state ?c)). fst q \<noteq> dg_hex d \<longrightarrow> hex_ok (fst q) \<and>
        (\<exists>p x. blob_path ?c (entry_digest q) = Some p \<and> disk ?c p = Some x)"
    using files_wf_write [of c path data] inv unfolding cache_inv_def files_wf_def by blast
  have 3: "blob_path ?c d = Some path" "disk ?c path = Some data"
    using path by (simp_all add: blob_path_def)
  obtain c' where T: "track_and_evict L io d sz ?c = Some (c', Ok ())" "state_wf L (state c')" "files_wf L c'"
    "cache_root c' = cache_root ?c" "max_bytes c' = max_bytes ?c"
    "dg_hex d \<in> fst ` set (lru_list L (state c')) \<longrightarrow>
       map_of (lru_list L (state c')) (dg_hex d) = Some \<lparr> entry_size = sz, entry_algorithm = dg_algorithm d \<rparr>
       \<and> disk c' path = Some data"
    by (rule track_and_evict_files [OF 1 ok 2 3, where sz = sz and io = io])
  show ?thesis
    by (rule that [OF T(1)]) (use T in \<open>simp_all add: cache_inv_def\<close>)
qed

lemma cache_inv_put:
  assumes "blob_put L io d data c = Some (c', r)" "hex_ok (dg_hex d)" "cache_inv L c"
  shows "cache_inv L c'"
proof -
  obtain path where path: "blob_path c d = Some path" using blob_path_hex_ok [OF assms(2)] by blast
  obtain c1 where "track_and_evict L io d (of_nat (length data)) (c\<lparr> disk := (disk c)(path \<mapsto> data) \<rparr>) = Some (c1, Ok ())"
    "cache_inv L c1"
    using write_and_track [OF assms(3,2) path] by metis
  then show ?thesis
    using assms(1,3) path by (auto simp: blob_put_def cache_inv_write split: option.splits)
qed

lemma cache_inv_finalize:
  assumes "writer_finalize L io w d c = Some (c', r)" "hex_ok (dg_hex d)" "cache_inv L c"
  shows "cache_inv L c'"
proof -
  obtain path where path: "blob_path c d = Some path" using blob_path_hex_ok [OF assms(2)] by blast
  obtain c1 where "track_and_evict L io d (bytes_written w) (c\<lparr> disk := (disk c)(path \<mapsto> temp w) \<rparr>) = Some (c1, Ok ())"
    "cache_inv L c1"
    using write_and_track [OF assms(3,2) path] by metis
  then show ?thesis
    using assms(1,3) path by (auto simp: writer_finalize_def split: option.splits)
qed

lemma cache_inv_commit:
  assumes "commit_atomic sha256 L io d data c = Some (c', r)" "hex_ok (dg_hex d)" "cache_inv L c"
  shows "cache_inv L c'"
  using assms(1) cache_inv_finalize [OF _ assms(2,3)] assms(3)
  by (auto simp: commit_atomic_def Let_def split: if_splits outcome.splits)

lemma cache_inv_put_for:
  assumes "put_for L io key d data c = Some (c', r)" "hex_ok (dg_hex d)" "cache_inv L c"
  shows "cache_inv L c'"
proof -
  obtain c1 r1 where put: "blob_put L io d data c = Some (c1, r1)"
    using assms(1) by (cases "blob_put L io d data c") (auto simp: put_for_def)
  then show ?thesis
    using assms(1) cache_inv_put [OF put assms(2,3)] cache_inv_add_owner
    by (cases r1) (auto simp: put_for_def)
qed

text \<open>The files of the entries that stay outlive the removal of those that go.\<close>

lemma dropped_files_kept:
  assumes wf: "files_wf L c" and c0: "cache_root c0 = cache_root c" "disk c0 = disk c"
    and rem: "remove_blob_files io (evicted_files (map evicted_of (take n (lru_list L (state c))))) c0 = (c', r)"
    and q: "q \<in> set (drop n (lru_list L (state c)))" "blob_path c (entry_digest q) = Some p"
  shows "disk c' p = disk c p"
proof -
  let ?E = "lru_list L (state c)"
  have path: "blob_path c0 d = blob_path c d" for d by (rule blob_path_root) (rule c0(1))
  have hex: "hex_ok (fst x)" if "x \<in> set ?E" for x using wf that by (auto simp: files_wf_def)
  have dist: "distinct (keys_of (take n ?E @ drop n ?E))" using iter_distinct [of "entries (state c)"] by simp
  have "blob_path c0 (entry_digest g) \<noteq> Some p" if g: "g \<in> set (take n ?E)" for g
  proof
    assume "blob_path c0 (entry_digest g) = Some p"
    then have "entry_digest g = entry_digest q"
      using blob_path_inject [of "entry_digest g" "entry_digest q" c] path q hex
        in_set_takeD [OF g] in_set_dropD [OF q(1)] by simp
    then show False using dist g q(1) unfolding map_append distinct_append by (auto simp: image_iff)
  qed
  then show ?thesis using remove_blob_files_disk [OF rem, of p] c0(2) by auto
qed

text \<open>Dropping the oldest entries and their files: the common end of the pruning operations.\<close>

lemma cache_inv_drop:
  assumes inv: "cache_inv L c"
    and st: "lru_list L st = drop n (lru_list L (state c))"
      "total_bytes st = total_bytes (state c) - bytes_of (take n (lru_list L (state c)))"
      "blob_owners st = blob_owners (state c)" "reservations st = reservations (state c)"
    and c0: "state c0 = st" "cache_root c0 = cache_root c" "disk c0 = disk c"
    and rem: "remove_blob_files io (evicted_files (map evicted_of (take n (lru_list L (state c))))) c0 = (c', r)"
  shows "cache_inv L c' \<and> state c' = st \<and> r = Ok ()"
proof -
  let ?E = "lru_list L (state c)"
  note frame = remove_blob_files_frame [OF rem]
  have path: "blob_path c0 d = blob_path c d" for d by (rule blob_path_root) (rule c0(2))
  have hex: "hex_ok (fst q)" if "q \<in> set ?E" for q using inv that by (auto simp: cache_inv_def files_wf_def)
  have "\<forall>ev\<in>set (evicted_files (map evicted_of (take n ?E))). hex_ok (fst ev)"
    using hex in_set_takeD [of _ n ?E] by fastforce
  then have "snd (remove_blob_files io (evicted_files (map evicted_of (take n ?E))) c0) = Ok ()"
    by (rule remove_blob_files_ok)
  then have ok: "r = Ok ()" unfolding rem by simp
  have keep: "disk c' p = disk c p" if q: "q \<in> set (drop n ?E)" "blob_path c (entry_digest q) = Some p" for q p
    using dropped_files_kept [OF _ c0(2,3) rem q] inv by (simp add: cache_inv_def)
  have "bytes_of ?E - bytes_of (take n ?E) = bytes_of (drop n ?E)"
    using bytes_of_take_drop [of ?E n] by simp
  then have "state_wf L st" using inv st by (simp add: cache_inv_def state_wf_def)
  moreover have "files_wf L c'"
    by (rule files_wf_cong [of L c' c])
      (use inv frame c0 st keep set_drop_subset [of n ?E] in \<open>auto simp: cache_inv_def\<close>)
  ultimately show ?thesis using frame c0(1) ok by (simp add: cache_inv_def)
qed

text \<open>The three pruning operations, with what each returns.\<close>

lemma sum_evicted: "sum_list (map (\<lambda>(_, sz, _). sz) (map evicted_of es)) = bytes_of es"
  by (simp add: bytes_of_def comp_def case_prod_unfold)

lemma prune_spec:
  assumes inv: "cache_inv L c"
    and lim: "limit = (case tgt of Some b \<Rightarrow> b | None \<Rightarrow> max_bytes c)"
    and n: "n = drop_count limit (total_bytes (state c)) (lru_list L (state c))"
  obtains c' where "prune L io tgt c = Some (c', Ok (bytes_of (take n (lru_list L (state c)))))"
    "cache_inv L c'" "lru_list L (state c') = drop n (lru_list L (state c))"
proof -
  let ?E = "lru_list L (state c)"
  obtain st where st: "prune_loop L limit (state c) [] = Some (st, [] @ map evicted_of (take n ?E))"
    "lru_list L st = drop n ?E" "total_bytes st = total_bytes (state c) - bytes_of (take n ?E)"
    "blob_owners st = blob_owners (state c)" "reservations st = reservations (state c)"
    using prune_loop_spec [of limit "state c" "[]"] n by auto
  obtain c' r where rem: "remove_blob_files io (evicted_files (map evicted_of (take n ?E))) (c\<lparr> state := st \<rparr>) = (c', r)"
    by (cases "remove_blob_files io (evicted_files (map evicted_of (take n ?E))) (c\<lparr> state := st \<rparr>)")
  have R: "cache_inv L c' \<and> state c' = st \<and> r = Ok ()"
    by (rule cache_inv_drop [OF inv st(2-5) _ _ _ rem]) simp_all
  have "prune L io tgt c = Some (c', Ok (bytes_of (take n ?E)))"
    unfolding prune_def Let_def lim [symmetric] st(1) using rem R sum_evicted [of "take n ?E"] by simp
  then show ?thesis using that R st(2) by simp
qed

lemma prune_blobs_spec:
  assumes inv: "cache_inv L c"
    and n: "n = drop_count target (total_bytes (state c)) (lru_list L (state c))"
  obtains c' where "prune_blobs L io target c = Some (c', Ok (sat_sub (total_bytes (state c)) (total_bytes (state c'))))"
    "cache_inv L c'" "lru_list L (state c') = drop n (lru_list L (state c))"
proof -
  let ?E = "lru_list L (state c)"
  obtain st where st: "shrink_loop L target (state c) [] = Some (st, [] @ map evicted_of (take n ?E))"
    "lru_list L st = drop n ?E" "total_bytes st = total_bytes (state c) - bytes_of (take n ?E)"
    "blob_owners st = blob_owners (state c)" "reservations st = reservations (state c)"
    using prune_loop_spec [of target "state c" "[]"] n by (auto simp: shrink_loop_prune_loop)
  obtain c' r where rem: "remove_blob_files io (evicted_files (map evicted_of (take n ?E))) (c\<lparr> state := st \<rparr>) = (c', r)"
    by (cases "remove_blob_files io (evicted_files (map evicted_of (take n ?E))) (c\<lparr> state := st \<rparr>)")
  have R: "cache_inv L c' \<and> state c' = st \<and> r = Ok ()"
    by (rule cache_inv_drop [OF inv st(2-5) _ _ _ rem]) simp_all
  have "prune_blobs L io target c = Some (c', Ok (sat_sub (total_bytes (state c)) (total_bytes (state c'))))"
    unfolding prune_blobs_def Let_def st(1) using rem R by simp
  then show ?thesis using that R st(2) by simp
qed

lemma set_max_bytes_spec:
  assumes inv: "cache_inv L c"
    and n: "n = drop_count new_max (total_bytes (state c)) (lru_list L (state c))"
  obtains c' where "set_max_bytes L io new_max c = Some (c', Ok ())" "max_bytes c' = new_max"
    "cache_inv L c'" "lru_list L (state c') = drop n (lru_list L (state c))"
proof -
  let ?E = "lru_list L (state c)"
  obtain st where st: "shrink_loop L new_max (state c) [] = Some (st, [] @ map evicted_of (take n ?E))"
    "lru_list L st = drop n ?E" "total_bytes st = total_bytes (state c) - bytes_of (take n ?E)"
    "blob_owners st = blob_owners (state c)" "reservations st = reservations (state c)"
    using prune_loop_spec [of new_max "state c" "[]"] n by (auto simp: shrink_loop_prune_loop)
  let ?c0 = "c\<lparr> max_bytes := new_max, state := st \<rparr>"
  obtain c' r where rem: "remove_blob_files io (evicted_files (map evicted_of (take n ?E))) ?c0 = (c', r)"
    by (cases "remove_blob_files io (evicted_files (map evicted_of (take n ?E))) ?c0")
  have R: "cache_inv L c' \<and> state c' = st \<and> r = Ok ()"
    by (rule cache_inv_drop [OF inv st(2-5) _ _ _ rem]) simp_all
  have "set_max_bytes L io new_max c = Some (c', Ok ())"
    unfolding set_max_bytes_def Let_def using st(1) rem R by simp
  then show ?thesis using that [of c'] R st(2) remove_blob_files_frame [OF rem] by simp
qed

text \<open>The invariant is kept by every step.\<close>

lemma cache_step_inv:
  assumes "cache_step L c c'" "cache_inv L c"
  shows "cache_inv L c'"
  using assms
proof (cases rule: cache_step.cases)
  case (step_prune io tgt r)
  obtain c1 where "prune L io tgt c = Some (c1, Ok (bytes_of (take (drop_count
      (case tgt of Some b \<Rightarrow> b | None \<Rightarrow> max_bytes c) (total_bytes (state c)) (lru_list L (state c))) (lru_list L (state c)))))"
    "cache_inv L c1"
    by (rule prune_spec [OF assms(2) refl refl, where io = io])
  then show ?thesis using step_prune by simp
next
  case (step_prune_blobs io target r)
  obtain c1 where "prune_blobs L io target c = Some (c1, Ok (sat_sub (total_bytes (state c)) (total_bytes (state c1))))"
    "cache_inv L c1"
    by (rule prune_blobs_spec [OF assms(2) refl, where io = io])
  then show ?thesis using step_prune_blobs by simp
next
  case (step_set_max io new_max r)
  obtain c1 where "set_max_bytes L io new_max c = Some (c1, Ok ())" "cache_inv L c1"
    by (rule set_max_bytes_spec [OF assms(2) refl, where io = io])
  then show ?thesis using step_set_max by simp
next
  case (step_get io d r)
  show ?thesis by (rule cache_inv_get [OF step_get(1) assms(2)])
next
  case (step_put io d data r)
  show ?thesis by (rule cache_inv_put [OF step_put assms(2)])
next
  case (step_put_for io key d data r)
  show ?thesis by (rule cache_inv_put_for [OF step_put_for assms(2)])
next
  case (step_finalize io w d r)
  show ?thesis by (rule cache_inv_finalize [OF step_finalize assms(2)])
next
  case (step_commit sha256 io d data r)
  show ?thesis by (rule cache_inv_commit [OF step_commit assms(2)])
next
  case (step_register key rb hexes)
  show ?thesis unfolding step_register by (rule cache_inv_register [OF assms(2)])
next
  case (step_unregister key)
  show ?thesis unfolding step_unregister by (rule cache_inv_unregister [OF assms(2)])
next
  case (step_add_owner key h)
  show ?thesis unfolding step_add_owner by (rule cache_inv_add_owner [OF assms(2)])
next
  case (step_add_owners key hexes)
  show ?thesis unfolding step_add_owners by (rule cache_inv_add_owners [OF assms(2)])
next
  case (step_cleanup io now older_than listing r)
  show ?thesis by (rule cache_inv_cleanup [OF step_cleanup assms(2)])
qed

lemma cache_steps_inv:
  assumes "(cache_step L)\<^sup>*\<^sup>* c c'" "cache_inv L c"
  shows "cache_inv L c'"
  using assms by (induction rule: rtranclp_induct) (auto intro: cache_step_inv)

text \<open>What was put and is still tracked is read back.\<close>

lemma put_then_get:
  assumes inv: "cache_inv L c" and ok: "hex_ok (dg_hex d)" and put: "blob_put L io d data c = Some (c', Ok ())"
    and hit: "contains L d c'" and path: "blob_path c' d = Some path" and rd: "read_ok io' path"
  shows "snd (blob_get L io' d c') = Ok (Some data)"
proof -
  obtain path' where path': "blob_path c d = Some path'" using blob_path_hex_ok [OF ok] by blast
  obtain c1 where T:
    "track_and_evict L io d (of_nat (length data)) (c\<lparr> disk := (disk c)(path' \<mapsto> data) \<rparr>) = Some (c1, Ok ())"
    "cache_root c1 = cache_root c"
    "dg_hex d \<in> fst ` set (lru_list L (state c1)) \<longrightarrow>
       map_of (lru_list L (state c1)) (dg_hex d)
         = Some \<lparr> entry_size = of_nat (length data), entry_algorithm = dg_algorithm d \<rparr>
       \<and> disk c1 path' = Some data"
    by (rule write_and_track [OF inv ok path', where sz = "of_nat (length data)" and data = data and io = io])
  have c1: "c1 = c'" using put path' T(1) by (auto simp: blob_put_def split: option.splits prod.splits)
  have "dg_hex d \<in> fst ` set (lru_list L (state c'))" using hit by (simp add: contains_def contains_iter)
  then have "lhm_get L (dg_hex d) (entries (state c'))
      = Some \<lparr> entry_size = of_nat (length data), entry_algorithm = dg_algorithm d \<rparr>"
    "disk c' path' = Some data" using T(3) c1 by (simp_all add: get_iter)
  moreover have "path' = path" using path path' blob_path_root [OF T(2), of d] c1 by simp
  moreover have "blob_path c' \<lparr> dg_algorithm = dg_algorithm d, dg_hex = dg_hex d \<rparr> = Some path"
    using path by (cases d) simp
  ultimately show ?thesis using path rd by (simp add: blob_get_def Let_def)
qed

text \<open>\<open>commit_atomic\<close>: all or nothing.\<close>

lemma write_all_Ok:
  "write_all accept buf w = Ok w' \<Longrightarrow>
     temp w' = temp w @ buf \<and> bytes_written w' = bytes_written w + of_nat (length buf)"
proof (induction accept buf w rule: write_all.induct)
  case (1 accept buf w)
  show ?case
  proof (cases "buf = []")
    case True
    then show ?thesis using 1(2) by (simp add: write_all.simps)
  next
    case False
    then obtain n where n: "accept buf = Inl n" "n \<noteq> 0" "write_all accept (drop n buf) (temp_write n buf w) = Ok w'"
      using 1(2) by (auto simp: write_all.simps [of accept buf w] split: sum.splits if_splits)
    have "min n (length buf) + (length buf - n) = length buf" by simp
    then have "of_nat (min n (length buf)) + of_nat (length buf - n) = (of_nat (length buf) :: u64)"
      by (metis of_nat_add)
    then show ?thesis using 1(1) [OF False n] by (simp add: temp_write_def add.assoc)
  qed
qed

lemma write_all_no_panic: "write_all accept buf w \<noteq> Panic"
  by (induction accept buf w rule: write_all.induct) (subst write_all.simps, auto split: sum.splits)

lemma commit_writer_no_panic: "commit_atomic_with_writer io c \<noteq> Panic"
  by (simp add: commit_atomic_with_writer_def split: option.splits)

lemma finalize_then_get:
  assumes inv: "cache_inv L c" and ok: "hex_ok (dg_hex d)" and io: "tmp_sync_error io = None"
  obtains c' r where "writer_finalize L io w d c = Some (c', r)"
    "case r of Ok _ \<Rightarrow> \<forall>io' path. contains L d c' \<and> blob_path c' d = Some path \<and> read_ok io' path
         \<longrightarrow> snd (blob_get L io' d c') = Ok (Some (temp w))
       | Err _ \<Rightarrow> c' = c | Panic \<Rightarrow> False"
proof -
  obtain dest where dest: "blob_path c d = Some dest" using blob_path_hex_ok [OF ok] by blast
  obtain c1 where T:
    "track_and_evict L io d (bytes_written w) (c\<lparr> disk := (disk c)(dest \<mapsto> temp w) \<rparr>) = Some (c1, Ok ())"
    "cache_root c1 = cache_root c"
    "dg_hex d \<in> fst ` set (lru_list L (state c1)) \<longrightarrow>
       map_of (lru_list L (state c1)) (dg_hex d)
         = Some \<lparr> entry_size = bytes_written w, entry_algorithm = dg_algorithm d \<rparr>
       \<and> disk c1 dest = Some (temp w)"
    by (rule write_and_track [OF inv ok dest, where sz = "bytes_written w" and data = "temp w" and io = io])
  have get: "snd (blob_get L io' d c1) = Ok (Some (temp w))"
    if "contains L d c1" "blob_path c1 d = Some path" "read_ok io' path" for io' path
  proof -
    have "dg_hex d \<in> fst ` set (lru_list L (state c1))" using that(1) by (simp add: contains_def contains_iter)
    then have "lhm_get L (dg_hex d) (entries (state c1))
        = Some \<lparr> entry_size = bytes_written w, entry_algorithm = dg_algorithm d \<rparr>"
      "disk c1 dest = Some (temp w)" using T(3) by (simp_all add: get_iter)
    moreover have "dest = path" using that(2) dest blob_path_root [OF T(2), of d] by simp
    moreover have "blob_path c1 \<lparr> dg_algorithm = dg_algorithm d, dg_hex = dg_hex d \<rparr> = Some path"
      using that(2) by (cases d) simp
    ultimately show ?thesis using that(3) by (simp add: blob_get_def Let_def)
  qed
  show ?thesis
  proof (cases "mkdir_parent_error io dest = None \<and> persist_error io dest = None")
    case True
    then have "writer_finalize L io w d c = Some (c1, Ok ())"
      using io dest T(1) by (simp add: writer_finalize_def)
    then show ?thesis using that [of c1 "Ok ()"] get by simp
  next
    case False
    then have "\<exists>e. writer_finalize L io w d c = Some (c, Err e)"
      using io dest by (cases "mkdir_parent_error io dest"; cases "persist_error io dest")
        (simp_all add: writer_finalize_def)
    then obtain e where "writer_finalize L io w d c = Some (c, Err e)" by blast
    then show ?thesis using that [of c "Err e"] by simp
  qed
qed

lemma commit_atomic_cases:
  assumes inv: "cache_inv L c" and ok: "hex_ok (dg_hex d)"
  shows "\<exists>c' r. commit_atomic sha256 L io d data c = Some (c', r)
     \<and> (case r of
          Ok _ \<Rightarrow> sha256 data = dg_hex d \<and> (\<forall>io' path. contains L d c' \<and> blob_path c' d = Some path
             \<and> read_ok io' path \<longrightarrow> snd (blob_get L io' d c') = Ok (Some data))
        | Err _ \<Rightarrow> c' = c
        | Panic \<Rightarrow> False)
     \<and> (sha256 data \<noteq> dg_hex d \<longrightarrow> (\<exists>e. r = Err e))"
proof (cases "sha256 data = dg_hex d \<and> (\<exists>w w'. commit_atomic_with_writer io c = Ok w
    \<and> write_all (tmp_accept io) data w = Ok w') \<and> tmp_sync_error io = None")
  case False
  have "\<exists>e. commit_atomic sha256 L io d data c = Some (c, Err e)"
  proof (cases "commit_atomic_with_writer io c")
    case (Ok w)
    show ?thesis
      using False Ok write_all_no_panic [of "tmp_accept io" data w]
      by (cases "write_all (tmp_accept io) data w"; cases "tmp_sync_error io")
        (auto simp: commit_atomic_def Let_def digest_sha256_def writer_finalize_def)
  qed (use commit_writer_no_panic [of io c] in \<open>auto simp: commit_atomic_def Let_def digest_sha256_def\<close>)
  then show ?thesis by auto
next
  case True
  then obtain w w' where W: "commit_atomic_with_writer io c = Ok w" "write_all (tmp_accept io) data w = Ok w'"
    by blast
  then have "temp w' = data"
    using write_all_Ok [OF W(2)] by (auto simp: commit_atomic_with_writer_def split: option.splits)
  moreover have "commit_atomic sha256 L io d data c = writer_finalize L io w' d c"
    using True W by (simp add: commit_atomic_def Let_def digest_sha256_def)
  moreover obtain c' r where "writer_finalize L io w' d c = Some (c', r)"
    "case r of Ok _ \<Rightarrow> \<forall>io' path. contains L d c' \<and> blob_path c' d = Some path \<and> read_ok io' path
         \<longrightarrow> snd (blob_get L io' d c') = Ok (Some (temp w'))
       | Err _ \<Rightarrow> c' = c | Panic \<Rightarrow> False"
    using True by (auto intro: finalize_then_get [OF inv ok])
  ultimately show ?thesis using True by (cases r) auto
qed

end

end
