(* ===== verification/Cache_Rebuild.thy ===== *)
theory Cache_Rebuild
  imports Cache_Steps
begin

text \<open>
  Opening the cache: the index rebuilt from the files found on disk (\<open>rebuild_index\<close> and \<open>new\<close> in
  \<open>crates/ctxfs-cache/src/lib.rs\<close>). One entry per hex string, a sha1 file before a sha256 one, in
  order of modification time, the total their sum, and only the losers' files removed.
\<close>

abbreviation scan_key :: "scan_entry \<Rightarrow> string \<times> hash_algorithm" where
  "scan_key e \<equiv> (fst e, fst (snd e))"

abbreviation scan_item :: "scan_entry \<Rightarrow> string \<times> cache_entry" where
  "scan_item e \<equiv> (fst e, \<lparr> entry_size = fst (snd (snd e)), entry_algorithm = fst (snd e) \<rparr>)"

section \<open>Deduplication\<close>

text \<open>One iteration of the loop, and its invariants.\<close>

definition dedupe_step ::
  "scan_entry \<Rightarrow> scan_entry list \<times> (string \<times> hash_algorithm) list \<Rightarrow>
     scan_entry list \<times> (string \<times> hash_algorithm) list" where
  "dedupe_step e s = dedupe_by_hex [e] (fst s) (snd s)"

lemma dedupe_step_eq:
  "dedupe_step e (b, d) =
     (case map_of b (fst e) of
        None \<Rightarrow> (AList.update (fst e) (snd e) b, d)
      | Some x \<Rightarrow>
          if fst x = Sha1 then (b, d @ [scan_key e])
          else if fst (snd e) = Sha1 then (AList.update (fst e) (snd e) b, d @ [(fst e, fst x)])
          else (b, d @ [scan_key e]))"
  by (cases e) (auto simp: dedupe_step_def split: option.splits)

lemma dedupe_by_hex_Cons:
  "dedupe_by_hex (e # es) b d = dedupe_by_hex es (fst (dedupe_step e (b, d))) (snd (dedupe_step e (b, d)))"
  by (cases e) (auto simp: dedupe_step_def split: option.splits)

lemma dedupe_step_keys:
  "distinct (keys_of b) \<Longrightarrow> distinct (keys_of (fst (dedupe_step e (b, d))))"
  by (auto simp: dedupe_step_eq distinct_keys_update split: option.splits)

lemma dedupe_step_hexes: "fst ` set (fst (dedupe_step e (b, d))) = insert (fst e) (fst ` set b)"
proof (cases "map_of b (fst e)")
  case (Some x)
  then have "fst e \<in> fst ` set b" by (metis map_of_SomeD fst_conv image_eqI)
  then show ?thesis using Some by (auto simp: dedupe_step_eq)
qed (simp add: dedupe_step_eq)

lemma dedupe_step_from: "set (fst (dedupe_step e (b, d))) \<subseteq> insert e (set b)"
  by (auto simp: dedupe_step_eq dest!: set_updateD split: option.splits if_splits)

lemma dedupe_step_sha1:
  "(\<exists>x. map_of b h = Some (Sha1, x)) \<or> h = fst e \<and> fst (snd e) = Sha1 \<Longrightarrow>
     \<exists>x. map_of (fst (dedupe_step e (b, d))) h = Some (Sha1, x)"
  by (cases e) (auto simp: dedupe_step_eq AList.update_conv' split: option.splits)

lemma dedupe_keys:
  "distinct (keys_of b) \<Longrightarrow>
     distinct (keys_of (fst (dedupe_by_hex es b d)))
     \<and> fst ` set (fst (dedupe_by_hex es b d)) = fst ` set b \<union> fst ` set es"
proof (induction es arbitrary: b d)
  case (Cons e es)
  show ?case
    using Cons.IH [OF dedupe_step_keys [OF Cons.prems, of e d]] dedupe_step_hexes [of e b d]
    by (simp add: dedupe_by_hex_Cons)
qed simp

lemma dedupe_from: "set (fst (dedupe_by_hex es b d)) \<subseteq> set b \<union> set es"
proof (induction es arbitrary: b d)
  case (Cons e es)
  show ?case
    using Cons.IH [of "fst (dedupe_step e (b, d))" "snd (dedupe_step e (b, d))"] dedupe_step_from [of e b d]
    unfolding dedupe_by_hex_Cons by auto
qed simp

lemma dedupe_sha1_stays:
  "(\<exists>x. map_of b h = Some (Sha1, x)) \<or> (\<exists>e\<in>set es. scan_key e = (h, Sha1)) \<Longrightarrow>
     \<exists>x. map_of (fst (dedupe_by_hex es b d)) h = Some (Sha1, x)"
proof (induction es arbitrary: b d)
  case (Cons e es)
  have "(\<exists>x. map_of (fst (dedupe_step e (b, d))) h = Some (Sha1, x)) \<or> (\<exists>e\<in>set es. scan_key e = (h, Sha1))"
    using Cons.prems dedupe_step_sha1 [of b h e d] by auto
  then show ?case using Cons.IH unfolding dedupe_by_hex_Cons by blast
qed simp

text \<open>A file marked for deletion is never the one kept, when no two found files share hex and algorithm.\<close>

definition dedupe_inv :: "(string \<times> hash_algorithm) set \<Rightarrow> scan_entry list \<Rightarrow> (string \<times> hash_algorithm) list \<Rightarrow> bool" where
  "dedupe_inv seen b d \<longleftrightarrow>
     scan_key ` set b \<subseteq> seen \<and> set d \<subseteq> seen
     \<and> (\<forall>h a. (h, a) \<in> set d \<longrightarrow> (\<exists>x. map_of b h = Some x \<and> fst x \<noteq> a))"

lemma dedupe_inv_step:
  assumes "dedupe_inv seen b d" "scan_key e \<notin> seen"
  shows "dedupe_inv (insert (scan_key e) seen) (fst (dedupe_step e (b, d))) (snd (dedupe_step e (b, d)))"
proof (cases "map_of b (fst e)")
  case None
  then show ?thesis using assms
    by (fastforce simp: dedupe_inv_def dedupe_step_eq AList.update_conv' dest!: set_updateD
        simp del: split_paired_Ex split_paired_All)
next
  case (Some x)
  then have mem: "(fst e, x) \<in> set b" by (rule map_of_SomeD)
  then have seen: "(fst e, fst x) \<in> seen" using assms(1) by (force simp: dedupe_inv_def)
  then have ne: "fst x \<noteq> fst (snd e)" using assms(2) by auto
  show ?thesis
  proof (cases "fst x = Sha1")
    case True
    then show ?thesis using assms Some ne
      by (auto simp: dedupe_inv_def dedupe_step_eq simp del: split_paired_Ex split_paired_All)
  next
    case False
    then have new: "fst (snd e) = Sha1" and old: "fst x = Sha256"
      using ne by (cases "fst x"; cases "fst (snd e)"; simp)+
    have "a \<noteq> Sha1" if "(fst e, a) \<in> set d" for a
      using that assms new by (auto simp: dedupe_inv_def)
    then show ?thesis using assms Some False new old seen
      by (auto simp: dedupe_inv_def dedupe_step_eq AList.update_conv' dest!: set_updateD
          simp del: split_paired_Ex split_paired_All)
  qed
qed

lemma dedupe_inv_all:
  "dedupe_inv seen b d \<Longrightarrow> distinct (map scan_key es) \<Longrightarrow> scan_key ` set es \<inter> seen = {} \<Longrightarrow>
     dedupe_inv (seen \<union> scan_key ` set es) (fst (dedupe_by_hex es b d)) (snd (dedupe_by_hex es b d))"
proof (induction es arbitrary: seen b d)
  case (Cons e es)
  have "dedupe_inv (insert (scan_key e) seen \<union> scan_key ` set es)
     (fst (dedupe_by_hex es (fst (dedupe_step e (b, d))) (snd (dedupe_step e (b, d)))))
     (snd (dedupe_by_hex es (fst (dedupe_step e (b, d))) (snd (dedupe_step e (b, d)))))"
    using Cons.prems by (intro Cons.IH dedupe_inv_step) auto
  then show ?case by (simp add: dedupe_by_hex_Cons insert_commute)
qed simp

section \<open>The rebuilt index\<close>

text \<open>What the scan finds in a listing, oldest first.\<close>

definition kept_entries :: "(scan_entry list \<Rightarrow> scan_entry list) \<Rightarrow> scan_entry list \<Rightarrow> scan_entry list" where
  "kept_entries hash_order found =
     sort_key mtime_of (hash_order (fst (dedupe_by_hex (sort_key mtime_of found) [] [])))"

context lru_index
begin

lemma insert_sorted_entries_spec:
  "distinct (keys_of (lru_list L st @ map scan_item es)) \<Longrightarrow>
     lru_list L (insert_sorted_entries L es st) = lru_list L st @ map scan_item es
     \<and> total_bytes (insert_sorted_entries L es st) = total_bytes st + bytes_of (map scan_item es)
     \<and> blob_owners (insert_sorted_entries L es st) = blob_owners st
     \<and> reservations (insert_sorted_entries L es st) = reservations st"
proof (induction es arbitrary: st)
  case (Cons e es)
  obtain hex a sz m where e: "e = (hex, a, sz, m)" by (cases e) auto
  let ?st = "st\<lparr> total_bytes := total_bytes st + sz,
      entries := lhm_insert L hex \<lparr> entry_size = sz, entry_algorithm = a \<rparr> (entries st) \<rparr>"
  have "filter (\<lambda>p. fst p \<noteq> hex) (lru_list L st) = lru_list L st"
    using Cons.prems e by (intro filter_True) (auto simp: image_iff)
  then have E: "lru_list L ?st = lru_list L st @ [scan_item e]"
    using e by (simp add: iter_insert insert_back_def)
  then show ?case using Cons.IH [of ?st] Cons.prems e by (simp add: add.assoc)
qed simp

lemma rebuild_index_spec:
  assumes found: "(case listing of None \<Rightarrow> Ok [] | Some ds \<Rightarrow> scan_root ds []) = Ok found"
    and order: "\<And>xs. mset (hash_order xs) = mset xs"
    and uniq: "distinct (map scan_key found)"
    and files: "\<And>e. e \<in> set found \<Longrightarrow> hex_ok (fst e) \<and>
      (\<exists>p data. blob_path c \<lparr> dg_algorithm = fst (snd e), dg_hex = fst e \<rparr> = Some p \<and> disk c p = Some data)"
    and wf: "owners_wf (blob_owners (state c))" "distinct (keys_of (reservations (state c)))"
  obtains c' where "rebuild_index L io hash_order listing c = (c', Ok ())" "cache_inv L c'"
    "lru_list L (state c') = map scan_item (kept_entries hash_order found)"
    "max_bytes c' = max_bytes c" "cache_root c' = cache_root c"
proof -
  let ?es = "sort_key mtime_of found"
  obtain bh del where bh: "dedupe_by_hex ?es [] [] = (bh, del)" by (cases "dedupe_by_hex ?es [] []")
  define kept where "kept = kept_entries hash_order found"
  have kept_mset: "mset kept = mset bh" by (simp add: kept_def kept_entries_def bh order)
  have bh_keys: "distinct (keys_of bh)" using dedupe_keys [of "[]" ?es "[]"] bh by simp
  have bh_from: "set bh \<subseteq> set found" using dedupe_from [of ?es "[]" "[]"] bh by simp
  have kept_set: "set kept = set bh" by (rule mset_eq_setD [OF kept_mset])
  have kept_keys: "distinct (keys_of kept)"
    using bh_keys mset_distinct_map [OF kept_mset, of fst] by simp
  have "distinct (map scan_key ?es)"
    using uniq mset_distinct_map [of ?es found scan_key] by simp
  then have del_inv: "dedupe_inv (scan_key ` set ?es) bh del"
    using dedupe_inv_all [of "{}" "[]" "[]" ?es] bh by (simp add: dedupe_inv_def)
  let ?st0 = "(state c)\<lparr> entries := lhm_clear L (entries (state c)), total_bytes := 0 \<rparr>"
  let ?c1 = "c\<lparr> state := insert_sorted_entries L kept ?st0 \<rparr>"
  have ins: "lru_list L (insert_sorted_entries L kept ?st0) = map scan_item kept
     \<and> total_bytes (insert_sorted_entries L kept ?st0) = bytes_of (map scan_item kept)
     \<and> blob_owners (insert_sorted_entries L kept ?st0) = blob_owners (state c)
     \<and> reservations (insert_sorted_entries L kept ?st0) = reservations (state c)"
    using insert_sorted_entries_spec [of ?st0 kept] kept_keys by (simp add: iter_clear comp_def)
  obtain c' r where rem: "remove_blob_files io del ?c1 = (c', r)" by (cases "remove_blob_files io del ?c1")
  note frame = remove_blob_files_frame [OF rem]
  have del_hex: "\<forall>ev\<in>set del. hex_ok (fst ev)"
  proof
    fix ev
    assume "ev \<in> set del"
    then have "ev \<in> scan_key ` set found" using del_inv by (auto simp: dedupe_inv_def)
    then show "hex_ok (fst ev)" using files by auto
  qed
  then have r: "r = Ok ()" using remove_blob_files_ok [OF del_hex, of io ?c1] rem by simp
  have path: "blob_path ?c1 d = blob_path c d" for d by (simp add: blob_path_def)
  have keep: "disk c' p = disk c p" if e: "e \<in> set kept"
    "blob_path c \<lparr> dg_algorithm = fst (snd e), dg_hex = fst e \<rparr> = Some p" for e p
  proof -
    have "blob_path ?c1 \<lparr> dg_algorithm = a, dg_hex = k \<rparr> \<noteq> Some p" if d: "(k, a) \<in> set del" for k a
    proof
      assume "blob_path ?c1 \<lparr> dg_algorithm = a, dg_hex = k \<rparr> = Some p"
      moreover have "hex_ok k" using del_hex d by auto
      moreover have "hex_ok (fst e)" using files kept_set bh_from e(1) by blast
      ultimately have ka: "k = fst e" "a = fst (snd e)"
        using blob_path_inject [of "\<lparr> dg_algorithm = a, dg_hex = k \<rparr>" "\<lparr> dg_algorithm = fst (snd e), dg_hex = fst e \<rparr>" c]
          path e(2) by simp_all
      have "map_of bh (fst e) = Some (snd e)"
        using bh_keys e(1) kept_set by (simp add: map_of_eq_Some_iff)
      moreover obtain x where "map_of bh k = Some x" "fst x \<noteq> a"
        using del_inv d unfolding dedupe_inv_def by blast
      ultimately show False using ka by simp
    qed
    then show ?thesis using remove_blob_files_disk [OF rem, of p] by auto
  qed
  have "files_wf L c'"
    unfolding files_wf_def
  proof
    fix q
    assume "q \<in> set (lru_list L (state c'))"
    then obtain e where e: "e \<in> set kept" "q = scan_item e" using frame ins by auto
    then obtain p data where p: "hex_ok (fst e)"
      "blob_path c \<lparr> dg_algorithm = fst (snd e), dg_hex = fst e \<rparr> = Some p" "disk c p = Some data"
      using files kept_set bh_from by blast
    have "blob_path c' d = blob_path c d" for d by (rule blob_path_root) (use frame in simp)
    then show "hex_ok (fst q) \<and> (\<exists>p data. blob_path c' (entry_digest q) = Some p \<and> disk c' p = Some data)"
      using p keep [OF e(1) p(2)] e(2) by simp
  qed
  moreover have "state_wf L (state c')" using frame ins wf by (simp add: state_wf_def)
  moreover have "rebuild_index L io hash_order listing c = (c', Ok ())"
    using found bh rem r unfolding rebuild_index_def kept_def kept_entries_def by simp
  ultimately show ?thesis using that [of c'] frame ins by (simp add: cache_inv_def kept_def)
qed

lemma blob_cache_new_entries:
  assumes new: "blob_cache_new L io hash_order (Some ds) root mx files = Ok c0"
    and order: "\<And>xs. mset (hash_order xs) = mset xs"
    and found: "scan_root ds [] = Ok found" "distinct (map scan_key found)"
    and disk: "\<And>e. e \<in> set found \<Longrightarrow> hex_ok (fst e) \<and> (\<exists>p data.
       to_path \<lparr> dg_algorithm = fst (snd e), dg_hex = fst e \<rparr> = Some p \<and> files (path_push root p) = Some data)"
  shows "cache_inv L c0 \<and> lru_list L (state c0) = map scan_item (kept_entries hash_order found)"
proof -
  let ?c = "\<lparr> cache_root = root, max_bytes = mx,
     state = \<lparr> entries = lhm_new L, total_bytes = 0, blob_owners = [], reservations = [] \<rparr>,
     eviction_blocked_total = 0, disk = files \<rparr>"
  have 1: "(case Some ds of None \<Rightarrow> Ok [] | Some ds \<Rightarrow> scan_root ds []) = Ok found" using found by simp
  have 2: "hex_ok (fst e) \<and>
      (\<exists>p data. blob_path ?c \<lparr> dg_algorithm = fst (snd e), dg_hex = fst e \<rparr> = Some p \<and> disk ?c p = Some data)"
    if "e \<in> set found" for e
    using disk [OF that] by (auto simp: blob_path_def)
  obtain c' where "rebuild_index L io hash_order (Some ds) ?c = (c', Ok ())" "cache_inv L c'"
    "lru_list L (state c') = map scan_item (kept_entries hash_order found)"
    by (rule rebuild_index_spec [OF 1 order found(2) 2, where io = io]) (simp_all add: owners_wf_def)
  then show ?thesis using new by (auto simp: blob_cache_new_def Let_def split: option.splits)
qed

lemmas blob_cache_new_inv = blob_cache_new_entries [THEN conjunct1]

end

text \<open>What is kept of the files found: one per hex, the sha1 one when there is one, oldest first.\<close>

lemma kept_entries_spec:
  assumes "\<And>xs. mset (hash_order xs) = mset xs"
  shows "distinct (keys_of (kept_entries hash_order found))"
    and "set (kept_entries hash_order found) \<subseteq> set found"
    and "fst ` set (kept_entries hash_order found) = fst ` set found"
    and "sorted (map mtime_of (kept_entries hash_order found))"
    and "e \<in> set found \<Longrightarrow> fst (snd e) = Sha1 \<Longrightarrow> k \<in> set (kept_entries hash_order found) \<Longrightarrow> fst k = fst e
      \<Longrightarrow> fst (snd k) = Sha1"
proof -
  let ?es = "sort_key mtime_of found"
  let ?bh = "fst (dedupe_by_hex ?es [] [])"
  have keys: "distinct (keys_of ?bh)" "fst ` set ?bh = fst ` set found"
    using dedupe_keys [of "[]" ?es "[]"] by auto
  have m: "mset (kept_entries hash_order found) = mset ?bh" by (simp add: kept_entries_def assms)
  have s: "set (kept_entries hash_order found) = set ?bh" by (rule mset_eq_setD [OF m])
  show "distinct (keys_of (kept_entries hash_order found))"
    using keys(1) mset_distinct_map [OF m, of fst] by simp
  show "set (kept_entries hash_order found) \<subseteq> set found" using dedupe_from [of ?es "[]" "[]"] s by simp
  show "fst ` set (kept_entries hash_order found) = fst ` set found" using keys(2) s by simp
  show "sorted (map mtime_of (kept_entries hash_order found))" by (simp add: kept_entries_def)
  assume e: "e \<in> set found" "fst (snd e) = Sha1"
    and k: "k \<in> set (kept_entries hash_order found)" "fst k = fst e"
  have "\<exists>x. map_of ?bh (fst e) = Some (Sha1, x)"
    by (rule dedupe_sha1_stays) (use e in \<open>auto intro!: bexI [of _ e]\<close>)
  moreover have "map_of ?bh (fst k) = Some (snd k)"
    using keys(1) k(1) s by (simp add: map_of_eq_Some_iff)
  ultimately show "fst (snd k) = Sha1" using k(2) by auto
qed

end
