(* ===== verification/Cache_Correct.thy ===== *)
theory Cache_Correct
  imports Cache_Rebuild
begin

text \<open>
  The theorems of the blob cache: what an insertion evicts and keeps, the invariant over every
  sequence of operations, pruning, budgets, and the round trip through the files. They hold for
  every map that keeps the laws of \<open>linked_hash_map\<close>; the witnesses run on the association list.
\<close>

lemma lru_index_of: "linked_hash_map L \<Longrightarrow> lru_index L"
  by (rule lru_index.intro)

lemma linked_hash_map_list: "linked_hash_map list_lhm"
  by (rule lru.linked_hash_map_axioms)

section \<open>A cache to run\<close>

text \<open>Two blobs of four bytes, the older one owned by a mounted repository with a budget of four.\<close>

definition demo_key :: repo_key where
  "demo_key = RepoKey ''api.github.com'' ''o'' ''r''"

definition demo_cache :: "(string, cache_entry) lru_map blob_cache" where
  "demo_cache = \<lparr> cache_root = ''/c'', max_bytes = 8,
     state = \<lparr> entries = lru_insert ''bb0'' \<lparr> entry_size = 4, entry_algorithm = Sha1 \<rparr>
                 (lru_insert ''aa0'' \<lparr> entry_size = 4, entry_algorithm = Sha1 \<rparr> lru_new),
               total_bytes = 8, blob_owners = [(''aa0'', [demo_key])],
               reservations = [(demo_key, \<lparr> reserved_bytes = 4, is_explicit_override = True, refcount = 1 \<rparr>)] \<rparr>,
     eviction_blocked_total = 0,
     disk = [''/c/sha1/aa/0'' \<mapsto> ''aaaa'', ''/c/sha1/bb/0'' \<mapsto> ''bbbb''] \<rparr>"

definition good_io :: io_env where
  "good_io = \<lparr> mkdir_error = (\<lambda>_. None), mkdir_parent_error = (\<lambda>_. None), write_error = (\<lambda>_. None),
     remove_ok = (\<lambda>_. True), read_ok = (\<lambda>_. True), tmp_create_error = None,
     tmp_accept = (\<lambda>buf. Inl (length buf)), tmp_sync_error = None, persist_error = (\<lambda>_. None) \<rparr>"

lemma demo_items [simp]:
  "lhm_iter list_lhm (entries (state demo_cache)) =
     [(''aa0'', \<lparr> entry_size = 4, entry_algorithm = Sha1 \<rparr>), (''bb0'', \<lparr> entry_size = 4, entry_algorithm = Sha1 \<rparr>)]"
  by (simp add: demo_cache_def list_lhm_simps)

lemmas demo_eval = lru_insert_evict_def demo_cache_def evict_loop.simps list_lhm_simps
  is_protected_by_reservation_def working_set_bytes_for_def map_filter_simps demo_key_def

lemma demo_evict_limits:
  "max_bytes demo_cache = 8" "total_bytes (state demo_cache) = 8"
  by (simp_all add: demo_cache_def)

lemma demo_wf [simp]: "state_wf list_lhm (state demo_cache)"
  unfolding state_wf_def demo_items
  by (simp add: demo_cache_def owners_wf_def demo_key_def)

lemma demo_inv: "cache_inv list_lhm demo_cache"
  unfolding cache_inv_def files_wf_def demo_items
  by (intro conjI demo_wf)
    (simp add: demo_cache_def blob_path_def to_path_def char_boundary_def path_push_def starts_with_def
      ends_with_def hex_ok_def is_hex_char_def is_digit_def char_le_iff_nat)

text \<open>A directory with three blobs, one hex under both algorithms.\<close>

definition demo_listing :: "algo_dir list" where
  "demo_listing =
     [\<lparr> ad_name = ''sha256'', ad_is_dir = True, ad_prefixes = Inl [\<lparr> pd_name = ''aa'', pd_is_dir = True,
          pd_files = Inl [\<lparr> bf_name = ''0'', bf_is_file = True, bf_metadata = Some (3, Some 7) \<rparr>] \<rparr>] \<rparr>,
      \<lparr> ad_name = ''sha1'', ad_is_dir = True, ad_prefixes = Inl [\<lparr> pd_name = ''aa'', pd_is_dir = True,
          pd_files = Inl [\<lparr> bf_name = ''1'', bf_is_file = True, bf_metadata = Some (4, Some 5) \<rparr>,
                          \<lparr> bf_name = ''0'', bf_is_file = True, bf_metadata = Some (2, Some 9) \<rparr>] \<rparr>] \<rparr>]"

definition demo_found :: "scan_entry list" where
  "demo_found = [(''aa0'', Sha256, 3, 7), (''aa1'', Sha1, 4, 5), (''aa0'', Sha1, 2, 9)]"

definition demo_files :: "string \<rightharpoonup> bytes" where
  "demo_files = [''/c/sha256/aa/0'' \<mapsto> ''old'', ''/c/sha1/aa/1'' \<mapsto> ''aaaa'', ''/c/sha1/aa/0'' \<mapsto> ''aa'']"

lemma demo_scan: "scan_root demo_listing [] = Ok demo_found" "distinct (map scan_key demo_found)"
  by code_simp+

lemma demo_scan_files:
  "e \<in> set demo_found \<Longrightarrow> hex_ok (fst e) \<and> (\<exists>p data.
     to_path \<lparr> dg_algorithm = fst (snd e), dg_hex = fst e \<rparr> = Some p \<and> demo_files (path_push ''/c'' p) = Some data)"
proof -
  have "list_all (\<lambda>e. hex_ok (fst e) \<and> (case to_path \<lparr> dg_algorithm = fst (snd e), dg_hex = fst e \<rparr> of
     None \<Rightarrow> False | Some p \<Rightarrow> demo_files (path_push ''/c'' p) \<noteq> None)) demo_found"
    by code_simp
  then show "e \<in> set demo_found \<Longrightarrow> ?thesis"
    unfolding list_all_iff by (fastforce split: option.splits)
qed

section \<open>Insertion and eviction\<close>

text \<open>
  C1. Inserting a blob into the index always returns; it leaves the state well formed, and the total
  within the limit unless every blob still tracked is protected by a reservation.
\<close>

theorem insert_evict_budget:
  assumes "linked_hash_map L" "state_wf L (state c)"
  shows "\<exists>c' evicted. lru_insert_evict L key sz a c = Some (c', evicted) \<and> state_wf L (state c') \<and>
     (total_bytes (state c') \<le> max_bytes c
      \<or> (\<forall>q\<in>set (lhm_iter L (entries (state c'))). is_protected_by_reservation L (fst q) (state c')))"
  by (rule lru_index.insert_evict_fits [OF lru_index_of [OF assms(1)] assms(2)]) blast

theorem insert_evict_budget_witness:
  "\<exists>c' evicted. lru_insert_evict list_lhm ''cc0'' 3 Sha1 demo_cache = Some (c', evicted)
     \<and> evicted = [(''bb0'', Sha1)] \<and> total_bytes (state c') = 7 \<and> state_wf list_lhm (state c')"
proof -
  obtain c' evicted where R: "lru_insert_evict list_lhm ''cc0'' 3 Sha1 demo_cache = Some (c', evicted)"
    "state_wf list_lhm (state c')"
    using insert_evict_budget [OF linked_hash_map_list demo_wf, of "''cc0''" 3 Sha1] by blast
  have "lru_insert_evict list_lhm ''cc0'' 3 Sha1 demo_cache = Some (c', evicted) \<longrightarrow>
    evicted = [(''bb0'', Sha1)] \<and> total_bytes (state c') = 7"
    by (auto simp: demo_eval)
  then show ?thesis using R by blast
qed

text \<open>
  C2. A blob that a reservation protects once the new blob is in the index is not evicted by that
  insertion (as long as the tracked sizes together do not pass \<open>2^64\<close>).
\<close>

theorem insert_evict_keeps_protected:
  assumes "linked_hash_map L" "state_wf L (state c)"
    and "q \<in> set (lhm_iter L (lhm_insert L key \<lparr> entry_size = sz, entry_algorithm = a \<rparr> (entries (state c))))"
    and "is_protected_by_reservation L (fst q) ((state c)\<lparr>
           entries := lhm_insert L key \<lparr> entry_size = sz, entry_algorithm = a \<rparr> (entries (state c)) \<rparr>)"
    and "nat_bytes_of (lhm_iter L (lhm_insert L key \<lparr> entry_size = sz, entry_algorithm = a \<rparr>
           (entries (state c)))) < 2 ^ 64"
  shows "\<exists>c' evicted. lru_insert_evict L key sz a c = Some (c', evicted) \<and>
     q \<in> set (lhm_iter L (entries (state c')))"
  by (rule lru_index.insert_evict_protects [OF lru_index_of [OF assms(1)] assms(2-5)])

theorem insert_evict_keeps_protected_witness:
  "\<exists>c' evicted. lru_insert_evict list_lhm ''cc0'' 3 Sha1 demo_cache = Some (c', evicted) \<and>
     (''aa0'', \<lparr> entry_size = 4, entry_algorithm = Sha1 \<rparr>) \<in> set (lhm_iter list_lhm (entries (state c')))"
  by (rule insert_evict_keeps_protected [OF linked_hash_map_list demo_wf])
    (simp_all add: demo_eval nat_bytes_of_def)

text \<open>
  C4. What an insertion evicts: the evicted blobs and the ones still tracked are together exactly the
  old ones with the new one in place of an earlier entry of its key, the evicted ones lose their
  owners, and each eviction happened while the total was still over the limit. With no reservation
  in place the evicted blobs are the oldest ones, as few of them as fit the limit.
\<close>

theorem insert_evict_exact:
  assumes "linked_hash_map L" "state_wf L (state c)"
    and "es = insert_back key \<lparr> entry_size = sz, entry_algorithm = a \<rparr> (lhm_iter L (entries (state c)))"
  shows "\<exists>c' gone. lru_insert_evict L key sz a c = Some (c', map (\<lambda>p. (fst p, entry_algorithm (snd p))) gone)
     \<and> mset es = mset (lhm_iter L (entries (state c'))) + mset gone
     \<and> blob_owners (state c') = filter (\<lambda>p. fst p \<notin> fst ` set gone) (blob_owners (state c))
     \<and> (\<forall>j<length gone. max_bytes c < bytes_of es - bytes_of (take j gone))
     \<and> (reservations (state c) = [] \<longrightarrow>
          gone = take (drop_count (max_bytes c) (bytes_of es) es) es
          \<and> lhm_iter L (entries (state c')) = drop (drop_count (max_bytes c) (bytes_of es) es) es)"
  by (rule lru_index.insert_evict_partition [OF lru_index_of [OF assms(1)] assms(2,3)]) blast

theorem insert_evict_exact_witness:
  "\<exists>c'. lru_insert_evict list_lhm ''cc0'' 3 Sha1 (demo_cache\<lparr> state := (state demo_cache)\<lparr> reservations := [] \<rparr> \<rparr>)
       = Some (c', [(''aa0'', Sha1)]) \<and> map fst (lhm_iter list_lhm (entries (state c'))) = [''bb0'', ''cc0'']"
  using insert_evict_exact [OF linked_hash_map_list _ refl,
      where c = "demo_cache\<lparr> state := (state demo_cache)\<lparr> reservations := [] \<rparr> \<rparr>"
        and key = "''cc0''" and sz = 3 and a = Sha1]
    demo_wf
  by (auto simp: state_wf_def insert_back_def demo_evict_limits)

section \<open>Sequences of operations\<close>

text \<open>
  C3. A cache opened on a directory whose files are its blobs, after any sequence of operations with
  any failures of the operating system: the total is the sum of the tracked sizes, the tables are
  well formed, and every tracked blob has a file where the cache reads it.
\<close>

theorem opened_cache_invariant:
  assumes L: "linked_hash_map L"
    and new: "blob_cache_new L io hash_order (Some ds) root mx files = Ok c0"
    and order: "\<And>xs. mset (hash_order xs) = mset xs"
    and found: "scan_root ds [] = Ok found" "distinct (map scan_key found)"
    and disk: "\<And>e. e \<in> set found \<Longrightarrow> hex_ok (fst e) \<and> (\<exists>p data.
       to_path \<lparr> dg_algorithm = fst (snd e), dg_hex = fst e \<rparr> = Some p \<and> files (path_push root p) = Some data)"
    and steps: "(cache_step L)\<^sup>*\<^sup>* c0 c"
  shows "cache_inv L c"
  by (rule lru_index.cache_steps_inv [OF lru_index_of [OF L] steps
        lru_index.blob_cache_new_inv [OF lru_index_of [OF L] new order found disk]])

theorem opened_cache_invariant_witness:
  "\<exists>c0. blob_cache_new list_lhm good_io id (Some demo_listing) ''/c'' 100 demo_files = Ok c0
     \<and> cache_inv list_lhm (register_mount demo_key None [''aa0''] c0)"
proof -
  have "is_ok (blob_cache_new list_lhm good_io id (Some demo_listing) ''/c'' 100 demo_files)"
    by code_simp
  then obtain c0 where c0: "blob_cache_new list_lhm good_io id (Some demo_listing) ''/c'' 100 demo_files = Ok c0"
    unfolding is_ok_iff by blast
  have "(cache_step list_lhm)\<^sup>*\<^sup>* c0 (register_mount demo_key None [''aa0''] c0)"
    by (intro r_into_rtranclp step_register)
  then have "cache_inv list_lhm (register_mount demo_key None [''aa0''] c0)"
    using opened_cache_invariant [OF linked_hash_map_list c0 _ demo_scan demo_scan_files] by simp
  then show ?thesis using c0 by blast
qed

text \<open>
  C17. Opening the cache keeps one file per hex string, a sha1 file before a sha256 one, and tracks
  exactly these, oldest first; the total is the sum of their sizes.
\<close>

theorem rebuild_index_exact:
  assumes L: "linked_hash_map L"
    and new: "blob_cache_new L io hash_order (Some ds) root mx files = Ok c0"
    and order: "\<And>xs. mset (hash_order xs) = mset xs"
    and found: "scan_root ds [] = Ok found" "distinct (map scan_key found)"
    and disk: "\<And>e. e \<in> set found \<Longrightarrow> hex_ok (fst e) \<and> (\<exists>p data.
       to_path \<lparr> dg_algorithm = fst (snd e), dg_hex = fst e \<rparr> = Some p \<and> files (path_push root p) = Some data)"
  shows "\<exists>kept. lhm_iter L (entries (state c0)) = map scan_item kept
     \<and> total_bytes (state c0) = bytes_of (map scan_item kept)
     \<and> distinct (map fst kept) \<and> set kept \<subseteq> set found \<and> fst ` set kept = fst ` set found
     \<and> sorted (map mtime_of kept)
     \<and> (\<forall>e\<in>set found. fst (snd e) = Sha1 \<longrightarrow> (\<forall>k\<in>set kept. fst k = fst e \<longrightarrow> fst (snd k) = Sha1))"
proof -
  have R: "lhm_iter L (entries (state c0)) = map scan_item (kept_entries hash_order found)" "cache_inv L c0"
    using lru_index.blob_cache_new_entries [OF lru_index_of [OF L] new order found disk]
      lru_index.blob_cache_new_inv [OF lru_index_of [OF L] new order found disk] by blast+
  have "total_bytes (state c0) = bytes_of (map scan_item (kept_entries hash_order found))"
    using R by (simp add: cache_inv_def state_wf_def)
  then show ?thesis
    using R(1) kept_entries_spec [OF order] by blast
qed

theorem rebuild_index_exact_witness:
  "\<exists>c0 kept. blob_cache_new list_lhm good_io id (Some demo_listing) ''/c'' 100 demo_files = Ok c0
     \<and> lhm_iter list_lhm (entries (state c0)) = map scan_item kept \<and> sorted (map mtime_of kept)
     \<and> fst ` set kept = fst ` set demo_found"
proof -
  have "is_ok (blob_cache_new list_lhm good_io id (Some demo_listing) ''/c'' 100 demo_files)"
    by code_simp
  then obtain c0 where c0: "blob_cache_new list_lhm good_io id (Some demo_listing) ''/c'' 100 demo_files = Ok c0"
    unfolding is_ok_iff by blast
  then show ?thesis
    using rebuild_index_exact [OF linked_hash_map_list c0 _ demo_scan demo_scan_files] by auto
qed

section \<open>Files\<close>

text \<open>C27. A blob that was put and is still tracked is read back, byte for byte.\<close>

theorem put_get_roundtrip:
  assumes "linked_hash_map L" "cache_inv L c" "hex_ok (dg_hex d)"
    and "blob_put L io d data c = Some (c', Ok ())" "contains L d c'"
    and "blob_path c' d = Some path" "read_ok io' path"
  shows "snd (blob_get L io' d c') = Ok (Some data)"
  by (rule lru_index.put_then_get [OF lru_index_of [OF assms(1)] assms(2-7)])

theorem put_get_roundtrip_witness:
  "\<exists>c'. blob_put list_lhm good_io (from_sha1_hex ''cc0'') ''ccc'' demo_cache = Some (c', Ok ())
     \<and> snd (blob_get list_lhm good_io (from_sha1_hex ''cc0'') c') = Ok (Some ''ccc'')"
proof -
  let ?d = "from_sha1_hex ''cc0''"
  have "case blob_put list_lhm good_io ?d ''ccc'' demo_cache of None \<Rightarrow> False
     | Some (c', r) \<Rightarrow> r = Ok () \<and> contains list_lhm ?d c' \<and> blob_path c' ?d = Some ''/c/sha1/cc/0''"
    by code_simp
  from case_Some_pairD [OF this] obtain c' where P: "blob_put list_lhm good_io ?d ''ccc'' demo_cache = Some (c', Ok ())"
    "contains list_lhm ?d c'" "blob_path c' ?d = Some ''/c/sha1/cc/0''" by blast
  have "hex_ok (dg_hex ?d)" by code_simp
  moreover have "read_ok good_io ''/c/sha1/cc/0''" by (simp add: good_io_def)
  ultimately show ?thesis
    using put_get_roundtrip [OF linked_hash_map_list demo_inv _ P] P(1) by blast
qed

text \<open>
  C16. \<open>commit_atomic\<close> always returns; it fails with the cache untouched, files included, or the
  content has the digest's hash and, while it is tracked, is read back byte for byte. A content with
  another hash is always refused.
\<close>

theorem commit_atomic_all_or_nothing:
  assumes "linked_hash_map L" "cache_inv L c" "hex_ok (dg_hex d)"
  shows "\<exists>c' r. commit_atomic sha256 L io d data c = Some (c', r)
     \<and> (case r of
          Ok _ \<Rightarrow> sha256 data = dg_hex d \<and> (\<forall>io' path. contains L d c' \<and> blob_path c' d = Some path
             \<and> read_ok io' path \<longrightarrow> snd (blob_get L io' d c') = Ok (Some data))
        | Err _ \<Rightarrow> c' = c
        | Panic \<Rightarrow> False)
     \<and> (sha256 data \<noteq> dg_hex d \<longrightarrow> (\<exists>e. r = Err e))"
  by (rule lru_index.commit_atomic_cases [OF lru_index_of [OF assms(1)] assms(2,3)])

theorem commit_atomic_all_or_nothing_witness:
  "\<exists>e. commit_atomic (\<lambda>_. ''dd9'') list_lhm good_io (from_sha256_hex ''cc0'') ''ccc'' demo_cache
     = Some (demo_cache, Err e)"
proof -
  have "hex_ok (dg_hex (from_sha256_hex ''cc0''))" by code_simp
  from commit_atomic_all_or_nothing [OF linked_hash_map_list demo_inv this, of "\<lambda>_. ''dd9''" good_io "''ccc''"]
  show ?thesis by (auto simp: from_sha256_hex_def)
qed

text \<open>
  Pruning to a target returns, drops the oldest blobs and only them, as few as bring the total
  within the target, and reports the bytes it freed.
\<close>

theorem prune_exact:
  assumes "linked_hash_map L" "cache_inv L c"
    and "limit = (case tgt of Some b \<Rightarrow> b | None \<Rightarrow> max_bytes c)"
    and "es = lhm_iter L (entries (state c))"
  shows "\<exists>n c'. prune L io tgt c = Some (c', Ok (bytes_of (take n es))) \<and> cache_inv L c'
     \<and> lhm_iter L (entries (state c')) = drop n es \<and> total_bytes (state c') \<le> limit
     \<and> (\<forall>j<n. limit < bytes_of (drop j es))"
proof -
  have tot: "total_bytes (state c) = bytes_of es" using assms(2,4) by (simp add: cache_inv_def state_wf_def)
  obtain c' where P: "prune L io tgt c = Some (c', Ok (bytes_of (take (drop_count limit (total_bytes (state c)) es) es)))"
    "cache_inv L c'" "lhm_iter L (entries (state c')) = drop (drop_count limit (total_bytes (state c)) es) es"
    using lru_index.prune_spec [OF lru_index_of [OF assms(1)] assms(2,3) refl, where io = io] assms(4) by blast
  then have "total_bytes (state c') \<le> limit"
    using drop_count_fits [OF tot] by (simp add: cache_inv_def state_wf_def)
  then show ?thesis using P drop_count_minimal [OF tot] by blast
qed

theorem prune_exact_witness:
  "\<exists>n c'. prune list_lhm good_io (Some 5) demo_cache = Some (c', Ok (bytes_of (take n
        (lhm_iter list_lhm (entries (state demo_cache)))))) \<and> total_bytes (state c') \<le> 5"
  using prune_exact [OF linked_hash_map_list demo_inv refl refl, of good_io "Some 5"] by auto

end
