(* ===== verification/Cache_Race.thy ===== *)
theory Cache_Race
  imports Cache_Correct
begin

text \<open>
  \<open>put\<close> under concurrency. The cache's mutex is held only while the index changes: the file is
  written before it is taken and the evicted files are removed after it is released
  (\<open>put\<close> and \<open>lru_insert_evict\<close> in \<open>crates/ctxfs-cache/src/lib.rs\<close>). A thread's put is split into these atomic
  parts and threads interleave between them. Run alone, the parts are the sequential put; run
  together, a removal can delete the file another thread has just put back.
\<close>

datatype put_pc =
    Put_Write
  | Put_Track
  | Put_Remove "(string \<times> hash_algorithm) list"
  | Put_Done "unit ctxfs_result"

record put_thread =
  pt_digest :: digest
  pt_data :: bytes
  pt_pc :: put_pc

text \<open>One atomic part of a put, \<open>None\<close> when the thread is done.\<close>

definition put_part ::
  "'m lru_ops \<Rightarrow> io_env \<Rightarrow> put_thread \<Rightarrow> 'm blob_cache \<Rightarrow> (put_thread \<times> 'm blob_cache) option" where
  "put_part L io t c =
     (case pt_pc t of
        Put_Write \<Rightarrow>
          Some (case blob_path c (pt_digest t) of
            None \<Rightarrow> (t\<lparr> pt_pc := Put_Done Panic \<rparr>, c)
          | Some path \<Rightarrow>
              (case mkdir_parent_error io path of
                 Some e \<Rightarrow> (t\<lparr> pt_pc := Put_Done (Err (Cache (''mkdir failed: '' @ e))) \<rparr>, c)
               | None \<Rightarrow>
                   (case write_error io path of
                      Some (e, left) \<Rightarrow>
                        (t\<lparr> pt_pc := Put_Done (Err (Cache (''write failed: '' @ e))) \<rparr>,
                         case left of None \<Rightarrow> c
                         | Some n \<Rightarrow> c\<lparr> disk := (disk c)(path \<mapsto> take n (pt_data t)) \<rparr>)
                    | None \<Rightarrow>
                        (t\<lparr> pt_pc := Put_Track \<rparr>, c\<lparr> disk := (disk c)(path \<mapsto> pt_data t) \<rparr>))))
      | Put_Track \<Rightarrow>
          map_option (\<lambda>(c1, evicted). (t\<lparr> pt_pc := Put_Remove evicted \<rparr>, c1))
            (lru_insert_evict L (dg_hex (pt_digest t)) (of_nat (length (pt_data t)))
               (dg_algorithm (pt_digest t)) c)
      | Put_Remove [] \<Rightarrow> Some (t\<lparr> pt_pc := Put_Done (Ok ()) \<rparr>, c)
      | Put_Remove ((k, a) # evs) \<Rightarrow>
          Some (case remove_blob_file io k a c of
            (c1, Ok _) \<Rightarrow> (t\<lparr> pt_pc := Put_Remove evs \<rparr>, c1)
          | (c1, r) \<Rightarrow> (t\<lparr> pt_pc := Put_Done r \<rparr>, c1))
      | Put_Done r \<Rightarrow> None)"

inductive put_alone :: "'m lru_ops \<Rightarrow> io_env \<Rightarrow> put_thread \<times> 'm blob_cache \<Rightarrow> put_thread \<times> 'm blob_cache \<Rightarrow> bool"
  for L io where
  "put_part L io t c = Some (t', c') \<Longrightarrow> put_alone L io (t, c) (t', c')"

inductive put_interleave ::
  "'m lru_ops \<Rightarrow> io_env \<Rightarrow> put_thread list \<times> 'm blob_cache \<Rightarrow> put_thread list \<times> 'm blob_cache \<Rightarrow> bool"
  for L io where
  "i < length ts \<Longrightarrow> put_part L io (ts ! i) c = Some (t', c') \<Longrightarrow>
     put_interleave L io (ts, c) (ts[i := t'], c')"

lemma removals_alone:
  "remove_blob_files io evs c = (c', r) \<Longrightarrow> pt_pc t = Put_Remove evs \<Longrightarrow>
     (put_alone L io)\<^sup>*\<^sup>* (t, c) (t\<lparr> pt_pc := Put_Done r \<rparr>, c')"
proof (induction evs arbitrary: t c)
  case Nil
  then have "put_alone L io (t, c) (t\<lparr> pt_pc := Put_Done r \<rparr>, c')"
    by (intro put_alone.intros) (simp add: put_part_def)
  then show ?case by (rule r_into_rtranclp)
next
  case (Cons ev evs)
  obtain k a where ev: "ev = (k, a)" by (cases ev)
  obtain c1 r1 where s: "remove_blob_file io k a c = (c1, r1)" by (cases "remove_blob_file io k a c")
  show ?case
  proof (cases r1)
    case (Ok u)
    then have rest: "remove_blob_files io evs c1 = (c', r)" using Cons.prems ev s by simp
    have "put_alone L io (t, c) (t\<lparr> pt_pc := Put_Remove evs \<rparr>, c1)"
      by (rule put_alone.intros) (simp add: put_part_def Cons.prems(2) ev s Ok)
    moreover have "(put_alone L io)\<^sup>*\<^sup>* (t\<lparr> pt_pc := Put_Remove evs \<rparr>, c1) (t\<lparr> pt_pc := Put_Done r \<rparr>, c')"
      using Cons.IH [OF rest, of "t\<lparr> pt_pc := Put_Remove evs \<rparr>"] by simp
    ultimately show ?thesis by (rule converse_rtranclp_into_rtranclp)
  next
    case (Err e)
    have "put_alone L io (t, c) (t\<lparr> pt_pc := Put_Done r \<rparr>, c')"
      by (rule put_alone.intros) (use Cons.prems ev s Err in \<open>auto simp: put_part_def\<close>)
    then show ?thesis by (rule r_into_rtranclp)
  next
    case Panic
    have "put_alone L io (t, c) (t\<lparr> pt_pc := Put_Done r \<rparr>, c')"
      by (rule put_alone.intros) (use Cons.prems ev s Panic in \<open>auto simp: put_part_def\<close>)
    then show ?thesis by (rule r_into_rtranclp)
  qed
qed

text \<open>
  The parts are the put: a thread that runs with no other thread in between ends with exactly the
  result and the cache of the sequential \<open>blob_put\<close>.
\<close>

theorem put_parts_refine_put:
  assumes "blob_put L io d data c = Some (c', r)"
  shows "(put_alone L io)\<^sup>*\<^sup>* (\<lparr> pt_digest = d, pt_data = data, pt_pc = Put_Write \<rparr>, c)
     (\<lparr> pt_digest = d, pt_data = data, pt_pc = Put_Done r \<rparr>, c')"
proof -
  let ?t = "\<lambda>pc. \<lparr> pt_digest = d, pt_data = data, pt_pc = pc \<rparr>"
  show ?thesis
  proof (cases "put_part L io (?t Put_Write) c = Some (?t (Put_Done r), c')")
    case True
    then show ?thesis by (intro r_into_rtranclp put_alone.intros)
  next
    case False
    then obtain path where path: "blob_path c d = Some path" "mkdir_parent_error io path = None" "write_error io path = None"
      using assms by (auto simp: put_part_def blob_put_def split: option.splits prod.splits)
    let ?c1 = "c\<lparr> disk := (disk c)(path \<mapsto> data) \<rparr>"
    have T: "track_and_evict L io d (of_nat (length data)) ?c1 = Some (c', r)"
      using assms path by (simp add: blob_put_def)
    then obtain c2 evs where I: "lru_insert_evict L (dg_hex d) (of_nat (length data)) (dg_algorithm d) ?c1 = Some (c2, evs)"
      "remove_blob_files io evs c2 = (c', r)"
      by (auto simp: track_and_evict_def)
    have 1: "put_alone L io (?t Put_Write, c) (?t Put_Track, ?c1)"
      by (rule put_alone.intros) (simp add: put_part_def path)
    have 2: "put_alone L io (?t Put_Track, ?c1) (?t (Put_Remove evs), c2)"
      by (rule put_alone.intros) (simp add: put_part_def I(1))
    have 3: "(put_alone L io)\<^sup>*\<^sup>* (?t (Put_Remove evs), c2) (?t (Put_Done r), c')"
      using removals_alone [OF I(2), where t = "?t (Put_Remove evs)" and L = L] by simp
    show ?thesis using 1 2 3 by (meson converse_rtranclp_into_rtranclp)
  qed
qed

theorem put_parts_refine_put_witness:
  "\<exists>c'. (put_alone list_lhm good_io)\<^sup>*\<^sup>*
     (\<lparr> pt_digest = from_sha1_hex ''cc0'', pt_data = ''ccc'', pt_pc = Put_Write \<rparr>, demo_cache)
     (\<lparr> pt_digest = from_sha1_hex ''cc0'', pt_data = ''ccc'', pt_pc = Put_Done (Ok ()) \<rparr>, c')"
proof -
  have "case blob_put list_lhm good_io (from_sha1_hex ''cc0'') ''ccc'' demo_cache of None \<Rightarrow> False
     | Some (c', r) \<Rightarrow> r = Ok ()"
    by code_simp
  from case_Some_pairD [OF this] put_parts_refine_put show ?thesis by blast
qed

text \<open>A cache of four bytes holding one blob of four bytes.\<close>

definition race_cache :: "(string, cache_entry) lru_map blob_cache" where
  "race_cache = \<lparr> cache_root = ''/c'', max_bytes = 4,
     state = \<lparr> entries = lru_insert ''aa0'' \<lparr> entry_size = 4, entry_algorithm = Sha1 \<rparr> lru_new,
               total_bytes = 4, blob_owners = [], reservations = [] \<rparr>,
     eviction_blocked_total = 0, disk = [''/c/sha1/aa/0'' \<mapsto> ''aaaa''] \<rparr>"

text \<open>A schedule names the thread that moves next.\<close>

fun run_schedule ::
  "'m lru_ops \<Rightarrow> io_env \<Rightarrow> nat list \<Rightarrow> put_thread list \<times> 'm blob_cache \<Rightarrow>
     (put_thread list \<times> 'm blob_cache) option" where
  "run_schedule L io [] s = Some s"
| "run_schedule L io (i # is) (ts, c) =
     (if i < length ts
      then (case put_part L io (ts ! i) c of
              Some (t', c') \<Rightarrow> run_schedule L io is (ts[i := t'], c')
            | None \<Rightarrow> None)
      else None)"

lemma run_schedule_steps:
  "run_schedule L io is s = Some s' \<Longrightarrow> (put_interleave L io)\<^sup>*\<^sup>* s s'"
proof (induction L io "is" s rule: run_schedule.induct)
  case (2 L io i "is" ts c)
  then obtain t' c' where P: "i < length ts" "put_part L io (ts ! i) c = Some (t', c')"
    "run_schedule L io is (ts[i := t'], c') = Some s'"
    by (auto split: if_splits option.splits)
  have "put_interleave L io (ts, c) (ts[i := t'], c')" by (rule put_interleave.intros [OF P(1,2)])
  moreover have "(put_interleave L io)\<^sup>*\<^sup>* (ts[i := t'], c') s'"
    using 2(1) [OF P(1,2) refl P(3)] by simp
  ultimately show ?case by (rule converse_rtranclp_into_rtranclp)
qed simp

definition race_threads :: "put_thread list" where
  "race_threads =
     [\<lparr> pt_digest = \<lparr> dg_algorithm = Sha1, dg_hex = ''bb0'' \<rparr>, pt_data = ''bbbb'', pt_pc = Put_Write \<rparr>,
      \<lparr> pt_digest = \<lparr> dg_algorithm = Sha1, dg_hex = ''aa0'' \<rparr>, pt_data = ''aaaa'', pt_pc = Put_Write \<rparr>]"

lemmas race_eval = race_threads_def race_cache_def good_io_def put_part_def blob_path_def to_path_def
  char_boundary_def path_push_def starts_with_def ends_with_def lru_insert_evict_def evict_loop.simps
  list_lhm_simps is_protected_by_reservation_def remove_blob_file_def nth_Cons_0 contains_def blob_get_def

text \<open>
  C29. Two puts can interleave so that both succeed, the cache says it contains the second blob, and
  its file is gone: the first put evicted that blob before it was put again and removed its file after.
\<close>

theorem concurrent_put_loses_file:
  "\<exists>ts c. (put_interleave list_lhm good_io)\<^sup>*\<^sup>* (race_threads, race_cache) (ts, c)
     \<and> list_all (\<lambda>t. pt_pc t = Put_Done (Ok ())) ts
     \<and> contains list_lhm \<lparr> dg_algorithm = Sha1, dg_hex = ''aa0'' \<rparr> c
     \<and> snd (blob_get list_lhm good_io \<lparr> dg_algorithm = Sha1, dg_hex = ''aa0'' \<rparr> c) = Ok None"
proof -
  have "case run_schedule list_lhm good_io [0, 0, 1, 1, 0, 0, 1, 1] (race_threads, race_cache) of
       None \<Rightarrow> False
     | Some (ts, c) \<Rightarrow> list_all (\<lambda>t. pt_pc t = Put_Done (Ok ())) ts
         \<and> contains list_lhm \<lparr> dg_algorithm = Sha1, dg_hex = ''aa0'' \<rparr> c
         \<and> snd (blob_get list_lhm good_io \<lparr> dg_algorithm = Sha1, dg_hex = ''aa0'' \<rparr> c) = Ok None"
    by code_simp
  from case_Some_pairD [OF this] run_schedule_steps show ?thesis
    by blast
qed

end
