(* ===== verification/Config.thy ===== *)
theory Config
  imports Core_Types
begin

text \<open>
  The configuration, \<open>crates/ctxfs-core/src/config.rs\<close>: defaults, the values of the TOML file, the
  environment, and the derived prefetch cap; then the atomic write of the file and the hash check
  that guards it. The TOML and hash libraries are arguments: \<open>parse_toml\<close>, \<open>set_toml_key\<close> and
  \<open>sha256\<close>. The environment is a map; a variable that is not Unicode is absent, as for the code.
\<close>

section \<open>Values\<close>

record config_file =
  cf_github_token :: "string option"
  cf_socket_path :: "string option"
  cf_pid_file :: "string option"
  cf_cache_dir :: "string option"
  cf_cache_max_bytes :: "u64 option"
  cf_log_level :: "string option"
  cf_redis_url :: "string option"
  cf_latest_ttl_secs :: "u64 option"
  cf_tree_cache_max_bytes :: "u64 option"
  cf_backend :: "string option"
  cf_fskit_bundle_id :: "string option"
  cf_prefetch_threshold_count :: "u64 option"
  cf_prefetch_max_bytes :: "u64 option"
  cf_github_host :: "string option"

text \<open>\<open>PrefetchExplicit\<close> has one field.\<close>

record prefetch_explicit =
  explicit_max_bytes :: bool

record config =
  socket_path :: string
  pid_file :: string
  cache_dir :: string
  cache_max_bytes :: u64
  log_level :: string
  github_token :: "string option"
  redis_url :: "string option"
  latest_ttl_secs :: u64
  tree_cache_max_bytes :: u64
  default_backend :: "backend option"
  fskit_bundle_id :: "string option"
  prefetch_threshold_count :: u64
  prefetch_max_bytes :: u64
  github_host :: string

type_synonym env = "string \<rightharpoonup> string"

section \<open>Loading\<close>

definition default_prefetch_max_bytes :: "u64 \<Rightarrow> u64" where
  "default_prefetch_max_bytes m = min (m div 4) (256 * 1024 * 1024)"

text \<open>\<open>home\<close> is what \<open>dirs::home_dir\<close> returns.\<close>

definition default_config :: "string option \<Rightarrow> config" where
  "default_config home =
     (let base = path_push (case home of Some h \<Rightarrow> h | None \<Rightarrow> ''/tmp'') ''.ctxfs'';
          m = 512 * 1024 * 1024
      in \<lparr> socket_path = path_push base ''ctxfs.sock'', pid_file = path_push base ''ctxfs.pid'',
           cache_dir = path_push base ''cache'', cache_max_bytes = m, log_level = ''info'',
           github_token = None, redis_url = None, latest_ttl_secs = 3600,
           tree_cache_max_bytes = 500 * 1024 * 1024, default_backend = None,
           fskit_bundle_id = Some ''ai.ctxfs.companion.fskitext'', prefetch_threshold_count = 30,
           prefetch_max_bytes = default_prefetch_max_bytes m, github_host = ''api.github.com'' \<rparr>)"

definition recompute_derived_defaults :: "prefetch_explicit \<Rightarrow> config \<Rightarrow> config" where
  "recompute_derived_defaults ex c =
     (if \<not> explicit_max_bytes ex
      then c\<lparr> prefetch_max_bytes := default_prefetch_max_bytes (cache_max_bytes c) \<rparr> else c)"

text \<open>The three ways the code applies an optional value.\<close>

definition apply_some :: "'a option \<Rightarrow> ('a \<Rightarrow> 'c \<Rightarrow> 'c) \<Rightarrow> 'c \<Rightarrow> 'c" where
  "apply_some v upd c = (case v of Some x \<Rightarrow> upd x c | None \<Rightarrow> c)"

definition nonempty :: "string option \<Rightarrow> string option" where
  "nonempty v = (case v of Some x \<Rightarrow> if x = [] then None else Some x | None \<Rightarrow> None)"

definition env_u64 :: "env \<Rightarrow> string \<Rightarrow> u64 option" where
  "env_u64 env k = Option.bind (env k) parse_u64"

definition parse_backend_ok :: "string \<Rightarrow> backend option" where
  "parse_backend_ok v = (case backend_from_str v of Ok b \<Rightarrow> Some b | _ \<Rightarrow> None)"

definition apply_file :: "config_file \<Rightarrow> config \<times> prefetch_explicit \<Rightarrow> config \<times> prefetch_explicit" where
  "apply_file f s =
     (let (c0, ex) = s;
          c1 = apply_some (nonempty (cf_github_token f)) (\<lambda>v. github_token_update (\<lambda>_. Some v)) c0;
          c2 = apply_some (cf_socket_path f) (\<lambda>v. socket_path_update (\<lambda>_. v)) c1;
          c3 = apply_some (cf_pid_file f) (\<lambda>v. pid_file_update (\<lambda>_. v)) c2;
          c4 = apply_some (cf_cache_dir f) (\<lambda>v. cache_dir_update (\<lambda>_. v)) c3;
          c5 = apply_some (cf_cache_max_bytes f) (\<lambda>v. cache_max_bytes_update (\<lambda>_. v)) c4;
          c6 = apply_some (cf_log_level f) (\<lambda>v. log_level_update (\<lambda>_. v)) c5;
          c7 = apply_some (nonempty (cf_redis_url f)) (\<lambda>v. redis_url_update (\<lambda>_. Some v)) c6;
          c8 = apply_some (cf_latest_ttl_secs f) (\<lambda>v. latest_ttl_secs_update (\<lambda>_. v)) c7;
          c9 = apply_some (cf_tree_cache_max_bytes f) (\<lambda>v. tree_cache_max_bytes_update (\<lambda>_. v)) c8;
          c10 = apply_some (cf_backend f) (\<lambda>v. default_backend_update (\<lambda>_. parse_backend_ok v)) c9;
          c11 = apply_some (nonempty (cf_fskit_bundle_id f)) (\<lambda>v. fskit_bundle_id_update (\<lambda>_. Some v)) c10;
          c12 = apply_some (cf_prefetch_threshold_count f) (\<lambda>v. prefetch_threshold_count_update (\<lambda>_. v)) c11;
          c13 = apply_some (cf_prefetch_max_bytes f) (\<lambda>v. prefetch_max_bytes_update (\<lambda>_. v)) c12;
          ex1 = apply_some (cf_prefetch_max_bytes f) (\<lambda>_. explicit_max_bytes_update (\<lambda>_. True)) ex;
          c14 = apply_some (nonempty (cf_github_host f)) (\<lambda>v. github_host_update (\<lambda>_. v)) c13
      in (c14, ex1))"

definition apply_prefetch_env :: "env \<Rightarrow> config \<times> prefetch_explicit \<Rightarrow> config \<times> prefetch_explicit" where
  "apply_prefetch_env env s =
     (let (c0, ex) = s;
          c1 = apply_some (env_u64 env ''CTXFS_PREFETCH_THRESHOLD_COUNT'')
                 (\<lambda>v. prefetch_threshold_count_update (\<lambda>_. v)) c0;
          mb = env_u64 env ''CTXFS_PREFETCH_MAX_BYTES'';
          c2 = apply_some mb (\<lambda>v. prefetch_max_bytes_update (\<lambda>_. v)) c1;
          ex1 = apply_some mb (\<lambda>_. explicit_max_bytes_update (\<lambda>_. True)) ex;
          c3 = apply_some (nonempty (env ''CTXFS_GITHUB_HOST'')) (\<lambda>v. github_host_update (\<lambda>_. v)) c2
      in (c3, ex1))"

text \<open>A variable that is set to the empty string clears the token, or the URL.\<close>

definition env_clearing :: "env \<Rightarrow> string \<Rightarrow> string option option" where
  "env_clearing env k = (case env k of None \<Rightarrow> None | Some v \<Rightarrow> Some (if v = [] then None else Some v))"

definition apply_env :: "env \<Rightarrow> config \<times> prefetch_explicit \<Rightarrow> config \<times> prefetch_explicit" where
  "apply_env env s =
     (let (c0, ex) = s;
          c1 = apply_some (env ''CTXFS_SOCKET'') (\<lambda>v. socket_path_update (\<lambda>_. v)) c0;
          c2 = apply_some (env ''CTXFS_PID_FILE'') (\<lambda>v. pid_file_update (\<lambda>_. v)) c1;
          c3 = apply_some (env ''CTXFS_CACHE_DIR'') (\<lambda>v. cache_dir_update (\<lambda>_. v)) c2;
          c4 = apply_some (env_u64 env ''CTXFS_CACHE_MAX_BYTES'') (\<lambda>v. cache_max_bytes_update (\<lambda>_. v)) c3;
          c5 = apply_some (env ''CTXFS_LOG_LEVEL'') (\<lambda>v. log_level_update (\<lambda>_. v)) c4;
          c6 = apply_some (env_clearing env ''GITHUB_TOKEN'') (\<lambda>v. github_token_update (\<lambda>_. v)) c5;
          c7 = apply_some (env_clearing env ''CTXFS_REDIS_URL'') (\<lambda>v. redis_url_update (\<lambda>_. v)) c6;
          c8 = apply_some (env_u64 env ''CTXFS_LATEST_TTL_SECS'') (\<lambda>v. latest_ttl_secs_update (\<lambda>_. v)) c7;
          c9 = apply_some (env_u64 env ''CTXFS_TREE_CACHE_MAX_BYTES'')
                 (\<lambda>v. tree_cache_max_bytes_update (\<lambda>_. v)) c8;
          c10 = apply_some (nonempty (env ''CTXFS_BACKEND''))
                 (\<lambda>v. default_backend_update (\<lambda>_. parse_backend_ok v)) c9;
          c11 = apply_some (nonempty (env ''CTXFS_FSKIT_BUNDLE_ID''))
                 (\<lambda>v. fskit_bundle_id_update (\<lambda>_. Some v)) c10
      in apply_prefetch_env env (c11, ex))"

definition from_toml_str ::
  "(string \<Rightarrow> config_file + string) \<Rightarrow> string option \<Rightarrow> string \<Rightarrow> (config, string) outcome" where
  "from_toml_str parse_toml home s =
     (case parse_toml s of
        Inr e \<Rightarrow> Err e
      | Inl f \<Rightarrow>
          (let (c, ex) = apply_file f (default_config home, \<lparr> explicit_max_bytes = False \<rparr>)
           in Ok (recompute_derived_defaults ex c)))"

text \<open>
  \<open>load\<close>. \<open>contents\<close> is what the file at \<open>~/.ctxfs/config.toml\<close> reads as, \<open>None\<close> when it is missing
  or cannot be read; it is looked at only when there is a home directory.
\<close>

definition load_config ::
  "(string \<Rightarrow> config_file + string) \<Rightarrow> string option \<Rightarrow> string option \<Rightarrow> env \<Rightarrow> config" where
  "load_config parse_toml home contents env =
     (let s0 = (default_config home, \<lparr> explicit_max_bytes = False \<rparr>);
          s1 = (case home of
                  None \<Rightarrow> s0
                | Some _ \<Rightarrow>
                    (case contents of
                       None \<Rightarrow> s0
                     | Some t \<Rightarrow> (case parse_toml t of Inl f \<Rightarrow> apply_file f s0 | Inr e \<Rightarrow> s0)));
          (c, ex) = apply_env env s1
      in recompute_derived_defaults ex c)"

definition from_env :: "string option \<Rightarrow> env \<Rightarrow> config" where
  "from_env home env =
     (let (c, ex) = apply_env env (default_config home, \<lparr> explicit_max_bytes = False \<rparr>)
      in recompute_derived_defaults ex c)"

definition load_config_path :: "string option \<Rightarrow> string" where
  "load_config_path home =
     path_push (path_push (case home of Some h \<Rightarrow> h | None \<Rightarrow> ''/tmp'') ''.ctxfs'') ''config.toml''"

section \<open>Precedence\<close>

text \<open>The first value present, in order of precedence.\<close>

fun first_some :: "'a option list \<Rightarrow> 'a \<Rightarrow> 'a" where
  "first_some [] d = d"
| "first_some (Some x # vs) d = x"
| "first_some (None # vs) d = first_some vs d"

lemma first_some_Cons: "first_some (v # vs) d = (case v of Some x \<Rightarrow> x | None \<Rightarrow> first_some vs d)"
  by (cases v) simp_all

text \<open>An optional value applied to a field, as an update of that field.\<close>

lemma apply_some_socket_path [simp]:
  "apply_some v (\<lambda>x. socket_path_update (\<lambda>_. g x)) c = socket_path_update (\<lambda>old. case_option old g v) c"
  by (cases v; cases c) (simp_all add: apply_some_def)

lemma apply_some_pid_file [simp]:
  "apply_some v (\<lambda>x. pid_file_update (\<lambda>_. g x)) c = pid_file_update (\<lambda>old. case_option old g v) c"
  by (cases v; cases c) (simp_all add: apply_some_def)

lemma apply_some_cache_dir [simp]:
  "apply_some v (\<lambda>x. cache_dir_update (\<lambda>_. g x)) c = cache_dir_update (\<lambda>old. case_option old g v) c"
  by (cases v; cases c) (simp_all add: apply_some_def)

lemma apply_some_cache_max_bytes [simp]:
  "apply_some v (\<lambda>x. cache_max_bytes_update (\<lambda>_. g x)) c = cache_max_bytes_update (\<lambda>old. case_option old g v) c"
  by (cases v; cases c) (simp_all add: apply_some_def)

lemma apply_some_log_level [simp]:
  "apply_some v (\<lambda>x. log_level_update (\<lambda>_. g x)) c = log_level_update (\<lambda>old. case_option old g v) c"
  by (cases v; cases c) (simp_all add: apply_some_def)

lemma apply_some_github_token [simp]:
  "apply_some v (\<lambda>x. github_token_update (\<lambda>_. g x)) c = github_token_update (\<lambda>old. case_option old g v) c"
  by (cases v; cases c) (simp_all add: apply_some_def)

lemma apply_some_redis_url [simp]:
  "apply_some v (\<lambda>x. redis_url_update (\<lambda>_. g x)) c = redis_url_update (\<lambda>old. case_option old g v) c"
  by (cases v; cases c) (simp_all add: apply_some_def)

lemma apply_some_latest_ttl_secs [simp]:
  "apply_some v (\<lambda>x. latest_ttl_secs_update (\<lambda>_. g x)) c = latest_ttl_secs_update (\<lambda>old. case_option old g v) c"
  by (cases v; cases c) (simp_all add: apply_some_def)

lemma apply_some_tree_cache_max_bytes [simp]:
  "apply_some v (\<lambda>x. tree_cache_max_bytes_update (\<lambda>_. g x)) c = tree_cache_max_bytes_update (\<lambda>old. case_option old g v) c"
  by (cases v; cases c) (simp_all add: apply_some_def)

lemma apply_some_default_backend [simp]:
  "apply_some v (\<lambda>x. default_backend_update (\<lambda>_. g x)) c = default_backend_update (\<lambda>old. case_option old g v) c"
  by (cases v; cases c) (simp_all add: apply_some_def)

lemma apply_some_fskit_bundle_id [simp]:
  "apply_some v (\<lambda>x. fskit_bundle_id_update (\<lambda>_. g x)) c = fskit_bundle_id_update (\<lambda>old. case_option old g v) c"
  by (cases v; cases c) (simp_all add: apply_some_def)

lemma apply_some_prefetch_threshold_count [simp]:
  "apply_some v (\<lambda>x. prefetch_threshold_count_update (\<lambda>_. g x)) c = prefetch_threshold_count_update (\<lambda>old. case_option old g v) c"
  by (cases v; cases c) (simp_all add: apply_some_def)

lemma apply_some_prefetch_max_bytes [simp]:
  "apply_some v (\<lambda>x. prefetch_max_bytes_update (\<lambda>_. g x)) c = prefetch_max_bytes_update (\<lambda>old. case_option old g v) c"
  by (cases v; cases c) (simp_all add: apply_some_def)

lemma apply_some_github_host [simp]:
  "apply_some v (\<lambda>x. github_host_update (\<lambda>_. g x)) c = github_host_update (\<lambda>old. case_option old g v) c"
  by (cases v; cases c) (simp_all add: apply_some_def)

lemma apply_some_explicit [simp]:
  "apply_some v (\<lambda>x. explicit_max_bytes_update (\<lambda>_. g x)) c =
     explicit_max_bytes_update (\<lambda>old. case_option old g v) c"
  by (cases v; cases c) (simp_all add: apply_some_def)

text \<open>The file that takes part in loading: the one read, if there is one and it parses.\<close>

definition loaded_file ::
  "(string \<Rightarrow> config_file + string) \<Rightarrow> string option \<Rightarrow> string option \<Rightarrow> config_file option" where
  "loaded_file parse_toml home contents =
     (case (home, contents) of
        (Some _, Some t) \<Rightarrow> (case parse_toml t of Inl f \<Rightarrow> Some f | Inr _ \<Rightarrow> None)
      | _ \<Rightarrow> None)"

lemma load_config_loaded:
  "load_config parse_toml home contents env =
     (let s0 = (default_config home, \<lparr> explicit_max_bytes = False \<rparr>);
          (c, ex) = apply_env env (case loaded_file parse_toml home contents of Some f \<Rightarrow> apply_file f s0 | None \<Rightarrow> s0)
      in recompute_derived_defaults ex c)"
  by (simp add: load_config_def loaded_file_def Let_def split: option.splits sum.splits)

lemma recompute_derived_defaults_eq:
  "recompute_derived_defaults ex c = c\<lparr> prefetch_max_bytes :=
     if explicit_max_bytes ex then prefetch_max_bytes c else default_prefetch_max_bytes (cache_max_bytes c) \<rparr>"
  by (cases c) (simp add: recompute_derived_defaults_def)

lemma case_map_option: "case_option n s (map_option f v) = case_option n (\<lambda>x. s (f x)) v"
  by (cases v) simp_all

lemma nonempty_None [simp]: "nonempty None = None"
  by (simp add: nonempty_def)

lemma case_option_const: "case_option x (\<lambda>_. x) v = x"
  by (cases v) simp_all

lemmas config_eval = load_config_loaded apply_env_def apply_file_def apply_prefetch_env_def
  recompute_derived_defaults_eq Let_def first_some_Cons case_map_option case_option_const

lemma config_fields:
  assumes "c = load_config parse_toml home contents env" "d = default_config home"
    and "fl = loaded_file parse_toml home contents"
  shows "socket_path c = first_some [env ''CTXFS_SOCKET'', Option.bind fl cf_socket_path] (socket_path d)
     \<and> pid_file c = first_some [env ''CTXFS_PID_FILE'', Option.bind fl cf_pid_file] (pid_file d)
     \<and> cache_dir c = first_some [env ''CTXFS_CACHE_DIR'', Option.bind fl cf_cache_dir] (cache_dir d)
     \<and> cache_max_bytes c = first_some [env_u64 env ''CTXFS_CACHE_MAX_BYTES'',
          Option.bind fl cf_cache_max_bytes] (cache_max_bytes d)
     \<and> log_level c = first_some [env ''CTXFS_LOG_LEVEL'', Option.bind fl cf_log_level] (log_level d)
     \<and> github_token c = first_some [env_clearing env ''GITHUB_TOKEN'',
          map_option Some (nonempty (Option.bind fl cf_github_token))] None
     \<and> redis_url c = first_some [env_clearing env ''CTXFS_REDIS_URL'',
          map_option Some (nonempty (Option.bind fl cf_redis_url))] None
     \<and> latest_ttl_secs c = first_some [env_u64 env ''CTXFS_LATEST_TTL_SECS'',
          Option.bind fl cf_latest_ttl_secs] 3600
     \<and> tree_cache_max_bytes c = first_some [env_u64 env ''CTXFS_TREE_CACHE_MAX_BYTES'',
          Option.bind fl cf_tree_cache_max_bytes] (tree_cache_max_bytes d)
     \<and> default_backend c = first_some [map_option parse_backend_ok (nonempty (env ''CTXFS_BACKEND'')),
          map_option parse_backend_ok (Option.bind fl cf_backend)] None
     \<and> fskit_bundle_id c = first_some [map_option Some (nonempty (env ''CTXFS_FSKIT_BUNDLE_ID'')),
          map_option Some (nonempty (Option.bind fl cf_fskit_bundle_id))] (fskit_bundle_id d)
     \<and> prefetch_threshold_count c = first_some [env_u64 env ''CTXFS_PREFETCH_THRESHOLD_COUNT'',
          Option.bind fl cf_prefetch_threshold_count] 30
     \<and> github_host c = first_some [nonempty (env ''CTXFS_GITHUB_HOST''),
          nonempty (Option.bind fl cf_github_host)] (github_host d)
     \<and> prefetch_max_bytes c = first_some [env_u64 env ''CTXFS_PREFETCH_MAX_BYTES'',
          Option.bind fl cf_prefetch_max_bytes] (default_prefetch_max_bytes (cache_max_bytes c))"
proof -
  have d: "github_token d = None" "redis_url d = None" "latest_ttl_secs d = 3600"
    "default_backend d = None" "prefetch_threshold_count d = 30"
    using assms(2) by (simp_all add: default_config_def Let_def)
  show ?thesis
  proof (cases fl)
    case None
    then have l: "loaded_file parse_toml home contents = None" using assms(3) by simp
    show ?thesis using d
      unfolding assms(1) None first_some_Cons first_some.simps
      by (cases "env_u64 env ''CTXFS_PREFETCH_MAX_BYTES''")
        (simp_all add: config_eval l assms(2) [symmetric] cong: option.case_cong)
  next
    case (Some f)
    then have l: "loaded_file parse_toml home contents = Some f" using assms(3) by simp
    show ?thesis using d
      unfolding assms(1) Some first_some_Cons first_some.simps
      by (cases "env_u64 env ''CTXFS_PREFETCH_MAX_BYTES''"; cases "cf_prefetch_max_bytes f")
        (simp_all add: config_eval l assms(2) [symmetric] cong: option.case_cong)
  qed
qed

text \<open>
  Every field of a loaded configuration is the environment's value where the environment has a
  usable one, else the file's, else the default. The prefetch cap, where neither sets it, follows the
  cache size that was finally chosen, and not the default cache size.
\<close>

theorem config_precedence:
  "let c = load_config parse_toml home contents env; d = default_config home;
       fl = loaded_file parse_toml home contents
   in socket_path c = first_some [env ''CTXFS_SOCKET'', Option.bind fl cf_socket_path] (socket_path d)
     \<and> pid_file c = first_some [env ''CTXFS_PID_FILE'', Option.bind fl cf_pid_file] (pid_file d)
     \<and> cache_dir c = first_some [env ''CTXFS_CACHE_DIR'', Option.bind fl cf_cache_dir] (cache_dir d)
     \<and> cache_max_bytes c = first_some [env_u64 env ''CTXFS_CACHE_MAX_BYTES'',
          Option.bind fl cf_cache_max_bytes] (cache_max_bytes d)
     \<and> log_level c = first_some [env ''CTXFS_LOG_LEVEL'', Option.bind fl cf_log_level] (log_level d)
     \<and> github_token c = first_some [env_clearing env ''GITHUB_TOKEN'',
          map_option Some (nonempty (Option.bind fl cf_github_token))] None
     \<and> redis_url c = first_some [env_clearing env ''CTXFS_REDIS_URL'',
          map_option Some (nonempty (Option.bind fl cf_redis_url))] None
     \<and> latest_ttl_secs c = first_some [env_u64 env ''CTXFS_LATEST_TTL_SECS'',
          Option.bind fl cf_latest_ttl_secs] 3600
     \<and> tree_cache_max_bytes c = first_some [env_u64 env ''CTXFS_TREE_CACHE_MAX_BYTES'',
          Option.bind fl cf_tree_cache_max_bytes] (tree_cache_max_bytes d)
     \<and> default_backend c = first_some [map_option parse_backend_ok (nonempty (env ''CTXFS_BACKEND'')),
          map_option parse_backend_ok (Option.bind fl cf_backend)] None
     \<and> fskit_bundle_id c = first_some [map_option Some (nonempty (env ''CTXFS_FSKIT_BUNDLE_ID'')),
          map_option Some (nonempty (Option.bind fl cf_fskit_bundle_id))] (fskit_bundle_id d)
     \<and> prefetch_threshold_count c = first_some [env_u64 env ''CTXFS_PREFETCH_THRESHOLD_COUNT'',
          Option.bind fl cf_prefetch_threshold_count] 30
     \<and> github_host c = first_some [nonempty (env ''CTXFS_GITHUB_HOST''),
          nonempty (Option.bind fl cf_github_host)] (github_host d)
     \<and> prefetch_max_bytes c = first_some [env_u64 env ''CTXFS_PREFETCH_MAX_BYTES'',
          Option.bind fl cf_prefetch_max_bytes] (default_prefetch_max_bytes (cache_max_bytes c))"
  unfolding Let_def by (rule config_fields [OF refl refl refl])

section \<open>Writing the file\<close>

text \<open>\<open>ConfigWriteError\<close>; an I/O error is its message.\<close>

datatype config_write_error = ConfigIo string | ExternalEdit string string

fun write_error_display :: "config_write_error \<Rightarrow> string" where
  "write_error_display (ConfigIo e) = ''io error: '' @ e"
| "write_error_display (ExternalEdit expected actual) =
     ''config file was modified externally (hash '' @ expected @ '' expected, found '' @ actual @ '')''"

text \<open>
  \<open>Path::parent\<close> and \<open>Path::file_name\<close> of a path without trailing separators and dot components, as
  the program builds them: \<open>None\<close> for the root and the empty path.
\<close>

definition path_split :: "string \<Rightarrow> (string \<times> string) option" where
  "path_split p =
     (case rsplit_once CHR ''/'' p of
        Some (d, f) \<Rightarrow> if f = [] then None else Some (if d = [] then ''/'' else d, f)
      | None \<Rightarrow> if p = [] then None else Some ([], p))"

text \<open>
  The answers of the system to the steps of a write: an error of creating the directory or the
  temporary file, a write or sync that fails after some bytes, and an error of the rename.
\<close>

record write_env =
  we_mkdir :: "string option"
  we_create :: "string option"
  we_write :: "(string \<times> nat) option"
  we_rename :: "string option"

definition tmp_path :: "string \<Rightarrow> string \<Rightarrow> string" where
  "tmp_path parent file = path_push parent (''.'' @ file @ ''.tmp'')"

definition atomic_write ::
  "write_env \<Rightarrow> string \<Rightarrow> bytes \<Rightarrow> (string \<rightharpoonup> bytes) \<Rightarrow> (string \<rightharpoonup> bytes) \<times> (unit, config_write_error) outcome" where
  "atomic_write we path contents fs =
     (case path_split path of
        None \<Rightarrow> (fs, Err (ConfigIo ''path has no parent''))
      | Some (parent, file) \<Rightarrow>
          (case we_mkdir we of
             Some e \<Rightarrow> (fs, Err (ConfigIo e))
           | None \<Rightarrow>
               (let tmp = tmp_path parent file in
                case we_create we of
                  Some e \<Rightarrow> (fs, Err (ConfigIo e))
                | None \<Rightarrow>
                    (case we_write we of
                       Some (e, n) \<Rightarrow> (fs(tmp \<mapsto> take n contents), Err (ConfigIo e))
                     | None \<Rightarrow>
                         (case we_rename we of
                            Some e \<Rightarrow> (fs(tmp \<mapsto> contents), Err (ConfigIo e))
                          | None \<Rightarrow> (fs(tmp := None, path \<mapsto> contents), Ok ()))))))"

record config_snapshot =
  hash_at_read :: string

text \<open>Reading for the hash: a missing file counts as empty, another read error is returned.\<close>

definition read_or_empty :: "(string \<Rightarrow> string option) \<Rightarrow> string \<Rightarrow> (string \<rightharpoonup> bytes) \<Rightarrow> (bytes, config_write_error) outcome" where
  "read_or_empty read_error path fs =
     (case read_error path of
        Some e \<Rightarrow> Err (ConfigIo e)
      | None \<Rightarrow> Ok (case fs path of Some b \<Rightarrow> b | None \<Rightarrow> []))"

definition snapshot_read ::
  "(bytes \<Rightarrow> string) \<Rightarrow> (string \<Rightarrow> string option) \<Rightarrow> string \<Rightarrow> (string \<rightharpoonup> bytes) \<Rightarrow>
     (config_snapshot, config_write_error) outcome" where
  "snapshot_read sha256 read_error path fs =
     omap (\<lambda>b. \<lparr> hash_at_read = sha256 b \<rparr>) (read_or_empty read_error path fs)"

definition snapshot_from_hash :: "string \<Rightarrow> config_snapshot" where
  "snapshot_from_hash h = \<lparr> hash_at_read = h \<rparr>"

definition write_back ::
  "(bytes \<Rightarrow> string) \<Rightarrow> (string \<Rightarrow> string option) \<Rightarrow> write_env \<Rightarrow> config_snapshot \<Rightarrow> string \<Rightarrow> string \<Rightarrow>
     (string \<rightharpoonup> bytes) \<Rightarrow> (string \<rightharpoonup> bytes) \<times> (unit, config_write_error) outcome" where
  "write_back sha256 read_error we s path contents fs =
     (case read_or_empty read_error path fs of
        Err e \<Rightarrow> (fs, Err e)
      | Panic \<Rightarrow> (fs, Panic)
      | Ok current \<Rightarrow>
          (let current_hash = sha256 current in
           if current_hash \<noteq> hash_at_read s
           then (fs, Err (ExternalEdit (hash_at_read s) current_hash))
           else atomic_write we path contents fs))"

text \<open>
  \<open>update_config_key\<close>: the text is read with \<open>read_to_string(path).unwrap_or_default()\<close>, so
  \<open>readable\<close> is whether the file reads as UTF-8 text; \<open>set_toml_key\<close> is the TOML editor.
\<close>

definition update_config_key ::
  "(string \<Rightarrow> string \<Rightarrow> 'v \<Rightarrow> string + string) \<Rightarrow> bool \<Rightarrow> write_env \<Rightarrow> string \<Rightarrow> string \<Rightarrow> 'v \<Rightarrow>
     (string \<rightharpoonup> bytes) \<Rightarrow> (string \<rightharpoonup> bytes) \<times> (unit, config_write_error) outcome" where
  "update_config_key set_toml_key readable we path key v fs =
     (let existing = (if readable then (case fs path of Some b \<Rightarrow> b | None \<Rightarrow> []) else []) in
      case set_toml_key existing key v of
        Inr e \<Rightarrow> (fs, Err (ConfigIo (''failed to parse config.toml: '' @ e)))
      | Inl doc \<Rightarrow> atomic_write we path doc fs)"

lemma tmp_path_neq: "path_split path = Some (parent, file) \<Longrightarrow> tmp_path parent file \<noteq> path"
proof -
  assume "path_split path = Some (parent, file)"
  then consider (top) "path = ''/'' @ file" "parent = ''/''" | (rel) "path = file" "parent = []"
    | (sub) "path = parent @ ''/'' @ file" "parent \<noteq> []"
    by (auto simp: path_split_def split: option.splits if_splits dest!: rsplit_once_SomeD)
  then show ?thesis
  proof cases
    case top
    then have "tmp_path parent file = ''/.'' @ file @ ''.tmp''"
      by (simp add: tmp_path_def path_push_def starts_with_def ends_with_def)
    then have "length (tmp_path parent file) \<noteq> length path" using top by simp
    then show ?thesis by metis
  next
    case rel
    then have "length (tmp_path parent file) \<noteq> length path"
      by (simp add: tmp_path_def path_push_def starts_with_def)
    then show ?thesis by metis
  next
    case sub
    then have "length (tmp_path parent file) \<noteq> length path"
      by (auto simp: tmp_path_def path_push_def starts_with_def)
    then show ?thesis by metis
  qed
qed

text \<open>An atomic write leaves the old contents on an error and exactly the new ones on success.\<close>

lemma atomic_write_cases:
  "snd (atomic_write we path contents fs) = Ok () \<and> fst (atomic_write we path contents fs) path = Some contents
   \<or> (\<exists>e. snd (atomic_write we path contents fs) = Err (ConfigIo e))
     \<and> fst (atomic_write we path contents fs) path = fs path"
  using tmp_path_neq [of path]
  by (auto simp: atomic_write_def Let_def split: option.splits)

text \<open>
  C32. A snapshot guards the file against lost updates: writing back succeeds only when the file still
  hashes to what was read, and then the file holds exactly the new contents; with any error, the file
  is as it was, never half written. When the hash differs the error says so.
\<close>

theorem write_back_no_lost_update:
  "let (fs', r) = write_back sha256 read_error we s path contents fs;
       current = (case fs path of Some b \<Rightarrow> b | None \<Rightarrow> [])
   in case r of
        Ok _ \<Rightarrow> sha256 current = hash_at_read s \<and> fs' path = Some contents
      | Err e \<Rightarrow> fs' path = fs path \<and>
          e = (case read_error path of
                 Some m \<Rightarrow> ConfigIo m
               | None \<Rightarrow> if sha256 current = hash_at_read s then e
                         else ExternalEdit (hash_at_read s) (sha256 current))
      | Panic \<Rightarrow> False"
  using atomic_write_cases [of we path contents fs]
  by (auto simp: write_back_def read_or_empty_def Let_def split: option.splits prod.splits)

text \<open>
  Setting one key of a file that cannot be read as text replaces the whole file by that key: the
  read error is taken for an empty file, and every other setting is lost.
\<close>

theorem update_key_drops_unreadable_file:
  "let editor = (\<lambda>t k v. Inl (t @ k @ '' = '' @ v));
       we = \<lparr> we_mkdir = None, we_create = None, we_write = None, we_rename = None \<rparr>;
       fs = [''/h/.ctxfs/config.toml'' \<mapsto> ''redis_url = x'']
   in fst (update_config_key editor False we ''/h/.ctxfs/config.toml'' ''a'' ''1'' fs) ''/h/.ctxfs/config.toml''
      = Some ''a = 1''"
  by code_simp

end
