(* ===== verification/Manifest_Snapshot.thy ===== *)
theory Manifest_Snapshot
  imports Core_Types
begin

text \<open>
  The manifest types (\<open>crates/ctxfs-manifest/src/snapshot.rs\<close>) and the inode table beside them
  (\<open>inode.rs\<close>). The JSON form of a directory is third-party code: the serialiser is an argument.
\<close>

section \<open>Snapshots and directories\<close>

record snapshot =
  snap_source :: string
  snap_commit_sha :: string
  root_directory :: digest
  created_at :: string

record file_entry =
  fe_name :: string
  fe_digest :: digest
  fe_size :: u64
  fe_executable :: bool
  fe_inline_content :: "bytes option"

record directory_entry =
  de_name :: string
  de_digest :: digest

record symlink_entry =
  se_name :: string
  se_target :: string

datatype dir_entry =
    DirEntry_File file_entry
  | DirEntry_Directory directory_entry
  | DirEntry_Symlink symlink_entry

record directory =
  dir_digest :: digest
  dir_entries :: "dir_entry list"

fun dir_entry_name :: "dir_entry \<Rightarrow> string" where
  "dir_entry_name (DirEntry_File f) = fe_name f"
| "dir_entry_name (DirEntry_Directory d) = de_name d"
| "dir_entry_name (DirEntry_Symlink s) = se_name s"

text \<open>\<open>compute_digest\<close>: the hash of the serialised entries, which the code expects not to fail.\<close>

definition compute_digest ::
  "(dir_entry list \<Rightarrow> bytes option) \<Rightarrow> (bytes \<Rightarrow> string) \<Rightarrow> dir_entry list \<Rightarrow> (digest, ctxfs_error) outcome" where
  "compute_digest to_json sha256 es =
     (case to_json es of None \<Rightarrow> Panic | Some json \<Rightarrow> Ok (digest_sha256 sha256 json))"

section \<open>The inode table\<close>

datatype inode_kind =
    InodeKind_Directory digest "u64 list" bool
  | InodeKind_File digest u64 bool "bytes option"
  | InodeKind_Symlink string

record inode_entry =
  ie_ino :: u64
  ie_parent :: u64
  ie_name :: string
  ie_kind :: inode_kind

fun is_dir_kind :: "inode_kind \<Rightarrow> bool" where
  "is_dir_kind (InodeKind_Directory _ _ _) = True"
| "is_dir_kind _ = False"

definition inode_is_dir :: "inode_entry \<Rightarrow> bool" where
  "inode_is_dir e = is_dir_kind (ie_kind e)"

definition inode_is_file :: "inode_entry \<Rightarrow> bool" where
  "inode_is_file e = (case ie_kind e of InodeKind_File _ _ _ _ \<Rightarrow> True | _ \<Rightarrow> False)"

definition inode_is_symlink :: "inode_entry \<Rightarrow> bool" where
  "inode_is_symlink e = (case ie_kind e of InodeKind_Symlink _ \<Rightarrow> True | _ \<Rightarrow> False)"

definition inode_size :: "inode_entry \<Rightarrow> u64" where
  "inode_size e =
     (case ie_kind e of
        InodeKind_File _ sz _ _ \<Rightarrow> sz
      | InodeKind_Directory _ _ _ \<Rightarrow> 0
      | InodeKind_Symlink t \<Rightarrow> of_nat (length t))"

definition inode_digest :: "inode_entry \<Rightarrow> digest option" where
  "inode_digest e =
     (case ie_kind e of
        InodeKind_File d _ _ _ \<Rightarrow> Some d
      | InodeKind_Directory d _ _ \<Rightarrow> Some d
      | InodeKind_Symlink _ \<Rightarrow> None)"

record inode_table =
  inodes :: "(u64 \<times> inode_entry) list"
  next_ino :: u64
  lookup_table :: "((u64 \<times> string) \<times> u64) list"

definition inode_table_new :: inode_table where
  "inode_table_new = \<lparr> inodes = [], next_ino = 2, lookup_table = [] \<rparr>"

definition insert_root :: "digest \<Rightarrow> inode_table \<Rightarrow> inode_table" where
  "insert_root d t =
     t\<lparr> inodes := AList.update 1
          \<lparr> ie_ino = 1, ie_parent = 1, ie_name = [], ie_kind = InodeKind_Directory d [] False \<rparr> (inodes t) \<rparr>"

fun push_child :: "u64 \<Rightarrow> inode_kind \<Rightarrow> inode_kind" where
  "push_child ino (InodeKind_Directory d children p) = InodeKind_Directory d (children @ [ino]) p"
| "push_child ino k = k"

definition update_inode :: "u64 \<Rightarrow> (inode_kind \<Rightarrow> inode_kind) \<Rightarrow> (u64 \<times> inode_entry) list \<Rightarrow> (u64 \<times> inode_entry) list" where
  "update_inode ino f m =
     (case map_of m ino of
        Some e \<Rightarrow> AList.update ino (e\<lparr> ie_kind := f (ie_kind e) \<rparr>) m
      | None \<Rightarrow> m)"

definition allocate_inode :: "u64 \<Rightarrow> string \<Rightarrow> inode_kind \<Rightarrow> inode_table \<Rightarrow> inode_table \<times> u64" where
  "allocate_inode parent name kind t =
     (let ino = next_ino t;
          e = \<lparr> ie_ino = ino, ie_parent = parent, ie_name = name, ie_kind = kind \<rparr>;
          m = update_inode parent (push_child ino) (AList.update ino e (inodes t))
      in (t\<lparr> next_ino := ino + 1, inodes := m,
             lookup_table := AList.update (parent, name) ino (lookup_table t) \<rparr>, ino))"

definition inode_get :: "u64 \<Rightarrow> inode_table \<Rightarrow> inode_entry option" where
  "inode_get ino t = map_of (inodes t) ino"

definition inode_lookup :: "u64 \<Rightarrow> string \<Rightarrow> inode_table \<Rightarrow> u64 option" where
  "inode_lookup parent name t = map_of (lookup_table t) (parent, name)"

definition inode_children :: "u64 \<Rightarrow> inode_table \<Rightarrow> inode_entry list" where
  "inode_children parent t =
     (case map_of (inodes t) parent of
        Some e \<Rightarrow>
          (case ie_kind e of
             InodeKind_Directory _ children _ \<Rightarrow> List.map_filter (\<lambda>i. map_of (inodes t) i) children
           | _ \<Rightarrow> [])
      | None \<Rightarrow> [])"

definition is_populated :: "u64 \<Rightarrow> inode_table \<Rightarrow> bool" where
  "is_populated ino t =
     (case map_of (inodes t) ino of
        Some e \<Rightarrow> (case ie_kind e of InodeKind_Directory _ _ p \<Rightarrow> p | _ \<Rightarrow> False)
      | None \<Rightarrow> False)"

fun set_populated :: "inode_kind \<Rightarrow> inode_kind" where
  "set_populated (InodeKind_Directory d children _) = InodeKind_Directory d children True"
| "set_populated k = k"

definition mark_populated :: "u64 \<Rightarrow> inode_table \<Rightarrow> inode_table" where
  "mark_populated ino t = t\<lparr> inodes := update_inode ino set_populated (inodes t) \<rparr>"

section \<open>The table's invariant\<close>

text \<open>
  Every entry is filed under its own number, numbers below the counter are the only ones used, a
  directory's children are exactly what the lookup table has for it, each under its name, and the
  numbers handed out are never the root's.
\<close>

definition inode_table_wf :: "inode_table \<Rightarrow> bool" where
  "inode_table_wf t \<longleftrightarrow>
     (\<forall>i e. map_of (inodes t) i = Some e \<longrightarrow> ie_ino e = i \<and> i < next_ino t)
     \<and> (\<forall>p n i. map_of (lookup_table t) (p, n) = Some i \<longrightarrow>
          (\<exists>e. map_of (inodes t) i = Some e \<and> ie_parent e = p \<and> ie_name e = n \<and> i \<noteq> 1))
     \<and> (\<forall>i e d cs p. map_of (inodes t) i = Some e \<longrightarrow> ie_kind e = InodeKind_Directory d cs p \<longrightarrow>
          distinct cs \<and> (\<forall>c\<in>set cs. \<exists>ce. map_of (inodes t) c = Some ce \<and> ie_parent ce = i))
     \<and> 2 \<le> next_ino t"

lemma map_of_update_inode:
  "map_of (update_inode j f m) i =
     (if i = j then map_option (\<lambda>e. e\<lparr> ie_kind := f (ie_kind e) \<rparr>) (map_of m j) else map_of m i)"
  by (simp add: update_inode_def AList.update_conv' split: option.split)

lemma push_child_Directory:
  "push_child i k = InodeKind_Directory d cs p \<longleftrightarrow>
     (\<exists>cs0. k = InodeKind_Directory d cs0 p \<and> cs = cs0 @ [i])"
  by (cases k) auto

lemma map_filter_inos:
  "\<forall>c\<in>set cs. \<exists>ce. f c = Some ce \<and> ie_ino ce = c \<Longrightarrow> map ie_ino (List.map_filter f cs) = cs"
  by (induction cs) (auto simp: map_filter_simps)

text \<open>The entries after an allocation, for a parent that is not the new number itself.\<close>

lemma allocate_inode_get:
  assumes "allocate_inode parent name kind t = (t', i)" "parent \<noteq> next_ino t"
  shows "i = next_ino t" "next_ino t' = next_ino t + 1"
    "lookup_table t' = AList.update (parent, name) i (lookup_table t)"
    "map_of (inodes t') j =
       (if j = i then Some \<lparr> ie_ino = i, ie_parent = parent, ie_name = name, ie_kind = kind \<rparr>
        else if j = parent then map_option (\<lambda>e. e\<lparr> ie_kind := push_child i (ie_kind e) \<rparr>) (map_of (inodes t) j)
        else map_of (inodes t) j)"
  using assms by (auto simp: allocate_inode_def Let_def map_of_update_inode AList.update_conv')

lemma inode_wf_entry: "inode_table_wf t \<Longrightarrow> map_of (inodes t) i = Some e \<Longrightarrow> ie_ino e = i \<and> i < next_ino t"
  unfolding inode_table_wf_def by blast

lemma inode_wf_child:
  "inode_table_wf t \<Longrightarrow> map_of (inodes t) i = Some e \<Longrightarrow> ie_kind e = InodeKind_Directory d cs p \<Longrightarrow>
     c \<in> set cs \<Longrightarrow> \<exists>ce. map_of (inodes t) c = Some ce \<and> ie_ino ce = c"
  unfolding inode_table_wf_def by blast

lemma inode_wf_next: "inode_table_wf t \<Longrightarrow> 2 \<le> next_ino t"
  unfolding inode_table_wf_def by blast

lemma inode_wf_fresh: "inode_table_wf t \<Longrightarrow> map_of (inodes t) (next_ino t) = None"
  using inode_wf_entry [of t "next_ino t"] by (cases "map_of (inodes t) (next_ino t)") auto

lemma inode_table_wf_allocate:
  assumes alloc: "allocate_inode parent name kind t = (t', i)" and wf: "inode_table_wf t"
    and parent: "parent \<noteq> next_ino t" and room: "unat (next_ino t) + 1 < 2 ^ 64"
    and kind: "\<And>d cs p. kind = InodeKind_Directory d cs p \<Longrightarrow> cs = []"
  shows "inode_table_wf t'"
proof -
  note A = allocate_inode_get [OF alloc parent]
  have inc: "next_ino t < next_ino t + 1" "2 \<le> next_ino t"
    using unat_plus_one [OF room] inode_wf_next [OF wf] by (simp_all add: word_less_nat_alt)
  have fresh: "map_of (inodes t) i = None"
    using inode_wf_fresh [OF wf] A(1) by simp
  have new: "\<exists>e'. map_of (inodes t') j = Some e' \<and> ie_ino e' = ie_ino e \<and> ie_parent e' = ie_parent e
      \<and> ie_name e' = ie_name e" if "map_of (inodes t) j = Some e" for j e
    using that fresh by (auto simp: A(4))
  have ids: "ie_ino e = j \<and> j < next_ino t'" if je: "map_of (inodes t') j = Some e" for j e
  proof (cases "j = i")
    case True
    then show ?thesis using je inc A(1,2) by (auto simp: A(4))
  next
    case False
    then obtain e0 where "map_of (inodes t) j = Some e0" "ie_ino e = ie_ino e0"
      using je by (auto simp: A(4) split: if_splits)
    then have "ie_ino e = j" "j < next_ino t" using inode_wf_entry [OF wf] by simp_all
    then show ?thesis using inc(1) A(2) by simp
  qed
  have lk: "\<exists>e. map_of (inodes t') k = Some e \<and> ie_parent e = p \<and> ie_name e = n \<and> k \<noteq> 1"
    if "map_of (lookup_table t') (p, n) = Some k" for p n k
  proof (cases "(p, n) = (parent, name)")
    case True
    then have "k = i" using that by (simp add: A(3) AList.update_conv')
    moreover have "i \<noteq> 1" using inc(2) A(1) by (auto simp: word_le_nat_alt)
    ultimately show ?thesis using True by (simp add: A(4))
  next
    case False
    then have "map_of (lookup_table t) (p, n) = Some k"
      using that by (auto simp: A(3) AList.update_conv' split: if_splits)
    then obtain e where "map_of (inodes t) k = Some e" "ie_parent e = p" "ie_name e = n" "k \<noteq> 1"
      using wf unfolding inode_table_wf_def by blast
    then show ?thesis using new [of k e] by auto
  qed
  have ch: "distinct cs \<and> (\<forall>c\<in>set cs. \<exists>ce. map_of (inodes t') c = Some ce \<and> ie_parent ce = j)"
    if e: "map_of (inodes t') j = Some e" "ie_kind e = InodeKind_Directory d cs p" for j e d cs p
  proof (cases "j = i")
    case True
    then show ?thesis using e kind by (auto simp: A(4))
  next
    case False
    then obtain e0 cs0 where e0: "map_of (inodes t) j = Some e0" "ie_kind e0 = InodeKind_Directory d cs0 p"
      "cs = (if j = parent then cs0 @ [i] else cs0)"
      using e by (auto simp: A(4) push_child_Directory split: if_splits)
    then have old: "distinct cs0" "\<forall>c\<in>set cs0. \<exists>ce. map_of (inodes t) c = Some ce \<and> ie_parent ce = j"
      using wf unfolding inode_table_wf_def by blast+
    then have "i \<notin> set cs0" using fresh by auto
    moreover have "\<exists>ce. map_of (inodes t') c = Some ce \<and> ie_parent ce = j" if "c \<in> set cs0" for c
      using old(2) that new by metis
    moreover have "\<exists>ce. map_of (inodes t') i = Some ce \<and> ie_parent ce = parent" by (simp add: A(4))
    ultimately show ?thesis using old(1) e0(3) by auto
  qed
  have "2 \<le> next_ino t'" using inc A(2) by simp
  then show ?thesis using ids lk ch unfolding inode_table_wf_def by blast
qed

text \<open>
  Allocating an inode hands out a number not in use, files the entry under it, makes it the answer
  of the lookup and the last of its parent's children, changes no other entry but the parent's list,
  and keeps the table well formed.
\<close>

theorem allocate_inode_correct:
  assumes "allocate_inode parent name kind t = (t', i)" "inode_table_wf t"
    and "parent \<noteq> next_ino t" "unat (next_ino t) + 1 < 2 ^ 64" "\<And>d cs p. kind = InodeKind_Directory d cs p \<Longrightarrow> cs = []"
  shows "inode_table_wf t' \<and> inode_get i t = None
     \<and> inode_get i t' = Some \<lparr> ie_ino = i, ie_parent = parent, ie_name = name, ie_kind = kind \<rparr>
     \<and> inode_lookup parent name t' = Some i
     \<and> map ie_ino (inode_children parent t') =
         (case inode_get parent t of
            Some e \<Rightarrow> if inode_is_dir e then map ie_ino (inode_children parent t) @ [i] else []
          | None \<Rightarrow> [])
     \<and> (\<forall>j. j \<noteq> i \<and> j \<noteq> parent \<longrightarrow> inode_get j t' = inode_get j t)"
proof -
  note A = allocate_inode_get [OF assms(1,3)]
  have wf': "inode_table_wf t'" by (rule inode_table_wf_allocate [OF assms])
  have fresh: "inode_get i t = None"
    using inode_wf_fresh [OF assms(2)] A(1) by (simp add: inode_get_def)
  have ino: "map ie_ino (inode_children p s) =
      (case map_of (inodes s) p of Some e \<Rightarrow> (case ie_kind e of InodeKind_Directory _ cs _ \<Rightarrow> cs | _ \<Rightarrow> []) | None \<Rightarrow> [])"
    if "inode_table_wf s" for p s
  proof -
    have "map ie_ino (List.map_filter (\<lambda>i. map_of (inodes s) i) cs) = cs"
      if "map_of (inodes s) p = Some e" "ie_kind e = InodeKind_Directory d cs q" for e d cs q
      by (rule map_filter_inos) (use inode_wf_child [OF \<open>inode_table_wf s\<close> that] in blast)
    then show ?thesis
      by (auto simp: inode_children_def split: option.split inode_kind.split)
  qed
  have "parent \<noteq> i" using assms(3) A(1) by simp
  then have kids: "map ie_ino (inode_children parent t') =
         (case inode_get parent t of
            Some e \<Rightarrow> if inode_is_dir e then map ie_ino (inode_children parent t) @ [i] else []
          | None \<Rightarrow> [])"
    unfolding ino [OF wf'] ino [OF assms(2)]
    by (auto simp: A(4) inode_get_def inode_is_dir_def split: option.split inode_kind.split)
  show ?thesis
    using wf' fresh kids by (simp add: inode_get_def inode_lookup_def A(3,4) AList.update_conv')
qed

theorem allocate_inode_correct_witness:
  "let t = insert_root (from_sha1_hex ''aa'') inode_table_new;
       (t', i) = allocate_inode 1 ''f'' (InodeKind_Symlink ''x'') t
   in i = 2 \<and> inode_lookup 1 ''f'' t' = Some 2 \<and> inode_table_wf t'"
proof -
  let ?t = "insert_root (from_sha1_hex ''aa'') inode_table_new"
  have t: "?t = \<lparr> inodes = [(1, \<lparr> ie_ino = 1, ie_parent = 1, ie_name = [],
      ie_kind = InodeKind_Directory (from_sha1_hex ''aa'') [] False \<rparr>)], next_ino = 2, lookup_table = [] \<rparr>"
    by (simp add: insert_root_def inode_table_new_def)
  have wf: "inode_table_wf ?t" by (auto simp: inode_table_wf_def t)
  obtain t' i where A: "allocate_inode 1 ''f'' (InodeKind_Symlink ''x'') ?t = (t', i)"
    by (cases "allocate_inode 1 ''f'' (InodeKind_Symlink ''x'') ?t")
  have "i = 2" using A by (simp add: allocate_inode_def t Let_def)
  then show ?thesis
    using allocate_inode_correct [OF A wf] A by (simp add: t)
qed

end
