(* ===== verification/Vfs.thy ===== *)
theory Vfs
  imports Manifest_Snapshot Blob_Cache
begin

text \<open>
  The virtual filesystem, \<open>VfsState\<close> in \<open>crates/ctxfs-vfs/src/state.rs\<close> with \<open>types.rs\<close>: the node
  table filled from the provider's directories on demand, and file reads through the blob cache. The
  maps (\<open>DashMap\<close>, used one key at a time like a \<open>HashMap\<close>) are association lists. The provider is
  the interface \<open>Provider\<close> of \<open>ctxfs-core\<close>: what it answers at a call is an argument of the
  operation, so it may answer differently at the next; \<open>parse_dir\<close> is the JSON parser.
\<close>

section \<open>Types\<close>

datatype node_type = NodeType_File | NodeType_Directory | NodeType_Symlink

record node_attr =
  na_inode :: u64
  na_parent_inode :: u64
  na_size :: u64
  na_kind :: node_type
  na_executable :: bool

record statfs_result =
  sf_total_bytes :: u64
  sf_free_bytes :: u64
  sf_block_size :: u64
  sf_total_files :: u64

datatype vfs_error =
    Vfs_NotFound
  | Vfs_NotDir
  | Vfs_IsDir
  | Vfs_Invalid
  | Vfs_ReadOnly
  | Vfs_Io string
  | Vfs_RateLimited u64

definition provider_err_to_vfs :: "ctxfs_error \<Rightarrow> string \<Rightarrow> vfs_error" where
  "provider_err_to_vfs e ctx =
     (case e of RateLimited secs \<Rightarrow> Vfs_RateLimited secs | other \<Rightarrow> Vfs_Io (ctx @ '': '' @ error_display other))"

record provider =
  fetch_directory :: "digest \<Rightarrow> bytes ctxfs_result"
  fetch_blob :: "digest \<Rightarrow> bytes ctxfs_result"

type_synonym dir_parser = "bytes \<Rightarrow> directory + string"

datatype node_kind =
    NodeKind_Directory digest bool
  | NodeKind_File digest u64 bool "bytes option"
  | NodeKind_Symlink string

record node =
  node_id :: u64
  node_parent :: u64
  node_name :: string
  node_kind :: node_kind

record vfs =
  next_id :: u64
  nodes :: "(u64 \<times> node) list"
  dir_cache :: "((u64 \<times> string) \<times> u64) list"
  dir_children :: "(u64 \<times> u64 list) list"

type_synonym 'a vfs_result = "('a, vfs_error) outcome"

abbreviation ROOT_ID :: u64 where "ROOT_ID \<equiv> 1"
abbreviation BLOCK_SIZE :: u64 where "BLOCK_SIZE \<equiv> 4096"

section \<open>Attributes\<close>

definition node_to_attr :: "node \<Rightarrow> node_attr" where
  "node_to_attr n =
     (case node_kind n of
        NodeKind_Directory _ _ \<Rightarrow>
          \<lparr> na_inode = node_id n, na_parent_inode = node_parent n, na_size = BLOCK_SIZE,
            na_kind = NodeType_Directory, na_executable = False \<rparr>
      | NodeKind_File _ sz ex _ \<Rightarrow>
          \<lparr> na_inode = node_id n, na_parent_inode = node_parent n, na_size = sz,
            na_kind = NodeType_File, na_executable = ex \<rparr>
      | NodeKind_Symlink target \<Rightarrow>
          \<lparr> na_inode = node_id n, na_parent_inode = node_parent n, na_size = of_nat (length target),
            na_kind = NodeType_Symlink, na_executable = False \<rparr>)"

definition get_node :: "u64 \<Rightarrow> vfs \<Rightarrow> node vfs_result" where
  "get_node i s = ok_or Vfs_NotFound (map_of (nodes s) i)"

section \<open>Loading a directory\<close>

definition entry_to_node :: "u64 \<Rightarrow> u64 \<Rightarrow> dir_entry \<Rightarrow> node" where
  "entry_to_node new_id dirid e =
     \<lparr> node_id = new_id, node_parent = dirid, node_name = dir_entry_name e,
       node_kind = (case e of
           DirEntry_File f \<Rightarrow> NodeKind_File (fe_digest f) (fe_size f) (fe_executable f) (fe_inline_content f)
         | DirEntry_Directory d \<Rightarrow> NodeKind_Directory (de_digest d) False
         | DirEntry_Symlink l \<Rightarrow> NodeKind_Symlink (se_target l)) \<rparr>"

text \<open>One entry of the loop: a name already known keeps its number, another gets the next one.\<close>

definition add_child :: "u64 \<Rightarrow> dir_entry \<Rightarrow> vfs \<Rightarrow> vfs \<times> u64" where
  "add_child dirid e s =
     (case map_of (dir_cache s) (dirid, dir_entry_name e) of
        Some existing \<Rightarrow> (s, existing)
      | None \<Rightarrow>
          (let new_id = next_id s in
           (s\<lparr> next_id := new_id + 1,
               nodes := AList.update new_id (entry_to_node new_id dirid e) (nodes s),
               dir_cache := AList.update (dirid, dir_entry_name e) new_id (dir_cache s) \<rparr>,
            new_id)))"

fun add_children :: "u64 \<Rightarrow> dir_entry list \<Rightarrow> vfs \<Rightarrow> vfs \<times> u64 list" where
  "add_children dirid [] s = (s, [])"
| "add_children dirid (e # es) s =
     (let (s1, i) = add_child dirid e s; (s2, is) = add_children dirid es s1 in (s2, i # is))"

fun kind_populated :: "node_kind \<Rightarrow> node_kind" where
  "kind_populated (NodeKind_Directory d _) = NodeKind_Directory d True"
| "kind_populated k = k"

definition update_kind :: "u64 \<Rightarrow> (node_kind \<Rightarrow> node_kind) \<Rightarrow> vfs \<Rightarrow> vfs" where
  "update_kind i f s =
     (case map_of (nodes s) i of
        Some n \<Rightarrow> s\<lparr> nodes := AList.update i (n\<lparr> node_kind := f (node_kind n) \<rparr>) (nodes s) \<rparr>
      | None \<Rightarrow> s)"

definition load_directory :: "u64 \<Rightarrow> directory \<Rightarrow> vfs \<Rightarrow> vfs \<times> u64 list" where
  "load_directory dirid d s =
     (let (s1, child_ids) = add_children dirid (dir_entries d) s;
          s2 = update_kind dirid kind_populated s1
      in (s2\<lparr> dir_children := AList.update dirid child_ids (dir_children s2) \<rparr>, child_ids))"

definition fetch_and_parse :: "provider \<Rightarrow> dir_parser \<Rightarrow> string \<Rightarrow> string \<Rightarrow> digest \<Rightarrow> directory vfs_result" where
  "fetch_and_parse p parse_dir fetch_ctx parse_ctx d =
     (case fetch_directory p d of
        Err e \<Rightarrow> Err (provider_err_to_vfs e fetch_ctx)
      | Panic \<Rightarrow> Panic
      | Ok data \<Rightarrow>
          (case parse_dir data of Inl dir \<Rightarrow> Ok dir | Inr e \<Rightarrow> Err (Vfs_Io (parse_ctx @ '': '' @ e))))"

definition ensure_populated :: "provider \<Rightarrow> dir_parser \<Rightarrow> u64 \<Rightarrow> vfs \<Rightarrow> vfs \<times> u64 list vfs_result" where
  "ensure_populated p parse_dir dirid s =
     (case map_of (nodes s) dirid of
        None \<Rightarrow> (s, Err Vfs_NotFound)
      | Some n \<Rightarrow>
          (case (node_kind n, map_of (dir_children s) dirid) of
             (NodeKind_Directory _ True, Some children) \<Rightarrow> (s, Ok children)
           | (NodeKind_Directory d _, _) \<Rightarrow>
               (case fetch_and_parse p parse_dir ''fetch_directory'' ''parse directory'' d of
                  Err e \<Rightarrow> (s, Err e)
                | Panic \<Rightarrow> (s, Panic)
                | Ok dir \<Rightarrow> (let (s1, ids) = load_directory dirid dir s in (s1, Ok ids)))
           | _ \<Rightarrow> (s, Err Vfs_NotDir)))"

section \<open>The operations\<close>

definition vfs_getattr :: "u64 \<Rightarrow> vfs \<Rightarrow> node_attr vfs_result" where
  "vfs_getattr i s = omap node_to_attr (get_node i s)"

definition node_answer :: "u64 \<Rightarrow> vfs \<Rightarrow> (u64 \<times> node_attr) vfs_result" where
  "node_answer i s = omap (\<lambda>n. (i, node_to_attr n)) (get_node i s)"

definition vfs_lookup ::
  "provider \<Rightarrow> dir_parser \<Rightarrow> u64 \<Rightarrow> string \<Rightarrow> vfs \<Rightarrow> vfs \<times> (u64 \<times> node_attr) vfs_result" where
  "vfs_lookup p parse_dir parent nm s =
     (if nm = ''.'' then (s, node_answer parent s)
      else if nm = ''..'' then
        (s, node_answer (case map_of (nodes s) parent of Some n \<Rightarrow> node_parent n | None \<Rightarrow> ROOT_ID) s)
      else (case map_of (dir_cache s) (parent, nm) of
        Some i \<Rightarrow> (s, node_answer i s)
      | None \<Rightarrow>
          (case ensure_populated p parse_dir parent s of
             (s1, Ok _) \<Rightarrow>
               (s1, obind (ok_or Vfs_NotFound (map_of (dir_cache s1) (parent, nm))) (\<lambda>i. node_answer i s1))
           | (s1, Err e) \<Rightarrow> (s1, Err e)
           | (s1, Panic) \<Rightarrow> (s1, Panic))))"

definition type_of_kind :: "node_kind \<Rightarrow> node_type" where
  "type_of_kind k =
     (case k of NodeKind_Directory _ _ \<Rightarrow> NodeType_Directory
      | NodeKind_File _ _ _ _ \<Rightarrow> NodeType_File
      | NodeKind_Symlink _ \<Rightarrow> NodeType_Symlink)"

definition vfs_readdir ::
  "provider \<Rightarrow> dir_parser \<Rightarrow> u64 \<Rightarrow> vfs \<Rightarrow> vfs \<times> (u64 \<times> string \<times> node_type) list vfs_result" where
  "vfs_readdir p parse_dir i s =
     (case ensure_populated p parse_dir i s of
        (s1, Ok ids) \<Rightarrow>
          (s1, Ok (List.map_filter (\<lambda>c.
             map_option (\<lambda>n. (node_id n, node_name n, type_of_kind (node_kind n))) (map_of (nodes s1) c)) ids))
      | (s1, Err e) \<Rightarrow> (s1, Err e)
      | (s1, Panic) \<Rightarrow> (s1, Panic))"

definition vfs_readlink :: "u64 \<Rightarrow> vfs \<Rightarrow> string vfs_result" where
  "vfs_readlink i s =
     obind (get_node i s) (\<lambda>n. case node_kind n of NodeKind_Symlink t \<Rightarrow> Ok t | _ \<Rightarrow> Err Vfs_Invalid)"

definition vfs_statfs :: "vfs \<Rightarrow> statfs_result" where
  "vfs_statfs s = \<lparr> sf_total_bytes = 1024 * 1024 * 1024, sf_free_bytes = 0, sf_block_size = BLOCK_SIZE,
     sf_total_files = of_nat (length (nodes s)) \<rparr>"

text \<open>Reading a file's bytes through the cache; \<open>None\<close> would be a cache operation that does not end.\<close>

definition fetch_file_bytes ::
  "'m lru_ops \<Rightarrow> io_env \<Rightarrow> provider \<Rightarrow> node \<Rightarrow> 'm blob_cache \<Rightarrow> ('m blob_cache \<times> bytes vfs_result) option" where
  "fetch_file_bytes L io p n c =
     (case node_kind n of
        NodeKind_File _ _ _ (Some content) \<Rightarrow> Some (c, Ok content)
      | NodeKind_File d _ _ None \<Rightarrow>
          (case blob_get L io d c of
             (c1, Ok (Some data)) \<Rightarrow> Some (c1, Ok data)
           | (c1, Ok None) \<Rightarrow>
               (case fetch_blob p d of
                  Err e \<Rightarrow> Some (c1, Err (provider_err_to_vfs e ''fetch_blob''))
                | Panic \<Rightarrow> Some (c1, Panic)
                | Ok data \<Rightarrow>
                    map_option (\<lambda>(c2, r). (c2, case r of Panic \<Rightarrow> Panic | _ \<Rightarrow> Ok data))
                      (blob_put L io d data c1))
           | (c1, _) \<Rightarrow> Some (c1, Panic))
      | _ \<Rightarrow> Some (c, Err Vfs_IsDir))"

text \<open>The slice of a read: \<open>offset + count\<close> wraps, and a slice that ends before it starts panics.\<close>

definition read_slice :: "bytes \<Rightarrow> u64 \<Rightarrow> u32 \<Rightarrow> bytes vfs_result" where
  "read_slice data offset cnt =
     (let total = (of_nat (length data) :: u64);
          start = unat (min offset total);
          stop = unat (min (offset + ucast cnt) total)
      in if stop < start \<or> length data < stop then Panic
         else Ok (take (stop - start) (drop start data)))"

definition vfs_read ::
  "'m lru_ops \<Rightarrow> io_env \<Rightarrow> provider \<Rightarrow> u64 \<Rightarrow> u64 \<Rightarrow> u32 \<Rightarrow> vfs \<Rightarrow> 'm blob_cache \<Rightarrow>
     ('m blob_cache \<times> bytes vfs_result) option" where
  "vfs_read L io p i offset cnt s c =
     (case map_of (nodes s) i of
        None \<Rightarrow> Some (c, Err Vfs_NotFound)
      | Some n \<Rightarrow>
          map_option (\<lambda>(c1, r). (c1, obind r (\<lambda>data. read_slice data offset cnt)))
            (fetch_file_bytes L io p n c))"

section \<open>Opening a filesystem\<close>

text \<open>The components of a subpath, and the walk from the root digest along them.\<close>

definition find_subdir :: "string \<Rightarrow> directory \<Rightarrow> digest option" where
  "find_subdir component d =
     (case List.find (\<lambda>e. case e of DirEntry_Directory x \<Rightarrow> de_name x = component | _ \<Rightarrow> False) (dir_entries d) of
        Some (DirEntry_Directory x) \<Rightarrow> Some (de_digest x)
      | _ \<Rightarrow> None)"

fun walk_subpath :: "provider \<Rightarrow> dir_parser \<Rightarrow> string list \<Rightarrow> digest \<Rightarrow> digest vfs_result" where
  "walk_subpath p parse_dir [] d = Ok d"
| "walk_subpath p parse_dir (component # cs) d =
     obind (fetch_and_parse p parse_dir ''fetch_directory_for_subpath'' ''parsing directory'' d) (\<lambda>dir.
     obind (ok_or Vfs_NotFound (find_subdir component dir)) (walk_subpath p parse_dir cs))"

definition subpath_components :: "string \<Rightarrow> string list" where
  "subpath_components sp = filter (\<lambda>c. c \<noteq> []) (split_on CHR ''/'' sp)"

definition resolve_subpath :: "provider \<Rightarrow> dir_parser \<Rightarrow> string \<Rightarrow> vfs \<Rightarrow> vfs vfs_result" where
  "resolve_subpath p parse_dir sp s =
     obind (get_node ROOT_ID s) (\<lambda>root.
     case node_kind root of
       NodeKind_Directory d _ \<Rightarrow>
         omap (\<lambda>d'. update_kind ROOT_ID (\<lambda>_. NodeKind_Directory d' False) s)
           (walk_subpath p parse_dir (subpath_components sp) d)
     | _ \<Rightarrow> Err Vfs_NotDir)"

definition vfs_new :: "provider \<Rightarrow> dir_parser \<Rightarrow> snapshot \<Rightarrow> string option \<Rightarrow> vfs vfs_result" where
  "vfs_new p parse_dir snap subpath =
     (let s = \<lparr> next_id = 2,
                nodes = [(ROOT_ID, \<lparr> node_id = ROOT_ID, node_parent = ROOT_ID, node_name = ''/'',
                             node_kind = NodeKind_Directory (root_directory snap) False \<rparr>)],
                dir_cache = [], dir_children = [] \<rparr>
      in case subpath of None \<Rightarrow> Ok s | Some sp \<Rightarrow> resolve_subpath p parse_dir sp s)"

end
