(* ===== verification/Vfs_Correct.thy ===== *)
theory Vfs_Correct
  imports Vfs
begin

text \<open>
  What the filesystem promises: the node table is consistent however lookups and listings alternate,
  a listing is stable once loaded and agrees with lookups by name, inode numbers are never reused or
  moved, errors of the provider reach the caller as they should, and a read returns the bytes asked
  for.
\<close>

section \<open>Consistency of the node table\<close>

text \<open>
  The core: nodes are filed under their own numbers, all below the counter, and every node but the
  root is what the name cache has for its parent and name, and only it.
\<close>

definition vfs_core :: "vfs \<Rightarrow> bool" where
  "vfs_core s \<longleftrightarrow>
     2 \<le> next_id s
     \<and> (\<forall>i n. map_of (nodes s) i = Some n \<longrightarrow> node_id n = i \<and> 0 < i \<and> i < next_id s)
     \<and> (\<forall>p nm i. map_of (dir_cache s) (p, nm) = Some i \<longrightarrow>
          i \<noteq> ROOT_ID \<and> (\<exists>n. map_of (nodes s) i = Some n \<and> node_parent n = p \<and> node_name n = nm))
     \<and> (\<forall>i n. map_of (nodes s) i = Some n \<longrightarrow> i \<noteq> ROOT_ID \<longrightarrow>
          map_of (dir_cache s) (node_parent n, node_name n) = Some i)"

definition populated :: "u64 \<Rightarrow> vfs \<Rightarrow> bool" where
  "populated d s \<longleftrightarrow> (\<exists>n dg. map_of (nodes s) d = Some n \<and> node_kind n = NodeKind_Directory dg True)"

definition vfs_inv :: "vfs \<Rightarrow> bool" where
  "vfs_inv s \<longleftrightarrow>
     vfs_core s
     \<and> (\<exists>n dg b. map_of (nodes s) ROOT_ID = Some n \<and> node_kind n = NodeKind_Directory dg b)
     \<and> (\<forall>d ids. map_of (dir_children s) d = Some ids \<longrightarrow>
          populated d s \<and> set ids = {i. \<exists>nm. map_of (dir_cache s) (d, nm) = Some i})
     \<and> (\<forall>d. populated d s \<longrightarrow> map_of (dir_children s) d \<noteq> None)
     \<and> (\<forall>d nm i. map_of (dir_cache s) (d, nm) = Some i \<longrightarrow> populated d s)"

lemma core_node: "vfs_core s \<Longrightarrow> map_of (nodes s) i = Some n \<Longrightarrow> node_id n = i \<and> 0 < i \<and> i < next_id s"
  unfolding vfs_core_def by blast

lemma core_cache:
  "vfs_core s \<Longrightarrow> map_of (dir_cache s) (p, nm) = Some i \<Longrightarrow>
     i \<noteq> ROOT_ID \<and> (\<exists>n. map_of (nodes s) i = Some n \<and> node_parent n = p \<and> node_name n = nm)"
  unfolding vfs_core_def by blast

lemma core_named:
  "vfs_core s \<Longrightarrow> map_of (nodes s) i = Some n \<Longrightarrow> i \<noteq> ROOT_ID \<Longrightarrow>
     map_of (dir_cache s) (node_parent n, node_name n) = Some i"
  unfolding vfs_core_def by blast

lemma core_fresh: "vfs_core s \<Longrightarrow> map_of (nodes s) (next_id s) = None"
  using core_node [of s "next_id s"] by (cases "map_of (nodes s) (next_id s)") auto

lemma entry_to_node_simps [simp]:
  "node_id (entry_to_node i d e) = i" "node_parent (entry_to_node i d e) = d"
  "node_name (entry_to_node i d e) = dir_entry_name e"
  by (simp_all add: entry_to_node_def)

lemma entry_to_node_not_populated: "node_kind (entry_to_node i d e) \<noteq> NodeKind_Directory dg True"
  by (simp add: entry_to_node_def split: dir_entry.split)

text \<open>One child more.\<close>

lemma add_child_core:
  assumes core: "vfs_core s" and room: "unat (next_id s) + 1 < 2 ^ 64"
    and add: "add_child d e s = (s', i)"
  shows "vfs_core s'"
    and "map_of (dir_cache s') (d, dir_entry_name e) = Some i"
    and "\<And>p nm. (p, nm) \<noteq> (d, dir_entry_name e) \<Longrightarrow> map_of (dir_cache s') (p, nm) = map_of (dir_cache s) (p, nm)"
    and "\<And>nm j. map_of (dir_cache s) (d, nm) = Some j \<Longrightarrow> map_of (dir_cache s') (d, nm) = Some j"
    and "\<And>j n. map_of (nodes s) j = Some n \<Longrightarrow> map_of (nodes s') j = Some n"
    and "\<And>j n. map_of (nodes s') j = Some n \<Longrightarrow> map_of (nodes s) j = None \<Longrightarrow> n = entry_to_node j d e"
    and "dir_children s' = dir_children s" and "unat (next_id s') \<le> unat (next_id s) + 1"
proof -
  let ?k = "(d, dir_entry_name e)"
  have cases: "(\<exists>j. map_of (dir_cache s) ?k = Some j \<and> s' = s \<and> i = j)
    \<or> map_of (dir_cache s) ?k = None \<and> i = next_id s \<and> s' = s\<lparr> next_id := i + 1,
         nodes := AList.update i (entry_to_node i d e) (nodes s), dir_cache := AList.update ?k i (dir_cache s) \<rparr>"
    using add by (auto simp: add_child_def Let_def split: option.splits)
  note fresh = core_fresh [OF core]
  have inc: "next_id s < next_id s + 1" "unat (next_id s + 1) = unat (next_id s) + 1" "2 \<le> next_id s"
    using unat_plus_one [OF room] core by (simp_all add: word_less_nat_alt vfs_core_def)
  show "vfs_core s'"
  proof (cases "map_of (dir_cache s) ?k")
    case (Some j)
    then show ?thesis using cases core by auto
  next
    case None
    then have s': "s' = s\<lparr> next_id := i + 1, nodes := AList.update i (entry_to_node i d e) (nodes s),
        dir_cache := AList.update ?k i (dir_cache s) \<rparr>" "i = next_id s" using cases by auto
    have "2 \<le> next_id s'" using inc s' by simp
    moreover have "node_id n = j \<and> 0 < j \<and> j < next_id s'" if "map_of (nodes s') j = Some n" for j n
      using that s' inc core_node [OF core, of j n]
      by (auto simp: AList.update_conv' word_le_nat_alt word_less_nat_alt split: if_splits)
    moreover have "j \<noteq> ROOT_ID \<and> (\<exists>n. map_of (nodes s') j = Some n \<and> node_parent n = p \<and> node_name n = nm)"
      if pj: "map_of (dir_cache s') (p, nm) = Some j" for p nm j
    proof (cases "(p, nm) = ?k")
      case True
      then have "j = i" using pj s' by (simp add: AList.update_conv')
      then show ?thesis using True s' inc(3) by (auto simp: AList.update_conv' word_le_nat_alt)
    next
      case False
      then have old: "map_of (dir_cache s) (p, nm) = Some j"
        using pj s' by (auto simp: AList.update_conv' split: if_splits)
      then obtain n where "j \<noteq> ROOT_ID" "map_of (nodes s) j = Some n" "node_parent n = p" "node_name n = nm"
        using core_cache [OF core old] by blast
      then show ?thesis using s' fresh by (auto simp: AList.update_conv')
    qed
    moreover have "map_of (dir_cache s') (node_parent n, node_name n) = Some j"
      if n: "map_of (nodes s') j = Some n" "j \<noteq> ROOT_ID" for j n
    proof (cases "j = i")
      case True
      then show ?thesis using n s' by (auto simp: AList.update_conv')
    next
      case False
      then have "map_of (nodes s) j = Some n" using n s' by (simp add: AList.update_conv')
      then have old: "map_of (dir_cache s) (node_parent n, node_name n) = Some j"
        using core_named [OF core] n(2) by blast
      then have "(node_parent n, node_name n) \<noteq> ?k" using None by auto
      then show ?thesis using old s' by (auto simp: AList.update_conv')
    qed
    ultimately show ?thesis unfolding vfs_core_def by blast
  qed
  show "map_of (dir_cache s') ?k = Some i" using cases by (auto simp: AList.update_conv')
  show "map_of (dir_cache s') (p, nm) = map_of (dir_cache s) (p, nm)" if "(p, nm) \<noteq> ?k" for p nm
    using cases that by (auto simp: AList.update_conv')
  show "map_of (dir_cache s') (d, nm) = Some j" if "map_of (dir_cache s) (d, nm) = Some j" for nm j
    using cases that by (auto simp: AList.update_conv')
  show "map_of (nodes s') j = Some n" if "map_of (nodes s) j = Some n" for j n
    using cases that fresh by (auto simp: AList.update_conv')
  show "n = entry_to_node j d e" if "map_of (nodes s') j = Some n" "map_of (nodes s) j = None" for j n
    using cases that by (auto simp: AList.update_conv' split: if_splits)
  show "dir_children s' = dir_children s" using cases by auto
  show "unat (next_id s') \<le> unat (next_id s) + 1" using cases inc(2) by auto
qed


text \<open>All of a directory's entries.\<close>

lemma add_children_core:
  assumes "vfs_core s" and "unat (next_id s) + length es < 2 ^ 64" and "add_children d es s = (s', ids)"
  shows "vfs_core s'
    \<and> map Some ids = map (\<lambda>e. map_of (dir_cache s') (d, dir_entry_name e)) es
    \<and> (\<forall>p nm. p \<noteq> d \<or> nm \<notin> dir_entry_name ` set es \<longrightarrow> map_of (dir_cache s') (p, nm) = map_of (dir_cache s) (p, nm))
    \<and> (\<forall>nm j. map_of (dir_cache s) (d, nm) = Some j \<longrightarrow> map_of (dir_cache s') (d, nm) = Some j)
    \<and> (\<forall>j n. map_of (nodes s) j = Some n \<longrightarrow> map_of (nodes s') j = Some n)
    \<and> (\<forall>j n. map_of (nodes s') j = Some n \<longrightarrow> map_of (nodes s) j = None \<longrightarrow> (\<exists>e\<in>set es. n = entry_to_node j d e))
    \<and> dir_children s' = dir_children s \<and> unat (next_id s') \<le> unat (next_id s) + length es"
  using assms
proof (induction es arbitrary: s ids)
  case (Cons e es)
  obtain s1 i where a: "add_child d e s = (s1, i)" by (cases "add_child d e s")
  obtain is' where b: "add_children d es s1 = (s', is')" and ids: "ids = i # is'"
    using Cons.prems(3) a by (auto split: prod.splits)
  have room1: "unat (next_id s) + 1 < 2 ^ 64" using Cons.prems(2) by simp
  note one = add_child_core [OF Cons.prems(1) room1 a]
  have room2: "unat (next_id s1) + length es < 2 ^ 64" using one(8) Cons.prems(2) by simp
  note IH = Cons.IH [OF one(1) room2 b]
  have "map_of (dir_cache s') (d, dir_entry_name e) = Some i" using IH one(2) by blast
  moreover have "map_of (dir_cache s') (p, nm) = map_of (dir_cache s) (p, nm)"
    if "p \<noteq> d \<or> nm \<notin> dir_entry_name ` set (e # es)" for p nm
  proof -
    have "map_of (dir_cache s1) (p, nm) = map_of (dir_cache s) (p, nm)" using one(3) [of p nm] that by auto
    moreover have "map_of (dir_cache s') (p, nm) = map_of (dir_cache s1) (p, nm)" using IH that by auto
    ultimately show ?thesis by simp
  qed
  moreover have "\<exists>e'\<in>set (e # es). n = entry_to_node j d e'"
    if n: "map_of (nodes s') j = Some n" "map_of (nodes s) j = None" for j n
  proof (cases "map_of (nodes s1) j")
    case None
    then have "\<exists>e'\<in>set es. n = entry_to_node j d e'" using IH n(1) by blast
    then show ?thesis by auto
  next
    case (Some m)
    then have "map_of (nodes s') j = Some m" using IH by blast
    then have "n = m" using n(1) by simp
    then show ?thesis using one(6) [OF Some n(2)] by simp
  qed
  moreover have "\<forall>nm j. map_of (dir_cache s) (d, nm) = Some j \<longrightarrow> map_of (dir_cache s') (d, nm) = Some j"
    using IH one(4) by blast
  moreover have "\<forall>j n. map_of (nodes s) j = Some n \<longrightarrow> map_of (nodes s') j = Some n" using IH one(5) by blast
  ultimately show ?case using IH one(7,8) ids by auto
qed simp

lemmas add_childrenD = add_children_core [THEN conjunct1]
  add_children_core [THEN conjunct2, THEN conjunct1]
  add_children_core [THEN conjunct2, THEN conjunct2, THEN conjunct1, rule_format]
  add_children_core [THEN conjunct2, THEN conjunct2, THEN conjunct2, THEN conjunct1, rule_format]
  add_children_core [THEN conjunct2, THEN conjunct2, THEN conjunct2, THEN conjunct2, THEN conjunct1, rule_format]
  add_children_core [THEN conjunct2, THEN conjunct2, THEN conjunct2, THEN conjunct2, THEN conjunct2, THEN conjunct1, rule_format]
  add_children_core [THEN conjunct2, THEN conjunct2, THEN conjunct2, THEN conjunct2, THEN conjunct2, THEN conjunct2, THEN conjunct1]

section \<open>Loading keeps the table consistent\<close>

lemma map_of_update_kind:
  "map_of (nodes (update_kind d f s)) i =
     (if i = d then map_option (\<lambda>n. n\<lparr> node_kind := f (node_kind n) \<rparr>) (map_of (nodes s) d) else map_of (nodes s) i)"
  by (auto simp: update_kind_def AList.update_conv' split: option.splits)

lemma update_kind_sel [simp]:
  "next_id (update_kind d f s) = next_id s" "dir_cache (update_kind d f s) = dir_cache s"
  "dir_children (update_kind d f s) = dir_children s"
  by (auto simp: update_kind_def split: option.splits)

lemma update_kind_core: "vfs_core s \<Longrightarrow> vfs_core (update_kind d f s)"
  unfolding vfs_core_def update_kind_sel
  by (simp only: map_of_update_kind) (fastforce split: if_splits)

lemma core_dir_children [simp]: "vfs_core (s\<lparr> dir_children := c \<rparr>) = vfs_core s"
  by (simp add: vfs_core_def)

text \<open>The invariant's parts, one at a time.\<close>

lemma inv_core: "vfs_inv s \<Longrightarrow> vfs_core s"
  unfolding vfs_inv_def by blast

lemma inv_root: "vfs_inv s \<Longrightarrow> \<exists>n dg b. map_of (nodes s) ROOT_ID = Some n \<and> node_kind n = NodeKind_Directory dg b"
  unfolding vfs_inv_def by blast

lemma inv_children:
  "vfs_inv s \<Longrightarrow> map_of (dir_children s) d = Some ids \<Longrightarrow>
     populated d s \<and> set ids = {i. \<exists>nm. map_of (dir_cache s) (d, nm) = Some i}"
  unfolding vfs_inv_def by blast

lemma inv_populated: "vfs_inv s \<Longrightarrow> populated d s \<Longrightarrow> \<exists>ids. map_of (dir_children s) d = Some ids"
  unfolding vfs_inv_def by blast

lemma inv_cache: "vfs_inv s \<Longrightarrow> map_of (dir_cache s) (d, nm) = Some i \<Longrightarrow> populated d s"
  unfolding vfs_inv_def by blast


text \<open>What loading one directory does, for a directory that was not loaded.\<close>

lemma load_directory_facts:
  assumes inv: "vfs_inv s" and node: "map_of (nodes s) d = Some n" "node_kind n = NodeKind_Directory dg b"
    and room: "unat (next_id s) + length (dir_entries dir) < 2 ^ 64"
    and load: "load_directory d dir s = (s', ids)"
  shows "vfs_core s'" and "map_of (nodes s') d = Some (n\<lparr> node_kind := NodeKind_Directory dg True \<rparr>)"
    and "map Some ids = map (\<lambda>e. map_of (dir_cache s') (d, dir_entry_name e)) (dir_entries dir)"
    and "\<And>p nm. p \<noteq> d \<or> nm \<notin> dir_entry_name ` set (dir_entries dir) \<Longrightarrow>
           map_of (dir_cache s') (p, nm) = map_of (dir_cache s) (p, nm)"
    and "\<And>p nm j. map_of (dir_cache s) (p, nm) = Some j \<Longrightarrow> map_of (dir_cache s') (p, nm) = Some j"
    and "\<And>j m. map_of (nodes s) j = Some m \<Longrightarrow> j \<noteq> d \<Longrightarrow> map_of (nodes s') j = Some m"
    and "\<And>j m. map_of (nodes s') j = Some m \<Longrightarrow> map_of (nodes s) j = None \<Longrightarrow> \<exists>e\<in>set (dir_entries dir). m = entry_to_node j d e"
    and "dir_children s' = AList.update d ids (dir_children s)"
proof -
  obtain s1 where a: "add_children d (dir_entries dir) s = (s1, ids)"
    and s': "s' = (update_kind d kind_populated s1)\<lparr> dir_children := AList.update d ids (dir_children s1) \<rparr>"
    using load by (auto simp: load_directory_def Let_def split: prod.splits)
  note A = add_childrenD [OF inv_core [OF inv] room a]
  have d1: "map_of (nodes s1) d = Some n" using A(5) node(1) .
  have nodes': "map_of (nodes s') i = (if i = d then Some (n\<lparr> node_kind := NodeKind_Directory dg True \<rparr>) else map_of (nodes s1) i)" for i
    using d1 node(2) by (simp add: s' map_of_update_kind)
  have cache': "dir_cache s' = dir_cache s1" by (simp add: s')
  show "vfs_core s'" using update_kind_core [OF A(1)] by (simp add: s')
  show "map_of (nodes s') d = Some (n\<lparr> node_kind := NodeKind_Directory dg True \<rparr>)" by (simp add: nodes')
  show "map Some ids = map (\<lambda>e. map_of (dir_cache s') (d, dir_entry_name e)) (dir_entries dir)"
    using A(2) by (simp add: cache')
  show keep: "map_of (dir_cache s') (p, nm) = map_of (dir_cache s) (p, nm)"
    if "p \<noteq> d \<or> nm \<notin> dir_entry_name ` set (dir_entries dir)" for p nm
    using A(3) [OF that] by (simp add: cache')
  show "map_of (dir_cache s') (p, nm) = Some j" if "map_of (dir_cache s) (p, nm) = Some j" for p nm j
    using A(4) [of nm j] keep [of p nm] that by (cases "p = d") (auto simp: cache')
  show "map_of (nodes s') j = Some m" if "map_of (nodes s) j = Some m" "j \<noteq> d" for j m
    using A(5) [OF that(1)] that(2) by (simp add: nodes')
  show "\<exists>e\<in>set (dir_entries dir). m = entry_to_node j d e"
    if "map_of (nodes s') j = Some m" "map_of (nodes s) j = None" for j m
    using A(6) [of j m] that node(1) by (auto simp: nodes' split: if_splits)
  show "dir_children s' = AList.update d ids (dir_children s)" using A(7) by (simp add: s')
qed

lemma load_directory_inv:
  assumes inv: "vfs_inv s" and node: "map_of (nodes s) d = Some n" "node_kind n = NodeKind_Directory dg b"
    and fresh: "\<not> populated d s"
    and room: "unat (next_id s) + length (dir_entries dir) < 2 ^ 64"
    and load: "load_directory d dir s = (s', ids)"
  shows "vfs_inv s'"
proof -
  note F = load_directory_facts [OF inv node room load]
  have pop_d: "populated d s'" using F(2) by (simp add: populated_def)
  have pop: "populated x s' \<longleftrightarrow> populated x s" if "x \<noteq> d" for x
  proof (cases "map_of (nodes s) x")
    case None
    then have "\<not> populated x s'"
      using F(7) entry_to_node_not_populated unfolding populated_def by blast
    then show ?thesis using None by (simp add: populated_def)
  next
    case (Some m)
    then show ?thesis using F(6) [OF Some that] by (simp add: populated_def)
  qed
  have none: "map_of (dir_cache s) (d, nm) = None" for nm
    using inv_cache [OF inv, of d nm] fresh by (cases "map_of (dir_cache s) (d, nm)") auto
  have set_ids: "set ids = {i. \<exists>nm. map_of (dir_cache s') (d, nm) = Some i}"
  proof -
    have "i \<in> set ids \<longleftrightarrow> Some i \<in> set (map Some ids)" for i by auto
    then have mem: "i \<in> set ids \<longleftrightarrow> (\<exists>e\<in>set (dir_entries dir). map_of (dir_cache s') (d, dir_entry_name e) = Some i)" for i
      unfolding F(3) by (auto simp: image_iff eq_commute)
    have only: "nm \<in> dir_entry_name ` set (dir_entries dir)" if "map_of (dir_cache s') (d, nm) = Some i" for nm i
      using F(4) [of d nm] none that by (cases "nm \<in> dir_entry_name ` set (dir_entries dir)") auto
    show ?thesis using mem only by blast
  qed
  have root: "\<exists>n dg b. map_of (nodes s') ROOT_ID = Some n \<and> node_kind n = NodeKind_Directory dg b"
  proof (cases "ROOT_ID = d")
    case True
    then show ?thesis using F(2) by (auto intro: exI [of _ True])
  next
    case False
    then show ?thesis using inv_root [OF inv] F(6) by metis
  qed
  have "populated x s' \<and> set is = {i. \<exists>nm. map_of (dir_cache s') (x, nm) = Some i}"
    if "map_of (dir_children s') x = Some is" for x "is"
  proof (cases "x = d")
    case True
    then show ?thesis using that pop_d set_ids by (simp add: F(8) AList.update_conv')
  next
    case False
    then have "map_of (dir_children s) x = Some is" using that by (simp add: F(8) AList.update_conv')
    then show ?thesis using inv_children [OF inv] pop [OF False] F(4) False by simp
  qed
  moreover have "map_of (dir_children s') x \<noteq> None" if "populated x s'" for x
    using that pop inv_populated [OF inv] by (cases "x = d") (auto simp: F(8) AList.update_conv')
  moreover have "populated x s'" if "map_of (dir_cache s') (x, nm) = Some i" for x nm i
    using that pop_d pop F(4) inv_cache [OF inv] by (cases "x = d") auto
  ultimately show ?thesis using F(1) root unfolding vfs_inv_def by blast
qed


section \<open>Every operation keeps the invariant and every number\<close>

text \<open>
  The counter of inode numbers does not wrap during a load: a parsed directory has fewer entries than
  there are numbers left, which holds of every list that fits in memory until about \<open>2^64\<close> allocations.
\<close>

definition dir_room :: "dir_parser \<Rightarrow> vfs \<Rightarrow> bool" where
  "dir_room parse_dir s \<longleftrightarrow>
     (\<forall>data dir. parse_dir data = Inl dir \<longrightarrow> unat (next_id s) + length (dir_entries dir) < 2 ^ 64)"

text \<open>What never changes as the table grows: numbers, names, attributes and loaded listings.\<close>

definition vfs_extends :: "vfs \<Rightarrow> vfs \<Rightarrow> bool" where
  "vfs_extends s s' \<longleftrightarrow>
     (\<forall>i n. map_of (nodes s) i = Some n \<longrightarrow> (\<exists>n'. map_of (nodes s') i = Some n' \<and> node_id n' = node_id n
        \<and> node_parent n' = node_parent n \<and> node_name n' = node_name n \<and> node_to_attr n' = node_to_attr n
        \<and> type_of_kind (node_kind n') = type_of_kind (node_kind n)))
     \<and> (\<forall>p nm i. map_of (dir_cache s) (p, nm) = Some i \<longrightarrow> map_of (dir_cache s') (p, nm) = Some i)
     \<and> (\<forall>d ids. map_of (dir_children s) d = Some ids \<longrightarrow> map_of (dir_children s') d = Some ids)"

lemma extends_node:
  "vfs_extends s s' \<Longrightarrow> map_of (nodes s) i = Some n \<Longrightarrow>
     \<exists>n'. map_of (nodes s') i = Some n' \<and> node_id n' = node_id n
        \<and> node_parent n' = node_parent n \<and> node_name n' = node_name n \<and> node_to_attr n' = node_to_attr n
        \<and> type_of_kind (node_kind n') = type_of_kind (node_kind n)"
  unfolding vfs_extends_def by blast

lemma extends_cache:
  "vfs_extends s s' \<Longrightarrow> map_of (dir_cache s) (p, nm) = Some i \<Longrightarrow> map_of (dir_cache s') (p, nm) = Some i"
  unfolding vfs_extends_def by blast

lemma extends_children:
  "vfs_extends s s' \<Longrightarrow> map_of (dir_children s) d = Some ids \<Longrightarrow> map_of (dir_children s') d = Some ids"
  unfolding vfs_extends_def by blast

lemma vfs_extends_refl [simp]: "vfs_extends s s"
  unfolding vfs_extends_def by blast

lemma vfs_extends_trans [trans]:
  assumes "vfs_extends s t" "vfs_extends t u"
  shows "vfs_extends s u"
  unfolding vfs_extends_def
proof (intro conjI allI impI)
  fix i n assume "map_of (nodes s) i = Some n"
  from extends_node [OF assms(1) this] obtain m where m: "map_of (nodes t) i = Some m" "node_id m = node_id n"
    "node_parent m = node_parent n" "node_name m = node_name n" "node_to_attr m = node_to_attr n"
    "type_of_kind (node_kind m) = type_of_kind (node_kind n)" by blast
  from extends_node [OF assms(2) m(1)] m(2-)
  show "\<exists>n'. map_of (nodes u) i = Some n' \<and> node_id n' = node_id n \<and> node_parent n' = node_parent n
      \<and> node_name n' = node_name n \<and> node_to_attr n' = node_to_attr n
      \<and> type_of_kind (node_kind n') = type_of_kind (node_kind n)" by auto
qed (use assms extends_cache extends_children in blast)+

lemma load_directory_extends:
  assumes "vfs_inv s" "map_of (nodes s) d = Some n" "node_kind n = NodeKind_Directory dg b" "\<not> populated d s"
    and "unat (next_id s) + length (dir_entries dir) < 2 ^ 64" and "load_directory d dir s = (s', ids)"
  shows "vfs_extends s s'"
proof -
  note F = load_directory_facts [OF assms(1-3,5,6)]
  show ?thesis unfolding vfs_extends_def
  proof (intro conjI allI impI)
    fix i m assume m: "map_of (nodes s) i = Some m"
    show "\<exists>n'. map_of (nodes s') i = Some n' \<and> node_id n' = node_id m \<and> node_parent n' = node_parent m
      \<and> node_name n' = node_name m \<and> node_to_attr n' = node_to_attr m
      \<and> type_of_kind (node_kind n') = type_of_kind (node_kind m)"
    proof (cases "i = d")
      case True
      then have "m = n" using m assms(2) by simp
      then show ?thesis using F(2) True assms(3) by (auto simp: node_to_attr_def type_of_kind_def)
    next
      case False
      then show ?thesis using F(6) [OF m] by blast
    qed
  next
    fix x "is" assume c: "map_of (dir_children s) x = Some is"
    then have "x \<noteq> d" using inv_children [OF assms(1)] assms(4) by blast
    then show "map_of (dir_children s') x = Some is" using c by (simp add: F(8) AList.update_conv')
  qed (use F(5) in blast)
qed

lemma ensure_populated_facts:
  assumes inv: "vfs_inv s" and room: "dir_room parse_dir s" and run: "ensure_populated p parse_dir d s = (s', r)"
  shows "vfs_inv s'" and "vfs_extends s s'"
    and "\<And>ids. r = Ok ids \<Longrightarrow> populated d s' \<and> map_of (dir_children s') d = Some ids"
    and "\<And>e. r = Err e \<Longrightarrow> s' = s"
proof -
  have *: "vfs_inv s' \<and> vfs_extends s s' \<and> (\<forall>ids. r = Ok ids \<longrightarrow> populated d s' \<and> map_of (dir_children s') d = Some ids)
    \<and> (\<forall>e. r = Err e \<longrightarrow> s' = s)"
  proof (cases "map_of (nodes s) d")
    case (Some n)
    show ?thesis
    proof (cases "node_kind n")
      case (NodeKind_Directory dg b)
      show ?thesis
      proof (cases b)
        case True
        then have pop: "populated d s" using Some NodeKind_Directory by (simp add: populated_def)
        then obtain ids where "map_of (dir_children s) d = Some ids" using inv_populated [OF inv] by blast
        then show ?thesis using run Some NodeKind_Directory True pop inv by (auto simp: ensure_populated_def)
      next
        case False
        then have fresh: "\<not> populated d s" using Some NodeKind_Directory by (simp add: populated_def)
        show ?thesis
        proof (cases "fetch_and_parse p parse_dir ''fetch_directory'' ''parse directory'' dg")
          case (Ok dir)
          then obtain data where "parse_dir data = Inl dir"
            by (auto simp: fetch_and_parse_def split: outcome.splits sum.splits)
          then have len: "unat (next_id s) + length (dir_entries dir) < 2 ^ 64"
            using room unfolding dir_room_def by blast
          obtain ids where load: "load_directory d dir s = (s', ids)" and r: "r = Ok ids"
            using run Some NodeKind_Directory False Ok by (auto simp: ensure_populated_def split: prod.splits)
          note F = load_directory_facts [OF inv Some NodeKind_Directory len load]
          have "populated d s'" using F(2) by (simp add: populated_def)
          then show ?thesis
            using load_directory_inv [OF inv Some NodeKind_Directory fresh len load]
              load_directory_extends [OF inv Some NodeKind_Directory fresh len load] r F(8)
            by (simp add: AList.update_conv')
        qed (use run Some NodeKind_Directory False inv in \<open>auto simp: ensure_populated_def\<close>)
      qed
    qed (use run Some inv in \<open>auto simp: ensure_populated_def\<close>)
  qed (use run inv in \<open>auto simp: ensure_populated_def\<close>)
  show "vfs_inv s'" "vfs_extends s s'" using * by blast+
  show "\<And>ids. r = Ok ids \<Longrightarrow> populated d s' \<and> map_of (dir_children s') d = Some ids" using * by blast
  show "\<And>e. r = Err e \<Longrightarrow> s' = s" using * by blast
qed


lemma vfs_lookup_cases:
  assumes "vfs_lookup p parse_dir d nm s = (s', r)"
  shows "s' = s \<or> (\<exists>r1. ensure_populated p parse_dir d s = (s', r1))"
  using assms by (auto simp: vfs_lookup_def split: if_splits option.splits prod.splits outcome.splits)

lemma vfs_readdir_cases:
  assumes "vfs_readdir p parse_dir d s = (s', r)"
  shows "\<exists>r1. ensure_populated p parse_dir d s = (s', r1)"
  using assms by (auto simp: vfs_readdir_def split: prod.splits outcome.splits)

text \<open>
  A run of the filesystem: lookups and listings in any order, each with whatever the provider answers
  at that moment.
\<close>

inductive vfs_step :: "dir_parser \<Rightarrow> vfs \<Rightarrow> vfs \<Rightarrow> bool" for parse_dir where
  step_lookup: "dir_room parse_dir s \<Longrightarrow> vfs_lookup p parse_dir d nm s = (s', r) \<Longrightarrow> vfs_step parse_dir s s'"
| step_readdir: "dir_room parse_dir s \<Longrightarrow> vfs_readdir p parse_dir d s = (s', l) \<Longrightarrow> vfs_step parse_dir s s'"

inductive_cases vfs_stepE: "vfs_step parse_dir s s'"

lemma vfs_step_preserves: "vfs_step parse_dir s s' \<Longrightarrow> vfs_inv s \<Longrightarrow> vfs_inv s' \<and> vfs_extends s s'"
  by (elim vfs_stepE)
    (metis ensure_populated_facts(1,2) vfs_extends_refl vfs_lookup_cases, metis ensure_populated_facts(1,2) vfs_readdir_cases)

lemma vfs_steps_preserve: "(vfs_step parse_dir)\<^sup>*\<^sup>* s s' \<Longrightarrow> vfs_inv s \<Longrightarrow> vfs_inv s' \<and> vfs_extends s s'"
  by (induction rule: rtranclp_induct) (auto dest: vfs_step_preserves intro: vfs_extends_trans)

lemma vfs_new_inv: "vfs_new p parse_dir snap sub = Ok s \<Longrightarrow> vfs_inv s"
proof -
  let ?root = "\<lambda>dg. \<lparr> node_id = ROOT_ID, node_parent = ROOT_ID, node_name = ''/'', node_kind = NodeKind_Directory dg False \<rparr>"
  let ?s = "\<lambda>dg. \<lparr> next_id = 2, nodes = [(ROOT_ID, ?root dg)], dir_cache = [], dir_children = [] \<rparr> :: vfs"
  assume "vfs_new p parse_dir snap sub = Ok s"
  then have "\<exists>dg. s = ?s dg"
    by (cases sub) (auto simp: vfs_new_def resolve_subpath_def get_node_def update_kind_def Let_def
        obind_eq_Ok omap_eq_Ok split: option.splits outcome.splits)
  moreover have "vfs_inv (?s dg)" for dg
    by (auto simp: vfs_inv_def vfs_core_def populated_def split: if_splits)
  ultimately show ?thesis by blast
qed

text \<open>
  C6. Inode numbers are stable: from the opening of a mount, over any sequence of lookups and listings
  with any answers of the provider, the table keeps its invariant (each number is its node's, each node
  but the root is filed under its parent and name, a loaded directory's listing is exactly what lookups
  find in it), and no number, name, attribute or loaded listing that was handed out ever changes.
\<close>

theorem inode_numbers_stable:
  assumes "vfs_new p0 parse_dir snap sub = Ok s0" and "(vfs_step parse_dir)\<^sup>*\<^sup>* s0 s" and "(vfs_step parse_dir)\<^sup>*\<^sup>* s s'"
  shows "vfs_inv s \<and> vfs_inv s' \<and> vfs_extends s s'"
  using vfs_steps_preserve [OF assms(2) vfs_new_inv [OF assms(1)]] vfs_steps_preserve [OF assms(3)] by blast

section \<open>Listings and lookups agree\<close>

lemma readdir_populated:
  assumes "vfs_inv s" "map_of (dir_children s) d = Some ids"
  shows "ensure_populated p parse_dir d s = (s, Ok ids)"
  using inv_children [OF assms] assms(2) by (auto simp: ensure_populated_def populated_def)

abbreviation child_row :: "vfs \<Rightarrow> u64 \<Rightarrow> (u64 \<times> string \<times> node_type) option" where
  "child_row s c \<equiv> map_option (\<lambda>n. (node_id n, node_name n, type_of_kind (node_kind n))) (map_of (nodes s) c)"

lemma readdir_rows:
  assumes run: "ensure_populated p parse_dir d s = (s1, Ok ids)"
  shows "vfs_readdir p parse_dir d s = (s1, Ok (List.map_filter (child_row s1) ids))"
  using run by (simp add: vfs_readdir_def)

lemma readdir_OkD:
  assumes "vfs_readdir p parse_dir d s = (s1, Ok es)"
  shows "\<exists>ids. ensure_populated p parse_dir d s = (s1, Ok ids) \<and> es = List.map_filter (child_row s1) ids"
  using assms by (auto simp: vfs_readdir_def split: prod.splits outcome.splits)

lemma child_row_extends:
  assumes "vfs_inv s" "vfs_extends s s'" "map_of (dir_children s) d = Some ids" "c \<in> set ids"
  shows "child_row s' c = child_row s c"
proof -
  obtain nm where "map_of (dir_cache s) (d, nm) = Some c" using inv_children [OF assms(1,3)] assms(4) by blast
  then obtain n where n: "map_of (nodes s) c = Some n" using core_cache [OF inv_core [OF assms(1)]] by blast
  from extends_node [OF assms(2) n] n show ?thesis by auto
qed

lemma readdir_later:
  assumes inv: "vfs_inv s" and room: "dir_room parse_dir s"
    and first: "vfs_readdir p parse_dir d s = (s1, Ok es)" and later: "(vfs_step parse_dir)\<^sup>*\<^sup>* s1 s2"
  shows "vfs_readdir p' parse_dir d s2 = (s2, Ok es)"
proof -
  obtain ids where run: "ensure_populated p parse_dir d s = (s1, Ok ids)" and es: "es = List.map_filter (child_row s1) ids"
    using readdir_OkD [OF first] by blast
  note E = ensure_populated_facts [OF inv room run]
  have ids1: "map_of (dir_children s1) d = Some ids" using E(3) by blast
  have ext: "vfs_inv s2" "vfs_extends s1 s2" using vfs_steps_preserve [OF later E(1)] by blast+
  have "map_of (dir_children s2) d = Some ids" using extends_children [OF ext(2) ids1] .
  from readdir_rows [OF readdir_populated [OF ext(1) this]]
  have "vfs_readdir p' parse_dir d s2 = (s2, Ok (List.map_filter (child_row s2) ids))" .
  also have "List.map_filter (child_row s2) ids = es"
    unfolding es by (rule map_filter_cong) (rule child_row_extends [OF E(1) ext(2) ids1])
  finally show ?thesis .
qed

lemma readdir_again:
  assumes "vfs_inv s" "dir_room parse_dir s" "vfs_readdir p parse_dir d s = (s1, Ok es)"
  shows "vfs_readdir p' parse_dir d s1 = (s1, Ok es)"
  by (rule readdir_later [OF assms rtranclp.rtrancl_refl])

text \<open>
  A listing, once loaded, stays: after any further lookups and listings, and without asking the
  provider (whatever it would answer now), listing the directory again returns the same entries and
  changes nothing.
\<close>

theorem readdir_stable:
  assumes inv: "vfs_inv s" and room: "dir_room parse_dir s"
    and first: "vfs_readdir p parse_dir d s = (s1, Ok es)" and later: "(vfs_step parse_dir)\<^sup>*\<^sup>* s1 s2"
  shows "vfs_readdir p' parse_dir d s2 = (s2, Ok es)"
  by (rule readdir_later [OF assms])

text \<open>
  C19. Lookups agree with listings: after a directory was listed, looking a name up in it (other than
  \<open>.\<close> and \<open>..\<close>) finds exactly the entry the listing has under that name, with its number and type,
  without asking the provider; a name the listing does not have is not found.
\<close>

theorem lookup_agrees_with_readdir:
  assumes inv: "vfs_inv s" and room: "dir_room parse_dir s"
    and first: "vfs_readdir p parse_dir d s = (s1, Ok es)" and nm: "nm \<noteq> ''.''" "nm \<noteq> ''..''"
  shows "case vfs_lookup p' parse_dir d nm s1 of
     (s2, Ok (i, a)) \<Rightarrow> s2 = s1 \<and> (i, nm, na_kind a) \<in> set es \<and> na_inode a = i \<and> na_parent_inode a = d
   | (s2, Err e) \<Rightarrow> s2 = s1 \<and> e = Vfs_NotFound \<and> nm \<notin> (\<lambda>(i, n, k). n) ` set es
   | (s2, Panic) \<Rightarrow> False"
proof -
  obtain ids where run: "ensure_populated p parse_dir d s = (s1, Ok ids)" and es: "es = List.map_filter (child_row s1) ids"
    using readdir_OkD [OF first] by blast
  note E = ensure_populated_facts [OF inv room run]
  have ids1: "map_of (dir_children s1) d = Some ids" using E(3) by blast
  have set_ids: "set ids = {i. \<exists>nm. map_of (dir_cache s1) (d, nm) = Some i}" using inv_children [OF E(1) ids1] by blast
  have rows: "set es = {x. \<exists>c\<in>set ids. child_row s1 c = Some x}" unfolding es by (auto simp: set_map_filter)
  show ?thesis
  proof (cases "map_of (dir_cache s1) (d, nm)")
    case (Some i)
    obtain n where n: "map_of (nodes s1) i = Some n" "node_parent n = d" "node_name n = nm" "node_id n = i"
      using core_cache [OF inv_core [OF E(1)] Some] core_node [OF inv_core [OF E(1)], of i] by blast
    have "child_row s1 i = Some (i, nm, type_of_kind (node_kind n))" using n by simp
    moreover have "i \<in> set ids" using set_ids Some by blast
    ultimately have "(i, nm, type_of_kind (node_kind n)) \<in> set es" unfolding rows by blast
    then show ?thesis
      using nm Some n by (auto simp: vfs_lookup_def node_answer_def get_node_def node_to_attr_def type_of_kind_def
          split: node_kind.splits)
  next
    case None
    have "nm \<notin> (\<lambda>(i, n, k). n) ` set es"
    proof
      assume "nm \<in> (\<lambda>(i, n, k). n) ` set es"
      then obtain c n where c: "c \<in> set ids" "map_of (nodes s1) c = Some n" "node_name n = nm" unfolding rows by auto
      then obtain nm' where nm': "map_of (dir_cache s1) (d, nm') = Some c" using set_ids by blast
      then have "nm' = nm" using core_cache [OF inv_core [OF E(1)] nm'] c by auto
      then show False using nm' None by simp
    qed
    then show ?thesis using nm None readdir_populated [OF E(1) ids1] by (simp add: vfs_lookup_def)
  qed
qed

end
