(* ===== verification/Cache_Kept.thy ===== *)
theory Cache_Kept
  imports Cache_Steps
begin

text \<open>
  What the cache's operations leave alone: the entry and the file of a blob that nobody writes and that
  stays tracked, through reads, writes of other blobs, evictions, mounts and pruning.
\<close>

section \<open>A blob left alone\<close>

text \<open>The cache answers a request for \<open>d\<close> with \<open>data\<close>, read from \<open>path\<close>.\<close>

definition serves :: "'m lru_ops \<Rightarrow> digest \<Rightarrow> string \<Rightarrow> bytes \<Rightarrow> 'm blob_cache \<Rightarrow> bool" where
  "serves L d path data c \<longleftrightarrow>
     (\<exists>e. (dg_hex d, e) \<in> set (lru_list L (state c))
        \<and> blob_path c \<lparr> dg_algorithm = entry_algorithm e, dg_hex = dg_hex d \<rparr> = Some path) \<and> disk c path = Some data"

text \<open>An operation keeps every tracked entry of a key as it was, and its file.\<close>

definition keeps :: "'m lru_ops \<Rightarrow> string \<Rightarrow> 'm blob_cache \<Rightarrow> 'm blob_cache \<Rightarrow> bool" where
  "keeps L h c c' \<longleftrightarrow> cache_root c' = cache_root c \<and>
     (\<forall>e. (h, e) \<in> set (lru_list L (state c')) \<longrightarrow> (h, e) \<in> set (lru_list L (state c)) \<and>
        (\<forall>p. blob_path c (entry_digest (h, e)) = Some p \<longrightarrow> disk c' p = disk c p))"

lemma keepsI:
  assumes "cache_root c' = cache_root c"
    and "\<And>e. (h, e) \<in> set (lru_list L (state c')) \<Longrightarrow> (h, e) \<in> set (lru_list L (state c))"
    and "\<And>e p. (h, e) \<in> set (lru_list L (state c')) \<Longrightarrow> blob_path c (entry_digest (h, e)) = Some p \<Longrightarrow> disk c' p = disk c p"
  shows "keeps L h c c'"
  using assms unfolding keeps_def by blast

lemma keeps_same:
  "lru_list L (state c') = lru_list L (state c) \<Longrightarrow> cache_root c' = cache_root c \<Longrightarrow> disk c' = disk c \<Longrightarrow> keeps L h c c'"
  by (simp add: keeps_def)

lemma keeps_refl [simp]: "keeps L h c c"
  by (rule keeps_same) simp_all

lemma keeps_trans:
  assumes "keeps L h a b" "keeps L h b c"
  shows "keeps L h a c"
proof -
  have "blob_path b d = blob_path a d" for d using assms(1) by (intro blob_path_root) (simp add: keeps_def)
  then show ?thesis using assms unfolding keeps_def by metis
qed

context lru_index
begin

lemma contains_entry: "contains L d c \<longleftrightarrow> (\<exists>e. (dg_hex d, e) \<in> set (lru_list L (state c)))"
  by (force simp: contains_def contains_iter)

lemma serves_contains: "serves L d path data c \<Longrightarrow> contains L d c"
  unfolding serves_def contains_entry by blast

lemma entry_unique: "(h, e) \<in> set (lru_list L st) \<Longrightarrow> (h, e') \<in> set (lru_list L st) \<Longrightarrow> e = e'"
  using iter_distinct [of "entries st"] by (metis map_of_is_SomeI option.inject)

lemma serves_keeps:
  assumes "serves L d path data c" "keeps L (dg_hex d) c c'" "contains L d c'"
  shows "serves L d path data c'"
proof -
  obtain e where e: "(dg_hex d, e) \<in> set (lru_list L (state c'))" using assms(3) contains_entry by blast
  have old: "(dg_hex d, e) \<in> set (lru_list L (state c))" using e assms(2) by (simp add: keeps_def)
  obtain e' where "(dg_hex d, e') \<in> set (lru_list L (state c))"
    "blob_path c \<lparr> dg_algorithm = entry_algorithm e', dg_hex = dg_hex d \<rparr> = Some path" and data: "disk c path = Some data"
    using assms(1) unfolding serves_def by blast
  then have path: "blob_path c (entry_digest (dg_hex d, e)) = Some path" using entry_unique [OF old] by simp
  then have "disk c' path = Some data" using assms(2) e data by (simp add: keeps_def)
  moreover have "blob_path c' (entry_digest (dg_hex d, e)) = Some path"
    using path blob_path_root [of c' c] assms(2) by (simp add: keeps_def)
  ultimately show ?thesis using e unfolding serves_def by fastforce
qed

text \<open>A blob that is served is read, the entry is the same afterwards and moves to the back.\<close>

lemma serves_get:
  assumes "serves L d path data c" "dg_hex d' = dg_hex d" "read_ok io path"
  shows "\<exists>c'. blob_get L io d' c = (c', Ok (Some data)) \<and> disk c' = disk c \<and> contains L d c'"
proof -
  obtain e where e: "(dg_hex d, e) \<in> set (lru_list L (state c))"
    "blob_path c \<lparr> dg_algorithm = entry_algorithm e, dg_hex = dg_hex d \<rparr> = Some path" "disk c path = Some data"
    using assms(1) by (auto simp: serves_def)
  have m: "map_of (lru_list L (state c)) (dg_hex d) = Some e" using e(1) map_of_is_SomeI [OF iter_distinct] by metis
  have "(dg_hex d, e) \<in> set (lhm_iter L (lhm_get_refresh L (dg_hex d) (entries (state c))))"
    using m by (simp add: iter_refresh move_back_def)
  then show ?thesis using m e assms(2,3) by (auto simp: blob_get_def Let_def get_iter contains_entry)
qed

lemma keeps_get:
  assumes "blob_get L io d c = (c', r)"
  shows "keeps L h c c'"
proof (cases "lhm_get L (dg_hex d) (entries (state c))")
  case None
  then show ?thesis using assms by (simp add: blob_get_def)
next
  case (Some e)
  then have c': "c' = c\<lparr> state := (state c)\<lparr> entries := lhm_get_refresh L (dg_hex d) (entries (state c)) \<rparr> \<rparr>"
    using assms by (auto simp: blob_get_def Let_def split: option.splits)
  have m: "map_of (lru_list L (state c)) (dg_hex d) = Some e" using Some by (simp add: get_iter)
  show ?thesis
    by (rule keepsI) (use c' m map_of_SomeD [OF m] in \<open>auto simp: iter_refresh move_back_def\<close>)
qed

text \<open>A write beside the blob: its file is another one, and evicting takes entries with their files.\<close>

lemma other_path:
  assumes "cache_inv L c" "(h, e) \<in> set (lru_list L (state c))" "hex_ok (dg_hex d)" "dg_hex d \<noteq> h"
    and "blob_path c d = Some path" "blob_path c (entry_digest (h, e)) = Some p"
  shows "p \<noteq> path"
proof
  assume "p = path"
  moreover have "hex_ok h" using assms(1,2) by (auto simp: cache_inv_def files_wf_def)
  ultimately have "d = entry_digest (h, e)" using blob_path_inject [of d "entry_digest (h, e)" c] assms by simp
  then show False using assms(4) by simp
qed

lemma keeps_write:
  assumes "cache_inv L c" "hex_ok (dg_hex d)" "dg_hex d \<noteq> h" "blob_path c d = Some path"
  shows "keeps L h c (c\<lparr> disk := (disk c)(path \<mapsto> data) \<rparr>)"
  by (rule keepsI) (use other_path [OF assms(1) _ assms(2-4)] in auto)

lemma keeps_track:
  assumes inv: "cache_inv L c" and ok: "hex_ok (dg_hex d)" and other: "dg_hex d \<noteq> h" and path: "blob_path c d = Some path"
    and T: "track_and_evict L io d sz (c\<lparr> disk := (disk c)(path \<mapsto> data) \<rparr>) = Some (c', r)"
  shows "keeps L h c c'"
proof (rule keeps_trans [OF keeps_write [OF inv ok other path]])
  let ?c = "c\<lparr> disk := (disk c)(path \<mapsto> data) \<rparr>"
  let ?es = "insert_back (dg_hex d) \<lparr> entry_size = sz, entry_algorithm = dg_algorithm d \<rparr> (lru_list L (state c))"
  have wf: "state_wf L (state ?c)" using inv by (simp add: cache_inv_def)
  obtain gone where G: "mset ?es = mset (lru_list L (state c')) + mset gone"
    "\<forall>p. (\<forall>q\<in>set gone. blob_path ?c (entry_digest q) \<noteq> Some p) \<longrightarrow> disk c' p = disk ?c p" "cache_root c' = cache_root ?c"
    by (rule track_and_evict_spec [OF wf, where d = d and sz = sz and io = io]) (use T in auto)
  have es: "set ?es = set (lru_list L (state c')) \<union> set gone" using G(1) by (metis set_mset_mset set_mset_union)
  have dist: "distinct (keys_of (lru_list L (state c') @ gone))"
    using distinct_insert_back [OF iter_distinct [of "entries (state c)"], where k = "dg_hex d"
        and v = "\<lparr> entry_size = sz, entry_algorithm = dg_algorithm d \<rparr>"] G(1)
    by (metis mset_append mset_eq_imp_distinct_iff mset_map)
  have hex: "hex_ok (fst q)" if "q \<in> set ?es" for q
    using that inv ok by (auto simp: insert_back_def cache_inv_def files_wf_def)
  show "keeps L h ?c c'"
  proof (rule keepsI)
    fix e assume e: "(h, e) \<in> set (lru_list L (state c'))"
    then have "(h, e) \<in> set ?es" using es by blast
    then show "(h, e) \<in> set (lru_list L (state ?c))" using other by (auto simp: insert_back_def)
    fix p assume p: "blob_path ?c (entry_digest (h, e)) = Some p"
    have "blob_path ?c (entry_digest g) \<noteq> Some p" if g: "g \<in> set gone" for g
    proof
      assume "blob_path ?c (entry_digest g) = Some p"
      then have "entry_digest g = entry_digest (h, e)"
        using blob_path_inject [of "entry_digest g" "entry_digest (h, e)" ?c] p hex [of g] hex [of "(h, e)"] es g e by simp
      then show False using dist g e by (force simp: image_iff)
    qed
    then show "disk c' p = disk ?c p" using G(2) by blast
  qed (rule G(3))
qed

lemma keeps_put:
  assumes "blob_put L io d data c = Some (c', r)" "cache_inv L c" "hex_ok (dg_hex d)" "dg_hex d \<noteq> h"
  shows "keeps L h c c'"
proof -
  obtain path where path: "blob_path c d = Some path" using blob_path_hex_ok [OF assms(3)] by blast
  note W = keeps_write [OF assms(2-4) path] and T = keeps_track [OF assms(2-4) path]
  show ?thesis
    using assms(1) path W T by (auto simp: blob_put_def split: option.splits)
qed

lemma keeps_finalize:
  assumes "writer_finalize L io w d c = Some (c', r)" "cache_inv L c" "hex_ok (dg_hex d)" "dg_hex d \<noteq> h"
  shows "keeps L h c c'"
proof -
  obtain path where path: "blob_path c d = Some path" using blob_path_hex_ok [OF assms(3)] by blast
  show ?thesis
    using assms(1) path keeps_track [OF assms(2-4) path] by (auto simp: writer_finalize_def split: option.splits)
qed

lemma keeps_commit:
  assumes "commit_atomic sha256 L io d data c = Some (c', r)" "cache_inv L c" "hex_ok (dg_hex d)" "dg_hex d \<noteq> h"
  shows "keeps L h c c'"
  using assms(1) keeps_finalize [OF _ assms(2-4)]
  by (auto simp: commit_atomic_def Let_def split: if_splits outcome.splits)

text \<open>Pruning takes the oldest entries, with their files.\<close>

lemma keeps_drop:
  assumes inv: "cache_inv L c" and st: "lru_list L st = drop n (lru_list L (state c))"
    and c0: "state c0 = st" "cache_root c0 = cache_root c" "disk c0 = disk c"
    and rem: "remove_blob_files io (evicted_files (map evicted_of (take n (lru_list L (state c))))) c0 = (c', r)"
  shows "keeps L h c c'"
proof (rule keepsI)
  note frame = remove_blob_files_frame [OF rem]
  show "cache_root c' = cache_root c" using frame c0 by simp
  fix e assume e: "(h, e) \<in> set (lru_list L (state c'))"
  then have e: "(h, e) \<in> set (drop n (lru_list L (state c)))" using frame c0 st by simp
  then show "(h, e) \<in> set (lru_list L (state c))" by (rule in_set_dropD)
  fix p assume "blob_path c (entry_digest (h, e)) = Some p"
  then show "disk c' p = disk c p" using dropped_files_kept [OF _ c0(2,3) rem e] inv by (simp add: cache_inv_def)
qed

lemma keeps_prune:
  assumes "prune L io tgt c = Some (c', r)" "cache_inv L c"
  shows "keeps L h c c'"
proof -
  define limit where "limit = (case tgt of Some b \<Rightarrow> b | None \<Rightarrow> max_bytes c)"
  obtain st where st: "prune_loop L limit (state c) []
      = Some (st, [] @ map evicted_of (take (drop_count limit (total_bytes (state c)) (lru_list L (state c))) (lru_list L (state c))))"
    "lru_list L st = drop (drop_count limit (total_bytes (state c)) (lru_list L (state c))) (lru_list L (state c))"
    using prune_loop_spec by blast
  show ?thesis
    using assms(1) st keeps_drop [OF assms(2) st(2), of "c\<lparr> state := st \<rparr>" io]
    by (auto simp: prune_def Let_def limit_def [symmetric] split: prod.splits)
qed

lemma keeps_prune_blobs:
  assumes "prune_blobs L io target c = Some (c', r)" "cache_inv L c"
  shows "keeps L h c c'"
proof -
  obtain st where st: "shrink_loop L target (state c) []
      = Some (st, [] @ map evicted_of (take (drop_count target (total_bytes (state c)) (lru_list L (state c))) (lru_list L (state c))))"
    "lru_list L st = drop (drop_count target (total_bytes (state c)) (lru_list L (state c))) (lru_list L (state c))"
    using prune_loop_spec unfolding shrink_loop_prune_loop by blast
  show ?thesis
    using assms(1) st keeps_drop [OF assms(2) st(2), of "c\<lparr> state := st \<rparr>" io]
    by (auto simp: prune_blobs_def Let_def split: prod.splits)
qed

lemma keeps_set_max:
  assumes "set_max_bytes L io new_max c = Some (c', r)" "cache_inv L c"
  shows "keeps L h c c'"
proof -
  obtain st where st: "shrink_loop L new_max (state c) []
      = Some (st, [] @ map evicted_of (take (drop_count new_max (total_bytes (state c)) (lru_list L (state c))) (lru_list L (state c))))"
    "lru_list L st = drop (drop_count new_max (total_bytes (state c)) (lru_list L (state c))) (lru_list L (state c))"
    using prune_loop_spec unfolding shrink_loop_prune_loop by blast
  show ?thesis
    using assms(1) st keeps_drop [OF assms(2) st(2), of "c\<lparr> max_bytes := new_max, state := st \<rparr>" io]
    by (auto simp: set_max_bytes_def Let_def)
qed

lemma keeps_cleanup:
  assumes "cleanup_orphan_temps io now older listing c = (c', r)" "tmp_listing_of c listing" "cache_inv L c"
  shows "keeps L h c c'"
proof (cases "\<exists>es. listing = Some (Inl es)")
  case False
  then have "c' = c" using assms(1) by (auto simp: cleanup_orphan_temps_def split: option.splits sum.splits)
  then show ?thesis by simp
next
  case True
  then obtain es n where es: "listing = Some (Inl es)" and n: "cleanup_tmp_entries io now older es 0 c = (c', n)"
    using assms(1) by (auto simp: cleanup_orphan_temps_def split: prod.splits)
  note frame = cleanup_tmp_entries_frame [OF n]
  show ?thesis
  proof (rule keepsI)
    fix e p assume e: "(h, e) \<in> set (lru_list L (state c'))" and p: "blob_path c (entry_digest (h, e)) = Some p"
    have "hex_ok (dg_hex (entry_digest (h, e)))" using assms(3) e frame by (auto simp: cache_inv_def files_wf_def)
    then have "p \<notin> te_path ` set es"
      using assms(2) es p tmp_path_not_blob [of "entry_digest (h, e)" _ c] by (auto simp: tmp_listing_of_def list_all_iff)
    then show "disk c' p = disk c p" using frame by blast
  qed (use frame in simp_all)
qed

end

end
