(* ===== verification/Vfs_Read.thy ===== *)
theory Vfs_Read
  imports Vfs_Correct Cache_Correct Cache_Kept
begin

text \<open>
  Reading a file: the slice arithmetic, where the bytes come from (inline, cache, provider), what a
  read leaves in the cache, and a concrete mount on which the filesystem's properties are tried out.
\<close>

section \<open>The slice\<close>

lemma unat_cast_u32: "unat (ucast (w :: u32) :: u64) = unat w"
proof -
  have "unat w < 2 ^ 64" using unsigned_less [where 'a = nat, of w] by simp
  then show ?thesis by (simp add: unsigned_ucast_eq take_bit_nat_eq_self)
qed

lemma unat_len: "length (data :: bytes) < 2 ^ 64 \<Longrightarrow> unat (of_nat (length data) :: u64) = length data"
  by (simp add: unat_of_nat)

lemma read_slice_value:
  assumes len: "length data < 2 ^ 64"
  shows "read_slice data offset cnt =
    (if 2 ^ 64 \<le> unat offset + unat cnt \<and> unat offset + unat cnt - 2 ^ 64 < length data then Panic
     else Ok (take (unat cnt) (drop (unat offset) data)))"
proof -
  let ?n = "length data" and ?o = "unat offset" and ?c = "unat cnt"
  have o: "?o < 2 ^ 64" using unsigned_less [where 'a = nat, of offset] by simp
  have c: "?c < 2 ^ 32" using unsigned_less [where 'a = nat, of cnt] by simp
  have start: "unat (min offset (of_nat ?n :: u64)) = min ?o ?n"
    using unat_len [OF len] by (simp add: min_def word_le_nat_alt)
  have sum: "unat (offset + ucast cnt) = (if ?o + ?c < 2 ^ 64 then ?o + ?c else ?o + ?c - 2 ^ 64)"
    using unat_plus_if' [of offset "ucast cnt :: u64"] by (simp add: unat_cast_u32)
  have stop: "unat (min (offset + ucast cnt) (of_nat ?n :: u64)) = min (unat (offset + ucast cnt)) ?n"
    using unat_len [OF len] by (simp add: min_def word_le_nat_alt)
  have S: "read_slice data offset cnt =
    (let start = min ?o ?n; stop = min (unat (offset + ucast cnt)) ?n
     in if stop < start \<or> ?n < stop then Panic else Ok (take (stop - start) (drop start data)))"
    by (simp add: read_slice_def Let_def start stop)
  show ?thesis
  proof (cases "?o + ?c < 2 ^ 64")
    case True
    then have e: "unat (offset + ucast cnt) = ?o + ?c" using sum by simp
    have "take (min (?o + ?c) ?n - min ?o ?n) (drop (min ?o ?n) data) = take ?c (drop ?o data)"
      by (cases "?o \<le> ?n") (auto simp: min_def)
    then show ?thesis using S e True by (simp add: Let_def)
  next
    case False
    then have e: "unat (offset + ucast cnt) = ?o + ?c - 2 ^ 64" using sum by simp
    have lt: "?o + ?c - 2 ^ 64 < ?o" using o c False by simp
    show ?thesis
    proof (cases "?o + ?c - 2 ^ 64 < ?n")
      case True
      then have "min (?o + ?c - 2 ^ 64) ?n < min ?o ?n" using lt by simp
      then show ?thesis using S e True False by (simp add: Let_def)
    next
      case wide: False
      then have "drop ?o data = []" "min (?o + ?c - 2 ^ 64) ?n = ?n" "min ?o ?n = ?n" using lt by simp_all
      then show ?thesis using S e False wide by (simp add: Let_def)
    qed
  qed
qed

text \<open>
  C31. A read is exact or panics: without wrap-around it returns the bytes from the offset on, at most as
  many as asked for and none past the end. When \<open>offset + count\<close> passes \<open>2^64\<close> (the offset comes from
  the client) and the wrapped end falls inside the file, the slice ends before it starts and panics.
\<close>

theorem read_slice_exact:
  assumes len: "length data < 2 ^ 64"
  shows "read_slice data offset cnt =
    (if 2 ^ 64 \<le> unat offset + unat cnt \<and> unat offset + unat cnt - 2 ^ 64 < length data then Panic
     else Ok (take (unat cnt) (drop (unat offset) data)))"
  by (rule read_slice_value [OF len])

section \<open>Where the bytes come from\<close>

context lru_index
begin

lemma blob_put_returns:
  assumes "cache_inv L c" "hex_ok (dg_hex d)"
  shows "\<exists>c' r. blob_put L io d data c = Some (c', r) \<and> cache_inv L c' \<and> r \<noteq> Panic"
proof -
  obtain path where path: "blob_path c d = Some path" using blob_path_hex_ok [OF assms(2)] by blast
  obtain c1 where T: "track_and_evict L io d (of_nat (length data)) (c\<lparr> disk := (disk c)(path \<mapsto> data) \<rparr>) = Some (c1, Ok ())"
    using write_and_track [OF assms path, where sz = "of_nat (length data)" and data = data and io = io] by metis
  have "\<exists>c' r. blob_put L io d data c = Some (c', r) \<and> r \<noteq> Panic"
    using path T by (auto simp: blob_put_def split: option.splits)
  then show ?thesis using cache_inv_put assms by blast
qed

lemma blob_get_result:
  assumes "hex_ok (dg_hex d)"
  shows "\<exists>c1 x. blob_get L io d c = (c1, Ok x)"
proof (cases "lhm_get L (dg_hex d) (entries (state c))")
  case (Some e)
  obtain path where "blob_path c \<lparr> dg_algorithm = entry_algorithm e, dg_hex = dg_hex d \<rparr> = Some path"
    using blob_path_hex_ok [of "\<lparr> dg_algorithm = entry_algorithm e, dg_hex = dg_hex d \<rparr>" c] assms by auto
  then show ?thesis using Some by (simp add: blob_get_def Let_def)
qed (simp add: blob_get_def)

text \<open>The three sources of a file that is not inline.\<close>

lemma fetch_cases:
  assumes inv: "cache_inv L c" and node: "node_kind n = NodeKind_File d sz ex None" and ok: "hex_ok (dg_hex d)"
    and np: "fetch_blob p d \<noteq> Panic"
  shows "\<exists>c' r. fetch_file_bytes L io p n c = Some (c', r) \<and> cache_inv L c' \<and>
    (case r of
       Ok data \<Rightarrow> snd (blob_get L io d c) = Ok (Some data) \<or> snd (blob_get L io d c) = Ok None \<and> fetch_blob p d = Ok data
     | Err e \<Rightarrow> snd (blob_get L io d c) = Ok None \<and> (\<exists>e'. fetch_blob p d = Err e' \<and> e = provider_err_to_vfs e' ''fetch_blob'')
     | Panic \<Rightarrow> False)"
proof -
  obtain c1 x where g: "blob_get L io d c = (c1, Ok x)" using blob_get_result [OF ok] by blast
  have inv1: "cache_inv L c1" by (rule cache_inv_get [OF g inv])
  show ?thesis
  proof (cases x)
    case (Some data)
    then show ?thesis using node g inv1 by (simp add: fetch_file_bytes_def)
  next
    case None
    show ?thesis
    proof (cases "fetch_blob p d")
      case (Ok data)
      obtain c2 r2 where "blob_put L io d data c1 = Some (c2, r2)" "cache_inv L c2" "r2 \<noteq> Panic"
        using blob_put_returns [OF inv1 ok] by blast
      then show ?thesis using node g None Ok by (cases r2) (simp_all add: fetch_file_bytes_def)
    qed (use node g None inv1 np in \<open>simp_all add: fetch_file_bytes_def\<close>)
  qed
qed

end

text \<open>
  A read of a file always returns, keeps the cache consistent and says where its bytes are from: the
  slice asked for of the inline content, else of the blob in the cache, else of what the provider sends;
  it fails only when the blob is not cached and the provider fails, with the provider's error.
\<close>

theorem vfs_read_returns:
  assumes L: "linked_hash_map L" and inv: "cache_inv L c" and ok: "hex_ok (dg_hex d)"
    and node: "map_of (nodes s) i = Some n" "node_kind n = NodeKind_File d sz ex inline"
    and np: "fetch_blob p d \<noteq> Panic"
  shows "\<exists>c' r. vfs_read L io p i offset cnt s c = Some (c', r) \<and> cache_inv L c' \<and>
    (case (inline, snd (blob_get L io d c), fetch_blob p d) of
       (Some content, _, _) \<Rightarrow> c' = c \<and> r = read_slice content offset cnt
     | (None, Ok (Some data), _) \<Rightarrow> r = read_slice data offset cnt
     | (None, _, Ok data) \<Rightarrow> r = read_slice data offset cnt
     | (None, _, Err e) \<Rightarrow> r = Err (provider_err_to_vfs e ''fetch_blob'')
     | (None, _, Panic) \<Rightarrow> False)"
proof (cases inline)
  case (Some content)
  then show ?thesis using node inv by (simp add: vfs_read_def fetch_file_bytes_def)
next
  case None
  then have kind: "node_kind n = NodeKind_File d sz ex None" using node(2) by simp
  obtain c' r where F: "fetch_file_bytes L io p n c = Some (c', r)" "cache_inv L c'"
    "case r of
       Ok data \<Rightarrow> snd (blob_get L io d c) = Ok (Some data) \<or> snd (blob_get L io d c) = Ok None \<and> fetch_blob p d = Ok data
     | Err e \<Rightarrow> snd (blob_get L io d c) = Ok None \<and> (\<exists>e'. fetch_blob p d = Err e' \<and> e = provider_err_to_vfs e' ''fetch_blob'')
     | Panic \<Rightarrow> False"
    using lru_index.fetch_cases [OF lru_index_of [OF L] inv kind ok np] by blast
  have "vfs_read L io p i offset cnt s c = Some (c', obind r (\<lambda>data. read_slice data offset cnt))"
    using node(1) F(1) by (simp add: vfs_read_def)
  then show ?thesis using F(2,3) None by (cases r) auto
qed


section \<open>A blob that is cached stays the answer\<close>

text \<open>
  What mounts do with the cache they share, beside writing the blob \<open>d\<close> itself again: read files of any
  filesystem with any provider (the disk gives back \<open>d\<close>'s file at \<open>path\<close>), write other blobs, come and go,
  record owners, prune, change the limit and sweep temporary files.
\<close>

definition file_blobs_ok :: "vfs \<Rightarrow> bool" where
  "file_blobs_ok s \<longleftrightarrow>
     (\<forall>i n d sz ex. map_of (nodes s) i = Some n \<longrightarrow> node_kind n = NodeKind_File d sz ex None \<longrightarrow> hex_ok (dg_hex d))"

inductive cache_use :: "'m lru_ops \<Rightarrow> digest \<Rightarrow> string \<Rightarrow> 'm blob_cache \<Rightarrow> 'm blob_cache \<Rightarrow> bool" for L d path where
  use_read: "vfs_read L io p i offset cnt s c = Some (c', r) \<Longrightarrow> read_ok io path \<Longrightarrow> file_blobs_ok s \<Longrightarrow>
    cache_use L d path c c'"
| use_put: "put_for L io key e data c = Some (c', r) \<Longrightarrow> hex_ok (dg_hex e) \<Longrightarrow> dg_hex e \<noteq> dg_hex d \<Longrightarrow> cache_use L d path c c'"
| use_commit: "commit_atomic sha256 L io e data c = Some (c', r) \<Longrightarrow> hex_ok (dg_hex e) \<Longrightarrow> dg_hex e \<noteq> dg_hex d \<Longrightarrow>
    cache_use L d path c c'"
| use_finalize: "writer_finalize L io w e c = Some (c', r) \<Longrightarrow> hex_ok (dg_hex e) \<Longrightarrow> dg_hex e \<noteq> dg_hex d \<Longrightarrow>
    cache_use L d path c c'"
| use_register: "cache_use L d path c (register_mount key rb hexes c)"
| use_unregister: "cache_use L d path c (unregister_mount key c)"
| use_add_owners: "cache_use L d path c (add_owners key hexes c)"
| use_prune: "prune L io tgt c = Some (c', r) \<Longrightarrow> cache_use L d path c c'"
| use_prune_blobs: "prune_blobs L io target c = Some (c', r) \<Longrightarrow> cache_use L d path c c'"
| use_set_max: "set_max_bytes L io new_max c = Some (c', r) \<Longrightarrow> cache_use L d path c c'"
| use_cleanup: "cleanup_orphan_temps io now older_than listing c = (c', r) \<Longrightarrow> tmp_listing_of c listing \<Longrightarrow>
    cache_use L d path c c'"

text \<open>A use after which the blob is still tracked.\<close>

definition tracked_use :: "'m lru_ops \<Rightarrow> digest \<Rightarrow> string \<Rightarrow> 'm blob_cache \<Rightarrow> 'm blob_cache \<Rightarrow> bool" where
  "tracked_use L d path c c' \<longleftrightarrow> cache_use L d path c c' \<and> contains L d c'"

context lru_index
begin

lemma vfs_read_keeps:
  assumes run: "vfs_read L io p i offset cnt s c = Some (c', r)" and inv: "cache_inv L c"
    and srv: "serves L d path data c" and rd: "read_ok io path" and blobs: "file_blobs_ok s"
  shows "cache_inv L c' \<and> keeps L (dg_hex d) c c'"
proof -
  have fetched: "cache_inv L c1 \<and> keeps L (dg_hex d) c c1"
    if F: "fetch_file_bytes L io p n c = Some (c1, q)" and n: "map_of (nodes s) i = Some n" for n c1 q
  proof (cases "\<exists>d' sz ex. node_kind n = NodeKind_File d' sz ex None")
    case False
    then have "c1 = c" using F by (auto simp: fetch_file_bytes_def split: node_kind.splits option.splits)
    then show ?thesis using inv by simp
  next
    case True
    then obtain d' sz ex where kind: "node_kind n = NodeKind_File d' sz ex None" by blast
    then have ok: "hex_ok (dg_hex d')" using blobs n unfolding file_blobs_ok_def by blast
    obtain c2 x where g: "blob_get L io d' c = (c2, Ok x)" using blob_get_result [OF ok] by blast
    have 2: "cache_inv L c2" "keeps L (dg_hex d) c c2" using cache_inv_get [OF g inv] keeps_get [OF g] by simp_all
    show ?thesis
    proof (cases "x = None \<and> (\<exists>data. fetch_blob p d' = Ok data)")
      case True
      then obtain data' where "fetch_blob p d' = Ok data'" by blast
      then obtain q' where put: "blob_put L io d' data' c2 = Some (c1, q')"
        using F kind g True by (auto simp: fetch_file_bytes_def)
      have "dg_hex d' \<noteq> dg_hex d" using serves_get [OF srv _ rd, of d'] g True by auto
      then have "keeps L (dg_hex d) c2 c1" by (rule keeps_put [OF put 2(1) ok])
      then show ?thesis using cache_inv_put [OF put ok 2(1)] keeps_trans [OF 2(2)] by blast
    next
      case False
      then have "c1 = c2" using F kind g by (cases x; cases "fetch_blob p d'") (auto simp: fetch_file_bytes_def)
      then show ?thesis using 2 by simp
    qed
  qed
  show ?thesis
    using run fetched inv by (auto simp: vfs_read_def split: option.splits)
qed

lemma cache_use_keeps:
  assumes "cache_use L d path c c'" "cache_inv L c" "serves L d path data c"
  shows "cache_inv L c' \<and> keeps L (dg_hex d) c c'"
  using assms
proof (cases rule: cache_use.cases)
  case (use_read io p i offset cnt s r)
  then show ?thesis using vfs_read_keeps assms(2,3) by blast
next
  case (use_put io key e data' r)
  then obtain c1 r1 where put: "blob_put L io e data' c = Some (c1, r1)"
    by (cases "blob_put L io e data' c") (auto simp: put_for_def)
  have "c' = c1 \<or> c' = add_owner key (dg_hex e) c1" using use_put(1) put by (cases r1) (auto simp: put_for_def)
  then have "keeps L (dg_hex d) c1 c'" by (auto intro: keeps_same simp: add_owner_def)
  then show ?thesis
    using keeps_trans [OF keeps_put [OF put assms(2) use_put(2,3)]] cache_inv_put_for [OF use_put(1,2) assms(2)] by blast
next
  case (use_prune io tgt r)
  then show ?thesis using cache_step_inv [OF step_prune assms(2)] keeps_prune assms(2) by blast
next
  case (use_prune_blobs io target r)
  then show ?thesis using cache_step_inv [OF step_prune_blobs assms(2)] keeps_prune_blobs assms(2) by blast
next
  case (use_set_max io new_max r)
  then show ?thesis using cache_step_inv [OF step_set_max assms(2)] keeps_set_max assms(2) by blast
next
  case (use_add_owners key hexes)
  have "keeps L (dg_hex d) c (add_owners key hexes c)" by (rule keeps_same) (simp_all add: add_owners_def)
  then show ?thesis using use_add_owners cache_inv_add_owners [OF assms(2)] by simp
qed (use assms(2) cache_inv_commit keeps_commit cache_inv_finalize keeps_finalize cache_inv_register cache_inv_unregister
    cache_inv_cleanup keeps_cleanup in \<open>auto intro!: keeps_same simp: register_frame unregister_frame\<close>)

lemma tracked_uses_serve:
  assumes "(tracked_use L d path)\<^sup>*\<^sup>* c c'" "cache_inv L c" "serves L d path data c"
  shows "cache_inv L c' \<and> serves L d path data c'"
  using assms
proof (induction rule: rtranclp_induct)
  case (step b c')
  then show ?case using cache_use_keeps [of d path b c' data] serves_keeps [of d path data b c'] by (auto simp: tracked_use_def)
qed simp

end

text \<open>
  C21. Reads go through the cache: after a read that fetched a blob, and through everything that mounts do
  with the cache afterwards (further reads of this and any other file, other blobs written, evictions,
  mounts and unmounts, pruning), as long as the blob stays tracked, every read of a file with this digest
  in any filesystem returns the same content (the slice it asks for), whatever the provider would then
  answer, and leaves the blob tracked and all files as they are; so the provider is asked once.
\<close>

theorem read_through_cache:
  assumes L: "linked_hash_map L" and inv: "cache_inv L c" and ok: "hex_ok (dg_hex d)"
    and node: "map_of (nodes s) i = Some n" "node_kind n = NodeKind_File d sz ex None"
    and miss: "snd (blob_get L io d c) = Ok None" and fetched: "fetch_blob p d = Ok data"
    and path: "blob_path c d = Some path" and writes: "mkdir_parent_error io path = None" "write_error io path = None"
  shows "\<exists>c1. vfs_read L io p i offset cnt s c = Some (c1, read_slice data offset cnt) \<and> cache_inv L c1 \<and>
     (\<forall>c2 io' p' i' n' sz' ex' offset' cnt' s'. contains L d c1 \<and> (tracked_use L d path)\<^sup>*\<^sup>* c1 c2 \<and> read_ok io' path
        \<and> map_of (nodes s') i' = Some n' \<and> node_kind n' = NodeKind_File d sz' ex' None \<longrightarrow>
        (\<exists>c3. vfs_read L io' p' i' offset' cnt' s' c2 = Some (c3, read_slice data offset' cnt')
           \<and> contains L d c3 \<and> disk c3 = disk c2))"
proof -
  obtain c0 where g: "blob_get L io d c = (c0, Ok None)"
    using lru_index.blob_get_result [OF lru_index_of [OF L] ok, where io = io and c = c] miss by fastforce
  have inv0: "cache_inv L c0" by (rule lru_index.cache_inv_get [OF lru_index_of [OF L] g inv])
  have root0: "cache_root c0 = cache_root c"
    using g by (auto simp: blob_get_def Let_def split: option.splits)
  have path0: "blob_path c0 d = Some path" using path blob_path_root [OF root0] by simp
  obtain c1 where T: "track_and_evict L io d (of_nat (length data)) (c0\<lparr> disk := (disk c0)(path \<mapsto> data) \<rparr>) = Some (c1, Ok ())"
    "cache_inv L c1" "cache_root c1 = cache_root c0"
    "dg_hex d \<in> fst ` set (lru_list L (state c1)) \<longrightarrow>
       map_of (lru_list L (state c1)) (dg_hex d) = Some \<lparr> entry_size = of_nat (length data), entry_algorithm = dg_algorithm d \<rparr>
       \<and> disk c1 path = Some data"
    using lru_index.write_and_track [OF lru_index_of [OF L] inv0 ok path0, where sz = "of_nat (length data)"
        and data = data and io = io] by metis
  have first: "vfs_read L io p i offset cnt s c = Some (c1, read_slice data offset cnt)"
    using node g fetched T(1) path0 writes by (simp add: vfs_read_def fetch_file_bytes_def blob_put_def)
  have "serves L d path data c1" if hit: "contains L d c1"
  proof -
    have m: "map_of (lru_list L (state c1)) (dg_hex d) = Some \<lparr> entry_size = of_nat (length data), entry_algorithm = dg_algorithm d \<rparr>"
      and stored: "disk c1 path = Some data"
      using T(4) hit unfolding lru_index.contains_entry [OF lru_index_of [OF L]] by force+
    have "blob_path c1 \<lparr> dg_algorithm = dg_algorithm d, dg_hex = dg_hex d \<rparr> = Some path"
      using path0 blob_path_root [OF T(3)] by (cases d) simp
    then show ?thesis using map_of_SomeD [OF m] stored by (auto simp: serves_def)
  qed
  then have "\<exists>c3. vfs_read L io' p' i' offset' cnt' s' c2 = Some (c3, read_slice data offset' cnt')
      \<and> contains L d c3 \<and> disk c3 = disk c2"
    if "contains L d c1" "(tracked_use L d path)\<^sup>*\<^sup>* c1 c2" "read_ok io' path"
      "map_of (nodes s') i' = Some n'" "node_kind n' = NodeKind_File d sz' ex' None"
    for c2 io' p' i' n' sz' ex' offset' cnt' s'
    using lru_index.serves_get [OF lru_index_of [OF L]
        lru_index.tracked_uses_serve [OF lru_index_of [OF L] that(2) T(2), THEN conjunct2] refl that(3)] that(1,4,5)
    by (fastforce simp: vfs_read_def fetch_file_bytes_def)
  then show ?thesis using first T(2) by blast
qed

end
