(* ===== verification/Vfs_Listing.thy ===== *)
theory Vfs_Listing
  imports Vfs_Correct
begin

text \<open>
  What a directory's first listing returns, what the provider's failures become, and the opening of a
  filesystem at a subpath, which is the same as walking there by lookups.
\<close>

section \<open>The first listing of a directory\<close>

fun entry_type :: "dir_entry \<Rightarrow> node_type" where
  "entry_type (DirEntry_File _) = NodeType_File"
| "entry_type (DirEntry_Directory _) = NodeType_Directory"
| "entry_type (DirEntry_Symlink _) = NodeType_Symlink"

lemma type_of_entry_node [simp]: "type_of_kind (node_kind (entry_to_node i d e)) = entry_type e"
  by (cases e) (simp_all add: entry_to_node_def type_of_kind_def)

text \<open>A child found after a load in a directory that was not loaded is the entry of that name.\<close>

lemma loaded_child:
  assumes inv: "vfs_inv s" and node: "map_of (nodes s) d = Some n" "node_kind n = NodeKind_Directory dg b"
    and fresh: "\<not> populated d s"
    and room: "unat (next_id s) + length (dir_entries dir) < 2 ^ 64"
    and load: "load_directory d dir s = (s', ids)"
    and names: "distinct (map dir_entry_name (dir_entries dir))" and e: "e \<in> set (dir_entries dir)"
    and i: "map_of (dir_cache s') (d, dir_entry_name e) = Some i"
  shows "map_of (nodes s') i = Some (entry_to_node i d e)" and "map_of (nodes s) i = None"
proof -
  note F = load_directory_facts [OF inv node room load]
  obtain m where m: "map_of (nodes s') i = Some m" "node_parent m = d" "node_name m = dir_entry_name e" "i \<noteq> ROOT_ID"
    using core_cache [OF F(1) i] by blast
  show old: "map_of (nodes s) i = None"
  proof (rule ccontr)
    assume "map_of (nodes s) i \<noteq> None"
    then obtain n0 where n0: "map_of (nodes s) i = Some n0" by blast
    from extends_node [OF load_directory_extends [OF inv node fresh room load] n0] m
    have "node_parent n0 = d" "node_name n0 = dir_entry_name e" by auto
    then have "map_of (dir_cache s) (d, dir_entry_name e) = Some i"
      using core_named [OF inv_core [OF inv] n0 m(4)] by simp
    then show False using inv_cache [OF inv] fresh by blast
  qed
  obtain e' where e': "e' \<in> set (dir_entries dir)" "m = entry_to_node i d e'" using F(7) [OF m(1) old] by blast
  then have "dir_entry_name e' = dir_entry_name e" using m(3) by simp
  then have "e' = e" using names e e'(1) by (auto simp: distinct_map dest: inj_onD)
  then show "map_of (nodes s') i = Some (entry_to_node i d e)" using m(1) e'(2) by simp
qed

lemma ensure_populated_load:
  assumes "map_of (nodes s) d = Some n" "node_kind n = NodeKind_Directory dg False"
    and "fetch_directory p dg = Ok data" "parse_dir data = Inl dir" and "load_directory d dir s = (s', ids)"
  shows "ensure_populated p parse_dir d s = (s', Ok ids)"
  using assms by (simp add: ensure_populated_def fetch_and_parse_def)

text \<open>
  C20. The first listing of a directory is the provider's directory: every entry, in its order, under its
  name and with its type, each with an inode number of its own that was not in use before.
\<close>

theorem readdir_lists_directory:
  assumes inv: "vfs_inv s" and room: "dir_room parse_dir s"
    and node: "map_of (nodes s) d = Some n" "node_kind n = NodeKind_Directory dg False"
    and data: "fetch_directory p dg = Ok data" "parse_dir data = Inl dir"
    and names: "distinct (map dir_entry_name (dir_entries dir))"
  shows "\<exists>s' es. vfs_readdir p parse_dir d s = (s', Ok es) \<and> vfs_inv s'
    \<and> map snd es = map (\<lambda>e. (dir_entry_name e, entry_type e)) (dir_entries dir)
    \<and> distinct (map fst es) \<and> fst ` set es \<inter> set (map fst (nodes s)) = {}"
proof -
  have fresh: "\<not> populated d s" using node by (simp add: populated_def)
  have len: "unat (next_id s) + length (dir_entries dir) < 2 ^ 64" using room data(2) unfolding dir_room_def by blast
  obtain s' ids where load: "load_directory d dir s = (s', ids)" by (cases "load_directory d dir s")
  note F = load_directory_facts [OF inv node len load]
  note C = loaded_child [OF inv node fresh len load names]
  have run: "ensure_populated p parse_dir d s = (s', Ok ids)" by (rule ensure_populated_load [where data = data]) fact+
  have lens: "length ids = length (dir_entries dir)" using arg_cong [OF F(3), of length] by simp
  have nth: "map_of (dir_cache s') (d, dir_entry_name (dir_entries dir ! k)) = Some (ids ! k)" if "k < length ids" for k
    using arg_cong [OF F(3), of "\<lambda>xs. xs ! k"] that lens by simp
  have row: "child_row s' (ids ! k) = Some (ids ! k, dir_entry_name (dir_entries dir ! k), entry_type (dir_entries dir ! k))"
    if "k < length ids" for k
    using C(1) [OF nth_mem nth [OF that]] that lens by simp
  let ?rows = "map (\<lambda>(i, e). (i, dir_entry_name e, entry_type e)) (zip ids (dir_entries dir))"
  have "map (child_row s') ids = map Some ?rows"
    by (rule nth_equalityI) (use lens row in simp_all)
  then have "List.map_filter (child_row s') ids = ?rows"
    by (rule map_filter_of_map_Some)
  then have es: "vfs_readdir p parse_dir d s = (s', Ok ?rows)" using readdir_rows [OF run] by simp
  have dist: "distinct ids"
    unfolding distinct_conv_nth
  proof (intro allI impI)
    fix j k assume jk: "j < length ids" "k < length ids" "j \<noteq> k"
    show "ids ! j \<noteq> ids ! k"
    proof
      assume "ids ! j = ids ! k"
      then have "dir_entry_name (dir_entries dir ! j) = dir_entry_name (dir_entries dir ! k)"
        using row [OF jk(1)] row [OF jk(2)] by simp
      then show False using names jk lens by (simp add: distinct_conv_nth)
    qed
  qed
  have new: "i \<notin> set (map fst (nodes s))" if i: "i \<in> set ids" for i
  proof -
    obtain k where k: "k < length ids" "i = ids ! k" using i by (auto simp: in_set_conv_nth)
    have "map_of (nodes s) i = None" using C(2) [OF nth_mem nth [OF k(1)]] k lens by simp
    then show ?thesis by (simp add: map_of_eq_None_iff)
  qed
  have "map snd ?rows = map (\<lambda>e. (dir_entry_name e, entry_type e)) (dir_entries dir)"
    by (rule nth_equalityI) (use lens in simp_all)
  moreover have "map fst ?rows = ids" by (rule nth_equalityI) (use lens in simp_all)
  moreover have "vfs_inv s'" by (rule load_directory_inv [OF inv node fresh len load])
  ultimately show ?thesis
    using es dist new by (intro exI [of _ s'] exI [of _ ?rows]) (auto simp flip: set_map)
qed

text \<open>
  Failures of the provider pass through unchanged: a lookup or listing that has to load the directory
  reports a rate limit with its delay and any other error as an I/O error with its message, malformed data
  likewise, and leaves the filesystem as it was, so a later attempt starts afresh.
\<close>

theorem provider_failure_passes_through:
  assumes "map_of (nodes s) d = Some n" "node_kind n = NodeKind_Directory dg False"
    and "map_of (dir_cache s) (d, nm) = None" "nm \<noteq> ''.''" "nm \<noteq> ''..''"
    and "case fetch_directory p dg of Ok data \<Rightarrow> parse_dir data = Inr msg | Err e \<Rightarrow> True | Panic \<Rightarrow> False"
  shows "let err = (case fetch_directory p dg of
             Err (RateLimited secs) \<Rightarrow> Vfs_RateLimited secs
           | Err e \<Rightarrow> Vfs_Io (''fetch_directory: '' @ error_display e)
           | _ \<Rightarrow> Vfs_Io (''parse directory: '' @ msg))
     in vfs_lookup p parse_dir d nm s = (s, Err err) \<and> vfs_readdir p parse_dir d s = (s, Err err)"
  using assms
  by (cases "fetch_directory p dg")
    (auto simp: vfs_lookup_def vfs_readdir_def ensure_populated_def fetch_and_parse_def provider_err_to_vfs_def
      split: ctxfs_error.split)

end
