(* ===== verification/Vfs_Subpath.thy ===== *)
theory Vfs_Subpath
  imports Vfs_Listing
begin

text \<open>
  Opening a filesystem at a subpath is the same as opening it at its root and walking there by lookups:
  the directory found is the same. This is the equivalence of \<open>resolve_subpath\<close>, which reads the
  provider's directories directly, with the lookups of the mounted filesystem.
\<close>

fun lookup_path ::
  "provider \<Rightarrow> dir_parser \<Rightarrow> string list \<Rightarrow> u64 \<Rightarrow> vfs \<Rightarrow> vfs \<times> u64 vfs_result" where
  "lookup_path p parse_dir [] i s = (s, Ok i)"
| "lookup_path p parse_dir (component # cs) i s =
     (case vfs_lookup p parse_dir i component s of
        (s1, Ok (j, _)) \<Rightarrow> lookup_path p parse_dir cs j s1
      | (s1, Err e) \<Rightarrow> (s1, Err e)
      | (s1, Panic) \<Rightarrow> (s1, Panic))"

definition directory_digest :: "vfs \<Rightarrow> u64 \<Rightarrow> digest option" where
  "directory_digest s i =
     (case map_option node_kind (map_of (nodes s) i) of Some (NodeKind_Directory d _) \<Rightarrow> Some d | _ \<Rightarrow> None)"

definition path_leads_to :: "provider \<Rightarrow> dir_parser \<Rightarrow> string list \<Rightarrow> u64 \<Rightarrow> vfs \<Rightarrow> digest \<Rightarrow> bool" where
  "path_leads_to p parse_dir cs i s d =
     (case lookup_path p parse_dir cs i s of (s1, Ok j) \<Rightarrow> directory_digest s1 j = Some d | _ \<Rightarrow> False)"

text \<open>What the walk relies on: names are unique in a directory, and directories are not huge.\<close>

definition directories_ok :: "dir_parser \<Rightarrow> bool" where
  "directories_ok parse_dir \<longleftrightarrow>
     (\<forall>data dir. parse_dir data = Inl dir \<longrightarrow>
        distinct (map dir_entry_name (dir_entries dir)) \<and> length (dir_entries dir) < 2 ^ 32)"

lemma directories_okD:
  "directories_ok parse_dir \<Longrightarrow> parse_dir data = Inl dir \<Longrightarrow>
     distinct (map dir_entry_name (dir_entries dir)) \<and> length (dir_entries dir) < 2 ^ 32"
  unfolding directories_ok_def by blast

lemma find_mem: "List.find P xs = Some x \<Longrightarrow> x \<in> set xs \<and> P x"
  by (induction xs) (auto split: if_splits)

lemma find_subdir_Some:
  assumes "find_subdir c dir = Some dg'"
  shows "\<exists>x. DirEntry_Directory x \<in> set (dir_entries dir) \<and> de_name x = c \<and> de_digest x = dg'"
proof -
  let ?P = "\<lambda>e. case e of DirEntry_Directory x \<Rightarrow> de_name x = c | _ \<Rightarrow> False"
  obtain e where f: "List.find ?P (dir_entries dir) = Some e"
    using assms unfolding find_subdir_def by (cases "List.find ?P (dir_entries dir)") simp_all
  then have e: "e \<in> set (dir_entries dir)" "?P e" using find_mem [OF f] by simp_all
  have "\<exists>x. e = DirEntry_Directory x" using e(2) by (simp split: dir_entry.splits)
  then obtain x where "e = DirEntry_Directory x" by blast
  then show ?thesis using e f assms unfolding find_subdir_def by auto
qed

lemma find_subdir_exists:
  assumes "distinct (map dir_entry_name (dir_entries dir))" "DirEntry_Directory x \<in> set (dir_entries dir)"
  shows "find_subdir (de_name x) dir = Some (de_digest x)"
proof (cases "find_subdir (de_name x) dir")
  case None
  let ?P = "\<lambda>e. case e of DirEntry_Directory y \<Rightarrow> de_name y = de_name x | _ \<Rightarrow> False"
  have "List.find ?P (dir_entries dir) \<noteq> None" using assms(2) by (auto simp: find_None_iff)
  then obtain e where e: "List.find ?P (dir_entries dir) = Some e" by blast
  then have "?P e" using find_mem [OF e] by simp
  then show ?thesis using None e by (auto simp: find_subdir_def split: dir_entry.splits)
next
  case (Some dg')
  then obtain y where y: "DirEntry_Directory y \<in> set (dir_entries dir)" "de_name y = de_name x" "de_digest y = dg'"
    using find_subdir_Some by blast
  have inj: "inj_on dir_entry_name (set (dir_entries dir))" using assms(1) by (simp add: distinct_map)
  have "DirEntry_Directory y = DirEntry_Directory x"
    by (rule inj_onD [OF inj _ y(1) assms(2)]) (simp add: y(2))
  then show ?thesis using Some y by simp
qed

lemma fetch_and_parse_Ok:
  "fetch_and_parse p parse_dir a b d = Ok dir \<longleftrightarrow> (\<exists>data. fetch_directory p d = Ok data \<and> parse_dir data = Inl dir)"
  by (auto simp: fetch_and_parse_def split: outcome.splits sum.splits)

text \<open>One component, from a directory that is not loaded yet.\<close>

lemma lookup_component:
  assumes inv: "vfs_inv s" and node: "map_of (nodes s) i = Some n" "node_kind n = NodeKind_Directory dg False"
    and data: "fetch_directory p dg = Ok data" "parse_dir data = Inl dir" and ok: "directories_ok parse_dir"
    and room: "unat (next_id s) + 2 ^ 32 < 2 ^ 64" and nm: "c \<noteq> ''.''" "c \<noteq> ''..''"
    and e: "e \<in> set (dir_entries dir)" "dir_entry_name e = c"
  shows "\<exists>s1 j a. vfs_lookup p parse_dir i c s = (s1, Ok (j, a)) \<and> vfs_inv s1
    \<and> map_of (nodes s1) j = Some (entry_to_node j i e) \<and> unat (next_id s1) \<le> unat (next_id s) + 2 ^ 32"
proof -
  have fresh: "\<not> populated i s" using node by (simp add: populated_def)
  have names: "distinct (map dir_entry_name (dir_entries dir))" and small: "length (dir_entries dir) < 2 ^ 32"
    using directories_okD [OF ok data(2)] by blast+
  have len: "unat (next_id s) + length (dir_entries dir) < 2 ^ 64" using small room by simp
  obtain s1 ids where load: "load_directory i dir s = (s1, ids)" by (cases "load_directory i dir s")
  note F = load_directory_facts [OF inv node len load]
  have run: "ensure_populated p parse_dir i s = (s1, Ok ids)"
    by (rule ensure_populated_load [where data = data]) fact+
  obtain j where j: "map_of (dir_cache s1) (i, c) = Some j"
  proof -
    obtain k where k: "k < length (dir_entries dir)" "e = dir_entries dir ! k" using e(1) by (auto simp: in_set_conv_nth)
    have lens: "length ids = length (dir_entries dir)" using arg_cong [OF F(3), of length] by simp
    have "map_of (dir_cache s1) (i, dir_entry_name e) = Some (ids ! k)"
      using arg_cong [OF F(3), of "\<lambda>xs. xs ! k"] k lens by simp
    then show ?thesis using that e(2) by simp
  qed
  have node_j: "map_of (nodes s1) j = Some (entry_to_node j i e)"
    using loaded_child(1) [OF inv node fresh len load names e(1)] j e(2) by simp
  have none: "map_of (dir_cache s) (i, c) = None"
    using inv_cache [OF inv, of i c] fresh by (cases "map_of (dir_cache s) (i, c)") auto
  obtain s0 where a: "add_children i (dir_entries dir) s = (s0, ids)" and "next_id s1 = next_id s0"
    using load by (auto simp: load_directory_def Let_def split: prod.splits)
  then have bound: "unat (next_id s1) \<le> unat (next_id s) + length (dir_entries dir)"
    using add_children_core [OF inv_core [OF inv] len a] by simp
  have "vfs_lookup p parse_dir i c s = (s1, Ok (j, node_to_attr (entry_to_node j i e)))"
    using nm none run j node_j by (simp add: vfs_lookup_def node_answer_def get_node_def)
  then show ?thesis using load_directory_inv [OF inv node fresh len load] node_j bound small by auto
qed

lemma lookup_component_missing:
  assumes inv: "vfs_inv s" and node: "map_of (nodes s) i = Some n" "node_kind n = NodeKind_Directory dg False"
    and data: "fetch_directory p dg = Ok data" "parse_dir data = Inl dir" and ok: "directories_ok parse_dir"
    and room: "unat (next_id s) + 2 ^ 32 < 2 ^ 64" and nm: "c \<noteq> ''.''" "c \<noteq> ''..''"
    and e: "c \<notin> dir_entry_name ` set (dir_entries dir)"
  shows "\<exists>s1. vfs_lookup p parse_dir i c s = (s1, Err Vfs_NotFound)"
proof -
  have fresh: "\<not> populated i s" using node by (simp add: populated_def)
  have len: "unat (next_id s) + length (dir_entries dir) < 2 ^ 64" using directories_okD [OF ok data(2)] room by simp
  obtain s1 ids where load: "load_directory i dir s = (s1, ids)" by (cases "load_directory i dir s")
  note F = load_directory_facts [OF inv node len load]
  have run: "ensure_populated p parse_dir i s = (s1, Ok ids)"
    by (rule ensure_populated_load [where data = data]) fact+
  have none: "map_of (dir_cache s) (i, c) = None"
    using inv_cache [OF inv, of i c] fresh by (cases "map_of (dir_cache s) (i, c)") auto
  then have "map_of (dir_cache s1) (i, c) = None" using F(4) e by simp
  then show ?thesis using nm none run by (simp add: vfs_lookup_def)
qed


lemma not_dir_no_subdir:
  assumes "distinct (map dir_entry_name (dir_entries dir))" "e \<in> set (dir_entries dir)" "dir_entry_name e = c"
    and "case e of DirEntry_Directory _ \<Rightarrow> False | _ \<Rightarrow> True"
  shows "find_subdir c dir = None"
proof (rule ccontr)
  assume "find_subdir c dir \<noteq> None"
  then obtain x where x: "DirEntry_Directory x \<in> set (dir_entries dir)" "de_name x = c"
    using find_subdir_Some by blast
  have inj: "inj_on dir_entry_name (set (dir_entries dir))" using assms(1) by (simp add: distinct_map)
  have "DirEntry_Directory x = e" by (rule inj_onD [OF inj _ x(1) assms(2)]) (simp add: x(2) assms(3))
  then show False using assms(4) by auto
qed

lemma not_dir_no_path:
  assumes inv: "vfs_inv s" and node: "map_of (nodes s) j = Some n" "\<And>d b. node_kind n \<noteq> NodeKind_Directory d b"
    and comps: "''.'' \<notin> set cs" "''..'' \<notin> set cs"
  shows "\<not> path_leads_to p parse_dir cs j s d"
proof (cases cs)
  case Nil
  then show ?thesis using node by (auto simp: path_leads_to_def directory_digest_def split: node_kind.splits)
next
  case (Cons c rest)
  have "map_of (dir_cache s) (j, c) = None"
    using inv_cache [OF inv, of j c] node by (cases "map_of (dir_cache s) (j, c)") (auto simp: populated_def)
  moreover have "ensure_populated p parse_dir j s = (s, Err Vfs_NotDir)"
    using node by (auto simp: ensure_populated_def split: node_kind.splits)
  moreover have "c \<noteq> ''.''" "c \<noteq> ''..''" using comps Cons by auto
  ultimately show ?thesis using Cons by (simp add: path_leads_to_def vfs_lookup_def)
qed

lemma walk_agrees:
  assumes ok: "directories_ok parse_dir"
  shows "vfs_inv s \<Longrightarrow> map_of (nodes s) i = Some n \<Longrightarrow> node_kind n = NodeKind_Directory dg False \<Longrightarrow>
    unat (next_id s) + 2 ^ 32 * length cs < 2 ^ 64 \<Longrightarrow> ''.'' \<notin> set cs \<Longrightarrow> ''..'' \<notin> set cs \<Longrightarrow>
    walk_subpath p parse_dir cs dg = Ok d \<longleftrightarrow> path_leads_to p parse_dir cs i s d"
proof (induction cs arbitrary: s i n dg)
  case Nil
  then show ?case by (auto simp: path_leads_to_def directory_digest_def)
next
  case (Cons c cs)
  let ?f = "\<lambda>a b. fetch_and_parse p parse_dir a b dg"
  have none: "map_of (dir_cache s) (i, c) = None"
    using inv_cache [OF Cons.prems(1), of i c] Cons.prems(2,3)
    by (cases "map_of (dir_cache s) (i, c)") (auto simp: populated_def)
  have nm: "c \<noteq> ''.''" "c \<noteq> ''..''" using Cons.prems(5,6) by auto
  show ?case
  proof (cases "\<exists>data dir. fetch_directory p dg = Ok data \<and> parse_dir data = Inl dir")
    case False
    then have bad: "?f a b \<noteq> Ok dir" for a b dir by (auto simp: fetch_and_parse_Ok)
    have "walk_subpath p parse_dir (c # cs) dg \<noteq> Ok d" using bad by (auto simp: obind_eq_Ok)
    moreover have "\<not> path_leads_to p parse_dir (c # cs) i s d"
      using bad [of "''fetch_directory''" "''parse directory''"] nm none Cons.prems(2,3)
      by (cases "?f ''fetch_directory'' ''parse directory''")
        (auto simp: path_leads_to_def vfs_lookup_def ensure_populated_def)
    ultimately show ?thesis by simp
  next
    case True
    then obtain data dir where data: "fetch_directory p dg = Ok data" "parse_dir data = Inl dir" by blast
    then have parsed: "?f a b = Ok dir" for a b by (auto simp: fetch_and_parse_Ok)
    have room: "unat (next_id s) + 2 ^ 32 < 2 ^ 64" using Cons.prems(4) by simp
    note C = lookup_component [OF Cons.prems(1-3) data ok room nm]
    note M = lookup_component_missing [OF Cons.prems(1-3) data ok room nm]
    have names: "distinct (map dir_entry_name (dir_entries dir))" using directories_okD [OF ok data(2)] by blast
    show ?thesis
    proof (cases "c \<in> dir_entry_name ` set (dir_entries dir)")
      case False
      then have "find_subdir c dir = None" using find_subdir_Some by (cases "find_subdir c dir") force+
      then show ?thesis using M [OF False] parsed by (auto simp: path_leads_to_def)
    next
      case True
      then obtain e where e: "e \<in> set (dir_entries dir)" "dir_entry_name e = c" by blast
      obtain s1 j a where L: "vfs_lookup p parse_dir i c s = (s1, Ok (j, a))" "vfs_inv s1"
        "map_of (nodes s1) j = Some (entry_to_node j i e)" "unat (next_id s1) \<le> unat (next_id s) + 2 ^ 32"
        using C [OF e] by blast
      have step: "path_leads_to p parse_dir (c # cs) i s d \<longleftrightarrow> path_leads_to p parse_dir cs j s1 d"
        using L(1) by (simp add: path_leads_to_def)
      show ?thesis
      proof (cases e)
        case (DirEntry_Directory x)
        have "find_subdir c dir = Some (de_digest x)"
          using find_subdir_exists [OF names] e DirEntry_Directory by auto
        then have "walk_subpath p parse_dir (c # cs) dg = walk_subpath p parse_dir cs (de_digest x)" using parsed by simp
        moreover have "node_kind (entry_to_node j i e) = NodeKind_Directory (de_digest x) False"
          by (simp add: entry_to_node_def DirEntry_Directory)
        then have "walk_subpath p parse_dir cs (de_digest x) = Ok d \<longleftrightarrow> path_leads_to p parse_dir cs j s1 d"
          using Cons.IH [OF L(2,3)] L(4) Cons.prems(4-6) by simp
        ultimately show ?thesis using step by simp
      next
        case other: (DirEntry_File f)
        have "find_subdir c dir = None" by (rule not_dir_no_subdir [OF names e]) (simp add: other)
        then show ?thesis using step not_dir_no_path [OF L(2,3), of cs p parse_dir d] parsed other Cons.prems(5,6)
          by (simp add: entry_to_node_def)
      next
        case other: (DirEntry_Symlink l)
        have "find_subdir c dir = None" by (rule not_dir_no_subdir [OF names e]) (simp add: other)
        then show ?thesis using step not_dir_no_path [OF L(2,3), of cs p parse_dir d] parsed other Cons.prems(5,6)
          by (simp add: entry_to_node_def)
      qed
    qed
  qed
qed

text \<open>
  C10. A filesystem opened at a subpath has as its root exactly the directory that looking its components
  up one after the other finds in the filesystem opened without it; it cannot be opened when that walk
  does not end at a directory. Components \<open>.\<close> and \<open>..\<close> are excluded: the subpath takes them for names.
\<close>

theorem subpath_is_lookup_walk:
  assumes ok: "directories_ok parse_dir" and comps: "''.'' \<notin> set (subpath_components sp)" "''..'' \<notin> set (subpath_components sp)"
    and short: "length (subpath_components sp) < 2 ^ 31"
    and whole: "vfs_new p parse_dir snap None = Ok s"
  shows "(\<exists>s'. vfs_new p parse_dir snap (Some sp) = Ok s' \<and> directory_digest s' ROOT_ID = Some d)
    \<longleftrightarrow> path_leads_to p parse_dir (subpath_components sp) ROOT_ID s d"
proof -
  have inv: "vfs_inv s" by (rule vfs_new_inv [OF whole])
  have s: "next_id s = 2" "map_of (nodes s) ROOT_ID = Some \<lparr> node_id = ROOT_ID, node_parent = ROOT_ID, node_name = ''/'',
      node_kind = NodeKind_Directory (root_directory snap) False \<rparr>"
    using whole by (auto simp: vfs_new_def)
  have "walk_subpath p parse_dir (subpath_components sp) (root_directory snap) = Ok d
      \<longleftrightarrow> path_leads_to p parse_dir (subpath_components sp) ROOT_ID s d"
    by (rule walk_agrees [OF ok inv s(2)]) (use s(1) short comps in simp_all)
  moreover have "(\<exists>s'. vfs_new p parse_dir snap (Some sp) = Ok s' \<and> directory_digest s' ROOT_ID = Some d)
      \<longleftrightarrow> walk_subpath p parse_dir (subpath_components sp) (root_directory snap) = Ok d"
    by (auto simp: vfs_new_def resolve_subpath_def get_node_def update_kind_def directory_digest_def omap_eq_Ok)
  ultimately show ?thesis by simp
qed

end
