(* ===== verification/Vfs_Witness.thy ===== *)
theory Vfs_Witness
  imports Vfs_Read Vfs_Subpath
begin

text \<open>
  A concrete mount: two directories, a file kept inline, a file behind the cache and a symlink. The
  filesystem's properties are applied to it, each with its hypotheses discharged.
\<close>

section \<open>The mount\<close>

definition demo_parse :: dir_parser where
  "demo_parse data =
     (if data = ''root'' then Inl \<lparr> dir_digest = from_sha1_hex ''root'', dir_entries =
        [DirEntry_Directory \<lparr> de_name = ''src'', de_digest = from_sha1_hex ''sub'' \<rparr>,
         DirEntry_File \<lparr> fe_name = ''a'', fe_digest = from_sha1_hex ''cc0'', fe_size = 3, fe_executable = False,
           fe_inline_content = None \<rparr>] \<rparr>
      else if data = ''sub'' then Inl \<lparr> dir_digest = from_sha1_hex ''sub'', dir_entries =
        [DirEntry_Symlink \<lparr> se_name = ''ln'', se_target = ''../a'' \<rparr>] \<rparr>
      else Inr ''expected value'')"

text \<open>Directories come back as their hash, blobs as three bytes.\<close>

definition demo_provider :: provider where
  "demo_provider = \<lparr> fetch_directory = (\<lambda>d. Ok (dg_hex d)), fetch_blob = (\<lambda>d. Ok ''ccc'') \<rparr>"

definition broken_provider :: provider where
  "broken_provider = \<lparr> fetch_directory = (\<lambda>d. Err (RateLimited 7)), fetch_blob = (\<lambda>d. Err (Provider ''down'')) \<rparr>"

definition demo_snapshot :: snapshot where
  "demo_snapshot = \<lparr> snap_source = ''github:o/r'', snap_commit_sha = ''c0'', root_directory = from_sha1_hex ''root'', created_at = [] \<rparr>"

definition demo_vfs :: vfs where
  "demo_vfs = \<lparr> next_id = 2, nodes = [(1, \<lparr> node_id = 1, node_parent = 1, node_name = ''/'',
     node_kind = NodeKind_Directory (from_sha1_hex ''root'') False \<rparr>)], dir_cache = [], dir_children = [] \<rparr>"

lemma demo_new: "vfs_new demo_provider demo_parse demo_snapshot None = Ok demo_vfs"
  by (simp add: vfs_new_def demo_snapshot_def demo_vfs_def)

lemma demo_vfs_inv: "vfs_inv demo_vfs"
  by (rule vfs_new_inv [OF demo_new])

lemma demo_parsed: "demo_parse data = Inl dir \<Longrightarrow> length (dir_entries dir) \<le> 2 \<and> distinct (map dir_entry_name (dir_entries dir))"
  by (auto simp: demo_parse_def split: if_splits)

lemma demo_room: "unat (next_id s) < 2 ^ 63 \<Longrightarrow> dir_room demo_parse s"
  unfolding dir_room_def using demo_parsed by fastforce

lemma demo_directories_ok: "directories_ok demo_parse"
  unfolding directories_ok_def using demo_parsed by fastforce

text \<open>After listing the root, and after looking a name up in the directory below it.\<close>

abbreviation "demo_listed \<equiv> fst (vfs_readdir demo_provider demo_parse 1 demo_vfs)"
abbreviation "demo_walked \<equiv> fst (vfs_lookup demo_provider demo_parse 2 ''ln'' demo_listed)"

abbreviation demo_rows :: "(u64 \<times> string \<times> node_type) list" where
  "demo_rows \<equiv> [(2, ''src'', NodeType_Directory), (3, ''a'', NodeType_File)]"

lemma demo_readdir: "vfs_readdir demo_provider demo_parse 1 demo_vfs = (demo_listed, Ok demo_rows)"
proof -
  have "snd (vfs_readdir demo_provider demo_parse 1 demo_vfs) = Ok demo_rows" by code_simp
  then show ?thesis by (simp add: prod_eq_iff)
qed

lemma demo_ids: "next_id demo_vfs = 2" "next_id demo_listed = 4"
  by code_simp+

lemma demo_step1: "vfs_step demo_parse demo_vfs demo_listed"
  by (rule step_readdir [OF demo_room demo_readdir]) (simp add: demo_ids)

lemma demo_step2: "vfs_step demo_parse demo_listed demo_walked"
  by (rule step_lookup [OF demo_room surjective_pairing]) (simp add: demo_ids)

section \<open>The properties on it\<close>

theorem inode_numbers_stable_witness:
  "vfs_inv demo_listed \<and> vfs_inv demo_walked \<and> vfs_extends demo_listed demo_walked"
proof (rule inode_numbers_stable [OF demo_new])
  show "(vfs_step demo_parse)\<^sup>*\<^sup>* demo_vfs demo_listed" by (rule r_into_rtranclp) (rule demo_step1)
  show "(vfs_step demo_parse)\<^sup>*\<^sup>* demo_listed demo_walked" by (rule r_into_rtranclp) (rule demo_step2)
qed

theorem readdir_stable_witness:
  "vfs_readdir broken_provider demo_parse 1 demo_walked = (demo_walked, Ok demo_rows)"
proof (rule readdir_stable [OF demo_vfs_inv demo_room demo_readdir])
  show "unat (next_id demo_vfs) < 2 ^ 63" by (simp add: demo_ids)
  show "(vfs_step demo_parse)\<^sup>*\<^sup>* demo_listed demo_walked" by (rule r_into_rtranclp) (rule demo_step2)
qed

theorem lookup_agrees_with_readdir_witness:
  "case vfs_lookup broken_provider demo_parse 1 ''a'' demo_listed of
     (s2, Ok (i, a)) \<Rightarrow> s2 = demo_listed \<and> (i, ''a'', na_kind a) \<in> set demo_rows \<and> na_inode a = i \<and> na_parent_inode a = 1
   | (s2, Err e) \<Rightarrow> s2 = demo_listed \<and> e = Vfs_NotFound \<and> ''a'' \<notin> (\<lambda>(i, n, k). n) ` set demo_rows
   | (s2, Panic) \<Rightarrow> False"
  by (rule lookup_agrees_with_readdir [OF demo_vfs_inv demo_room demo_readdir]) (simp_all add: demo_ids)

theorem readdir_lists_directory_witness:
  "\<exists>s' es. vfs_readdir demo_provider demo_parse 1 demo_vfs = (s', Ok es) \<and> vfs_inv s'
     \<and> map snd es = [(''src'', NodeType_Directory), (''a'', NodeType_File)]
     \<and> distinct (map fst es) \<and> fst ` set es \<inter> {1} = {}"
proof -
  let ?n = "\<lparr> node_id = 1, node_parent = 1, node_name = ''/'', node_kind = NodeKind_Directory (from_sha1_hex ''root'') False \<rparr> :: node"
  obtain dir where dir: "demo_parse ''root'' = Inl dir" "distinct (map dir_entry_name (dir_entries dir))"
    "map (\<lambda>e. (dir_entry_name e, entry_type e)) (dir_entries dir) = [(''src'', NodeType_Directory), (''a'', NodeType_File)]"
    by (simp add: demo_parse_def)
  have "map_of (nodes demo_vfs) 1 = Some ?n" "map fst (nodes demo_vfs) = [1]" by (simp_all add: demo_vfs_def)
  moreover have "fetch_directory demo_provider (from_sha1_hex ''root'') = Ok ''root''"
    by (simp add: demo_provider_def from_sha1_hex_def)
  ultimately show ?thesis
    using readdir_lists_directory [OF demo_vfs_inv demo_room _ _ _ dir(1,2), of 1 ?n "from_sha1_hex ''root''" demo_provider] dir(3)
    by (simp add: demo_ids)
qed

theorem provider_failure_passes_through_witness:
  "vfs_lookup broken_provider demo_parse 1 ''a'' demo_vfs = (demo_vfs, Err (Vfs_RateLimited 7))
   \<and> vfs_readdir broken_provider demo_parse 1 demo_vfs = (demo_vfs, Err (Vfs_RateLimited 7))"
proof -
  let ?n = "\<lparr> node_id = 1, node_parent = 1, node_name = ''/'', node_kind = NodeKind_Directory (from_sha1_hex ''root'') False \<rparr> :: node"
  have "map_of (nodes demo_vfs) 1 = Some ?n" "map_of (dir_cache demo_vfs) (1, ''a'') = None" by (simp_all add: demo_vfs_def)
  then show ?thesis
    using provider_failure_passes_through [where s = demo_vfs and d = 1 and n = ?n and dg = "from_sha1_hex ''root''"
        and nm = "''a''" and p = broken_provider and parse_dir = demo_parse]
    by (simp add: broken_provider_def Let_def)
qed

theorem subpath_is_lookup_walk_witness:
  "\<exists>s'. vfs_new demo_provider demo_parse demo_snapshot (Some ''/src/'') = Ok s'
     \<and> directory_digest s' ROOT_ID = Some (from_sha1_hex ''sub'')"
proof -
  have "path_leads_to demo_provider demo_parse (subpath_components ''/src/'') ROOT_ID demo_vfs (from_sha1_hex ''sub'')"
    by code_simp
  moreover have "subpath_components ''/src/'' = [''src'']" by code_simp
  ultimately show ?thesis
    using subpath_is_lookup_walk [OF demo_directories_ok _ _ _ demo_new, of "''/src/''" "from_sha1_hex ''sub''"] by simp
qed

section \<open>Reading a file of it\<close>

definition demo_file_node :: node where
  "demo_file_node = \<lparr> node_id = 3, node_parent = 1, node_name = ''a'',
     node_kind = NodeKind_File (from_sha1_hex ''cc0'') 3 False None \<rparr>"

lemma demo_file: "map_of (nodes demo_listed) 3 = Some demo_file_node"
  "node_kind demo_file_node = NodeKind_File (from_sha1_hex ''cc0'') 3 False None"
  by code_simp (simp add: demo_file_node_def)

theorem read_slice_exact_witness: "read_slice ''abc'' (2 ^ 64 - 1) 2 = Panic"
  using read_slice_exact [of "''abc''" "2 ^ 64 - 1" 2] by simp

lemma demo_hex: "hex_ok (dg_hex (from_sha1_hex ''cc0''))"
  by code_simp

theorem vfs_read_returns_witness:
  "\<exists>c' r. vfs_read list_lhm good_io demo_provider 3 1 5 demo_listed demo_cache = Some (c', r)
     \<and> cache_inv list_lhm c' \<and> r = Ok ''cc''"
proof -
  have "fetch_blob demo_provider (from_sha1_hex ''cc0'') \<noteq> Panic" by (simp add: demo_provider_def)
  note R = vfs_read_returns [OF linked_hash_map_list demo_inv demo_hex demo_file this, where io = good_io and offset = 1 and cnt = 5]
  have "snd (blob_get list_lhm good_io (from_sha1_hex ''cc0'') demo_cache) = Ok None" by code_simp
  moreover have "read_slice ''ccc'' 1 5 = Ok ''cc''" by code_simp
  ultimately show ?thesis using R by (auto simp: demo_provider_def)
qed

lemma demo_blobs_ok: "file_blobs_ok demo_listed"
proof -
  have "list_all (\<lambda>q. case node_kind (snd q) of NodeKind_File d _ _ None \<Rightarrow> hex_ok (dg_hex d) | _ \<Rightarrow> True) (nodes demo_listed)"
    by code_simp
  then show ?thesis unfolding file_blobs_ok_def list_all_iff by (fastforce dest: map_of_SomeD)
qed

text \<open>One read with the provider, a second one without it, and after it a third.\<close>

theorem read_through_cache_witness:
  "\<exists>c1 c2 c3. vfs_read list_lhm good_io demo_provider 3 0 2 demo_listed demo_cache = Some (c1, Ok ''cc'')
     \<and> vfs_read list_lhm good_io broken_provider 3 1 5 demo_listed c1 = Some (c2, Ok ''cc'')
     \<and> vfs_read list_lhm good_io broken_provider 3 0 9 demo_listed c2 = Some (c3, Ok ''ccc'')"
proof -
  let ?d = "from_sha1_hex ''cc0''" and ?path = "''/c/sha1/cc/0''"
  have miss: "snd (blob_get list_lhm good_io ?d demo_cache) = Ok None" by code_simp
  have path: "blob_path demo_cache ?d = Some ?path" by code_simp
  have fetched: "fetch_blob demo_provider ?d = Ok ''ccc''" by (simp add: demo_provider_def)
  have slices: "read_slice ''ccc'' 0 2 = Ok ''cc''" "read_slice ''ccc'' 1 5 = Ok ''cc''" "read_slice ''ccc'' 0 9 = Ok ''ccc''"
    by code_simp+
  have io: "mkdir_parent_error good_io ?path = None" "write_error good_io ?path = None" "read_ok good_io ?path"
    by (simp_all add: good_io_def)
  obtain c1 where c1: "vfs_read list_lhm good_io demo_provider 3 0 2 demo_listed demo_cache = Some (c1, read_slice ''ccc'' 0 2)"
    and later: "\<forall>c2 io' p' i' n' sz' ex' offset' cnt' s'. contains list_lhm ?d c1 \<and> (tracked_use list_lhm ?d ?path)\<^sup>*\<^sup>* c1 c2
        \<and> read_ok io' ?path \<and> map_of (nodes s') i' = Some n' \<and> node_kind n' = NodeKind_File ?d sz' ex' None \<longrightarrow>
        (\<exists>c3. vfs_read list_lhm io' p' i' offset' cnt' s' c2 = Some (c3, read_slice ''ccc'' offset' cnt')
           \<and> contains list_lhm ?d c3 \<and> disk c3 = disk c2)"
    using read_through_cache [OF linked_hash_map_list demo_inv demo_hex demo_file miss fetched path io(1,2),
        where offset = 0 and cnt = 2] by blast
  have "case vfs_read list_lhm good_io demo_provider 3 0 2 demo_listed demo_cache of None \<Rightarrow> False
     | Some (c', r) \<Rightarrow> contains list_lhm ?d c'"
    by code_simp
  then have hit: "contains list_lhm ?d c1" using c1 by simp
  obtain c2 where c2: "vfs_read list_lhm good_io broken_provider 3 1 5 demo_listed c1 = Some (c2, Ok ''cc'')"
    "contains list_lhm ?d c2"
    using later [rule_format, OF conjI [OF hit conjI [OF rtranclp.rtrancl_refl conjI [OF io(3) conjI [OF demo_file]]]],
        of broken_provider 1 5] unfolding slices by blast
  have "tracked_use list_lhm ?d ?path c1 c2"
    using use_read [OF c2(1) io(3) demo_blobs_ok] c2(2) by (simp add: tracked_use_def)
  then obtain c3 where "vfs_read list_lhm good_io broken_provider 3 0 9 demo_listed c2 = Some (c3, Ok ''ccc'')"
    using later [rule_format, OF conjI [OF hit conjI [OF r_into_rtranclp conjI [OF io(3) conjI [OF demo_file]]]],
        of c2 broken_provider 0 9] unfolding slices by blast
  then show ?thesis using c1 [unfolded slices] c2(1) by blast
qed

end
