(* ===== verification/Utf8.thy ===== *)
theory Utf8
  imports Prelude
begin

text \<open>
  \<open>std::str::from_utf8\<close>: which byte strings are UTF-8 (shortest forms only, no surrogates, nothing
  past U+10FFFF), as the standard library checks them.
\<close>

definition cont_byte :: "char \<Rightarrow> bool" where
  "cont_byte c \<longleftrightarrow> 128 \<le> (of_char c :: nat) \<and> (of_char c :: nat) < 192"

definition in_bytes :: "nat \<Rightarrow> nat \<Rightarrow> char \<Rightarrow> bool" where
  "in_bytes lo hi c \<longleftrightarrow> lo \<le> (of_char c :: nat) \<and> (of_char c :: nat) \<le> hi"

text \<open>The range the second byte must be in, by the first.\<close>

definition second_ok :: "char \<Rightarrow> char \<Rightarrow> bool" where
  "second_ok a b =
     (let n = (of_char a :: nat) in
      if n = 224 then in_bytes 160 191 b
      else if n = 237 then in_bytes 128 159 b
      else if n = 240 then in_bytes 144 191 b
      else if n = 244 then in_bytes 128 143 b
      else cont_byte b)"

fun utf8_ok :: "string \<Rightarrow> bool" where
  "utf8_ok [] = True"
| "utf8_ok (a # s) =
     (if (of_char a :: nat) < 128 then utf8_ok s
      else (case s of
          [] \<Rightarrow> False
        | b # t \<Rightarrow>
            if in_bytes 194 223 a then cont_byte b \<and> utf8_ok t
            else (case t of
                [] \<Rightarrow> False
              | c # u \<Rightarrow>
                  if in_bytes 224 239 a then second_ok a b \<and> cont_byte c \<and> utf8_ok u
                  else (case u of
                      [] \<Rightarrow> False
                    | d # v \<Rightarrow> in_bytes 240 244 a \<and> second_ok a b \<and> cont_byte c \<and> cont_byte d \<and> utf8_ok v))))"

text \<open>
  Where the check fails (\<open>Utf8Error\<close>): the length of the valid part, and that of the bad sequence, which
  is none when the string ends inside one. The first argument counts the bytes read so far.
\<close>

fun utf8_error :: "nat \<Rightarrow> string \<Rightarrow> (nat \<times> nat option) option" where
  "utf8_error i [] = None"
| "utf8_error i (a # s) =
     (if (of_char a :: nat) < 128 then utf8_error (i + 1) s
      else if in_bytes 194 223 a then
        (case s of
           [] \<Rightarrow> Some (i, None)
         | b # t \<Rightarrow> if cont_byte b then utf8_error (i + 2) t else Some (i, Some 1))
      else if in_bytes 224 239 a then
        (case s of
           [] \<Rightarrow> Some (i, None)
         | b # t \<Rightarrow>
             if \<not> second_ok a b then Some (i, Some 1)
             else (case t of
                 [] \<Rightarrow> Some (i, None)
               | c # u \<Rightarrow> if cont_byte c then utf8_error (i + 3) u else Some (i, Some 2)))
      else if in_bytes 240 244 a then
        (case s of
           [] \<Rightarrow> Some (i, None)
         | b # t \<Rightarrow>
             if \<not> second_ok a b then Some (i, Some 1)
             else (case t of
                 [] \<Rightarrow> Some (i, None)
               | c # u \<Rightarrow>
                   if \<not> cont_byte c then Some (i, Some 2)
                   else (case u of
                       [] \<Rightarrow> Some (i, None)
                     | d # v \<Rightarrow> if cont_byte d then utf8_error (i + 4) v else Some (i, Some 3))))
      else Some (i, Some 1))"

fun utf8_error_display :: "nat \<times> nat option \<Rightarrow> string" where
  "utf8_error_display (i, Some n) = ''invalid utf-8 sequence of '' @ show_nat n @ '' bytes from index '' @ show_nat i"
| "utf8_error_display (i, None) = ''incomplete utf-8 byte sequence from index '' @ show_nat i"

lemma in_bytes_disjoint: "in_bytes lo hi c \<Longrightarrow> hi < lo' \<Longrightarrow> \<not> in_bytes lo' hi' c"
  by (simp add: in_bytes_def)

lemma utf8_error_ok: "utf8_error i s = None \<longleftrightarrow> utf8_ok s"
proof (induction i s rule: utf8_error.induct)
  case (2 i a s)
  then show ?case
    using in_bytes_disjoint [of 194 223 a 224 239] in_bytes_disjoint [of 224 239 a 240 244]
    by (auto split: list.split)
qed simp

lemma utf8_ok_ascii: "list_all (\<lambda>c. (of_char c :: nat) < 128) s \<Longrightarrow> utf8_ok s"
  by (induction s) auto

end
