(* ===== verification/Nfs_Adapter.thy ===== *)
theory Nfs_Adapter
  imports Vfs_Correct Utf8
begin

text \<open>
  The NFS server's adapter (modes 0555, 0444 and 0777 are written in hexadecimal), \<open>CtxfsNfs\<close> in \<open>crates/ctxfs-nfs/src/fs.rs\<close>: attributes and errors in NFSv3
  terms, paged directory listings and the refusals of every modifying call. The protocol types are those
  of the \<open>nfsserve\<close> crate, with the fields the adapter fills in.
\<close>

section \<open>Translation\<close>

datatype ftype3 = NF3REG | NF3DIR | NF3LNK

text \<open>Owner, group, device and times are always zero and the file system number is constant.\<close>

record fattr3 =
  fa_ftype :: ftype3
  fa_mode :: u32
  fa_nlink :: u32
  fa_uid :: u32
  fa_gid :: u32
  fa_size :: u64
  fa_used :: u64
  fa_fsid :: u64
  fa_fileid :: u64

datatype nfsstat3 =
  NFS3ERR_NOENT | NFS3ERR_NOTDIR | NFS3ERR_ISDIR | NFS3ERR_INVAL | NFS3ERR_ROFS | NFS3ERR_IO | NFS3ERR_JUKEBOX

type_synonym 'a nfs_result = "('a, nfsstat3) outcome"

definition attr_to_fattr3 :: "node_attr \<Rightarrow> fattr3" where
  "attr_to_fattr3 a =
     (case na_kind a of
        NodeType_Directory \<Rightarrow>
          \<lparr> fa_ftype = NF3DIR, fa_mode = 0x16D, fa_nlink = 2, fa_uid = 0, fa_gid = 0, fa_size = BLOCK_SIZE,
            fa_used = BLOCK_SIZE, fa_fsid = 0x6374786673000001, fa_fileid = na_inode a \<rparr>
      | NodeType_File \<Rightarrow>
          \<lparr> fa_ftype = NF3REG, fa_mode = (if na_executable a then 0x16D else 0x124), fa_nlink = 1, fa_uid = 0,
            fa_gid = 0, fa_size = na_size a, fa_used = na_size a, fa_fsid = 0x6374786673000001, fa_fileid = na_inode a \<rparr>
      | NodeType_Symlink \<Rightarrow>
          \<lparr> fa_ftype = NF3LNK, fa_mode = 0x1FF, fa_nlink = 1, fa_uid = 0, fa_gid = 0, fa_size = na_size a,
            fa_used = na_size a, fa_fsid = 0x6374786673000001, fa_fileid = na_inode a \<rparr>)"

fun vfs_err_to_nfs :: "vfs_error \<Rightarrow> nfsstat3" where
  "vfs_err_to_nfs Vfs_NotFound = NFS3ERR_NOENT"
| "vfs_err_to_nfs Vfs_NotDir = NFS3ERR_NOTDIR"
| "vfs_err_to_nfs Vfs_IsDir = NFS3ERR_ISDIR"
| "vfs_err_to_nfs Vfs_Invalid = NFS3ERR_INVAL"
| "vfs_err_to_nfs Vfs_ReadOnly = NFS3ERR_ROFS"
| "vfs_err_to_nfs (Vfs_Io _) = NFS3ERR_IO"
| "vfs_err_to_nfs (Vfs_RateLimited _) = NFS3ERR_JUKEBOX"

fun nfs_of :: "'a vfs_result \<Rightarrow> 'a nfs_result" where
  "nfs_of (Ok x) = Ok x"
| "nfs_of (Err e) = Err (vfs_err_to_nfs e)"
| "nfs_of Panic = Panic"

section \<open>The calls\<close>

definition nfs_root_dir :: u64 where
  "nfs_root_dir = ROOT_ID"

definition nfs_lookup :: "provider \<Rightarrow> dir_parser \<Rightarrow> u64 \<Rightarrow> bytes \<Rightarrow> vfs \<Rightarrow> vfs \<times> u64 nfs_result" where
  "nfs_lookup p parse_dir dirid filename s =
     (if \<not> utf8_ok filename then (s, Err NFS3ERR_INVAL)
      else (let (s1, r) = vfs_lookup p parse_dir dirid filename s in (s1, nfs_of (omap fst r))))"

definition nfs_getattr :: "u64 \<Rightarrow> vfs \<Rightarrow> fattr3 nfs_result" where
  "nfs_getattr i s = nfs_of (omap attr_to_fattr3 (vfs_getattr i s))"

text \<open>A read also says whether the end of the file was reached; \<open>offset + length\<close> wraps.\<close>

definition nfs_read ::
  "'m lru_ops \<Rightarrow> io_env \<Rightarrow> provider \<Rightarrow> u64 \<Rightarrow> u64 \<Rightarrow> u32 \<Rightarrow> vfs \<Rightarrow> 'm blob_cache \<Rightarrow>
     ('m blob_cache \<times> (bytes \<times> bool) nfs_result) option" where
  "nfs_read L io p i offset cnt s c =
     (case vfs_getattr i s of
        Err e \<Rightarrow> Some (c, Err (vfs_err_to_nfs e))
      | Panic \<Rightarrow> Some (c, Panic)
      | Ok a \<Rightarrow>
          map_option (\<lambda>(c1, r). (c1, nfs_of (omap (\<lambda>data. (data, na_size a \<le> offset + of_nat (length data))) r)))
            (vfs_read L io p i offset cnt s c))"

record nfs_entry =
  ne_fileid :: u64
  ne_name :: bytes
  ne_attr :: fattr3

text \<open>
  The loop over the children: skip up to and including \<open>start_after\<close>, then take at most
  \<open>max_entries\<close>, reading each one's attributes. \<open>taken\<close> counts the entries already pushed.
\<close>

fun page_loop ::
  "vfs \<Rightarrow> u64 \<Rightarrow> nat \<Rightarrow> bool \<Rightarrow> nat \<Rightarrow> (u64 \<times> string \<times> node_type) list \<Rightarrow> nfs_entry list nfs_result" where
  "page_loop s start_after max_entries started taken [] = Ok []"
| "page_loop s start_after max_entries started taken ((i, nm, k) # cs) =
     (if \<not> started then page_loop s start_after max_entries (i = start_after) taken cs
      else if max_entries \<le> taken then Ok []
      else obind (nfs_of (vfs_getattr i s)) (\<lambda>a.
        omap (\<lambda>es. \<lparr> ne_fileid = i, ne_name = nm, ne_attr = attr_to_fattr3 a \<rparr> # es)
          (page_loop s start_after max_entries True (Suc taken) cs)))"

definition page_end :: "nfs_entry list \<Rightarrow> (u64 \<times> string \<times> node_type) list \<Rightarrow> bool" where
  "page_end es children =
     (if es \<noteq> [] \<and> children \<noteq> [] then ne_fileid (last es) = fst (last children) else True)"

definition nfs_readdir ::
  "provider \<Rightarrow> dir_parser \<Rightarrow> u64 \<Rightarrow> u64 \<Rightarrow> nat \<Rightarrow> vfs \<Rightarrow> vfs \<times> (nfs_entry list \<times> bool) nfs_result" where
  "nfs_readdir p parse_dir dirid start_after max_entries s =
     (case vfs_readdir p parse_dir dirid s of
        (s1, Err e) \<Rightarrow> (s1, Err (vfs_err_to_nfs e))
      | (s1, Panic) \<Rightarrow> (s1, Panic)
      | (s1, Ok children) \<Rightarrow>
          (s1, omap (\<lambda>es. (es, page_end es children))
             (page_loop s1 start_after max_entries (start_after = 0) 0 children)))"

definition nfs_readlink :: "u64 \<Rightarrow> vfs \<Rightarrow> bytes nfs_result" where
  "nfs_readlink i s = nfs_of (vfs_readlink i s)"

text \<open>Every call that would modify the file system.\<close>

datatype nfs_modification =
    Nfs_Setattr u64
  | Nfs_Write u64 u64 bytes
  | Nfs_Create u64 bytes
  | Nfs_CreateExclusive u64 bytes
  | Nfs_Mkdir u64 bytes
  | Nfs_Remove u64 bytes
  | Nfs_Rename u64 bytes u64 bytes
  | Nfs_Symlink u64 bytes bytes

definition nfs_modify :: "nfs_modification \<Rightarrow> vfs \<Rightarrow> vfs \<times> unit nfs_result" where
  "nfs_modify m s = (s, Err NFS3ERR_ROFS)"

section \<open>A client that lists a directory page by page\<close>

text \<open>
  It asks for the next page after the last entry it got, until the server says the end was reached.
  \<open>None\<close> when the fuel runs out before that, or the server fails.
\<close>

fun nfs_list ::
  "nat \<Rightarrow> provider \<Rightarrow> dir_parser \<Rightarrow> u64 \<Rightarrow> nat \<Rightarrow> u64 \<Rightarrow> vfs \<Rightarrow> nfs_entry list option" where
  "nfs_list 0 p parse_dir d n after s = None"
| "nfs_list (Suc fuel) p parse_dir d n after s =
     (case nfs_readdir p parse_dir d after n s of
        (s1, Ok (es, stop)) \<Rightarrow>
          if stop then Some es
          else if es = [] then None
          else map_option (\<lambda>rest. es @ rest) (nfs_list fuel p parse_dir d n (ne_fileid (last es)) s1)
      | _ \<Rightarrow> None)"

definition nfs_entry_of :: "vfs \<Rightarrow> u64 \<times> string \<times> node_type \<Rightarrow> nfs_entry" where
  "nfs_entry_of s c =
     \<lparr> ne_fileid = fst c, ne_name = fst (snd c),
       ne_attr = attr_to_fattr3 (node_to_attr (the (map_of (nodes s) (fst c)))) \<rparr>"

lemma page_loop_started:
  assumes "\<And>c. c \<in> set cs \<Longrightarrow> map_of (nodes s) (fst c) \<noteq> None"
  shows "page_loop s a n True k cs = Ok (map (nfs_entry_of s) (take (n - k) cs))"
  using assms
proof (induction cs arbitrary: k)
  case (Cons c cs)
  obtain i nm kd where c: "c = (i, nm, kd)" by (cases c)
  obtain m where m: "map_of (nodes s) i = Some m" using Cons.prems [of c] c by auto
  show ?case
  proof (cases "n \<le> k")
    case False
    then obtain r where r: "n - k = Suc r" "n - Suc k = r" by (metis Suc_diff_Suc not_le)
    then show ?thesis
      using Cons.IH [of "Suc k"] Cons.prems c m False
      by (simp add: vfs_getattr_def get_node_def nfs_entry_of_def)
  qed (simp add: c)
qed simp

lemma page_loop_skip:
  assumes "a \<notin> fst ` set (butlast xs)" "xs \<noteq> []" "fst (last xs) = a"
  shows "page_loop s a n False k (xs @ ys) = page_loop s a n True k ys"
  using assms
proof (induction xs)
  case (Cons x xs)
  obtain i nm kd where x: "x = (i, nm, kd)" by (cases x)
  show ?case
  proof (cases xs)
    case (Cons y zs)
    then show ?thesis using Cons.IH Cons.prems x by (auto split: if_splits)
  qed (use Cons.prems x in simp)
qed simp

text \<open>One page: after the entries already delivered come the next ones, and the flag says whether that was all.\<close>

lemma nfs_page:
  assumes run: "vfs_readdir p parse_dir d s = (s, Ok (xs @ ys))" and dist: "distinct (map fst (xs @ ys))"
    and nodes: "\<And>c. c \<in> set ys \<Longrightarrow> map_of (nodes s) (fst c) \<noteq> None"
    and pos: "0 \<notin> fst ` set (xs @ ys)" and n: "0 < n"
    and after: "after = (if xs = [] then 0 else fst (last xs))"
  shows "nfs_readdir p parse_dir d after n s = (s, Ok (map (nfs_entry_of s) (take n ys), length ys \<le> n))"
proof -
  have loop: "page_loop s after n (after = 0) 0 (xs @ ys) = Ok (map (nfs_entry_of s) (take n ys))"
  proof (cases xs rule: rev_cases)
    case Nil
    then show ?thesis using after page_loop_started [of ys s after n 0] nodes by simp
  next
    case (snoc zs z)
    then have a: "after = fst z" "after \<noteq> 0" using after pos by auto
    have "after \<notin> fst ` set (butlast xs)" using dist snoc a(1) by auto
    then have "page_loop s after n False 0 (xs @ ys) = page_loop s after n True 0 ys"
      using page_loop_skip [of after xs s n 0 ys] snoc a by simp
    then show ?thesis using a(2) page_loop_started [of ys s after n 0] nodes by simp
  qed
  have "page_end (map (nfs_entry_of s) (take n ys)) (xs @ ys) \<longleftrightarrow> length ys \<le> n"
  proof (cases "ys = []")
    case False
    have last_id: "ne_fileid (last (map (nfs_entry_of s) (take n ys))) = fst (last (take n ys))"
      using False n by (simp add: last_map nfs_entry_of_def)
    have "fst (last (take n ys)) = fst (last ys) \<longleftrightarrow> length ys \<le> n"
    proof
      assume eq: "fst (last (take n ys)) = fst (last ys)"
      have ne: "take n ys \<noteq> []" using False n by simp
      have "last (take n ys) = take n ys ! (length (take n ys) - 1)" using ne by (rule last_conv_nth)
      then have l: "last (take n ys) = ys ! (min (length ys) n - 1)" using False n by simp
      have b: "min (length ys) n - 1 < length ys" "length ys - 1 < length ys" using False n by (auto simp: min_def)
      have "map fst ys ! (min (length ys) n - 1) = map fst ys ! (length ys - 1)"
        using eq b l last_conv_nth [OF False] by simp
      moreover have "distinct (map fst ys)" using dist by simp
      ultimately have "min (length ys) n - 1 = length ys - 1"
        using b by (subst (asm) nth_eq_iff_index_eq) auto
      then show "length ys \<le> n" using False n by (auto simp: min_def split: if_splits)
    qed simp
    then show ?thesis using False n last_id by (simp add: page_end_def)
  qed (simp add: page_end_def)
  then show ?thesis using loop run by (simp add: nfs_readdir_def)
qed


lemma nfs_list_from:
  assumes run: "\<And>p. vfs_readdir p parse_dir d s = (s, Ok all)" and dist: "distinct (map fst all)"
    and nodes: "\<And>c. c \<in> set all \<Longrightarrow> map_of (nodes s) (fst c) \<noteq> None"
    and pos: "0 \<notin> fst ` set all" and n: "0 < n"
  shows "all = xs @ ys \<Longrightarrow> length ys < fuel \<Longrightarrow> after = (if xs = [] then 0 else fst (last xs)) \<Longrightarrow>
    nfs_list fuel p parse_dir d n after s = Some (map (nfs_entry_of s) ys)"
proof (induction fuel arbitrary: xs ys after)
  case (Suc fuel)
  have page: "nfs_readdir p parse_dir d after n s = (s, Ok (map (nfs_entry_of s) (take n ys), length ys \<le> n))"
    using nfs_page [OF run [of p, unfolded Suc.prems(1)] dist [unfolded Suc.prems(1)] _ pos [unfolded Suc.prems(1)] n Suc.prems(3)]
      nodes Suc.prems(1) by simp
  show ?case
  proof (cases "length ys \<le> n")
    case False
    have ne: "take n ys \<noteq> []" using False n by auto
    have "nfs_list fuel p parse_dir d n (fst (last (take n ys))) s = Some (map (nfs_entry_of s) (drop n ys))"
      by (rule Suc.IH [of "xs @ take n ys"]) (use Suc.prems False n ne in auto)
    moreover have "ne_fileid (last (map (nfs_entry_of s) (take n ys))) = fst (last (take n ys))"
      using ne by (simp add: last_map nfs_entry_of_def del: take_eq_Nil)
    ultimately show ?thesis
      using page False ne by (simp add: map_append [symmetric] del: map_append)
  qed (use page in simp)
qed simp

lemma readdir_nodes:
  assumes inv: "vfs_inv s" and room: "dir_room parse_dir s" and first: "vfs_readdir p parse_dir d s = (s1, Ok es)"
  shows "c \<in> set es \<Longrightarrow> map_of (nodes s1) (fst c) \<noteq> None" and "0 \<notin> fst ` set es"
proof -
  obtain ids where run: "ensure_populated p parse_dir d s = (s1, Ok ids)" and es: "es = List.map_filter (child_row s1) ids"
    using readdir_OkD [OF first] by blast
  have inv1: "vfs_inv s1" by (rule ensure_populated_facts(1) [OF inv room run])
  have node: "\<exists>n. map_of (nodes s1) (fst c) = Some n \<and> 0 < fst c" if "c \<in> set es" for c
  proof -
    have "\<exists>i\<in>set ids. child_row s1 i = Some c" using \<open>c \<in> set es\<close> unfolding es set_map_filter by (rule CollectD)
    then obtain i where "child_row s1 i = Some c" by (rule bexE)
    then obtain n where n: "map_of (nodes s1) i = Some n" "c = (node_id n, node_name n, type_of_kind (node_kind n))"
      by (cases "map_of (nodes s1) i") simp_all
    then show ?thesis using core_node [OF inv_core [OF inv1] n(1)] by auto
  qed
  then show "c \<in> set es \<Longrightarrow> map_of (nodes s1) (fst c) \<noteq> None" by fastforce
  show "0 \<notin> fst ` set es" using node by fastforce
qed

text \<open>
  C22. Paging delivers a directory exactly once: a client that lists it page by page with any positive page
  size, asking each time for what follows the last entry it got, is told after finitely many pages that
  the end was reached, and by then has got every child, in order, once, with its current attributes,
  whatever the provider would answer to a second request.
\<close>

theorem nfs_listing_complete:
  assumes inv: "vfs_inv s" and room: "dir_room parse_dir s"
    and listed: "vfs_readdir p parse_dir d s = (s1, Ok children)" and dist: "distinct (map fst children)"
    and n: "0 < n" and fuel: "length children < fuel"
  shows "nfs_list fuel p' parse_dir d n 0 s1 = Some (map (nfs_entry_of s1) children)"
proof (rule nfs_list_from [where xs = "[]" and ys = children and all = children])
  show "vfs_readdir p parse_dir d s1 = (s1, Ok children)" for p
    by (rule readdir_again [OF inv room listed])
qed (use dist n fuel readdir_nodes [OF inv room listed] in auto)

text \<open>
  A listing can claim its end too early: with room for no entry, or after an entry the directory does
  not have (a number kept by the client from elsewhere), the reply is empty and says the end was reached,
  although the directory has entries the client never got.
\<close>

theorem nfs_readdir_false_end:
  assumes run: "vfs_readdir p parse_dir d s = (s1, Ok children)" and bad: "n = 0 \<or> after \<notin> fst ` set children \<and> after \<noteq> 0"
  shows "nfs_readdir p parse_dir d after n s = (s1, Ok ([], True))"
proof -
  have zero: "page_loop s1 after 0 b k cs = Ok []" for b k cs
    by (induction cs arbitrary: b k) auto
  have other: "page_loop s1 after n False k cs = Ok []" if "after \<notin> fst ` set cs" for k cs
    using that by (induction cs arbitrary: k) auto
  have "page_loop s1 after n (after = 0) 0 children = Ok []"
    using bad zero other [of children 0] by (cases "n = 0") auto
  then show ?thesis using run by (simp add: nfs_readdir_def page_end_def)
qed

end
