(* ===== verification/Fskit_Adapter.thy ===== *)
theory Fskit_Adapter
  imports Vfs_Correct Utf8 Source_Spec
begin

text \<open>
  The FSKit adapter, \<open>FilesystemAdapter\<close> in \<open>crates/ctxfs-fskit/src/adapter.rs\<close>, the volume names of
  \<open>slug.rs\<close> and the mount tokens of \<open>auth.rs\<close>. The reply types are generated from a protocol file;
  the records have the fields the adapter sets. User and group of the process are an argument.
\<close>

section \<open>Inode numbers\<close>

abbreviation FSKIT_ROOT_ID :: u64 where "FSKIT_ROOT_ID \<equiv> 2"

text \<open>\<open>saturating_add\<close>.\<close>

definition sat_add :: "'w::len word \<Rightarrow> 'w word \<Rightarrow> 'w word" where
  "sat_add a b = (if unat a + unat b < 2 ^ LENGTH('w) then a + b else - 1)"

definition vfs_to_fskit_inode :: "u64 \<Rightarrow> u64" where
  "vfs_to_fskit_inode i = sat_add i 1"

definition fskit_to_vfs_inode :: "u64 \<Rightarrow> u64" where
  "fskit_to_vfs_inode i = max (sat_sub i 1) 1"

lemma vfs_to_fskit_plus_one: "k < 2 ^ 64 - 1 \<Longrightarrow> vfs_to_fskit_inode k = k + 1 \<and> unat (k + 1) = unat k + 1"
proof -
  assume "k < 2 ^ 64 - 1"
  then have "unat k < unat (2 ^ 64 - 1 :: u64)" by (simp add: word_less_nat_alt)
  then have "unat k + 1 < 2 ^ 64" by simp
  then show ?thesis using unat_plus_one [of k] by (simp add: vfs_to_fskit_inode_def sat_add_def)
qed

lemma there_and_back:
  assumes "0 < i" "i < 2 ^ 64 - 1"
  shows "fskit_to_vfs_inode (vfs_to_fskit_inode i) = i"
proof -
  note i = vfs_to_fskit_plus_one [OF assms(2)]
  have pos: "1 \<le> unat i" using assms(1) by (simp add: word_less_nat_alt)
  have "sat_sub (i + 1) 1 = i" using i pos by (simp add: sat_sub_def word_le_nat_alt)
  then show ?thesis using i pos max_absorb1 [of 1 i] by (simp add: fskit_to_vfs_inode_def word_le_nat_alt)
qed

text \<open>
  The inode numbers of the two sides correspond: every number of the filesystem but the last survives
  the way to FSKit and back, two of them stay different there, and none becomes one of FSKit's reserved
  numbers 0 and 1; the root is FSKit's root.
\<close>

theorem inode_bijection:
  assumes "0 < i" "i < 2 ^ 64 - 1" "0 < j" "j < 2 ^ 64 - 1"
  shows "fskit_to_vfs_inode (vfs_to_fskit_inode i) = i
    \<and> (vfs_to_fskit_inode i = vfs_to_fskit_inode j) = (i = j)
    \<and> FSKIT_ROOT_ID \<le> vfs_to_fskit_inode i \<and> vfs_to_fskit_inode ROOT_ID = FSKIT_ROOT_ID"
proof -
  note i = vfs_to_fskit_plus_one [OF assms(2)] and j = vfs_to_fskit_plus_one [OF assms(4)]
  have "1 \<le> unat i" using assms(1) by (simp add: word_less_nat_alt)
  then have "2 \<le> vfs_to_fskit_inode i" using i by (simp add: word_le_nat_alt)
  moreover have "vfs_to_fskit_inode 1 = 2" by (simp add: vfs_to_fskit_inode_def sat_add_def)
  ultimately show ?thesis using there_and_back [OF assms(1,2)] i j by simp
qed

theorem inode_bijection_witness:
  "fskit_to_vfs_inode (vfs_to_fskit_inode 7) = 7 \<and> (vfs_to_fskit_inode 7 = vfs_to_fskit_inode 9) = (7 = (9 :: u64))"
  using inode_bijection [of 7 9] by simp

section \<open>Translation\<close>

datatype item_type =
    ItemType_Unknown | ItemType_File | ItemType_Directory | ItemType_Symlink
  | ItemType_Fifo | ItemType_CharDevice | ItemType_BlockDevice | ItemType_Socket

fun node_type_to_item_type :: "node_type \<Rightarrow> item_type" where
  "node_type_to_item_type NodeType_File = ItemType_File"
| "node_type_to_item_type NodeType_Directory = ItemType_Directory"
| "node_type_to_item_type NodeType_Symlink = ItemType_Symlink"

record item_attributes =
  it_file_id :: u64
  it_parent_id :: u64
  it_type :: item_type
  it_mode :: u32
  it_uid :: u32
  it_gid :: u32
  it_link_count :: u32
  it_size :: u64
  it_alloc_size :: u64

record process_ids =
  proc_uid :: u32
  proc_gid :: u32

text \<open>Modes 0555, 0444 and 0777.\<close>

definition node_attr_to_item_attributes :: "process_ids \<Rightarrow> node_attr \<Rightarrow> item_attributes" where
  "node_attr_to_item_attributes ids a =
     \<lparr> it_file_id = vfs_to_fskit_inode (na_inode a), it_parent_id = vfs_to_fskit_inode (na_parent_inode a),
       it_type = node_type_to_item_type (na_kind a),
       it_mode = (case na_kind a of
           NodeType_Directory \<Rightarrow> 0x16D
         | NodeType_File \<Rightarrow> if na_executable a then 0x16D else 0x124
         | NodeType_Symlink \<Rightarrow> 0x1FF),
       it_uid = proc_uid ids, it_gid = proc_gid ids,
       it_link_count = (case na_kind a of NodeType_Directory \<Rightarrow> 2 | _ \<Rightarrow> 1),
       it_size = na_size a, it_alloc_size = na_size a \<rparr>"

record item =
  item_name :: bytes
  item_attrs :: item_attributes

definition make_item :: "process_ids \<Rightarrow> string \<Rightarrow> node_attr \<Rightarrow> item" where
  "make_item ids nm a = \<lparr> item_name = nm, item_attrs = node_attr_to_item_attributes ids a \<rparr>"

datatype errno = ENOENT | ENOTDIR | EISDIR | EINVAL | EROFS | EIO | EAGAIN | ENOATTR | EACCES | EPROTO

fun vfs_err_to_fskit :: "vfs_error \<Rightarrow> errno" where
  "vfs_err_to_fskit Vfs_NotFound = ENOENT"
| "vfs_err_to_fskit Vfs_NotDir = ENOTDIR"
| "vfs_err_to_fskit Vfs_IsDir = EISDIR"
| "vfs_err_to_fskit Vfs_Invalid = EINVAL"
| "vfs_err_to_fskit Vfs_ReadOnly = EROFS"
| "vfs_err_to_fskit (Vfs_Io _) = EIO"
| "vfs_err_to_fskit (Vfs_RateLimited _) = EAGAIN"

type_synonym 'a fskit_result = "('a, errno) outcome"

fun fskit_of :: "'a vfs_result \<Rightarrow> 'a fskit_result" where
  "fskit_of (Ok x) = Ok x"
| "fskit_of (Err e) = Err (vfs_err_to_fskit e)"
| "fskit_of Panic = Panic"

section \<open>The volume\<close>

text \<open>The notifier is the channel's count of unmount messages when one is attached.\<close>

record filesystem_adapter =
  volume_name :: string
  volume_id :: string
  display_name :: string
  unmount_notifier :: "nat option"

definition adapter_new :: "string \<Rightarrow> string \<Rightarrow> filesystem_adapter" where
  "adapter_new vname dname =
     \<lparr> volume_name = vname, volume_id = ''ctxfs-'' @ vname, display_name = dname, unmount_notifier = None \<rparr>"

definition with_unmount_notifier :: "filesystem_adapter \<Rightarrow> filesystem_adapter" where
  "with_unmount_notifier a = a\<lparr> unmount_notifier := Some 0 \<rparr>"

definition get_resource_identifier :: "filesystem_adapter \<Rightarrow> string \<times> string" where
  "get_resource_identifier a = (volume_name a, ''com.ctxfs.volume'')"

definition get_volume_identifier :: "filesystem_adapter \<Rightarrow> string \<times> string" where
  "get_volume_identifier a = (volume_id a, display_name a)"

definition fskit_unmount :: "filesystem_adapter \<Rightarrow> filesystem_adapter" where
  "fskit_unmount a = a\<lparr> unmount_notifier := map_option Suc (unmount_notifier a) \<rparr>"

record volume_behavior =
  is_open_close_inhibited :: bool
  is_access_check_inhibited :: bool
  is_volume_rename_inhibited :: bool
  is_preallocate_inhibited :: bool

definition get_volume_behavior :: volume_behavior where
  "get_volume_behavior =
     \<lparr> is_open_close_inhibited = True, is_access_check_inhibited = True,
       is_volume_rename_inhibited = True, is_preallocate_inhibited = True \<rparr>"

record supported_capabilities =
  does_not_support_setting_file_permissions :: bool
  does_not_support_immutable_files :: bool

definition get_volume_capabilities :: supported_capabilities where
  "get_volume_capabilities =
     \<lparr> does_not_support_setting_file_permissions = True, does_not_support_immutable_files = True \<rparr>"

record volume_statistics =
  vs_block_size :: u64
  vs_io_size :: u64
  vs_total_blocks :: u64
  vs_available_blocks :: u64
  vs_free_blocks :: u64
  vs_used_blocks :: u64
  vs_total_bytes :: u64
  vs_available_bytes :: u64
  vs_free_bytes :: u64
  vs_used_bytes :: u64
  vs_total_files :: u64
  vs_free_files :: u64

text \<open>Block sizes go over as \<open>i64\<close>, saturated.\<close>

definition get_volume_statistics :: "vfs \<Rightarrow> volume_statistics" where
  "get_volume_statistics s =
     (let st = vfs_statfs s;
          blocks = sf_total_bytes st div sf_block_size st;
          bs = (if sf_block_size st \<le> 2 ^ 63 - 1 then sf_block_size st else 2 ^ 63 - 1)
      in \<lparr> vs_block_size = bs, vs_io_size = bs, vs_total_blocks = blocks, vs_available_blocks = 0,
           vs_free_blocks = 0, vs_used_blocks = blocks, vs_total_bytes = sf_total_bytes st, vs_available_bytes = 0,
           vs_free_bytes = 0, vs_used_bytes = sf_total_bytes st, vs_total_files = sf_total_files st, vs_free_files = 0 \<rparr>)"

definition fskit_activate :: "process_ids \<Rightarrow> vfs \<Rightarrow> item fskit_result" where
  "fskit_activate ids s = fskit_of (omap (make_item ids ''/'') (vfs_getattr ROOT_ID s))"

section \<open>Items\<close>

definition get_attributes :: "process_ids \<Rightarrow> u64 \<Rightarrow> vfs \<Rightarrow> item_attributes fskit_result" where
  "get_attributes ids i s = fskit_of (omap (node_attr_to_item_attributes ids) (vfs_getattr (fskit_to_vfs_inode i) s))"

definition lookup_item ::
  "process_ids \<Rightarrow> provider \<Rightarrow> dir_parser \<Rightarrow> bytes \<Rightarrow> u64 \<Rightarrow> vfs \<Rightarrow> vfs \<times> item fskit_result" where
  "lookup_item ids p parse_dir nm d s =
     (if \<not> utf8_ok nm then (s, Err EINVAL)
      else (let (s1, r) = vfs_lookup p parse_dir (fskit_to_vfs_inode d) nm s
            in (s1, fskit_of (omap (\<lambda>(_, a). make_item ids nm a) r))))"

record fskit_entry =
  fe_item :: item
  next_cookie :: u64

text \<open>The loop from the cookie's index on; \<open>index\<close> is that of the first child of the list.\<close>

fun enumerate_from ::
  "process_ids \<Rightarrow> vfs \<Rightarrow> nat \<Rightarrow> (u64 \<times> string \<times> node_type) list \<Rightarrow> fskit_entry list fskit_result" where
  "enumerate_from ids s index [] = Ok []"
| "enumerate_from ids s index ((i, nm, _) # cs) =
     obind (fskit_of (vfs_getattr i s)) (\<lambda>a.
       omap (\<lambda>es. \<lparr> fe_item = make_item ids nm a, next_cookie = of_nat (index + 1) \<rparr> # es)
         (enumerate_from ids s (index + 1) cs))"

definition enumerate_directory ::
  "process_ids \<Rightarrow> provider \<Rightarrow> dir_parser \<Rightarrow> u64 \<Rightarrow> u64 \<Rightarrow> vfs \<Rightarrow> vfs \<times> fskit_entry list fskit_result" where
  "enumerate_directory ids p parse_dir d cookie s =
     (let (s1, r) = vfs_readdir p parse_dir (fskit_to_vfs_inode d) s
      in (s1, obind (fskit_of r) (\<lambda>children. enumerate_from ids s1 (unat cookie) (drop (unat cookie) children))))"

text \<open>Offset and length are \<open>i64\<close>; the length is cut to 32 bits on its way to the filesystem.\<close>

definition fskit_read ::
  "'m lru_ops \<Rightarrow> io_env \<Rightarrow> provider \<Rightarrow> u64 \<Rightarrow> u64 \<Rightarrow> u64 \<Rightarrow> vfs \<Rightarrow> 'm blob_cache \<Rightarrow>
     ('m blob_cache \<times> bytes fskit_result) option" where
  "fskit_read L io p i offset len s c =
     (if sint offset < 0 \<or> sint len < 0 then Some (c, Err EINVAL)
      else map_option (\<lambda>(c1, r). (c1, fskit_of r)) (vfs_read L io p (fskit_to_vfs_inode i) offset (ucast len) s c))"

definition read_symbolic_link :: "u64 \<Rightarrow> vfs \<Rightarrow> bytes fskit_result" where
  "read_symbolic_link i s = fskit_of (vfs_readlink (fskit_to_vfs_inode i) s)"

text \<open>Calls that would modify the volume, and those that always succeed without doing anything.\<close>

datatype fskit_modification =
    Fs_SetVolumeName bytes
  | Fs_SetAttributes u64
  | Fs_CreateItem bytes item_type u64
  | Fs_RemoveItem u64 bytes u64
  | Fs_RenameItem u64 u64 bytes bytes u64 "u64 option"
  | Fs_Write bytes u64 u64
  | Fs_Preallocate u64 u64 u64
  | Fs_CreateSymbolicLink bytes u64 bytes
  | Fs_CreateLink u64 bytes u64
  | Fs_SetXattr bytes "bytes option" u64

definition fskit_modify :: "fskit_modification \<Rightarrow> vfs \<Rightarrow> vfs \<times> unit fskit_result" where
  "fskit_modify m s = (s, Err EROFS)"

definition get_xattr :: "bytes \<Rightarrow> u64 \<Rightarrow> bytes fskit_result" where
  "get_xattr nm i = Err ENOATTR"

definition check_access :: "u64 \<Rightarrow> bool fskit_result" where
  "check_access i = Ok True"

section \<open>Volume names\<close>

definition trim_start_at :: "string \<Rightarrow> string" where
  "trim_start_at s = dropWhile (\<lambda>c. c = CHR ''@'') s"

text \<open>\<open>to_lowercase\<close> is Unicode's; it is an argument, which on ASCII text is the ASCII one.\<close>

definition volume_slug :: "(string \<Rightarrow> string) \<Rightarrow> source_spec \<Rightarrow> string" where
  "volume_slug to_lowercase src =
     provider_display (sp_provider src) @ ''-''
       @ to_lowercase (replace_char CHR ''/'' ''-'' (trim_start_at (sp_name src))) @ ''-''
       @ replace_char CHR ''/'' ''-'' (sp_version src)"

definition source_display_name :: "source_spec \<Rightarrow> string" where
  "source_display_name src =
     (case sp_provider src of
        GitHub \<Rightarrow> sp_name src @ '' @ '' @ sp_version src
      | _ \<Rightarrow> sp_name src @ '' '' @ sp_version src)"

section \<open>Mount tokens\<close>

text \<open>
  An \<open>AuthToken\<close> is 32 bytes; the hex codec and the random generator are library code and arguments.
\<close>

type_synonym byte = "8 word"
type_synonym auth_token = "byte list"

definition auth_generate :: "byte list \<Rightarrow> auth_token" where
  "auth_generate random = take 32 random"

definition auth_from_hex :: "(string \<Rightarrow> (byte list, string) outcome) \<Rightarrow> string \<Rightarrow> (auth_token, string) outcome" where
  "auth_from_hex decode s =
     obind (decode s) (\<lambda>bs. if length bs = 32 then Ok bs else Err ''InvalidStringLength'')"

definition auth_to_hex :: "(byte list \<Rightarrow> string) \<Rightarrow> auth_token \<Rightarrow> string" where
  "auth_to_hex encode t = encode t"

text \<open>The comparison that takes the same time on every candidate: the differences are or-ed together.\<close>

definition auth_validate :: "auth_token \<Rightarrow> byte list \<Rightarrow> bool" where
  "auth_validate t candidate =
     (if length candidate \<noteq> 32 then False
      else foldl (\<lambda>diff (a, b). or diff (xor a b)) 0 (zip t candidate) = 0)"

lemma or_eq_0 [simp]: "or (a :: 'w::len word) b = 0 \<longleftrightarrow> a = 0 \<and> b = 0"
  by (auto simp: bit_eq_iff bit_or_iff)

lemma xor_eq_0 [simp]: "xor (a :: 'w::len word) b = 0 \<longleftrightarrow> a = b"
proof
  assume "xor a b = 0"
  then have "xor (xor a b) b = b" by simp
  then show "a = b" by (simp add: xor.assoc)
qed simp

lemma foldl_or_eq_0:
  "foldl (\<lambda>diff (a, b). or diff (xor a b)) d xs = 0 \<longleftrightarrow> d = (0 :: 'w::len word) \<and> list_all (\<lambda>(a, b). a = b) xs"
proof (induction xs arbitrary: d)
  case (Cons x xs)
  obtain a b where x: "x = (a, b)" by (cases x)
  show ?case unfolding x foldl_Cons prod.case Cons.IH by simp
qed simp

lemma list_all_zip_eq: "length xs = length ys \<Longrightarrow> list_all (\<lambda>(a, b). a = b) (zip xs ys) \<longleftrightarrow> xs = ys"
  by (induction xs ys rule: list_induct2) auto

text \<open>
  The constant-time comparison accepts exactly the token: for a token of 32 bytes it agrees with
  equality on every candidate of any length.
\<close>

theorem auth_validate_exact:
  assumes "length t = 32"
  shows "auth_validate t candidate = (candidate = t)"
  using assms by (auto simp: auth_validate_def foldl_or_eq_0 list_all_zip_eq)

theorem auth_validate_exact_witness:
  "auth_validate (replicate 32 7) (replicate 31 7) = (replicate 31 (7 :: byte) = replicate 32 7)"
  by (rule auth_validate_exact) simp

end
