(* ===== verification/Adapter_Correct.thy ===== *)
theory Adapter_Correct
  imports Nfs_Adapter Fskit_Adapter Vfs_Witness
begin

text \<open>
  The two adapters over the same filesystem: resumable enumeration, reads with 64-bit lengths, and the
  agreement of NFS and FSKit on what a lookup finds. Witnesses on the concrete mount.
\<close>

section \<open>NFS listings on the concrete mount\<close>

theorem nfs_listing_complete_witness:
  "nfs_list 3 broken_provider demo_parse 1 1 0 demo_listed = Some (map (nfs_entry_of demo_listed) demo_rows)"
  by (rule nfs_listing_complete [OF demo_vfs_inv demo_room demo_readdir]) (simp_all add: demo_ids)

theorem nfs_readdir_false_end_witness:
  "nfs_readdir demo_provider demo_parse 1 9 5 demo_vfs = (demo_listed, Ok ([], True))"
  by (rule nfs_readdir_false_end [OF demo_readdir]) simp

section \<open>FSKit enumeration\<close>

definition fskit_entry_of :: "process_ids \<Rightarrow> vfs \<Rightarrow> nat \<times> u64 \<times> string \<times> node_type \<Rightarrow> fskit_entry" where
  "fskit_entry_of ids s = (\<lambda>(j, i, nm, _).
     \<lparr> fe_item = make_item ids nm (node_to_attr (the (map_of (nodes s) i))), next_cookie = of_nat (j + 1) \<rparr>)"

lemma drop_enumerate: "drop k (enumerate n xs) = enumerate (n + k) (drop k xs)"
proof (induction xs arbitrary: n k)
  case (Cons x xs)
  then show ?case by (cases k) simp_all
qed simp

lemma enumerate_from_spec:
  assumes "\<And>c. c \<in> set cs \<Longrightarrow> map_of (nodes s) (fst c) \<noteq> None"
  shows "enumerate_from ids s k cs = Ok (map (fskit_entry_of ids s) (enumerate k cs))"
  using assms
proof (induction cs arbitrary: k)
  case (Cons c cs)
  obtain i nm kd where c: "c = (i, nm, kd)" by (cases c)
  obtain n where "map_of (nodes s) i = Some n" using Cons.prems [of c] c by auto
  then show ?case using Cons.IH [of "k + 1"] Cons.prems c
    by (simp add: vfs_getattr_def get_node_def fskit_entry_of_def)
qed simp

text \<open>
  An FSKit enumeration can be resumed anywhere: the first call returns every child in order, under its
  name and with its attributes, and a call with the cookie of any position returns exactly the rest; the
  cookie an entry carries is that of the position after it.
\<close>

theorem fskit_enumeration_resumes:
  assumes inv: "vfs_inv s" and room: "dir_room parse_dir s"
    and listed: "vfs_readdir p parse_dir (fskit_to_vfs_inode d) s = (s1, Ok children)" and k: "k < 2 ^ 64"
  shows "\<exists>es. enumerate_directory ids p' parse_dir d 0 s1 = (s1, Ok es)
    \<and> map (\<lambda>e. item_name (fe_item e)) es = map (\<lambda>(_, nm, _). nm) children
    \<and> map next_cookie es = map (\<lambda>j. of_nat (j + 1)) [0..<length children]
    \<and> enumerate_directory ids p' parse_dir d (of_nat k) s1 = (s1, Ok (drop k es))"
proof -
  have again: "vfs_readdir p' parse_dir (fskit_to_vfs_inode d) s1 = (s1, Ok children)"
    by (rule readdir_again [OF inv room listed])
  note nodes = readdir_nodes(1) [OF inv room listed]
  have rows: "enumerate_from ids s1 j (drop j children) = Ok (map (fskit_entry_of ids s1) (enumerate j (drop j children)))" for j
    by (rule enumerate_from_spec) (use nodes in \<open>auto dest: in_set_dropD\<close>)
  let ?es = "map (fskit_entry_of ids s1) (enumerate 0 children)"
  have whole: "enumerate_directory ids p' parse_dir d 0 s1 = (s1, Ok ?es)"
    using again rows [of 0] by (simp add: enumerate_directory_def)
  have rest: "enumerate_directory ids p' parse_dir d (of_nat k) s1 = (s1, Ok (drop k ?es))"
    using again rows [of k] k by (simp add: enumerate_directory_def drop_map drop_enumerate take_bit_nat_eq_self unat_of_nat)
  have "map (\<lambda>e. item_name (fe_item e)) ?es = map (\<lambda>(_, nm, _). nm) children"
    by (rule nth_equalityI) (auto simp: nth_enumerate_eq fskit_entry_of_def make_item_def split: prod.splits)
  moreover have "map next_cookie ?es = map (\<lambda>j. of_nat (j + 1)) [0..<length children]"
    by (rule nth_equalityI) (auto simp: nth_enumerate_eq fskit_entry_of_def split: prod.splits)
  ultimately show ?thesis using whole rest by blast
qed

theorem fskit_enumeration_resumes_witness:
  "\<exists>es. enumerate_directory \<lparr> proc_uid = 501, proc_gid = 20 \<rparr> broken_provider demo_parse 2 0 demo_listed = (demo_listed, Ok es)
     \<and> map (\<lambda>e. item_name (fe_item e)) es = [''src'', ''a'']
     \<and> enumerate_directory \<lparr> proc_uid = 501, proc_gid = 20 \<rparr> broken_provider demo_parse 2 1 demo_listed = (demo_listed, Ok (drop 1 es))"
proof -
  have root: "fskit_to_vfs_inode 2 = 1" by code_simp
  have "vfs_readdir demo_provider demo_parse (fskit_to_vfs_inode 2) demo_vfs = (demo_listed, Ok demo_rows)"
    unfolding root by (rule demo_readdir)
  from fskit_enumeration_resumes [OF demo_vfs_inv demo_room this, where k = 1 and p' = broken_provider
      and ids = "\<lparr> proc_uid = 501, proc_gid = 20 \<rparr>"]
  show ?thesis by (auto simp: demo_ids)
qed

section \<open>FSKit reads\<close>

lemma nonneg_sint_bound: "0 \<le> sint (w :: u64) \<Longrightarrow> unat w < 2 ^ 63"
proof -
  assume nonneg: "0 \<le> sint w"
  have "bit w (LENGTH(64) - Suc 0) = (sint w < 0)" by (rule bit_last_iff)
  then have "\<not> bit w 63" using nonneg by simp
  have "bit (take_bit 63 w) n = bit w n" if "n < LENGTH(64)" for n
    using that \<open>\<not> bit w 63\<close> by (cases "n = 63") (auto simp: bit_take_bit_iff)
  then have "take_bit 63 w = w" by (intro bit_word_eqI) simp
  then have "unat w = unat (take_bit 63 w)" by simp
  also have "\<dots> = take_bit 63 (unat w)" by (simp add: unsigned_take_bit_eq)
  finally show ?thesis by (metis take_bit_nat_less_exp)
qed

text \<open>
  An FSKit read of a file whose content is at hand never panics, whatever the offset and length, and
  returns the content from the offset on; but at most the length modulo \<open>2^32\<close>: a request for \<open>2^32\<close>
  bytes gets none.
\<close>

theorem fskit_read_exact:
  assumes node: "map_of (nodes s) i = Some n" "node_kind n = NodeKind_File d sz ex (Some content)"
    and i: "0 < i" "i < 2 ^ 64 - 1" and small: "length content < 2 ^ 63"
  shows "fskit_read L io p (vfs_to_fskit_inode i) offset len s c =
    Some (c, if sint offset < 0 \<or> sint len < 0 then Err EINVAL
             else Ok (take (unat len mod 2 ^ 32) (drop (unat offset) content)))"
proof (cases "sint offset < 0 \<or> sint len < 0")
  case False
  have "fskit_to_vfs_inode (vfs_to_fskit_inode i) = i" by (rule there_and_back [OF i])
  then have run: "fskit_read L io p (vfs_to_fskit_inode i) offset len s c
      = Some (c, fskit_of (read_slice content offset (ucast len)))"
    using False node by (simp add: fskit_read_def vfs_read_def fetch_file_bytes_def)
  have off: "unat offset < 2 ^ 63" using False nonneg_sint_bound [of offset] by simp
  have cnt: "unat (ucast len :: u32) = unat len mod 2 ^ 32"
    by (simp add: unsigned_ucast_eq take_bit_eq_mod)
  moreover have "unat len mod 2 ^ 32 < 2 ^ 32" by simp
  ultimately have "\<not> 2 ^ 64 \<le> unat offset + unat (ucast len :: u32)" using off by simp
  then have "read_slice content offset (ucast len) = Ok (take (unat len mod 2 ^ 32) (drop (unat offset) content))"
    using read_slice_value [of content offset "ucast len"] small cnt by simp
  then show ?thesis using run False by simp
qed (simp add: fskit_read_def)


definition demo_inline :: vfs where
  "demo_inline = \<lparr> next_id = 3, nodes = [(2, \<lparr> node_id = 2, node_parent = 1, node_name = ''b'',
     node_kind = NodeKind_File (from_sha1_hex ''dd0'') 5 False (Some ''hello'') \<rparr>)], dir_cache = [], dir_children = [] \<rparr>"

theorem fskit_read_exact_witness:
  "fskit_read list_lhm good_io broken_provider 3 0 (2 ^ 32) demo_inline demo_cache = Some (demo_cache, Ok [])
   \<and> fskit_read list_lhm good_io broken_provider 3 1 3 demo_inline demo_cache = Some (demo_cache, Ok ''ell'')"
proof -
  let ?n = "\<lparr> node_id = 2, node_parent = 1, node_name = ''b'',
     node_kind = NodeKind_File (from_sha1_hex ''dd0'') 5 False (Some ''hello'') \<rparr> :: node"
  have n: "map_of (nodes demo_inline) 2 = Some ?n" by (simp add: demo_inline_def)
  have three: "vfs_to_fskit_inode 2 = 3" by (simp add: vfs_to_fskit_inode_def sat_add_def)
  have s: "\<not> sint (0 :: u64) < 0" "\<not> sint (2 ^ 32 :: u64) < 0" "\<not> sint (1 :: u64) < 0" "\<not> sint (3 :: u64) < 0"
    by simp_all
  have u: "unat (2 ^ 32 :: u64) mod 2 ^ 32 = 0" "unat (3 :: u64) mod 2 ^ 32 = 3" "unat (1 :: u64) = 1" by simp_all
  have len: "length ''hello'' < 2 ^ 63" "(0 :: u64) < 2" "(2 :: u64) < 2 ^ 64 - 1" by simp_all
  have k: "node_kind ?n = NodeKind_File (from_sha1_hex ''dd0'') 5 False (Some ''hello'')" by simp
  note R = fskit_read_exact [OF n k len(2,3,1), where L = list_lhm and io = good_io and p = broken_provider and c = demo_cache,
      unfolded three]
  have "drop 1 ''hello'' = ''ello''" by simp
  then show ?thesis unfolding R using s u by simp
qed

section \<open>The two adapters agree\<close>

fun errno_of_nfs :: "nfsstat3 \<Rightarrow> errno" where
  "errno_of_nfs NFS3ERR_NOENT = ENOENT"
| "errno_of_nfs NFS3ERR_NOTDIR = ENOTDIR"
| "errno_of_nfs NFS3ERR_ISDIR = EISDIR"
| "errno_of_nfs NFS3ERR_INVAL = EINVAL"
| "errno_of_nfs NFS3ERR_ROFS = EROFS"
| "errno_of_nfs NFS3ERR_IO = EIO"
| "errno_of_nfs NFS3ERR_JUKEBOX = EAGAIN"

lemma errno_of_nfs_vfs [simp]: "errno_of_nfs (vfs_err_to_nfs e) = vfs_err_to_fskit e"
  by (cases e) simp_all

fun item_type_of_nfs :: "ftype3 \<Rightarrow> item_type" where
  "item_type_of_nfs NF3REG = ItemType_File"
| "item_type_of_nfs NF3DIR = ItemType_Directory"
| "item_type_of_nfs NF3LNK = ItemType_Symlink"

text \<open>All that both sides report of a node, its number and its owner apart.\<close>

definition same_attributes :: "fattr3 \<Rightarrow> item_attributes \<Rightarrow> bool" where
  "same_attributes fa it \<longleftrightarrow> item_type_of_nfs (fa_ftype fa) = it_type it \<and> fa_mode fa = it_mode it
     \<and> fa_nlink fa = it_link_count it \<and> fa_size fa = it_size it \<and> fa_used fa = it_alloc_size it"

lemma attrs_agree:
  "a = node_to_attr n \<Longrightarrow> same_attributes (attr_to_fattr3 a) (node_attr_to_item_attributes ids a)
     \<and> fa_fileid (attr_to_fattr3 a) = na_inode a \<and> fa_uid (attr_to_fattr3 a) = 0 \<and> fa_gid (attr_to_fattr3 a) = 0"
  by (cases "node_kind n")
    (simp_all add: same_attributes_def attr_to_fattr3_def node_attr_to_item_attributes_def node_to_attr_def)

lemma vfs_lookup_answer:
  assumes inv: "vfs_inv s" and room: "dir_room parse_dir s" and run: "vfs_lookup p parse_dir d nm s = (s1, Ok (i, a))"
  shows "vfs_getattr i s1 = Ok a \<and> na_inode a = i"
proof -
  have inv1: "vfs_inv s1"
    using vfs_step_preserves [OF step_lookup [OF room run] inv] by blast
  have "\<exists>j. node_answer j s1 = Ok (i, a)"
    using run by (auto simp: vfs_lookup_def obind_eq_Ok split: if_splits option.splits prod.splits outcome.splits)
  then obtain n where n: "map_of (nodes s1) i = Some n" "a = node_to_attr n"
    by (auto simp: node_answer_def get_node_def omap_eq_Ok ok_or_eq_Ok)
  then have "node_id n = i" using core_node [OF inv_core [OF inv1]] by blast
  then show ?thesis using n by (auto simp: vfs_getattr_def get_node_def node_to_attr_def split: node_kind.split)
qed

text \<open>
  C23. Whatever is mounted through NFS looks the same through FSKit: a lookup of the same name in the
  corresponding directory leaves the same filesystem behind, both succeed or both fail with corresponding
  codes (a rate limit is retryable on both sides, never an I/O error), and what is found has corresponding
  numbers and the same type, mode, link count, size and allocated size. The owner is not the same: NFS
  reports user and group 0, FSKit those of the process.
\<close>

theorem adapters_agree:
  assumes inv: "vfs_inv s" and room: "dir_room parse_dir s" and d: "0 < d" "d < 2 ^ 64 - 1"
    and nfs: "nfs_lookup p parse_dir d nm s = (s1, r)"
    and fskit: "lookup_item ids p parse_dir nm (vfs_to_fskit_inode d) s = (s2, q)"
  shows "s1 = s2 \<and> (case (r, q) of
     (Ok i, Ok it) \<Rightarrow> it_file_id (item_attrs it) = vfs_to_fskit_inode i \<and> item_name it = nm
       \<and> it_uid (item_attrs it) = proc_uid ids \<and> it_gid (item_attrs it) = proc_gid ids
       \<and> (\<exists>fa. nfs_getattr i s1 = Ok fa \<and> fa_fileid fa = i \<and> same_attributes fa (item_attrs it)
           \<and> fa_uid fa = 0 \<and> fa_gid fa = 0)
   | (Err e, Err f) \<Rightarrow> f = errno_of_nfs e
   | (Panic, Panic) \<Rightarrow> True
   | _ \<Rightarrow> False)"
proof (cases "utf8_ok nm")
  case True
  obtain t v where run: "vfs_lookup p parse_dir d nm s = (t, v)" by (cases "vfs_lookup p parse_dir d nm s")
  have s12: "s1 = t" "s2 = t" "r = nfs_of (omap fst v)" "q = fskit_of (omap (\<lambda>(_, a). make_item ids nm a) v)"
    using nfs fskit run True there_and_back [OF d] by (auto simp: nfs_lookup_def lookup_item_def)
  show ?thesis
  proof (cases v)
    case (Ok x)
    obtain i a where x: "x = (i, a)" by (cases x)
    have "vfs_getattr i t = Ok a" "na_inode a = i"
      using vfs_lookup_answer [OF inv room] run Ok x by simp_all
    moreover have "\<exists>n. a = node_to_attr n"
      using calculation(1) by (auto simp: vfs_getattr_def omap_eq_Ok)
    then obtain n where "a = node_to_attr n" by blast
    note attrs_agree [of a n ids, OF this]
    ultimately show ?thesis using s12 Ok x by (simp add: nfs_getattr_def make_item_def) (simp add: node_attr_to_item_attributes_def)
  qed (use s12 in auto)
qed (use nfs fskit in \<open>auto simp: nfs_lookup_def lookup_item_def\<close>)

theorem adapters_agree_witness:
  "case lookup_item \<lparr> proc_uid = 501, proc_gid = 20 \<rparr> broken_provider demo_parse ''a'' 2 demo_vfs of
     (s2, q) \<Rightarrow> s2 = demo_vfs \<and> q = Err EAGAIN"
proof -
  have root: "vfs_to_fskit_inode 1 = 2" by (simp add: vfs_to_fskit_inode_def sat_add_def)
  have u: "utf8_ok ''a''" by code_simp
  have n: "nfs_lookup broken_provider demo_parse 1 ''a'' demo_vfs = (demo_vfs, Err NFS3ERR_JUKEBOX)"
  proof -
    have "vfs_lookup broken_provider demo_parse 1 ''a'' demo_vfs = (demo_vfs, Err (Vfs_RateLimited 7))"
      by (simp add: vfs_lookup_def ensure_populated_def demo_vfs_def fetch_and_parse_def broken_provider_def provider_err_to_vfs_def)
    then show ?thesis using u by (simp add: nfs_lookup_def)
  qed
  obtain s2 q where f: "lookup_item \<lparr> proc_uid = 501, proc_gid = 20 \<rparr> broken_provider demo_parse ''a'' (vfs_to_fskit_inode 1) demo_vfs = (s2, q)"
    by (cases "lookup_item \<lparr> proc_uid = 501, proc_gid = 20 \<rparr> broken_provider demo_parse ''a'' (vfs_to_fskit_inode 1) demo_vfs")
  have "unat (next_id demo_vfs) < 2 ^ 63" by (simp add: demo_ids)
  then show ?thesis
    using adapters_agree [OF demo_vfs_inv demo_room _ _ n f] f by (auto simp: root split: outcome.splits)
qed

end
