(* ===== verification/Rate_Limit.thy ===== *)
theory Rate_Limit
  imports Core_Types Utf8
begin

text \<open>
  Rate limits: the gauges and the classification of responses (\<open>crates/ctxfs-provider-common/src/rate_limit.rs\<close>)
  and the registries' fetch helper over them (\<open>http.rs\<close>). A header map has lower-case keys. A
  \<open>SystemTime\<close> is its nanoseconds since the epoch; its seconds are an \<open>i64\<close>, and adding past them panics.
\<close>

section \<open>Identities and gauges\<close>

type_synonym u16 = "16 word"
type_synonym system_time = nat
type_synonym headers = "(string \<times> string) list"

abbreviation (input) nanos :: nat where "nanos \<equiv> 1000000000"

datatype auth_kind = Anonymous | Pat string | GithubApp u64

record auth_identity =
  auth_host :: string
  auth_kind :: auth_kind

definition anonymous_identity :: "string \<Rightarrow> auth_identity" where
  "anonymous_identity h = \<lparr> auth_host = h, auth_kind = Anonymous \<rparr>"

text \<open>The first eight characters of a token: a header value, so characters are bytes.\<close>

definition pat_identity :: "string \<Rightarrow> string \<Rightarrow> auth_identity" where
  "pat_identity h token = \<lparr> auth_host = h, auth_kind = Pat (take 8 token) \<rparr>"

datatype throttle_state = ThrottleNone | ThrottleActive system_time

record rate_limit_gauge =
  rl_limit :: "u64 option"
  rl_remaining :: "u64 option"
  rl_reset_at :: "system_time option"
  rl_secondary :: throttle_state

definition gauge_unknown :: rate_limit_gauge where
  "gauge_unknown = \<lparr> rl_limit = None, rl_remaining = None, rl_reset_at = None, rl_secondary = ThrottleNone \<rparr>"

definition system_time_add :: "system_time \<Rightarrow> u64 \<Rightarrow> system_time option" where
  "system_time_add t secs =
     (let r = t + unat secs * nanos in if r div nanos < 2 ^ 63 then Some r else None)"

definition header_u64 :: "headers \<Rightarrow> string \<Rightarrow> u64 option" where
  "header_u64 hs k = Option.bind (map_of hs k) parse_u64"

definition update_from_headers :: "headers \<Rightarrow> rate_limit_gauge \<Rightarrow> rate_limit_gauge \<times> (unit, ctxfs_error) outcome" where
  "update_from_headers hs g =
     (let g1 = (case header_u64 hs ''x-ratelimit-limit'' of Some v \<Rightarrow> g\<lparr> rl_limit := Some v \<rparr> | None \<Rightarrow> g);
          g2 = (case header_u64 hs ''x-ratelimit-remaining'' of Some v \<Rightarrow> g1\<lparr> rl_remaining := Some v \<rparr> | None \<Rightarrow> g1)
      in case header_u64 hs ''x-ratelimit-reset'' of
           None \<Rightarrow> (g2, Ok ())
         | Some secs \<Rightarrow>
             (case system_time_add 0 secs of
                Some t \<Rightarrow> (g2\<lparr> rl_reset_at := Some t \<rparr>, Ok ())
              | None \<Rightarrow> (g2, Panic)))"

definition set_secondary_throttle :: "system_time \<Rightarrow> u64 \<Rightarrow> rate_limit_gauge \<Rightarrow> rate_limit_gauge \<times> (unit, ctxfs_error) outcome" where
  "set_secondary_throttle now retry_after g =
     (case system_time_add now retry_after of
        Some t \<Rightarrow> (g\<lparr> rl_secondary := ThrottleActive t \<rparr>, Ok ())
      | None \<Rightarrow> (g, Panic))"

definition clear_expired_throttle :: "system_time \<Rightarrow> rate_limit_gauge \<Rightarrow> rate_limit_gauge" where
  "clear_expired_throttle now g =
     (case rl_secondary g of
        ThrottleActive t \<Rightarrow> if t \<le> now then g\<lparr> rl_secondary := ThrottleNone \<rparr> else g
      | ThrottleNone \<Rightarrow> g)"

section \<open>Classification\<close>

datatype resource_class = Core | Search | CodeSearch | Graphql | OtherClass string

definition resource_class_parse :: "string \<Rightarrow> resource_class" where
  "resource_class_parse s =
     (if s = ''core'' then Core else if s = ''search'' then Search
      else if s = ''code_search'' then CodeSearch else if s = ''graphql'' then Graphql else OtherClass s)"

definition resource_of :: "headers \<Rightarrow> resource_class" where
  "resource_of hs =
     (case map_of hs ''x-ratelimit-resource'' of Some s \<Rightarrow> resource_class_parse s | None \<Rightarrow> OtherClass ''unknown'')"

datatype rate_limit_verdict =
    VerdictOk resource_class
  | PrimaryExhausted system_time resource_class
  | SecondaryThrottle u64 resource_class
  | VerdictOther u16

definition success_status :: "u16 \<Rightarrow> bool" where
  "success_status st \<longleftrightarrow> 200 \<le> st \<and> st < 300"

definition classify :: "u16 \<Rightarrow> headers \<Rightarrow> (rate_limit_verdict, ctxfs_error) outcome" where
  "classify st hs =
     (let resource = resource_of hs;
          rest = (if success_status st then Ok (VerdictOk resource) else Ok (VerdictOther st))
      in case (if st = 429 \<or> st = 403 then header_u64 hs ''retry-after'' else None) of
           Some secs \<Rightarrow> Ok (SecondaryThrottle secs resource)
         | None \<Rightarrow>
             (case header_u64 hs ''x-ratelimit-remaining'' of
                Some remaining \<Rightarrow>
                  if remaining = 0 \<and> \<not> success_status st then
                    (case header_u64 hs ''x-ratelimit-reset'' of
                       Some reset_secs \<Rightarrow>
                         (case system_time_add 0 reset_secs of
                            Some t \<Rightarrow> Ok (PrimaryExhausted t resource)
                          | None \<Rightarrow> Panic)
                     | None \<Rightarrow> rest)
                  else rest
              | None \<Rightarrow> rest))"

section \<open>Registry requests\<close>

text \<open>
  A response: its status, its headers (a value that is not text is \<open>None\<close>) and its body as JSON or the
  parse error. Sending fails with a message. Header names and the validity of header values are the HTTP
  library's; \<open>status_text\<close> prints a status.
\<close>

record 'j response =
  resp_status :: u16
  resp_headers :: "(string \<times> string option) list"
  resp_json :: "'j + string"

definition response_headers_map :: "'j response \<Rightarrow> headers" where
  "response_headers_map r =
     foldl (\<lambda>m (k, v). case v of Some s \<Rightarrow> AList.update (map ascii_lower k) s m | None \<Rightarrow> m) [] (resp_headers r)"

definition bearer_header :: "(string \<Rightarrow> string option) \<Rightarrow> string \<Rightarrow> string option" where
  "bearer_header header_value token = (if token = [] then None else header_value (''Bearer '' @ token))"

definition insert_bearer_header :: "(string \<Rightarrow> string option) \<Rightarrow> string option \<Rightarrow> headers \<Rightarrow> headers" where
  "insert_bearer_header header_value token hs =
     (case token of
        None \<Rightarrow> hs
      | Some t \<Rightarrow>
          (case bearer_header header_value t of
             Some hv \<Rightarrow> AList.update ''authorization'' hv hs
           | None \<Rightarrow> hs))"

abbreviation DEFAULT_RETRY_AFTER_SECS :: u64 where "DEFAULT_RETRY_AFTER_SECS \<equiv> 60"

definition fetch_registry_json ::
  "(u16 \<Rightarrow> string) \<Rightarrow> ('j response + string) \<Rightarrow> string \<Rightarrow> string \<Rightarrow> 'j ctxfs_result" where
  "fetch_registry_json status_text sent registry not_found_label =
     (case sent of
        Inr e \<Rightarrow> Err (Provider (registry @ '' request failed: '' @ e))
      | Inl r \<Rightarrow>
          (let st = resp_status r; hs = response_headers_map r in
           obind (classify st hs) (\<lambda>_.
             if st = 404 then Err (NotFound not_found_label)
             else if st = 429 then
               Err (RateLimited (case header_u64 hs ''retry-after'' of Some s \<Rightarrow> s | None \<Rightarrow> DEFAULT_RETRY_AFTER_SECS))
             else if \<not> success_status st then Err (Provider (registry @ '' returned '' @ status_text st))
             else (case resp_json r of
                 Inl j \<Rightarrow> Ok j
               | Inr e \<Rightarrow> Err (Provider (''failed to parse '' @ registry @ '' response: '' @ e))))))"

section \<open>What a classification says\<close>

text \<open>
  The classification is complete and ordered: a throttled response (429 or 403 with a delay) is a
  secondary throttle even when quota remains; an exhausted quota with a reset time is primary exhaustion
  exactly on a failure that is not such a throttle; a success is never anything but fine. It panics exactly
  when an exhausted quota's reset time is past what a system time can hold.
\<close>

theorem classify_exact:
  "let throttled = ((st = 429 \<or> st = 403) \<and> header_u64 hs ''retry-after'' \<noteq> None);
       exhausted = (\<not> success_status st \<and> header_u64 hs ''x-ratelimit-remaining'' = Some 0
                      \<and> header_u64 hs ''x-ratelimit-reset'' \<noteq> None)
   in classify st hs =
     (if throttled then Ok (SecondaryThrottle (the (header_u64 hs ''retry-after'')) (resource_of hs))
      else if exhausted then
        (let reset = unat (the (header_u64 hs ''x-ratelimit-reset'')) in
         if reset < 2 ^ 63 then Ok (PrimaryExhausted (reset * nanos) (resource_of hs)) else Panic)
      else if success_status st then Ok (VerdictOk (resource_of hs)) else Ok (VerdictOther st))"
  unfolding classify_def Let_def
  by (cases "header_u64 hs ''retry-after''"; cases "header_u64 hs ''x-ratelimit-remaining''";
      cases "header_u64 hs ''x-ratelimit-reset''"; simp add: system_time_add_def Let_def)

end
