(* ===== verification/Observability.thy ===== *)
theory Observability
  imports Rate_Limit
begin

text \<open>
  The daemon's telemetry: \<open>counters.rs\<close>, \<open>observability.rs\<close> and \<open>status.rs\<close> of
  \<open>crates/ctxfs-provider-common\<close>. The two \<open>DashMap\<close>s are association lists; each atomic counter is a
  word, and \<open>fetch_add\<close> wraps. The floating-point division of the hit ratio is an argument.
\<close>

section \<open>Counters\<close>

abbreviation PLACEHOLDER_COMMIT_PREFIX :: string where
  "PLACEHOLDER_COMMIT_PREFIX \<equiv> ''<resolving:''"

record counter_key =
  ck_source :: string
  ck_repo :: string
  ck_commit :: string
  ck_mount_id :: string

abbreviation LFS_SAMPLE_CAP :: nat where "LFS_SAMPLE_CAP \<equiv> 3"

definition sample_push :: "string \<Rightarrow> string list \<Rightarrow> string list" where
  "sample_push path v =
     (if LFS_SAMPLE_CAP \<le> length v then v
      else if path \<notin> set v then v @ [path] else v)"

record mount_counters =
  rest_calls_total :: u64
  http_transfers_total :: u64
  bytes_total :: u64
  throttle_events :: u64
  prefetch_hits :: u64
  prefetch_failures :: u64
  prefetch_skipped_oversized :: u64
  tarball_digest_mismatch :: u64
  tarball_invalid_entries :: u64
  truncated_tree_fallbacks :: u64
  cache_hits :: u64
  cache_misses :: u64
  lfs_pointer_files :: u64
  lfs_samples :: "string list"

record counter_snapshot =
  snap_rest_calls_total :: u64
  snap_http_transfers_total :: u64
  snap_bytes_total :: u64
  snap_throttle_events :: u64
  snap_prefetch_hits :: u64
  snap_prefetch_failures :: u64
  snap_prefetch_skipped_oversized :: u64
  snap_tarball_digest_mismatch :: u64
  snap_tarball_invalid_entries :: u64
  snap_truncated_tree_fallbacks :: u64
  snap_cache_hits :: u64
  snap_cache_misses :: u64
  snap_lfs_pointer_files :: u64
  snap_lfs_pointer_sample_paths :: "string list"

definition counters_new :: mount_counters where
  "counters_new =
     \<lparr> rest_calls_total = 0, http_transfers_total = 0, bytes_total = 0, throttle_events = 0, prefetch_hits = 0,
       prefetch_failures = 0, prefetch_skipped_oversized = 0, tarball_digest_mismatch = 0,
       tarball_invalid_entries = 0, truncated_tree_fallbacks = 0, cache_hits = 0, cache_misses = 0,
       lfs_pointer_files = 0, lfs_samples = [] \<rparr>"

text \<open>One \<open>record_*\<close> call.\<close>

datatype counter_event =
    RestCall
  | HttpTransfer
  | BytesTransferred u64
  | ThrottleEvent
  | PrefetchHit
  | PrefetchHits u64
  | PrefetchFailure
  | PrefetchSkippedOversized
  | TarballDigestMismatch
  | TarballInvalidEntries
  | TruncatedTreeFallback
  | CacheHit
  | CacheMiss
  | LfsPointerWithPath string

fun record_event :: "counter_event \<Rightarrow> mount_counters \<Rightarrow> mount_counters" where
  "record_event RestCall c = c\<lparr> rest_calls_total := rest_calls_total c + 1 \<rparr>"
| "record_event HttpTransfer c = c\<lparr> http_transfers_total := http_transfers_total c + 1 \<rparr>"
| "record_event (BytesTransferred n) c = c\<lparr> bytes_total := bytes_total c + n \<rparr>"
| "record_event ThrottleEvent c = c\<lparr> throttle_events := throttle_events c + 1 \<rparr>"
| "record_event PrefetchHit c = c\<lparr> prefetch_hits := prefetch_hits c + 1 \<rparr>"
| "record_event (PrefetchHits n) c = c\<lparr> prefetch_hits := prefetch_hits c + n \<rparr>"
| "record_event PrefetchFailure c = c\<lparr> prefetch_failures := prefetch_failures c + 1 \<rparr>"
| "record_event PrefetchSkippedOversized c = c\<lparr> prefetch_skipped_oversized := prefetch_skipped_oversized c + 1 \<rparr>"
| "record_event TarballDigestMismatch c = c\<lparr> tarball_digest_mismatch := tarball_digest_mismatch c + 1 \<rparr>"
| "record_event TarballInvalidEntries c = c\<lparr> tarball_invalid_entries := tarball_invalid_entries c + 1 \<rparr>"
| "record_event TruncatedTreeFallback c = c\<lparr> truncated_tree_fallbacks := truncated_tree_fallbacks c + 1 \<rparr>"
| "record_event CacheHit c = c\<lparr> cache_hits := cache_hits c + 1 \<rparr>"
| "record_event CacheMiss c = c\<lparr> cache_misses := cache_misses c + 1 \<rparr>"
| "record_event (LfsPointerWithPath p) c =
     c\<lparr> lfs_pointer_files := lfs_pointer_files c + 1, lfs_samples := sample_push p (lfs_samples c) \<rparr>"

definition merge_from_snapshot :: "counter_snapshot \<Rightarrow> mount_counters \<Rightarrow> mount_counters" where
  "merge_from_snapshot s c =
     \<lparr> rest_calls_total = rest_calls_total c + snap_rest_calls_total s,
       http_transfers_total = http_transfers_total c + snap_http_transfers_total s,
       bytes_total = bytes_total c + snap_bytes_total s,
       throttle_events = throttle_events c + snap_throttle_events s,
       prefetch_hits = prefetch_hits c + snap_prefetch_hits s,
       prefetch_failures = prefetch_failures c + snap_prefetch_failures s,
       prefetch_skipped_oversized = prefetch_skipped_oversized c + snap_prefetch_skipped_oversized s,
       tarball_digest_mismatch = tarball_digest_mismatch c + snap_tarball_digest_mismatch s,
       tarball_invalid_entries = tarball_invalid_entries c + snap_tarball_invalid_entries s,
       truncated_tree_fallbacks = truncated_tree_fallbacks c + snap_truncated_tree_fallbacks s,
       cache_hits = cache_hits c + snap_cache_hits s,
       cache_misses = cache_misses c + snap_cache_misses s,
       lfs_pointer_files = lfs_pointer_files c + snap_lfs_pointer_files s,
       lfs_samples = foldl (\<lambda>v p. sample_push p v) (lfs_samples c) (snap_lfs_pointer_sample_paths s) \<rparr>"

definition counters_snapshot :: "mount_counters \<Rightarrow> counter_snapshot" where
  "counters_snapshot c =
     \<lparr> snap_rest_calls_total = rest_calls_total c, snap_http_transfers_total = http_transfers_total c,
       snap_bytes_total = bytes_total c, snap_throttle_events = throttle_events c,
       snap_prefetch_hits = prefetch_hits c, snap_prefetch_failures = prefetch_failures c,
       snap_prefetch_skipped_oversized = prefetch_skipped_oversized c,
       snap_tarball_digest_mismatch = tarball_digest_mismatch c,
       snap_tarball_invalid_entries = tarball_invalid_entries c,
       snap_truncated_tree_fallbacks = truncated_tree_fallbacks c, snap_cache_hits = cache_hits c,
       snap_cache_misses = cache_misses c, snap_lfs_pointer_files = lfs_pointer_files c,
       snap_lfs_pointer_sample_paths = lfs_samples c \<rparr>"

section \<open>The registry\<close>

record observability =
  gauges :: "((auth_identity \<times> resource_class) \<times> rate_limit_gauge) list"
  counters :: "(counter_key \<times> mount_counters) list"

definition observability_new :: observability where
  "observability_new = \<lparr> gauges = [], counters = [] \<rparr>"

text \<open>
  \<open>counters_for\<close> gives a shared handle on the bucket, made when absent; a call through the handle is a
  change of the bucket. \<open>record_for\<close> is both: \<open>counters_for(key).record_*()\<close>.
\<close>

definition counters_for :: "counter_key \<Rightarrow> observability \<Rightarrow> observability \<times> mount_counters" where
  "counters_for key ob =
     (case map_of (counters ob) key of
        Some c \<Rightarrow> (ob, c)
      | None \<Rightarrow> (ob\<lparr> counters := AList.update key counters_new (counters ob) \<rparr>, counters_new))"

definition change_counters :: "(mount_counters \<Rightarrow> mount_counters) \<Rightarrow> counter_key \<Rightarrow> observability \<Rightarrow> observability" where
  "change_counters f key ob =
     (let (ob1, c) = counters_for key ob in ob1\<lparr> counters := AList.update key (f c) (counters ob1) \<rparr>)"

abbreviation record_for :: "counter_key \<Rightarrow> counter_event \<Rightarrow> observability \<Rightarrow> observability" where
  "record_for key ev \<equiv> change_counters (record_event ev) key"

definition gauge_for :: "auth_identity \<Rightarrow> resource_class \<Rightarrow> observability \<Rightarrow> rate_limit_gauge" where
  "gauge_for auth resource ob =
     (case map_of (gauges ob) (auth, resource) of Some g \<Rightarrow> g | None \<Rightarrow> gauge_unknown)"

definition update_gauge ::
  "auth_identity \<Rightarrow> resource_class \<Rightarrow> headers \<Rightarrow> observability \<Rightarrow> observability \<times> unit ctxfs_result" where
  "update_gauge auth resource hs ob =
     (let (g, r) = update_from_headers hs (gauge_for auth resource ob)
      in (ob\<lparr> gauges := AList.update (auth, resource) g (gauges ob) \<rparr>, r))"

definition mark_secondary_throttle ::
  "system_time \<Rightarrow> auth_identity \<Rightarrow> resource_class \<Rightarrow> u64 \<Rightarrow> observability \<Rightarrow> observability \<times> unit ctxfs_result" where
  "mark_secondary_throttle now auth resource retry_after ob =
     (let (g, r) = set_secondary_throttle now retry_after (gauge_for auth resource ob)
      in (ob\<lparr> gauges := AList.update (auth, resource) g (gauges ob) \<rparr>, r))"

definition merge_and_drop_placeholder :: "counter_key \<Rightarrow> counter_key \<Rightarrow> observability \<Rightarrow> observability" where
  "merge_and_drop_placeholder placeholder real ob =
     (case map_of (counters ob) placeholder of
        None \<Rightarrow> ob
      | Some ph \<Rightarrow>
          change_counters (merge_from_snapshot (counters_snapshot ph)) real
            (ob\<lparr> counters := AList.delete placeholder (counters ob) \<rparr>))"

section \<open>The status report\<close>

record budget_entry =
  be_host :: string
  be_auth_kind :: string
  be_resource_class :: string
  be_limit :: "u64 option"
  be_remaining :: "u64 option"
  be_reset_at_unix :: "u64 option"
  be_throttle_active_until_unix :: "u64 option"

record 'f mount_summary =
  ms_mount_id :: string
  ms_source :: string
  ms_repo :: string
  ms_commit :: string
  ms_rest_calls_total :: u64
  ms_bytes_total :: u64
  ms_prefetch_hits :: u64
  ms_cache_hit_ratio :: "'f option"
  ms_working_set_bytes :: u64
  ms_cache_reservation_bytes :: u64
  ms_lfs_pointer_files :: u64
  ms_lfs_pointer_sample_paths :: "string list"

record 'f status_report_v1 =
  schema_version :: u32
  budgets :: "budget_entry list"
  report_counters :: "(counter_key \<times> counter_snapshot) list"
  mounts :: "'f mount_summary list"
  cache_eviction_attempts_blocked_by_reservation :: u64

fun auth_kind_string :: "auth_kind \<Rightarrow> string" where
  "auth_kind_string Anonymous = ''anonymous''"
| "auth_kind_string (Pat token_id_prefix) = ''pat:'' @ token_id_prefix"
| "auth_kind_string (GithubApp n) = ''github_app:'' @ show_nat (unat n)"

fun resource_class_string :: "resource_class \<Rightarrow> string" where
  "resource_class_string Core = ''core''"
| "resource_class_string Search = ''search''"
| "resource_class_string CodeSearch = ''code_search''"
| "resource_class_string Graphql = ''graphql''"
| "resource_class_string (OtherClass s) = ''other:'' @ s"

definition unix_secs :: "system_time \<Rightarrow> u64" where
  "unix_secs t = of_nat (t div nanos)"

definition budget_of :: "auth_identity \<times> resource_class \<Rightarrow> rate_limit_gauge \<Rightarrow> budget_entry" where
  "budget_of k g =
     \<lparr> be_host = auth_host (fst k), be_auth_kind = auth_kind_string (auth_kind (fst k)),
       be_resource_class = resource_class_string (snd k), be_limit = rl_limit g, be_remaining = rl_remaining g,
       be_reset_at_unix = map_option unix_secs (rl_reset_at g),
       be_throttle_active_until_unix =
         (case rl_secondary g of ThrottleNone \<Rightarrow> None | ThrottleActive until \<Rightarrow> Some (unix_secs until)) \<rparr>"

definition summary_of :: "(u64 \<Rightarrow> u64 \<Rightarrow> 'f) \<Rightarrow> counter_key \<times> counter_snapshot \<Rightarrow> 'f mount_summary" where
  "summary_of div_f64 e =
     (let (k, s) = e; total_cache_ops = snap_cache_hits s + snap_cache_misses s
      in \<lparr> ms_mount_id = ck_mount_id k, ms_source = ck_source k, ms_repo = ck_repo k, ms_commit = ck_commit k,
           ms_rest_calls_total = snap_rest_calls_total s, ms_bytes_total = snap_bytes_total s,
           ms_prefetch_hits = snap_prefetch_hits s,
           ms_cache_hit_ratio =
             (if 0 < total_cache_ops then Some (div_f64 (snap_cache_hits s) total_cache_ops) else None),
           ms_working_set_bytes = 0, ms_cache_reservation_bytes = 0,
           ms_lfs_pointer_files = snap_lfs_pointer_files s,
           ms_lfs_pointer_sample_paths = snap_lfs_pointer_sample_paths s \<rparr>)"

definition status_report :: "(u64 \<Rightarrow> u64 \<Rightarrow> 'f) \<Rightarrow> observability \<Rightarrow> 'f status_report_v1" where
  "status_report div_f64 ob =
     (let cs = map (\<lambda>(k, c). (k, counters_snapshot c)) (counters ob);
          shown = filter (\<lambda>(k, _). \<not> starts_with PLACEHOLDER_COMMIT_PREFIX (ck_commit k)) cs
      in \<lparr> schema_version = 1, budgets = map (\<lambda>(k, g). budget_of k g) (gauges ob), report_counters = cs,
           mounts = sort_key (\<lambda>m. - uint (ms_rest_calls_total m)) (map (summary_of div_f64) shown),
           cache_eviction_attempts_blocked_by_reservation = 0 \<rparr>)"

section \<open>What the placeholder bucket counted is not lost\<close>

definition counter_fields :: "(mount_counters \<Rightarrow> u64) list" where
  "counter_fields =
     [rest_calls_total, http_transfers_total, bytes_total, throttle_events, prefetch_hits, prefetch_failures,
      prefetch_skipped_oversized, tarball_digest_mismatch, tarball_invalid_entries, truncated_tree_fallbacks,
      cache_hits, cache_misses, lfs_pointer_files]"

abbreviation total_of :: "(mount_counters \<Rightarrow> u64) \<Rightarrow> observability \<Rightarrow> u64" where
  "total_of f ob \<equiv> sum_list (map (\<lambda>p. f (snd p)) (counters ob))"

lemma field_merge: "f \<in> set counter_fields \<Longrightarrow> f (merge_from_snapshot (counters_snapshot a) b) = f b + f a"
  by (auto simp: counter_fields_def merge_from_snapshot_def counters_snapshot_def)

lemma field_new: "f \<in> set counter_fields \<Longrightarrow> f counters_new = 0"
  by (auto simp: counter_fields_def counters_new_def)

lemma sum_update:
  fixes g :: "'v \<Rightarrow> 'a::comm_monoid_add"
  assumes "distinct (keys_of m)"
  shows "sum_list (map (\<lambda>p. g (snd p)) (AList.update k v m)) + (case map_of m k of Some w \<Rightarrow> g w | None \<Rightarrow> 0)
    = sum_list (map (\<lambda>p. g (snd p)) m) + g v"
  using assms
proof (induction m)
  case (Cons p m)
  obtain a b where p: "p = (a, b)" by (cases p)
  show ?case
  proof (cases "k = a")
    case True
    then have "k \<notin> set (keys_of m)" using Cons.prems p by simp
    then show ?thesis using True p by (simp add: ac_simps)
  next
    case False
    have "distinct (keys_of m)" using Cons.prems by simp
    then show ?thesis using Cons.IH False p by (simp add: add.assoc)
  qed
qed simp

lemma sum_delete:
  fixes g :: "'v \<Rightarrow> 'a::comm_monoid_add"
  assumes "distinct (keys_of m)" "map_of m k = Some w"
  shows "sum_list (map (\<lambda>p. g (snd p)) (AList.delete k m)) + g w = sum_list (map (\<lambda>p. g (snd p)) m)"
  using assms
proof (induction m)
  case (Cons p m)
  obtain a b where p: "p = (a, b)" by (cases p)
  show ?case
  proof (cases "k = a")
    case True
    then have "k \<notin> set (keys_of m)" using Cons.prems p by simp
    then have "AList.delete k m = m" by (force simp: AList.delete_eq filter_id_conv image_iff)
    then show ?thesis using True p Cons.prems(2) by (simp add: ac_simps)
  next
    case False
    then show ?thesis using Cons p by (simp add: add.assoc)
  qed
qed simp

lemma change_counters_total:
  assumes "distinct (keys_of (counters ob))" and "\<And>c. f (h c) = f c + d" and "f counters_new = 0"
  shows "total_of f (change_counters h key ob) = total_of f ob + d"
proof (cases "map_of (counters ob) key")
  case None
  then have "key \<notin> set (keys_of (counters ob))" by (simp add: map_of_eq_None_iff)
  then have "AList.update key (h counters_new) (AList.update key counters_new (counters ob)) =
      AList.update key (h counters_new) (counters ob)" by simp
  then show ?thesis using None sum_update [OF assms(1), of f key "h counters_new"] assms(2,3)
    by (simp add: change_counters_def counters_for_def)
next
  case (Some c)
  then show ?thesis using sum_update [OF assms(1), of f key "h c"] assms(2)
    by (simp add: change_counters_def counters_for_def algebra_simps)
qed

lemma keys_change [simp]: "set (keys_of (counters (change_counters h key ob))) = insert key (set (keys_of (counters ob)))"
  by (auto simp: change_counters_def counters_for_def split: option.split)

lemma change_other: "k \<noteq> key \<Longrightarrow> map_of (counters (change_counters h key ob)) k = map_of (counters ob) k"
  by (auto simp: change_counters_def counters_for_def AList.update_conv' split: option.split)

text \<open>
  Folding the bucket of a placeholder into the bucket of the resolved commit loses no count: every
  counter summed over all buckets stays the same (modulo \<open>2^64\<close>), the placeholder's bucket is gone, and
  the buckets of the other mounts are as before.
\<close>

theorem merge_conserves_counts:
  assumes "distinct (keys_of (counters ob))" and "placeholder \<noteq> real"
    and "ob' = merge_and_drop_placeholder placeholder real ob"
  shows "(\<forall>f\<in>set counter_fields. total_of f ob' = total_of f ob)
    \<and> map_of (counters ob') placeholder = None
    \<and> (\<forall>k. k \<noteq> placeholder \<and> k \<noteq> real \<longrightarrow> map_of (counters ob') k = map_of (counters ob) k)"
proof (cases "map_of (counters ob) placeholder")
  case None
  then show ?thesis using assms(3) by (simp add: merge_and_drop_placeholder_def)
next
  case (Some ph)
  let ?ob1 = "ob\<lparr> counters := AList.delete placeholder (counters ob) \<rparr>"
  have ob': "ob' = change_counters (merge_from_snapshot (counters_snapshot ph)) real ?ob1"
    using assms(3) Some by (simp add: merge_and_drop_placeholder_def)
  have dist: "distinct (keys_of (counters ?ob1))" using assms(1) by simp
  have "total_of f ob' = total_of f ob" if f: "f \<in> set counter_fields" for f
    using change_counters_total [OF dist field_merge [OF f] field_new [OF f]] sum_delete [OF assms(1) Some, of f]
    by (simp add: ob')
  moreover have "placeholder \<notin> set (keys_of (counters ob'))" using assms(2) unfolding ob' keys_change by auto
  then have "map_of (counters ob') placeholder = None" by (simp add: map_of_eq_None_iff)
  moreover have "map_of (counters ob') k = map_of (counters ob) k" if "k \<noteq> placeholder" "k \<noteq> real" for k
    using that unfolding ob' by (simp add: change_other AList.delete_conv')
  ultimately show ?thesis by blast
qed

definition demo_counter_key :: "string \<Rightarrow> counter_key" where
  "demo_counter_key commit =
     \<lparr> ck_source = ''github'', ck_repo = ''o/r'', ck_commit = commit, ck_mount_id = ''github:o/r@main'' \<rparr>"

theorem merge_conserves_counts_witness:
  "let ob = record_for (demo_counter_key ''<resolving:main>'') RestCall observability_new;
       ob' = merge_and_drop_placeholder (demo_counter_key ''<resolving:main>'') (demo_counter_key ''abc'') ob
   in total_of rest_calls_total ob' = 1 \<and> map_of (counters ob') (demo_counter_key ''<resolving:main>'') = None"
proof -
  let ?ph = "demo_counter_key ''<resolving:main>''"
  let ?ob = "record_for ?ph RestCall observability_new"
  have dist: "distinct (keys_of (counters ?ob))"
    by (simp add: change_counters_def counters_for_def observability_new_def)
  have neq: "?ph \<noteq> demo_counter_key ''abc''" by (simp add: demo_counter_key_def)
  have "total_of rest_calls_total ?ob = 1"
    by (simp add: change_counters_def counters_for_def observability_new_def counters_new_def)
  moreover have "rest_calls_total \<in> set counter_fields" by (simp add: counter_fields_def)
  ultimately show ?thesis using merge_conserves_counts [OF dist neq refl] by (simp add: Let_def)
qed

end
