(* ===== verification/Provider_Common.thy ===== *)
theory Provider_Common
  imports Core_Types Utf8 Source_Spec
begin

text \<open>
  What every provider shares (\<open>crates/ctxfs-provider-common/src\<close>): the detection of Git LFS pointers
  (\<open>lfs.rs\<close>), repository URLs of package metadata (\<open>repo_url.rs\<close>), and the content requests, prefetch
  policy and singleflight registry of \<open>fetcher.rs\<close>.
\<close>

section \<open>LFS pointers\<close>

record lfs_pointer_info =
  oid_sha256 :: string
  lfs_size :: u64

abbreviation newline :: char where "newline \<equiv> CHR 0x0A"

definition LFS_VERSION_LINE :: string where
  "LFS_VERSION_LINE = ''version https://git-lfs.github.com/spec/v1''"

definition is_ascii_hexdigit :: "char \<Rightarrow> bool" where
  "is_ascii_hexdigit c \<longleftrightarrow> is_digit c \<or> (CHR ''a'' \<le> c \<and> c \<le> CHR ''f'') \<or> (CHR ''A'' \<le> c \<and> c \<le> CHR ''F'')"

definition detect_lfs_pointer :: "bytes \<Rightarrow> lfs_pointer_info option" where
  "detect_lfs_pointer b =
     (if b = [] \<or> 1024 < length b \<or> \<not> utf8_ok b then None
      else (case split_on newline b of
        [v_line, o_line, s_line, trailer] \<Rightarrow>
          if trailer \<noteq> [] \<or> v_line \<noteq> LFS_VERSION_LINE then None
          else Option.bind (strip_prefix ''oid sha256:'' o_line) (\<lambda>oid.
            if length oid \<noteq> 64 \<or> \<not> list_all is_ascii_hexdigit oid then None
            else Option.bind (strip_prefix ''size '' s_line) (\<lambda>size_str.
              map_option (\<lambda>n. \<lparr> oid_sha256 = oid, lfs_size = n \<rparr>) (parse_u64 size_str)))
      | _ \<Rightarrow> None))"

text \<open>The pointer file of an object.\<close>

definition lfs_pointer_text :: "string \<Rightarrow> string \<Rightarrow> string" where
  "lfs_pointer_text oid size_str =
     LFS_VERSION_LINE @ [newline] @ ''oid sha256:'' @ oid @ [newline] @ ''size '' @ size_str @ [newline]"

lemma split_on_intersperse:
  "c \<notin> set a \<Longrightarrow> split_on c (a @ c # s) = a # split_on c s"
proof (induction a)
  case (Cons x a)
  then show ?case by (cases "split_on c s") auto
qed simp

lemma split_on_self: "c \<notin> set a \<Longrightarrow> split_on c a = [a]"
  by (induction a) auto

fun join_with :: "char \<Rightarrow> string list \<Rightarrow> string" where
  "join_with c [] = []"
| "join_with c [p] = p"
| "join_with c (p # q # ps) = p @ c # join_with c (q # ps)"

lemma join_split_on: "join_with c (split_on c s) = s"
proof (induction s)
  case (Cons x s)
  obtain p ps where "split_on c s = p # ps" using split_on_not_Nil [of c s] by (cases "split_on c s") auto
  then show ?case using Cons.IH by (cases ps) auto
qed simp

lemma ascii_of_digits: "list_all is_digit ds \<Longrightarrow> list_all (\<lambda>c. (of_char c :: nat) < 128 \<and> c \<noteq> newline) ds"
  by (induction ds) (auto simp: is_digit_def char_le_iff_nat)

lemma parse_u64_ascii:
  assumes "parse_u64 s = Some n"
  shows "list_all (\<lambda>c. (of_char c :: nat) < 128 \<and> c \<noteq> newline) s"
proof -
  have "\<exists>ds. list_all is_digit ds \<and> (s = ds \<or> s = CHR ''+'' # ds)"
    using assms by (cases s) (auto simp: parse_u64_def parse_uint_def Let_def split: if_splits)
  then show ?thesis using ascii_of_digits by auto
qed

lemma hexdigits_ascii: "list_all is_ascii_hexdigit h \<Longrightarrow> list_all (\<lambda>c. (of_char c :: nat) < 128 \<and> c \<noteq> newline) h"
  by (induction h) (auto simp: is_ascii_hexdigit_def is_digit_def char_le_iff_nat)

text \<open>
  A byte string is taken for an LFS pointer exactly when it is the pointer file of the object: the
  version line, the object's 64 hex digits and a size that parses, each line terminated and nothing after
  them, in at most 1024 bytes. The size may carry a leading plus sign or zeros.
\<close>

theorem lfs_pointer_exact:
  "(detect_lfs_pointer b = Some info)
    = (\<exists>size_str. b = lfs_pointer_text (oid_sha256 info) size_str \<and> length b \<le> 1024
         \<and> length (oid_sha256 info) = 64 \<and> list_all is_ascii_hexdigit (oid_sha256 info)
         \<and> parse_u64 size_str = Some (lfs_size info))" (is "?L = ?R")
proof
  assume L: ?L
  then obtain v ol sl tr where sp: "split_on newline b = [v, ol, sl, tr]" and len: "length b \<le> 1024"
    by (auto simp: detect_lfs_pointer_def split: if_splits list.splits)
  have "b = join_with newline [v, ol, sl, tr]" using join_split_on [of newline b] sp by simp
  moreover obtain ss where "v = LFS_VERSION_LINE" "tr = []" "ol = ''oid sha256:'' @ oid_sha256 info"
    "length (oid_sha256 info) = 64" "list_all is_ascii_hexdigit (oid_sha256 info)" "sl = ''size '' @ ss"
    "parse_u64 ss = Some (lfs_size info)"
    using L unfolding detect_lfs_pointer_def sp
    by (auto simp: bind_eq_Some_conv strip_prefix_Some split: if_splits)
  ultimately show ?R using len by (auto simp: lfs_pointer_text_def)
next
  assume ?R
  then obtain ss where b: "b = lfs_pointer_text (oid_sha256 info) ss" and len: "length b \<le> 1024"
    and oid: "length (oid_sha256 info) = 64" "list_all is_ascii_hexdigit (oid_sha256 info)"
    and ss: "parse_u64 ss = Some (lfs_size info)" by blast
  note asc = hexdigits_ascii [OF oid(2)] parse_u64_ascii [OF ss]
  have v: "list_all (\<lambda>c. (of_char c :: nat) < 128 \<and> c \<noteq> newline) LFS_VERSION_LINE" by code_simp
  have parts: "newline \<notin> set LFS_VERSION_LINE" "newline \<notin> set (''oid sha256:'' @ oid_sha256 info)" "newline \<notin> set (''size '' @ ss)"
    using v asc by (auto simp: list_all_iff)
  have "list_all (\<lambda>c. (of_char c :: nat) < 128) b"
    using v asc unfolding b lfs_pointer_text_def by (simp add: list_all_iff ball_Un)
  then have u: "utf8_ok b" by (rule utf8_ok_ascii)
  have "split_on newline b = [LFS_VERSION_LINE, ''oid sha256:'' @ oid_sha256 info, ''size '' @ ss, []]"
    unfolding b lfs_pointer_text_def
    using parts split_on_intersperse [of newline "LFS_VERSION_LINE"]
      split_on_intersperse [of newline "''oid sha256:'' @ oid_sha256 info"] split_on_intersperse [of newline "''size '' @ ss"]
    by simp
  moreover have "b \<noteq> []" unfolding b lfs_pointer_text_def by simp
  moreover have "strip_prefix ''oid sha256:'' (''oid sha256:'' @ oid_sha256 info) = Some (oid_sha256 info)"
    "strip_prefix ''size '' (''size '' @ ss) = Some ss" by (simp_all only: strip_prefix_Some)
  ultimately show ?L
    using u len oid ss by (simp add: detect_lfs_pointer_def)
qed

section \<open>Repository URLs\<close>

text \<open>Unicode white space as UTF-8 bytes, which \<open>str::trim\<close> removes at both ends.\<close>

definition white_space :: "string list" where
  "white_space = map (map (\<lambda>n. char_of (n :: nat)))
     [[9], [10], [11], [12], [13], [32], [194, 133], [194, 160], [225, 154, 128],
      [226, 128, 128], [226, 128, 129], [226, 128, 130], [226, 128, 131], [226, 128, 132], [226, 128, 133],
      [226, 128, 134], [226, 128, 135], [226, 128, 136], [226, 128, 137], [226, 128, 138],
      [226, 128, 168], [226, 128, 169], [226, 128, 175], [226, 129, 159], [227, 128, 128]]"

definition leading_ws :: "string \<Rightarrow> string option" where
  "leading_ws s = List.find (\<lambda>w. w \<noteq> [] \<and> starts_with w s) white_space"

lemma leading_ws_Some: "leading_ws s = Some w \<Longrightarrow> w \<noteq> [] \<and> starts_with w s"
  by (auto simp: leading_ws_def find_Some_iff)

function trim_start :: "string \<Rightarrow> string" where
  "trim_start s = (case leading_ws s of Some w \<Rightarrow> trim_start (drop (length w) s) | None \<Rightarrow> s)"
  by pat_completeness auto
termination
proof (relation "measure length")
  fix s w
  assume "leading_ws s = Some w"
  then have "w \<noteq> []" "take (length w) s = w" using leading_ws_Some [of s w] by (auto simp: starts_with_def)
  then have "s \<noteq> []" "length w \<noteq> 0" by auto
  then show "(drop (length w) s, s) \<in> measure length" by simp
qed simp

declare trim_start.simps [simp del]

definition trailing_ws :: "string \<Rightarrow> string option" where
  "trailing_ws s = List.find (\<lambda>w. w \<noteq> [] \<and> ends_with w s) white_space"

lemma trailing_ws_Some: "trailing_ws s = Some w \<Longrightarrow> w \<noteq> [] \<and> ends_with w s"
  by (auto simp: trailing_ws_def find_Some_iff)

function trim_end :: "string \<Rightarrow> string" where
  "trim_end s = (case trailing_ws s of Some w \<Rightarrow> trim_end (take (length s - length w) s) | None \<Rightarrow> s)"
  by pat_completeness auto
termination
proof (relation "measure length")
  fix s w
  assume "trailing_ws s = Some w"
  then have "w \<noteq> []" "take (length w) (rev s) = rev w"
    using trailing_ws_Some [of s w] by (auto simp: ends_with_def starts_with_def)
  then have "s \<noteq> []" "length w \<noteq> 0" by auto
  then show "(take (length s - length w) s, s) \<in> measure length" by simp
qed simp

declare trim_end.simps [simp del]

definition str_trim :: "string \<Rightarrow> string" where
  "str_trim s = trim_end (trim_start s)"

definition parse_owner_repo_from_path :: "string \<Rightarrow> (string \<times> string) option" where
  "parse_owner_repo_from_path path =
     (case split_on CHR ''/'' path of
        owner # repo # _ \<Rightarrow> if owner \<noteq> [] \<and> repo \<noteq> [] then Some (owner, repo) else None
      | _ \<Rightarrow> None)"

definition without_suffix :: "string \<Rightarrow> string \<Rightarrow> string" where
  "without_suffix x s = (case strip_suffix x s of Some t \<Rightarrow> t | None \<Rightarrow> s)"

fun try_prefixes :: "string list \<Rightarrow> string \<Rightarrow> (string \<times> string) option" where
  "try_prefixes [] s = None"
| "try_prefixes (p # ps) s =
     (case strip_prefix p s of
        Some r \<Rightarrow> parse_owner_repo_from_path (without_suffix ''.git'' r)
      | None \<Rightarrow> try_prefixes ps s)"

definition url_prefixes :: "string list" where
  "url_prefixes = [''https://github.com/'', ''http://github.com/'', ''ssh://git@github.com/'', ''git://github.com/'']"

definition parse_github_url :: "string \<Rightarrow> (string \<times> string) option" where
  "parse_github_url raw =
     (let url = str_trim raw in
      if url = [] then None
      else (case strip_prefix ''github:'' url of
        Some r \<Rightarrow> parse_owner_repo_from_path r
      | None \<Rightarrow>
          (let normalized = (case strip_prefix ''git+'' url of Some r \<Rightarrow> r | None \<Rightarrow> url) in
           case strip_prefix ''ssh://git@github.com:'' normalized of
             Some after \<Rightarrow> parse_owner_repo_from_path (without_suffix ''.git'' after)
           | None \<Rightarrow> try_prefixes url_prefixes normalized)))"

section \<open>Requests and the prefetch policy\<close>

datatype content_kind = ContentFile | ContentSymlink | ContentLfsPointer

record content_request =
  cr_path :: string
  cr_digest :: "digest option"
  cr_size :: "u64 option"
  cr_kind :: content_kind

datatype fetch_mode = FetchLazy | BulkPrefetch | Forced

datatype prefetch_policy = PrefetchAuto | PrefetchForce | PrefetchDisabled

datatype fetch_policy =
    Tarball u64 u64
  | LazyFetch
  | LazyOversized u64 u64 u64

record cost_estimate =
  ce_total_bytes :: "u64 option"
  ce_request_count :: nat

definition known_sizes :: "content_request list \<Rightarrow> u64 list" where
  "known_sizes rs = List.map_filter cr_size rs"

definition default_cost_estimate :: "content_request list \<Rightarrow> cost_estimate" where
  "default_cost_estimate rs =
     \<lparr> ce_total_bytes = (if list_ex (\<lambda>r. cr_size r = None) rs then None else Some (sum_list (known_sizes rs))),
       ce_request_count = length rs \<rparr>"

definition decide_policy :: "u64 \<Rightarrow> u64 \<Rightarrow> prefetch_policy \<Rightarrow> u64 \<Rightarrow> u64 \<Rightarrow> fetch_policy" where
  "decide_policy blob_count estimated_bytes policy threshold_count cap =
     (case policy of
        PrefetchDisabled \<Rightarrow> LazyFetch
      | PrefetchForce \<Rightarrow> Tarball estimated_bytes blob_count
      | PrefetchAuto \<Rightarrow>
          if blob_count < threshold_count then LazyFetch
          else if cap < estimated_bytes then LazyOversized estimated_bytes blob_count cap
          else Tarball estimated_bytes blob_count)"

end
