(* ===== verification/Singleflight.thy ===== *)
theory Singleflight
  imports Provider_Common
begin

text \<open>
  The singleflight registry of tarball downloads: \<open>claim_singleflight_slot\<close> of
  \<open>crates/ctxfs-provider-git/src/github.rs\<close> and \<open>SlotClaim::release\<close> of \<open>fetcher.rs\<close>, and the tasks that
  share a slot through its \<open>OnceCell\<close>. A slot's identity (its \<open>Arc\<close>) is its number.
\<close>

section \<open>The registry\<close>

record tarball_key =
  tk_host :: string
  tk_owner :: string
  tk_repo :: string
  tk_commit_sha :: string

text \<open>A slot's cell: empty, or the download's result.\<close>

type_synonym cell = "(unit, string) outcome option"

record singleflight =
  registry :: "(tarball_key \<times> nat) list"
  slot_cells :: "cell list"

record slot_claim =
  claim_key :: tarball_key
  claim_slot :: nat
  is_leader :: bool

definition claim_singleflight_slot :: "tarball_key \<Rightarrow> singleflight \<Rightarrow> singleflight \<times> slot_claim" where
  "claim_singleflight_slot key sf =
     (case map_of (registry sf) key of
        Some slot \<Rightarrow> (sf, \<lparr> claim_key = key, claim_slot = slot, is_leader = False \<rparr>)
      | None \<Rightarrow>
          (let slot = length (slot_cells sf) in
           (sf\<lparr> registry := AList.update key slot (registry sf), slot_cells := slot_cells sf @ [None] \<rparr>,
            \<lparr> claim_key = key, claim_slot = slot, is_leader = True \<rparr>)))"

definition release_claim :: "slot_claim \<Rightarrow> singleflight \<Rightarrow> singleflight" where
  "release_claim cl sf =
     (if \<not> is_leader cl then sf
      else if map_of (registry sf) (claim_key cl) = Some (claim_slot cl)
      then sf\<lparr> registry := AList.delete (claim_key cl) (registry sf) \<rparr>
      else sf)"

definition fill_cell :: "nat \<Rightarrow> (unit, string) outcome \<Rightarrow> singleflight \<Rightarrow> singleflight" where
  "fill_cell slot r sf = sf\<lparr> slot_cells := (slot_cells sf)[slot := Some r] \<rparr>"

section \<open>Tasks\<close>

text \<open>
  A task claims a slot; \<open>get_or_init\<close> lets one task at a time run the download while the cell is empty and
  gives every other the cell's content; then the task releases its claim. A task can be cancelled at any
  point before it ends, which frees the cell's initialiser.
\<close>

datatype task = Waiting slot_claim | Downloading slot_claim | Holding slot_claim "(unit, string) outcome"

record flight =
  flights :: singleflight
  tasks :: "nat \<Rightarrow> task option"
  downloads :: "nat list"

definition idle_flight :: flight where
  "idle_flight = \<lparr> flights = \<lparr> registry = [], slot_cells = [] \<rparr>, tasks = (\<lambda>_. None), downloads = [] \<rparr>"

definition nobody_downloads :: "nat \<Rightarrow> flight \<Rightarrow> bool" where
  "nobody_downloads slot f \<longleftrightarrow> (\<forall>t cl. tasks f t = Some (Downloading cl) \<longrightarrow> claim_slot cl \<noteq> slot)"

inductive flight_step :: "flight \<Rightarrow> flight \<Rightarrow> bool" where
  claim: "tasks f t = None \<Longrightarrow> claim_singleflight_slot key (flights f) = (sf, cl) \<Longrightarrow>
    flight_step f (f\<lparr> flights := sf, tasks := (tasks f)(t := Some (Waiting cl)) \<rparr>)"
| begin_download: "tasks f t = Some (Waiting cl) \<Longrightarrow> slot_cells (flights f) ! claim_slot cl = None \<Longrightarrow>
    nobody_downloads (claim_slot cl) f \<Longrightarrow>
    flight_step f (f\<lparr> tasks := (tasks f)(t := Some (Downloading cl)) \<rparr>)"
| end_download: "tasks f t = Some (Downloading cl) \<Longrightarrow>
    flight_step f (f\<lparr> flights := fill_cell (claim_slot cl) r (flights f),
      tasks := (tasks f)(t := Some (Holding cl r)), downloads := claim_slot cl # downloads f \<rparr>)"
| observe: "tasks f t = Some (Waiting cl) \<Longrightarrow> slot_cells (flights f) ! claim_slot cl = Some r \<Longrightarrow>
    flight_step f (f\<lparr> tasks := (tasks f)(t := Some (Holding cl r)) \<rparr>)"
| finish: "tasks f t = Some (Holding cl r) \<Longrightarrow>
    flight_step f (f\<lparr> flights := release_claim cl (flights f), tasks := (tasks f)(t := None) \<rparr>)"
| cancel: "tasks f t = Some x \<Longrightarrow> flight_step f (f\<lparr> tasks := (tasks f)(t := None) \<rparr>)"

inductive_cases flight_stepE: "flight_step f f'"

fun task_claim :: "task \<Rightarrow> slot_claim" where
  "task_claim (Waiting cl) = cl"
| "task_claim (Downloading cl) = cl"
| "task_claim (Holding cl r) = cl"

text \<open>
  The invariant: slots in use exist; a slot was downloaded at most once, and exactly when its cell is
  full; its downloader is alone and its cell still empty; whoever holds a result has the cell's.
\<close>

definition flight_inv :: "flight \<Rightarrow> bool" where
  "flight_inv f \<longleftrightarrow>
     (\<forall>k s. map_of (registry (flights f)) k = Some s \<longrightarrow> s < length (slot_cells (flights f)))
     \<and> (\<forall>t x. tasks f t = Some x \<longrightarrow> claim_slot (task_claim x) < length (slot_cells (flights f)))
     \<and> distinct (downloads f)
     \<and> (\<forall>s. s \<in> set (downloads f) \<longleftrightarrow> s < length (slot_cells (flights f)) \<and> slot_cells (flights f) ! s \<noteq> None)
     \<and> (\<forall>t cl. tasks f t = Some (Downloading cl) \<longrightarrow> slot_cells (flights f) ! claim_slot cl = None)
     \<and> (\<forall>t u c d. tasks f t = Some (Downloading c) \<longrightarrow> tasks f u = Some (Downloading d) \<longrightarrow> claim_slot c = claim_slot d \<longrightarrow> t = u)
     \<and> (\<forall>t cl r. tasks f t = Some (Holding cl r) \<longrightarrow> slot_cells (flights f) ! claim_slot cl = Some r)"

lemma flight_inv_idle: "flight_inv idle_flight"
  by (simp add: flight_inv_def idle_flight_def)

lemma release_cells [simp]: "slot_cells (release_claim cl sf) = slot_cells sf"
  by (simp add: release_claim_def)

lemma release_registry: "map_of (registry (release_claim cl sf)) k = Some s \<Longrightarrow> map_of (registry sf) k = Some s"
  by (auto simp: release_claim_def AList.delete_conv' split: if_splits)

lemma claim_facts:
  assumes "claim_singleflight_slot key sf = (sf', cl)" and "\<And>k s. map_of (registry sf) k = Some s \<Longrightarrow> s < length (slot_cells sf)"
  shows "claim_slot cl < length (slot_cells sf')" "length (slot_cells sf) \<le> length (slot_cells sf')"
    "\<And>s. s < length (slot_cells sf) \<Longrightarrow> slot_cells sf' ! s = slot_cells sf ! s"
    "\<And>s. \<not> s < length (slot_cells sf) \<Longrightarrow> s < length (slot_cells sf') \<Longrightarrow> slot_cells sf' ! s = None"
    "\<And>k s. map_of (registry sf') k = Some s \<Longrightarrow> s < length (slot_cells sf')"
    "map_of (registry sf') key = Some (claim_slot cl)"
  using assms
  by (auto simp: claim_singleflight_slot_def Let_def nth_append AList.update_conv' split: option.splits if_splits
      dest: less_imp_le_nat) (fastforce simp: less_Suc_eq)+

lemma inv_registry: "flight_inv f \<Longrightarrow> map_of (registry (flights f)) k = Some s \<Longrightarrow> s < length (slot_cells (flights f))"
  unfolding flight_inv_def by blast

lemma inv_task: "flight_inv f \<Longrightarrow> tasks f t = Some x \<Longrightarrow> claim_slot (task_claim x) < length (slot_cells (flights f))"
  unfolding flight_inv_def by blast

lemma inv_downloads:
  "flight_inv f \<Longrightarrow> distinct (downloads f) \<and>
     (s \<in> set (downloads f) \<longleftrightarrow> s < length (slot_cells (flights f)) \<and> slot_cells (flights f) ! s \<noteq> None)"
  unfolding flight_inv_def by blast

lemma inv_downloading: "flight_inv f \<Longrightarrow> tasks f t = Some (Downloading cl) \<Longrightarrow> slot_cells (flights f) ! claim_slot cl = None"
  unfolding flight_inv_def by blast

lemma inv_alone:
  "flight_inv f \<Longrightarrow> tasks f t = Some (Downloading c) \<Longrightarrow> tasks f u = Some (Downloading d) \<Longrightarrow>
     claim_slot c = claim_slot d \<Longrightarrow> t = u"
  unfolding flight_inv_def by blast

lemma inv_holding: "flight_inv f \<Longrightarrow> tasks f t = Some (Holding cl r) \<Longrightarrow> slot_cells (flights f) ! claim_slot cl = Some r"
  unfolding flight_inv_def by blast

lemma flight_invI:
  assumes "\<And>k s. map_of (registry (flights f)) k = Some s \<Longrightarrow> s < length (slot_cells (flights f))"
    "\<And>t x. tasks f t = Some x \<Longrightarrow> claim_slot (task_claim x) < length (slot_cells (flights f))"
    "distinct (downloads f)"
    "\<And>s. s \<in> set (downloads f) \<longleftrightarrow> s < length (slot_cells (flights f)) \<and> slot_cells (flights f) ! s \<noteq> None"
    "\<And>t cl. tasks f t = Some (Downloading cl) \<Longrightarrow> slot_cells (flights f) ! claim_slot cl = None"
    "\<And>t u c d. tasks f t = Some (Downloading c) \<Longrightarrow> tasks f u = Some (Downloading d) \<Longrightarrow> claim_slot c = claim_slot d \<Longrightarrow> t = u"
    "\<And>t cl r. tasks f t = Some (Holding cl r) \<Longrightarrow> slot_cells (flights f) ! claim_slot cl = Some r"
  shows "flight_inv f"
  unfolding flight_inv_def using assms by blast

text \<open>Steps that only remove or renew a task, or take entries out of the registry.\<close>

lemma flight_inv_tasks:
  assumes inv: "flight_inv f" and cells: "slot_cells sf = slot_cells (flights f)"
    and reg: "\<And>k s. map_of (registry sf) k = Some s \<Longrightarrow> map_of (registry (flights f)) k = Some s"
    and new: "x = None \<or> (\<exists>y cl r. x = Some y \<and> task_claim y = cl \<and> claim_slot cl < length (slot_cells sf) \<and>
       (y = Waiting cl \<or> y = Downloading cl \<and> slot_cells sf ! claim_slot cl = None \<and> nobody_downloads (claim_slot cl) f
        \<or> y = Holding cl r \<and> slot_cells sf ! claim_slot cl = Some r))"
  shows "flight_inv (f\<lparr> flights := sf, tasks := (tasks f)(t := x) \<rparr>)"
proof -
  let ?g = "f\<lparr> flights := sf, tasks := (tasks f)(t := x) \<rparr>"
  have sel: "flights ?g = sf" "tasks ?g = (tasks f)(t := x)" "downloads ?g = downloads f" by simp_all
  show ?thesis
  proof (rule flight_invI; simp only: sel cells)
  fix u y assume "((tasks f)(t := x)) u = Some y"
  then show "claim_slot (task_claim y) < length (slot_cells (flights f))"
    using new inv_task [OF inv] cells by (cases "u = t") auto
next
  fix u cl assume "((tasks f)(t := x)) u = Some (Downloading cl)"
  then show "slot_cells (flights f) ! claim_slot cl = None"
    using new inv_downloading [OF inv] cells by (cases "u = t") auto
next
  fix u cl r assume "((tasks f)(t := x)) u = Some (Holding cl r)"
  then show "slot_cells (flights f) ! claim_slot cl = Some r"
    using new inv_holding [OF inv] cells by (cases "u = t") auto
next
  fix u v c d assume "((tasks f)(t := x)) u = Some (Downloading c)" "((tasks f)(t := x)) v = Some (Downloading d)"
    "claim_slot c = claim_slot d"
  then show "u = v"
    using new inv_alone [OF inv, of u c v d] by (cases "u = t"; cases "v = t") (auto simp: nobody_downloads_def)
  qed (use inv_registry [OF inv] reg inv_downloads [OF inv] in blast)+
qed

lemma flight_step_inv: "flight_step f f' \<Longrightarrow> flight_inv f \<Longrightarrow> flight_inv f'"
proof (induction rule: flight_step.induct)
  case (claim f t key sf cl)
  have reg: "s < length (slot_cells (flights f))" if "map_of (registry (flights f)) k = Some s" for k s
    by (rule inv_registry [OF claim.prems that])
  have C: "claim_slot cl < length (slot_cells sf)" "length (slot_cells (flights f)) \<le> length (slot_cells sf)"
    "\<And>s. s < length (slot_cells (flights f)) \<Longrightarrow> slot_cells sf ! s = slot_cells (flights f) ! s"
    "\<And>s. \<not> s < length (slot_cells (flights f)) \<Longrightarrow> s < length (slot_cells sf) \<Longrightarrow> slot_cells sf ! s = None"
    "\<And>k s. map_of (registry sf) k = Some s \<Longrightarrow> s < length (slot_cells sf)"
    using claim_facts [OF claim.hyps(2)] reg by blast+
  let ?g = "f\<lparr> flights := sf, tasks := (tasks f)(t \<mapsto> Waiting cl) \<rparr>"
  have sel: "flights ?g = sf" "tasks ?g = (tasks f)(t \<mapsto> Waiting cl)" "downloads ?g = downloads f" by simp_all
  show ?case
  proof (rule flight_invI; simp only: sel)
    fix u y assume u: "((tasks f)(t \<mapsto> Waiting cl)) u = Some y"
    show "claim_slot (task_claim y) < length (slot_cells sf)"
    proof (cases "u = t")
      case False
      then show ?thesis using u inv_task [OF claim.prems, of u y] C(2) by simp
    qed (use u C(1) in auto)
  next
    fix u c assume "((tasks f)(t \<mapsto> Waiting cl)) u = Some (Downloading c)"
    then have u: "tasks f u = Some (Downloading c)" by (auto split: if_splits)
    then show "slot_cells sf ! claim_slot c = None"
      using inv_task [OF claim.prems u] inv_downloading [OF claim.prems u] C(3) by simp
  next
    fix u c r assume "((tasks f)(t \<mapsto> Waiting cl)) u = Some (Holding c r)"
    then have u: "tasks f u = Some (Holding c r)" by (auto split: if_splits)
    then show "slot_cells sf ! claim_slot c = Some r"
      using inv_task [OF claim.prems u] inv_holding [OF claim.prems u] C(3) by simp
  next
    fix u v c d assume "((tasks f)(t \<mapsto> Waiting cl)) u = Some (Downloading c)"
      "((tasks f)(t \<mapsto> Waiting cl)) v = Some (Downloading d)" "claim_slot c = claim_slot d"
    then show "u = v" using inv_alone [OF claim.prems, of u c v d] by (auto split: if_splits)
  next
    fix s show "(s \<in> set (downloads f)) = (s < length (slot_cells sf) \<and> slot_cells sf ! s \<noteq> None)"
      using inv_downloads [OF claim.prems, of s] C(2) C(3,4) [of s] by (cases "s < length (slot_cells (flights f))") auto
  qed (use C(5) inv_downloads [OF claim.prems] in auto)
next
  case (begin_download f t cl)
  have "claim_slot cl < length (slot_cells (flights f))" using inv_task [OF begin_download.prems begin_download.hyps(1)] by simp
  then show ?case
    using flight_inv_tasks [OF begin_download.prems, of "flights f" "Some (Downloading cl)" t] begin_download.hyps by simp
next
  case (end_download f t cl r)
  let ?sf = "fill_cell (claim_slot cl) r (flights f)"
  have slot: "claim_slot cl < length (slot_cells (flights f))" using inv_task [OF end_download.prems end_download.hyps] by simp
  note empty = inv_downloading [OF end_download.prems end_download.hyps]
  have new: "claim_slot cl \<notin> set (downloads f)" using inv_downloads [OF end_download.prems] empty by blast
  let ?g = "f\<lparr> flights := ?sf, tasks := (tasks f)(t \<mapsto> Holding cl r), downloads := claim_slot cl # downloads f \<rparr>"
  have sel: "flights ?g = ?sf" "tasks ?g = (tasks f)(t \<mapsto> Holding cl r)" "downloads ?g = claim_slot cl # downloads f" by simp_all
  show ?case
  proof (rule flight_invI; simp only: sel)
    fix k s assume "map_of (registry ?sf) k = Some s"
    then show "s < length (slot_cells ?sf)" using inv_registry [OF end_download.prems] by (simp add: fill_cell_def)
  next
    fix u y assume "((tasks f)(t \<mapsto> Holding cl r)) u = Some y"
    then show "claim_slot (task_claim y) < length (slot_cells ?sf)"
      using slot inv_task [OF end_download.prems, of u y] by (cases "u = t") (auto simp: fill_cell_def)
  next
    show "distinct (claim_slot cl # downloads f)" using new inv_downloads [OF end_download.prems] by simp
  next
    fix s show "(s \<in> set (claim_slot cl # downloads f)) = (s < length (slot_cells ?sf) \<and> slot_cells ?sf ! s \<noteq> None)"
      using slot inv_downloads [OF end_download.prems, of s] by (auto simp: fill_cell_def nth_list_update)
  next
    fix u c assume "((tasks f)(t \<mapsto> Holding cl r)) u = Some (Downloading c)"
    then have u: "tasks f u = Some (Downloading c)" "u \<noteq> t" by (auto split: if_splits)
    then have "claim_slot c \<noteq> claim_slot cl" using inv_alone [OF end_download.prems u(1) end_download.hyps] by blast
    then show "slot_cells ?sf ! claim_slot c = None" using inv_downloading [OF end_download.prems u(1)] by (simp add: fill_cell_def)
  next
    fix u v c d assume "((tasks f)(t \<mapsto> Holding cl r)) u = Some (Downloading c)"
      "((tasks f)(t \<mapsto> Holding cl r)) v = Some (Downloading d)" "claim_slot c = claim_slot d"
    then show "u = v" using inv_alone [OF end_download.prems, of u c v d] by (auto split: if_splits)
  next
    fix u c q assume u: "((tasks f)(t \<mapsto> Holding cl r)) u = Some (Holding c q)"
    show "slot_cells ?sf ! claim_slot c = Some q"
    proof (cases "u = t")
      case False
      then have h: "tasks f u = Some (Holding c q)" using u by simp
      then have "claim_slot c \<noteq> claim_slot cl" using inv_holding [OF end_download.prems h] empty by auto
      then show ?thesis using inv_holding [OF end_download.prems h] by (simp add: fill_cell_def)
    qed (use u slot in \<open>simp add: fill_cell_def\<close>)
  qed
next
  case (observe f t cl r)
  have "claim_slot cl < length (slot_cells (flights f))" using inv_task [OF observe.prems observe.hyps(1)] by simp
  then show ?case
    using flight_inv_tasks [OF observe.prems, of "flights f" "Some (Holding cl r)" t] observe.hyps by simp
next
  case (finish f t cl r)
  show ?case
    by (rule flight_inv_tasks [OF finish.prems release_cells release_registry]) simp_all
next
  case (cancel f t x)
  then show ?case using flight_inv_tasks [OF cancel.prems, of "flights f" None t] by simp
qed

lemma flight_steps_inv: "flight_step\<^sup>*\<^sup>* f f' \<Longrightarrow> flight_inv f \<Longrightarrow> flight_inv f'"
  by (induction rule: rtranclp_induct) (auto intro: flight_step_inv)

text \<open>
  The registry's part: a task that may still download, and every leader, has its slot registered under
  its key; a slot has one leader and serves one key.
\<close>

type_synonym claims = "nat \<Rightarrow> slot_claim option"

definition keyed :: "singleflight \<Rightarrow> claims \<Rightarrow> bool" where
  "keyed sf cs \<longleftrightarrow>
     (\<forall>t c. cs t = Some c \<longrightarrow> slot_cells sf ! claim_slot c = None \<or> is_leader c \<longrightarrow>
        map_of (registry sf) (claim_key c) = Some (claim_slot c))
     \<and> (\<forall>t u c d. cs t = Some c \<longrightarrow> cs u = Some d \<longrightarrow> is_leader c \<longrightarrow> is_leader d \<longrightarrow> claim_slot c = claim_slot d \<longrightarrow> t = u)
     \<and> (\<forall>t u c d. cs t = Some c \<longrightarrow> cs u = Some d \<longrightarrow> claim_slot c = claim_slot d \<longrightarrow> claim_key c = claim_key d)
     \<and> (\<forall>t c k. cs t = Some c \<longrightarrow> map_of (registry sf) k = Some (claim_slot c) \<longrightarrow> claim_key c = k)
     \<and> (\<forall>k k' s. map_of (registry sf) k = Some s \<longrightarrow> map_of (registry sf) k' = Some s \<longrightarrow> k = k')"

definition claims_of :: "flight \<Rightarrow> claims" where
  "claims_of f t = map_option task_claim (tasks f t)"

abbreviation key_inv :: "flight \<Rightarrow> bool" where
  "key_inv f \<equiv> keyed (flights f) (claims_of f)"

lemma keyedI:
  assumes "\<And>t c. cs t = Some c \<Longrightarrow> slot_cells sf ! claim_slot c = None \<or> is_leader c \<Longrightarrow>
      map_of (registry sf) (claim_key c) = Some (claim_slot c)"
    "\<And>t u c d. cs t = Some c \<Longrightarrow> cs u = Some d \<Longrightarrow> is_leader c \<Longrightarrow> is_leader d \<Longrightarrow> claim_slot c = claim_slot d \<Longrightarrow> t = u"
    "\<And>t u c d. cs t = Some c \<Longrightarrow> cs u = Some d \<Longrightarrow> claim_slot c = claim_slot d \<Longrightarrow> claim_key c = claim_key d"
    "\<And>t c k. cs t = Some c \<Longrightarrow> map_of (registry sf) k = Some (claim_slot c) \<Longrightarrow> claim_key c = k"
    "\<And>k k' s. map_of (registry sf) k = Some s \<Longrightarrow> map_of (registry sf) k' = Some s \<Longrightarrow> k = k'"
  shows "keyed sf cs"
  unfolding keyed_def using assms by blast

lemma keyed_registered:
  "keyed sf cs \<Longrightarrow> cs t = Some c \<Longrightarrow> slot_cells sf ! claim_slot c = None \<or> is_leader c \<Longrightarrow>
     map_of (registry sf) (claim_key c) = Some (claim_slot c)"
  unfolding keyed_def by blast

lemma keyed_leader:
  "keyed sf cs \<Longrightarrow> cs t = Some c \<Longrightarrow> cs u = Some d \<Longrightarrow> is_leader c \<Longrightarrow> is_leader d \<Longrightarrow> claim_slot c = claim_slot d \<Longrightarrow> t = u"
  unfolding keyed_def by blast

lemma keyed_same:
  "keyed sf cs \<Longrightarrow> cs t = Some c \<Longrightarrow> cs u = Some d \<Longrightarrow> claim_slot c = claim_slot d \<Longrightarrow> claim_key c = claim_key d"
  unfolding keyed_def by blast

lemma keyed_owner: "keyed sf cs \<Longrightarrow> cs t = Some c \<Longrightarrow> map_of (registry sf) k = Some (claim_slot c) \<Longrightarrow> claim_key c = k"
  unfolding keyed_def by blast

lemma keyed_inj: "keyed sf cs \<Longrightarrow> map_of (registry sf) k = Some s \<Longrightarrow> map_of (registry sf) k' = Some s \<Longrightarrow> k = k'"
  unfolding keyed_def by blast

lemma key_inv_idle: "key_inv idle_flight"
  by (simp add: keyed_def claims_of_def idle_flight_def)

lemma keyed_mono:
  assumes inv: "keyed sf cs" and sub: "\<And>t c. cs' t = Some c \<Longrightarrow> cs t = Some c"
    and reg: "\<And>k s. map_of (registry sf') k = Some s \<Longrightarrow> map_of (registry sf) k = Some s"
    and kept: "\<And>t c. cs' t = Some c \<Longrightarrow> slot_cells sf' ! claim_slot c = None \<or> is_leader c \<Longrightarrow>
      map_of (registry sf') (claim_key c) = Some (claim_slot c)"
  shows "keyed sf' cs'"
proof (rule keyedI)
  show "t = u" if "cs' t = Some c" "cs' u = Some d" "is_leader c" "is_leader d" "claim_slot c = claim_slot d" for t u c d
    using keyed_leader [OF inv sub [OF that(1)] sub [OF that(2)] that(3-5)] .
  show "claim_key c = claim_key d" if "cs' t = Some c" "cs' u = Some d" "claim_slot c = claim_slot d" for t u c d
    using keyed_same [OF inv sub [OF that(1)] sub [OF that(2)] that(3)] .
  show "claim_key c = k" if "cs' t = Some c" "map_of (registry sf') k = Some (claim_slot c)" for t c k
    using keyed_owner [OF inv sub [OF that(1)] reg [OF that(2)]] .
  show "k = k'" if "map_of (registry sf') k = Some s" "map_of (registry sf') k' = Some s" for k k' s
    using keyed_inj [OF inv reg [OF that(1)] reg [OF that(2)]] .
qed (rule kept)

lemma keyed_fill:
  assumes "keyed sf cs"
  shows "keyed (fill_cell s r sf) cs"
proof (rule keyed_mono [OF assms])
  fix t c assume c: "cs t = Some c" "slot_cells (fill_cell s r sf) ! claim_slot c = None \<or> is_leader c"
  then have "slot_cells sf ! claim_slot c = None \<or> is_leader c"
    by (cases "s < length (slot_cells sf)") (auto simp: fill_cell_def nth_list_update list_update_beyond split: if_splits)
  then show "map_of (registry (fill_cell s r sf)) (claim_key c) = Some (claim_slot c)"
    using keyed_registered [OF assms c(1)] by (simp add: fill_cell_def)
qed (simp_all add: fill_cell_def)

lemma keyed_drop:
  assumes "keyed sf cs"
  shows "keyed sf (cs(t := None))"
  by (rule keyed_mono [OF assms]) (auto split: if_splits dest: keyed_registered [OF assms])

lemma keyed_release:
  assumes inv: "keyed sf cs" and holder: "cs t = Some c" and full: "slot_cells sf ! claim_slot c \<noteq> None"
  shows "keyed (release_claim c sf) (cs(t := None))"
proof (rule keyed_mono [OF inv _ release_registry])
  fix u d assume u: "(cs(t := None)) u = Some d" and "slot_cells (release_claim c sf) ! claim_slot d = None \<or> is_leader d"
  then have d: "u \<noteq> t" "cs u = Some d" "slot_cells sf ! claim_slot d = None \<or> is_leader d" by (auto split: if_splits)
  then have r: "map_of (registry sf) (claim_key d) = Some (claim_slot d)" using keyed_registered [OF inv] by blast
  show "map_of (registry (release_claim c sf)) (claim_key d) = Some (claim_slot d)"
  proof (cases "is_leader c")
    case True
    then have reg: "map_of (registry sf) (claim_key c) = Some (claim_slot c)" using keyed_registered [OF inv holder] by blast
    have "claim_slot d \<noteq> claim_slot c" using keyed_leader [OF inv d(2) holder] d full True by auto
    then have "claim_key d \<noteq> claim_key c" using r reg by auto
    then show ?thesis using r True reg by (simp add: release_claim_def AList.delete_conv')
  qed (simp add: release_claim_def r)
qed (auto split: if_splits)

lemma claim_cases:
  assumes "claim_singleflight_slot key sf = (sf', cl)"
  obtains (joined) s where "map_of (registry sf) key = Some s" "sf' = sf" "cl = \<lparr> claim_key = key, claim_slot = s, is_leader = False \<rparr>"
  | (leads) "map_of (registry sf) key = None" "map_of (registry sf') = (map_of (registry sf))(key \<mapsto> length (slot_cells sf))"
      "slot_cells sf' = slot_cells sf @ [None]"
      "cl = \<lparr> claim_key = key, claim_slot = length (slot_cells sf), is_leader = True \<rparr>"
  using assms by (auto simp: claim_singleflight_slot_def Let_def AList.update_conv' split: option.splits)

lemma keyed_claim:
  assumes inv: "keyed sf cs" and claim: "claim_singleflight_slot key sf = (sf', cl)"
    and regs: "\<And>k s. map_of (registry sf) k = Some s \<Longrightarrow> s < length (slot_cells sf)"
    and slots: "\<And>u c. cs u = Some c \<Longrightarrow> claim_slot c < length (slot_cells sf)"
  shows "keyed sf' (cs(t \<mapsto> cl))"
proof -
  have new: "(claim_key cl = key \<and> map_of (registry sf') key = Some (claim_slot cl))
      \<and> (map_of (registry sf) key = Some (claim_slot cl) \<and> \<not> is_leader cl \<or> claim_slot cl = length (slot_cells sf))"
    using claim by (cases rule: claim_cases) auto
  have reg: "map_of (registry sf') k = (if k = key then Some (claim_slot cl) else map_of (registry sf) k)" for k
    using claim by (cases rule: claim_cases) auto
  have cell: "slot_cells sf' ! claim_slot c = slot_cells sf ! claim_slot c" if "cs u = Some c" for u c
    using claim by (cases rule: claim_cases) (use slots [OF that] in \<open>auto simp: nth_append\<close>)
  have none: "map_of (registry sf) key = None \<or> map_of (registry sf) key = Some (claim_slot cl)"
    using claim by (cases rule: claim_cases) auto
  have joined: "claim_key d = key \<and> \<not> is_leader cl" if "cs u = Some d" "claim_slot d = claim_slot cl" for u d
    using new slots [OF that(1)] keyed_owner [OF inv that(1)] that(2) by auto
  show ?thesis
  proof (rule keyedI)
    fix u c assume u: "(cs(t \<mapsto> cl)) u = Some c" and c: "slot_cells sf' ! claim_slot c = None \<or> is_leader c"
    show "map_of (registry sf') (claim_key c) = Some (claim_slot c)"
    proof (cases "u = t")
      case False
      then have old: "cs u = Some c" using u by simp
      then have "map_of (registry sf) (claim_key c) = Some (claim_slot c)"
        using c cell [OF old] keyed_registered [OF inv old] by simp
      then show ?thesis using reg none by auto
    qed (use u new in auto)
  next
    fix u v c d assume "(cs(t \<mapsto> cl)) u = Some c" "(cs(t \<mapsto> cl)) v = Some d" "is_leader c" "is_leader d"
      "claim_slot c = claim_slot d"
    then show "u = v"
      using keyed_leader [OF inv, of u c v d] joined by (cases "u = t"; cases "v = t") auto
  next
    fix u v c d assume "(cs(t \<mapsto> cl)) u = Some c" "(cs(t \<mapsto> cl)) v = Some d" "claim_slot c = claim_slot d"
    then show "claim_key c = claim_key d"
      using keyed_same [OF inv, of u c v d] joined new by (cases "u = t"; cases "v = t") auto
  next
    fix u c k assume u: "(cs(t \<mapsto> cl)) u = Some c" and k: "map_of (registry sf') k = Some (claim_slot c)"
    show "claim_key c = k"
    proof (cases "u = t")
      case True
      have "k = key" if "map_of (registry sf) k = Some (claim_slot cl)"
        using new regs [OF that] keyed_inj [OF inv that] by auto
      then show ?thesis using True u k reg new by (auto split: if_splits)
    next
      case False
      then have "cs u = Some c" using u by simp
      then show ?thesis using joined k reg keyed_owner [OF inv] by (auto split: if_splits)
    qed
  next
    fix k k' s assume k: "map_of (registry sf') k = Some s" "map_of (registry sf') k' = Some s"
    have other: "j = key" if "map_of (registry sf) j = Some (claim_slot cl)" for j
      using new regs [OF that] keyed_inj [OF inv that] by auto
    show "k = k'" using k reg other keyed_inj [OF inv] by (auto split: if_splits)
  qed
qed

lemma claims_of_upd:
  "claims_of (f\<lparr> tasks := (tasks f)(t := x) \<rparr>) = (claims_of f)(t := map_option task_claim x)"
  by (auto simp: claims_of_def)

lemma claims_of_rest [simp]:
  "claims_of (f\<lparr> flights := sf \<rparr>) = claims_of f" "claims_of (f\<lparr> downloads := ds \<rparr>) = claims_of f"
  "claims_of (f\<lparr> flights := sf, tasks := ts \<rparr>) = claims_of (f\<lparr> tasks := ts \<rparr>)"
  "claims_of (f\<lparr> flights := sf, tasks := ts, downloads := ds \<rparr>) = claims_of (f\<lparr> tasks := ts \<rparr>)"
  by (auto simp: claims_of_def)

lemma claims_of_same: "tasks f t = Some x \<Longrightarrow> task_claim x = c \<Longrightarrow> (claims_of f)(t \<mapsto> c) = claims_of f"
  by (auto simp: claims_of_def)

lemma flight_step_keyed:
  assumes "flight_step f f'" "flight_inv f" "key_inv f"
  shows "key_inv f'"
  using assms
proof (induction rule: flight_step.induct)
  case (claim f t key sf cl)
  have "claim_slot c < length (slot_cells (flights f))" if "claims_of f u = Some c" for u c
    using that inv_task [OF claim.prems(1)] by (auto simp: claims_of_def)
  then show ?case
    using keyed_claim [OF claim.prems(2) claim.hyps(2), of t] inv_registry [OF claim.prems(1)]
    by (simp add: claims_of_upd del: fun_upd_apply)
next
  case (finish f t cl r)
  have "claims_of f t = Some cl" using finish.hyps by (simp add: claims_of_def)
  moreover have "slot_cells (flights f) ! claim_slot cl \<noteq> None" using inv_holding [OF finish.prems(1) finish.hyps] by simp
  ultimately show ?case using keyed_release [OF finish.prems(2)] by (simp add: claims_of_upd del: fun_upd_apply)
next
  case (cancel f t x)
  then show ?case using keyed_drop by (simp add: claims_of_upd del: fun_upd_apply)
qed (simp_all add: claims_of_upd claims_of_same keyed_fill)

lemma reachable_flight:
  assumes "flight_step\<^sup>*\<^sup>* idle_flight f"
  shows "flight_inv f \<and> key_inv f"
  using assms
  by (induction rule: rtranclp_induct) (auto intro: flight_step_inv flight_step_keyed flight_inv_idle key_inv_idle)

lemma claim_of_task: "tasks f t = Some x \<Longrightarrow> claims_of f t = Some (task_claim x)"
  by (simp add: claims_of_def)

lemma registered_claim:
  "map_of (registry sf) key = Some s \<Longrightarrow>
     claim_singleflight_slot key sf = (sf, \<lparr> claim_key = key, claim_slot = s, is_leader = False \<rparr>)"
  by (simp add: claim_singleflight_slot_def)

text \<open>A download under way is the registered one.\<close>

lemma downloading_registered:
  assumes "flight_inv f" "key_inv f" "tasks f t = Some (Downloading c)"
  shows "map_of (registry (flights f)) (claim_key c) = Some (claim_slot c)"
  using keyed_registered [OF assms(2) claim_of_task [OF assms(3)]] inv_downloading [OF assms(1,3)] by simp

text \<open>
  C13. One tarball download per commit at a time: however the mounts of any repositories interleave, and
  whichever of them are cancelled, two tasks never download the same commit (host, owner, repository and
  SHA) at once; while one downloads it, every mount of that commit that comes along is given the same slot
  and leaves the registry as it is, and every one that still waits shares that slot or finds the result of an
  earlier one; a slot serves one commit, is downloaded at most once, and all that got a result from
  it got the same one. That one task at a time fills a cell is what \<open>OnceCell\<close> does (the guard of
  \<open>begin_download\<close>); that the tasks of a commit meet at one cell is the registry's doing.
\<close>

theorem singleflight_downloads_once:
  assumes "flight_step\<^sup>*\<^sup>* idle_flight f"
  shows "(tasks f t = Some (Downloading c) \<and> tasks f u = Some (Downloading d) \<and> claim_key c = claim_key d \<longrightarrow> t = u)
    \<and> (tasks f t = Some (Downloading c) \<longrightarrow>
        claim_singleflight_slot (claim_key c) (flights f)
          = (flights f, \<lparr> claim_key = claim_key c, claim_slot = claim_slot c, is_leader = False \<rparr>))
    \<and> (tasks f t = Some (Downloading c) \<and> tasks f u = Some (Waiting d) \<and> claim_key c = claim_key d \<longrightarrow>
        claim_slot d = claim_slot c \<or> slot_cells (flights f) ! claim_slot d \<noteq> None)
    \<and> (tasks f t = Some x \<and> tasks f u = Some y \<and> claim_slot (task_claim x) = claim_slot (task_claim y) \<longrightarrow>
        claim_key (task_claim x) = claim_key (task_claim y))
    \<and> (tasks f t = Some (Holding c q) \<and> tasks f u = Some (Holding d r) \<and> claim_slot c = claim_slot d \<longrightarrow> q = r)
    \<and> distinct (downloads f)"
proof (intro conjI impI; (elim conjE)?)
  note inv = reachable_flight [OF assms, THEN conjunct1] and keys = reachable_flight [OF assms, THEN conjunct2]
  note reg = downloading_registered [OF inv keys]
  show "t = u" if "tasks f t = Some (Downloading c)" "tasks f u = Some (Downloading d)" "claim_key c = claim_key d"
    using inv_alone [OF inv that(1,2)] reg [OF that(1)] reg [OF that(2)] that(3) by simp
  show "claim_singleflight_slot (claim_key c) (flights f)
      = (flights f, \<lparr> claim_key = claim_key c, claim_slot = claim_slot c, is_leader = False \<rparr>)"
    if "tasks f t = Some (Downloading c)"
    by (rule registered_claim [OF reg [OF that]])
  show "claim_slot d = claim_slot c \<or> slot_cells (flights f) ! claim_slot d \<noteq> None"
    if "tasks f t = Some (Downloading c)" "tasks f u = Some (Waiting d)" "claim_key c = claim_key d"
    using reg [OF that(1)] keyed_registered [OF keys claim_of_task [OF that(2)]] that(3) by auto
  show "claim_key (task_claim x) = claim_key (task_claim y)"
    if "tasks f t = Some x" "tasks f u = Some y" "claim_slot (task_claim x) = claim_slot (task_claim y)"
    using keyed_same [OF keys claim_of_task [OF that(1)] claim_of_task [OF that(2)] that(3)] .
  show "q = r" if "tasks f t = Some (Holding c q)" "tasks f u = Some (Holding d r)" "claim_slot c = claim_slot d"
    using inv_holding [OF inv that(1)] inv_holding [OF inv that(2)] that(3) by simp
  show "distinct (downloads f)" using inv_downloads [OF inv] by blast
qed


section \<open>A run\<close>

definition demo_key1 :: tarball_key where
  "demo_key1 = \<lparr> tk_host = ''api.github.com'', tk_owner = ''o'', tk_repo = ''r'', tk_commit_sha = ''c0'' \<rparr>"

abbreviation "lead_claim \<equiv> \<lparr> claim_key = demo_key1, claim_slot = 0, is_leader = True \<rparr>"
abbreviation "wait_claim \<equiv> \<lparr> claim_key = demo_key1, claim_slot = 0, is_leader = False \<rparr>"

text \<open>Task 0 leads, task 1 waits; task 0 is cancelled, task 1 downloads, fails and ends; task 2 comes later.\<close>

definition stuck_registry :: singleflight where
  "stuck_registry = \<lparr> registry = [(demo_key1, 0)], slot_cells = [Some (Err ''HTTP 502'')] \<rparr>"

definition late_flight :: flight where
  "late_flight = \<lparr> flights = stuck_registry, tasks = (\<lambda>_. None)(2 \<mapsto> Holding wait_claim (Err ''HTTP 502'')), downloads = [0] \<rparr>"

abbreviation "open_registry \<equiv> \<lparr> registry = [(demo_key1, 0)], slot_cells = [None] \<rparr>"

text \<open>The states of the run before the failure, with it in the cell, and when all have ended.\<close>

definition both_flight :: flight where
  "both_flight = \<lparr> flights = open_registry, tasks = (\<lambda>_. None)(0 \<mapsto> Waiting lead_claim, 1 \<mapsto> Waiting wait_claim), downloads = [] \<rparr>"

definition alone_flight :: flight where
  "alone_flight = \<lparr> flights = open_registry, tasks = (\<lambda>_. None)(1 \<mapsto> Downloading wait_claim), downloads = [] \<rparr>"

definition failed_flight :: flight where
  "failed_flight = \<lparr> flights = stuck_registry, tasks = (\<lambda>_. None)(1 \<mapsto> Holding wait_claim (Err ''HTTP 502'')), downloads = [0] \<rparr>"

lemma both_flight_reachable: "flight_step\<^sup>*\<^sup>* idle_flight both_flight"
proof -
  let ?s1 = "\<lparr> flights = open_registry, tasks = (\<lambda>_. None)(0 \<mapsto> Waiting lead_claim), downloads = [] \<rparr>"
  have "flight_step idle_flight ?s1"
    using flight_step.claim [of idle_flight 0 demo_key1] by (simp add: idle_flight_def claim_singleflight_slot_def)
  moreover have "flight_step ?s1 both_flight"
    using flight_step.claim [of ?s1 1 demo_key1] by (simp add: both_flight_def claim_singleflight_slot_def fun_upd_twist)
  ultimately show ?thesis by (meson converse_rtranclp_into_rtranclp rtranclp.rtrancl_refl)
qed

lemma alone_flight_reached: "flight_step\<^sup>*\<^sup>* (both_flight\<lparr> tasks := (tasks both_flight)(0 := None) \<rparr>) alone_flight"
proof -
  let ?s3 = "both_flight\<lparr> tasks := (tasks both_flight)(0 := None) \<rparr>"
  have "flight_step ?s3 alone_flight"
    using flight_step.begin_download [of ?s3 1 wait_claim]
    by (simp add: both_flight_def alone_flight_def nobody_downloads_def fun_upd_twist)
  then show ?thesis by blast
qed

lemma failed_flight_reached: "flight_step alone_flight failed_flight"
  using flight_step.end_download [of alone_flight 1 wait_claim "Err ''HTTP 502''"]
  by (simp add: alone_flight_def failed_flight_def fill_cell_def stuck_registry_def)

lemma late_flight_reached: "flight_step\<^sup>*\<^sup>* failed_flight late_flight"
proof -
  let ?s6 = "\<lparr> flights = stuck_registry, tasks = (\<lambda>_. None), downloads = [0] \<rparr>"
  let ?s7 = "\<lparr> flights = stuck_registry, tasks = (\<lambda>_. None)(2 \<mapsto> Waiting wait_claim), downloads = [0] \<rparr>"
  have "flight_step failed_flight ?s6"
    using flight_step.finish [of failed_flight 1 wait_claim "Err ''HTTP 502''"]
    by (simp add: failed_flight_def release_claim_def fun_upd_idem)
  moreover have "flight_step ?s6 ?s7"
    using flight_step.claim [of ?s6 2 demo_key1] by (simp add: claim_singleflight_slot_def stuck_registry_def)
  moreover have "flight_step ?s7 late_flight"
    using flight_step.observe [of ?s7 2 wait_claim "Err ''HTTP 502''"] by (simp add: late_flight_def stuck_registry_def)
  ultimately show ?thesis by (meson converse_rtranclp_into_rtranclp rtranclp.rtrancl_refl)
qed

lemma alone_flight_reachable: "flight_step\<^sup>*\<^sup>* idle_flight alone_flight"
proof -
  have "flight_step both_flight (both_flight\<lparr> tasks := (tasks both_flight)(0 := None) \<rparr>)"
    by (rule flight_step.cancel [of _ _ "Waiting lead_claim"]) (simp add: both_flight_def)
  then show ?thesis using both_flight_reachable alone_flight_reached by (meson converse_rtranclp_into_rtranclp rtranclp_trans)
qed

theorem singleflight_downloads_once_witness:
  "tasks alone_flight 1 = Some (Downloading wait_claim)
   \<and> claim_singleflight_slot demo_key1 (flights alone_flight) = (flights alone_flight, wait_claim)"
  using singleflight_downloads_once [OF alone_flight_reachable, of 1 wait_claim] by (simp add: alone_flight_def)

section \<open>A slot without its leader\<close>

text \<open>A slot that stays registered because nobody is left to release it.\<close>

definition abandoned :: "tarball_key \<Rightarrow> nat \<Rightarrow> flight \<Rightarrow> bool" where
  "abandoned k s f \<longleftrightarrow> map_of (registry (flights f)) k = Some s
     \<and> (\<forall>t x. tasks f t = Some x \<longrightarrow> is_leader (task_claim x) \<longrightarrow> claim_key (task_claim x) \<noteq> k)"

lemma abandonedI:
  "map_of (registry (flights f)) k = Some s \<Longrightarrow>
     (\<And>t x. tasks f t = Some x \<Longrightarrow> is_leader (task_claim x) \<Longrightarrow> claim_key (task_claim x) \<noteq> k) \<Longrightarrow> abandoned k s f"
  unfolding abandoned_def by blast

lemma abandoned_registered: "abandoned k s f \<Longrightarrow> map_of (registry (flights f)) k = Some s"
  by (simp add: abandoned_def)

lemma abandoned_no_leader: "abandoned k s f \<Longrightarrow> tasks f t = Some x \<Longrightarrow> is_leader (task_claim x) \<Longrightarrow> claim_key (task_claim x) \<noteq> k"
  unfolding abandoned_def by blast

lemma abandoned_task:
  assumes "abandoned k s f" "map_of (registry sf) k = map_of (registry (flights f)) k"
    and "\<And>z. x = Some z \<Longrightarrow> is_leader (task_claim z) \<Longrightarrow> claim_key (task_claim z) \<noteq> k"
  shows "abandoned k s (f\<lparr> flights := sf, tasks := (tasks f)(t := x), downloads := ds \<rparr>)"
  using assms by (auto simp: abandoned_def split: if_splits)

lemma abandoned_step: "flight_step f f' \<Longrightarrow> abandoned k s f \<Longrightarrow> abandoned k s f'"
proof (induction rule: flight_step.induct)
  case (claim f t key sf cl)
  note reg = abandoned_registered [OF claim.prems]
  have "map_of (registry sf) k = map_of (registry (flights f)) k \<and> (is_leader cl \<longrightarrow> claim_key cl \<noteq> k)"
    using claim.hyps(2) by (cases rule: claim_cases) (use reg in auto)
  then show ?case using abandoned_task [OF claim.prems, where sf = sf and x = "Some (Waiting cl)" and t = t and ds = "downloads f"] by simp
next
  case (begin_download f t cl)
  then show ?case
    using abandoned_task [where sf = "flights f" and x = "Some (Downloading cl)" and t = t and ds = "downloads f"] abandoned_no_leader by fastforce
next
  case (end_download f t cl r)
  then show ?case
    using abandoned_task [where sf = "fill_cell (claim_slot cl) r (flights f)" and x = "Some (Holding cl r)" and t = t] abandoned_no_leader
    by (fastforce simp: fill_cell_def)
next
  case (observe f t cl r)
  then show ?case
    using abandoned_task [where sf = "flights f" and x = "Some (Holding cl r)" and t = t and ds = "downloads f"] abandoned_no_leader by fastforce
next
  case (finish f t cl r)
  have "is_leader cl \<Longrightarrow> claim_key cl \<noteq> k" using abandoned_no_leader [OF finish.prems finish.hyps] by simp
  then have "map_of (registry (release_claim cl (flights f))) k = map_of (registry (flights f)) k"
    by (auto simp: release_claim_def AList.delete_conv')
  then show ?case
    using abandoned_task [OF finish.prems, where sf = "release_claim cl (flights f)" and x = None and t = t and ds = "downloads f"]
    by simp
next
  case (cancel f t x)
  then show ?case by (auto simp: abandoned_def)
qed

lemma abandoned_steps: "flight_step\<^sup>*\<^sup>* f f' \<Longrightarrow> abandoned k s f \<Longrightarrow> abandoned k s f'"
  by (induction rule: rtranclp_induct) (auto intro: abandoned_step)

lemma cell_kept_step:
  assumes "flight_step f f'" "flight_inv f" "s < length (slot_cells (flights f))" "slot_cells (flights f) ! s = Some r"
  shows "slot_cells (flights f') ! s = Some r \<and> s < length (slot_cells (flights f'))"
  using assms
proof (induction rule: flight_step.induct)
  case (claim f t key sf cl)
  from claim.hyps(2) show ?case by (cases rule: claim_cases) (use claim.prems in \<open>auto simp: nth_append\<close>)
next
  case (end_download f t cl q)
  have "claim_slot cl \<noteq> s" using inv_downloading [OF end_download.prems(1) end_download.hyps] end_download.prems(3) by auto
  then show ?case using end_download.prems by (simp add: fill_cell_def)
qed simp_all

lemma cell_kept:
  assumes "flight_step\<^sup>*\<^sup>* f f'" "flight_inv f" "s < length (slot_cells (flights f))" "slot_cells (flights f) ! s = Some r"
  shows "slot_cells (flights f') ! s = Some r \<and> s < length (slot_cells (flights f'))"
  using assms
  by (induction rule: rtranclp_induct) (use cell_kept_step flight_steps_inv in blast)+

text \<open>Cancelling the leader of a slot abandons it.\<close>

lemma cancelled_leader_abandons:
  assumes keys: "key_inv f" and t: "tasks f t = Some x" and leader: "is_leader (task_claim x)"
  shows "abandoned (claim_key (task_claim x)) (claim_slot (task_claim x)) (f\<lparr> tasks := (tasks f)(t := None) \<rparr>)"
proof -
  have reg: "map_of (registry (flights f)) (claim_key (task_claim x)) = Some (claim_slot (task_claim x))"
    using keyed_registered [OF keys claim_of_task [OF t]] leader by blast
  have "claim_key (task_claim y) \<noteq> claim_key (task_claim x)"
    if y: "tasks f u = Some y" "u \<noteq> t" and "is_leader (task_claim y)" for u y
  proof
    assume same: "claim_key (task_claim y) = claim_key (task_claim x)"
    have "map_of (registry (flights f)) (claim_key (task_claim y)) = Some (claim_slot (task_claim y))"
      using keyed_registered [OF keys claim_of_task [OF y(1)]] \<open>is_leader (task_claim y)\<close> by blast
    then have "claim_slot (task_claim y) = claim_slot (task_claim x)" using reg same by simp
    then show False
      using keyed_leader [OF keys claim_of_task [OF y(1)] claim_of_task [OF t] \<open>is_leader (task_claim y)\<close> leader] y(2) by blast
  qed
  then show ?thesis using reg by (auto simp: abandoned_def split: if_splits)
qed

text \<open>
  C30. A cancelled leader leaves its slot behind for good: whenever the mount that leads the download of a commit
  is cancelled before it has a result, in any run, and any task that shared its slot ends the download
  with any result, a failure too, then after every further run the slot is still registered with that
  result: every later mount of the commit is given this slot and this result, no task ever downloads
  the commit again, and the registry is not changed by asking.
\<close>

theorem cancelled_leader_pins_result:
  assumes "flight_step\<^sup>*\<^sup>* idle_flight f" "tasks f t = Some (Waiting c) \<or> tasks f t = Some (Downloading c)" "is_leader c"
    and "flight_step\<^sup>*\<^sup>* (f\<lparr> tasks := (tasks f)(t := None) \<rparr>) g" "slot_cells (flights g) ! claim_slot c = Some r"
    and "flight_step\<^sup>*\<^sup>* g h"
  shows "claim_singleflight_slot (claim_key c) (flights h)
      = (flights h, \<lparr> claim_key = claim_key c, claim_slot = claim_slot c, is_leader = False \<rparr>)
    \<and> slot_cells (flights h) ! claim_slot c = Some r
    \<and> (\<forall>u d. tasks h u = Some (Downloading d) \<longrightarrow> claim_key d \<noteq> claim_key c)
    \<and> (\<forall>u d q. tasks h u = Some (Holding d q) \<and> claim_slot d = claim_slot c \<longrightarrow> q = r)"
proof -
  let ?f1 = "f\<lparr> tasks := (tasks f)(t := None) \<rparr>"
  obtain x where x: "tasks f t = Some x" "task_claim x = c" using assms(2) by auto
  have "flight_step f ?f1" using x(1) by (rule flight_step.cancel)
  then have g: "flight_step\<^sup>*\<^sup>* idle_flight g" using assms(1,4) by (meson converse_rtranclp_into_rtranclp rtranclp_trans)
  have h: "flight_step\<^sup>*\<^sup>* idle_flight h" using g assms(6) by simp
  note inv = reachable_flight [OF h, THEN conjunct1] and keys = reachable_flight [OF h, THEN conjunct2]
  have "abandoned (claim_key c) (claim_slot c) ?f1"
    using cancelled_leader_abandons [OF _ x(1)] reachable_flight [OF assms(1)] x(2) assms(3) by simp
  note gone = abandoned_steps [OF assms(4) this]
  note reg = abandoned_registered [OF abandoned_steps [OF assms(6) gone]]
  have "claim_slot c < length (slot_cells (flights g))"
    using inv_registry [OF _ abandoned_registered [OF gone]] reachable_flight [OF g] by blast
  then have cell: "slot_cells (flights h) ! claim_slot c = Some r"
    using cell_kept [OF assms(6)] reachable_flight [OF g] assms(5) by blast
  have "claim_key d \<noteq> claim_key c" if "tasks h u = Some (Downloading d)" for u d
    using downloading_registered [OF inv keys that] inv_downloading [OF inv that] reg cell by auto
  moreover have "q = r" if "tasks h u = Some (Holding d q)" "claim_slot d = claim_slot c" for u d q
    using inv_holding [OF inv that(1)] cell that(2) by simp
  ultimately show ?thesis using registered_claim [OF reg] cell by blast
qed

theorem cancelled_leader_pins_result_witness:
  "claim_singleflight_slot demo_key1 (flights late_flight) = (flights late_flight, wait_claim)
   \<and> slot_cells (flights late_flight) ! 0 = Some (Err ''HTTP 502'')"
proof -
  have fail: "slot_cells (flights failed_flight) ! claim_slot lead_claim = Some (Err ''HTTP 502'')"
    by (simp add: failed_flight_def stuck_registry_def)
  have lead: "tasks both_flight 0 = Some (Waiting lead_claim) \<or> tasks both_flight 0 = Some (Downloading lead_claim)"
    "is_leader lead_claim"
    by (simp_all add: both_flight_def)
  have "flight_step\<^sup>*\<^sup>* (both_flight\<lparr> tasks := (tasks both_flight)(0 := None) \<rparr>) failed_flight"
    using alone_flight_reached failed_flight_reached by (rule rtranclp.rtrancl_into_rtrancl)
  from cancelled_leader_pins_result [OF both_flight_reachable lead this fail late_flight_reached]
  show ?thesis by simp
qed

end
