(* ===== verification/Git_Tree.thy ===== *)
theory Git_Tree
  imports Manifest_Snapshot Provider_Common
begin

text \<open>
  The git side of the GitHub provider (\<open>crates/ctxfs-provider-git/src/github.rs\<close>) that needs no network:
  tree entries, the per-directory walk of a truncated tree, the choice of small blobs, and
  \<open>build_directories_inner\<close>, which turns the flat tree into content-addressed directories.
\<close>

section \<open>Tree entries\<close>

record tree_entry =
  te_path :: string
  te_mode :: string
  te_type :: string
  te_sha :: string
  te_size :: "u64 option"

abbreviation MODE_SYMLINK :: string where "MODE_SYMLINK \<equiv> ''120000''"
abbreviation MODE_EXECUTABLE :: string where "MODE_EXECUTABLE \<equiv> ''100755''"
abbreviation SMALL_BLOB_THRESHOLD_BYTES :: u64 where "SMALL_BLOB_THRESHOLD_BYTES \<equiv> 4096"

definition parent_path :: "string \<Rightarrow> string option" where
  "parent_path p = map_option fst (rsplit_once CHR ''/'' p)"

definition file_name :: "string \<Rightarrow> string" where
  "file_name p = (case rsplit_once CHR ''/'' p of Some (_, f) \<Rightarrow> f | None \<Rightarrow> p)"

definition small_blob_shas :: "tree_entry list \<Rightarrow> string list" where
  "small_blob_shas es =
     sort (remdups (map te_sha (filter (\<lambda>e. te_type e = ''blob'' \<and>
       (case te_size e of Some s \<Rightarrow> s \<le> SMALL_BLOB_THRESHOLD_BYTES | None \<Rightarrow> False)) es)))"

definition symlink_shas :: "tree_entry list \<Rightarrow> string set" where
  "symlink_shas es = set (map te_sha (filter (\<lambda>e. te_type e = ''blob'' \<and> te_mode e = MODE_SYMLINK) es))"

definition effective_prefetch_policy :: "tree_entry list \<Rightarrow> prefetch_policy \<Rightarrow> prefetch_policy" where
  "effective_prefetch_policy es policy =
     (if policy \<noteq> PrefetchAuto then policy
      else if list_ex (\<lambda>e. te_size e = None) (filter (\<lambda>e. te_type e = ''blob'') es) then PrefetchDisabled
      else policy)"

definition tree_entry_to_request :: "tree_entry \<Rightarrow> content_request option" where
  "tree_entry_to_request e =
     (if te_type e \<noteq> ''blob'' then None
      else Some \<lparr> cr_path = te_path e, cr_digest = Some (from_sha1_hex (te_sha e)), cr_size = te_size e,
                  cr_kind = (if te_mode e = MODE_SYMLINK then ContentSymlink else ContentFile) \<rparr>)"

text \<open>
  A \<open>PathBuf\<close> is compared by its components: repeated and trailing separators and inner dots do not count.
\<close>

definition path_key :: "string \<Rightarrow> string list" where
  "path_key p =
     (let cs = filter (\<lambda>c. c \<noteq> []) (split_on CHR ''/'' p) in
      if starts_with ''/'' p then ''/'' # filter (\<lambda>c. c \<noteq> ''.'') cs
      else (case cs of [] \<Rightarrow> [] | c # r \<Rightarrow> c # filter (\<lambda>c. c \<noteq> ''.'') r))"

definition build_path_to_sha_size_from_requests :: "content_request list \<Rightarrow> (string list \<times> string \<times> u64) list" where
  "build_path_to_sha_size_from_requests rs =
     foldl (\<lambda>m r. case cr_digest r of
         Some d \<Rightarrow> AList.update (path_key (cr_path r)) (dg_hex d, case cr_size r of Some s \<Rightarrow> s | None \<Rightarrow> 0) m
       | None \<Rightarrow> m) [] rs"

section \<open>Walking a truncated tree\<close>

text \<open>
  The stack's top is the head of the list; \<open>get_subtree\<close> is one request for a tree that is not
  recursive. \<open>None\<close> is a walk that does not end.
\<close>

definition prefixed :: "string \<Rightarrow> string \<Rightarrow> string" where
  "prefixed prefix p = (if prefix = [] then p else prefix @ ''/'' @ p)"

definition prefix_entry :: "string \<Rightarrow> tree_entry \<Rightarrow> tree_entry" where
  "prefix_entry prefix e = e\<lparr> te_path := prefixed prefix (te_path e) \<rparr>"

definition subtrees_of :: "string \<Rightarrow> tree_entry list \<Rightarrow> (string \<times> string) list" where
  "subtrees_of prefix es =
     map (\<lambda>e. (te_sha e, prefixed prefix (te_path e))) (filter (\<lambda>e. te_type e = ''tree'') es)"

partial_function (option) walk_tree ::
  "(string \<Rightarrow> tree_entry list ctxfs_result) \<Rightarrow> (string \<times> string) list \<Rightarrow> tree_entry list \<Rightarrow> tree_entry list ctxfs_result option" where
  "walk_tree get_subtree stack out =
     (case stack of
        [] \<Rightarrow> Some (Ok out)
      | (sha, prefix) # rest \<Rightarrow>
          (case get_subtree sha of
             Err e \<Rightarrow> Some (Err e)
           | Panic \<Rightarrow> Some Panic
           | Ok es \<Rightarrow> walk_tree get_subtree (rev (subtrees_of prefix es) @ rest) (out @ map (prefix_entry prefix) es)))"

declare walk_tree.simps [code]

definition fetch_tree_walked :: "(string \<Rightarrow> tree_entry list ctxfs_result) \<Rightarrow> string \<Rightarrow> tree_entry list ctxfs_result option" where
  "fetch_tree_walked get_subtree root = walk_tree get_subtree [(root, [])] []"

text \<open>The tree behind a hash, when it is finite and every part of it can be fetched, and its recursive listing.\<close>

datatype git_tree = GitTree "(tree_entry \<times> git_tree option) list"

fun tree_listing :: "string \<Rightarrow> git_tree \<Rightarrow> tree_entry list"
  and kids_listing :: "string \<Rightarrow> (tree_entry \<times> git_tree option) list \<Rightarrow> tree_entry list" where
  "tree_listing prefix (GitTree kids) = kids_listing prefix kids"
| "kids_listing prefix [] = []"
| "kids_listing prefix ((e, None) # ks) = prefix_entry prefix e # kids_listing prefix ks"
| "kids_listing prefix ((e, Some t) # ks) =
     prefix_entry prefix e # tree_listing (prefixed prefix (te_path e)) t @ kids_listing prefix ks"

inductive stored_tree :: "(string \<Rightarrow> tree_entry list ctxfs_result) \<Rightarrow> string \<Rightarrow> git_tree \<Rightarrow> bool"
  and stored_kids :: "(string \<Rightarrow> tree_entry list ctxfs_result) \<Rightarrow> (tree_entry \<times> git_tree option) list \<Rightarrow> bool"
  for get where
  "get sha = Ok (map fst kids) \<Longrightarrow> stored_kids get kids \<Longrightarrow> stored_tree get sha (GitTree kids)"
| "stored_kids get []"
| "te_type e \<noteq> ''tree'' \<Longrightarrow> stored_kids get ks \<Longrightarrow> stored_kids get ((e, None) # ks)"
| "te_type e = ''tree'' \<Longrightarrow> stored_tree get (te_sha e) t \<Longrightarrow> stored_kids get ks \<Longrightarrow> stored_kids get ((e, Some t) # ks)"

inductive_cases stored_treeE: "stored_tree get sha t"
inductive_cases stored_kids_ConsE: "stored_kids get ((e, x) # ks)"

definition kid_trees :: "string \<Rightarrow> (tree_entry \<times> git_tree option) list \<Rightarrow> (string \<times> git_tree) list" where
  "kid_trees prefix kids = List.map_filter (\<lambda>(e, t). map_option (\<lambda>t. (prefixed prefix (te_path e), t)) t) kids"

lemma kids_listing_mset:
  "mset (kids_listing prefix kids) =
     mset (map (prefix_entry prefix) (map fst kids)) + (\<Sum>(p, t)\<leftarrow>kid_trees prefix kids. mset (tree_listing p t))"
  by (induction prefix kids rule: tree_listing_kids_listing.induct(2) [where P = "\<lambda>_ _. True"])
    (simp_all add: kid_trees_def List.map_filter_simps)

lemma subtrees_of_kids:
  "stored_kids get kids \<Longrightarrow>
     list_all2 (\<lambda>(sha, p) (q, t). p = q \<and> stored_tree get sha t) (subtrees_of prefix (map fst kids)) (kid_trees prefix kids)"
proof (induction kids)
  case (Cons k ks)
  obtain e x where k: "k = (e, x)" by (cases k)
  show ?case
    using Cons.prems [unfolded k] Cons.IH unfolding k
    by (elim stored_kids_ConsE) (simp_all add: subtrees_of_def kid_trees_def List.map_filter_simps)
qed (simp add: subtrees_of_def kid_trees_def List.map_filter_simps)

lemma size_kid_trees: "(\<Sum>(p, t)\<leftarrow>kid_trees prefix kids. size t) < size (GitTree kids)"
proof -
  have "(\<Sum>(p, t)\<leftarrow>kid_trees prefix kids. size t) \<le> size_list (size_prod (\<lambda>_. 0) (size_option size)) kids"
    by (induction kids) (auto simp: kid_trees_def List.map_filter_simps split: option.splits)
  then show ?thesis by simp
qed

lemma walk_tree_complete:
  "list_all2 (\<lambda>(sha, p) (q, t). p = q \<and> stored_tree get sha t) stack ts \<Longrightarrow>
   \<exists>res. walk_tree get stack out = Some (Ok res)
     \<and> mset res = mset out + (\<Sum>(p, t)\<leftarrow>ts. mset (tree_listing p t))"
proof (induction "\<Sum>(p, t)\<leftarrow>ts. size t" arbitrary: stack ts out rule: less_induct)
  case less
  show ?case
  proof (cases stack)
    case Nil
    then show ?thesis using less.prems by (simp add: walk_tree.simps)
  next
    case (Cons s rest)
    obtain sha p where s: "s = (sha, p)" by (cases s)
    obtain t ts' where ts: "ts = (p, t) # ts'" and st: "stored_tree get sha t"
      and rest: "list_all2 (\<lambda>(sha, p) (q, t). p = q \<and> stored_tree get sha t) rest ts'"
      using less.prems Cons s by (auto simp: list_all2_Cons1)
    obtain kids where t: "t = GitTree kids" and get: "get sha = Ok (map fst kids)" and sk: "stored_kids get kids"
      using st by (elim stored_treeE)
    let ?stack = "rev (subtrees_of p (map fst kids)) @ rest" and ?ts = "rev (kid_trees p kids) @ ts'"
    have all: "list_all2 (\<lambda>(sha, p) (q, t). p = q \<and> stored_tree get sha t) ?stack ?ts"
      using subtrees_of_kids [OF sk] rest by (auto intro: list_all2_appendI)
    have sum_rev: "(\<Sum>(p, t)\<leftarrow>rev xs. f p t) = (\<Sum>(p, t)\<leftarrow>xs. f p t)" for xs and f :: "string \<Rightarrow> git_tree \<Rightarrow> 'b::comm_monoid_add"
      by (induction xs) (auto simp: add.commute)
    have "(\<Sum>(p, t)\<leftarrow>?ts. size t) < (\<Sum>(p, t)\<leftarrow>ts. size t)"
      using size_kid_trees [of p kids] ts t by (simp add: sum_rev)
    from less.hyps [OF this all] obtain res where
      res: "walk_tree get ?stack (out @ map (prefix_entry p) (map fst kids)) = Some (Ok res)"
      "mset res = mset (out @ map (prefix_entry p) (map fst kids)) + (\<Sum>(p, t)\<leftarrow>?ts. mset (tree_listing p t))" by blast
    have "walk_tree get stack out = Some (Ok res)" using res(1) Cons s get by (subst walk_tree.simps) simp
    moreover have "mset res = mset out + (\<Sum>(p, t)\<leftarrow>ts. mset (tree_listing p t))"
      using res(2) ts t kids_listing_mset [of p kids] by (simp add: sum_rev ac_simps)
    ultimately show ?thesis by blast
  qed
qed

text \<open>
  C12. The walk of a truncated tree ends and is complete: for a finite tree all of whose parts can be
  fetched, it returns every entry of the recursive listing once, each under its full path.
\<close>

theorem walk_is_recursive_listing:
  assumes "stored_tree get root t"
  shows "\<exists>res. fetch_tree_walked get root = Some (Ok res) \<and> mset res = mset (tree_listing [] t)"
  using walk_tree_complete [of get "[(root, [])]" "[([], t)]" "[]"] assms by (simp add: fetch_tree_walked_def)


definition demo_entry :: "string \<Rightarrow> string \<Rightarrow> string \<Rightarrow> tree_entry" where
  "demo_entry p ty sha = \<lparr> te_path = p, te_mode = ''100644'', te_type = ty, te_sha = sha, te_size = None \<rparr>"

definition demo_subtree :: "string \<Rightarrow> tree_entry list ctxfs_result" where
  "demo_subtree sha =
     (if sha = ''r'' then Ok [demo_entry ''src'' ''tree'' ''s'', demo_entry ''a'' ''blob'' ''1'']
      else if sha = ''s'' then Ok [demo_entry ''b'' ''blob'' ''2'']
      else Err (Provider ''HTTP 404''))"

theorem walk_is_recursive_listing_witness:
  "\<exists>res. fetch_tree_walked demo_subtree ''r'' = Some (Ok res)
     \<and> mset res = {# demo_entry ''src'' ''tree'' ''s'', demo_entry ''src/b'' ''blob'' ''2'', demo_entry ''a'' ''blob'' ''1'' #}"
proof -
  let ?s = "GitTree [(demo_entry ''b'' ''blob'' ''2'', None)]"
  let ?t = "GitTree [(demo_entry ''src'' ''tree'' ''s'', Some ?s), (demo_entry ''a'' ''blob'' ''1'', None)]"
  have "stored_tree demo_subtree ''s'' ?s"
    by (intro stored_tree_stored_kids.intros) (simp_all add: demo_subtree_def demo_entry_def)
  then have "stored_tree demo_subtree (te_sha (demo_entry ''src'' ''tree'' ''s'')) ?s" by (simp add: demo_entry_def)
  then have "stored_tree demo_subtree ''r'' ?t"
    by (intro stored_tree_stored_kids.intros) (simp_all add: demo_subtree_def demo_entry_def)
  from walk_is_recursive_listing [OF this] show ?thesis
    by (simp add: prefix_entry_def prefixed_def demo_entry_def add_mset_commute)
qed

end
