(* ===== verification/Git_Directories.thy ===== *)
theory Git_Directories
  imports Git_Tree "HOL-Library.Product_Lexorder"
begin

text \<open>
  \<open>build_directories_inner\<close>: from the flat list of tree entries to directories that name each other by
  digest. \<open>to_json\<close> is the serialiser of a directory's entries and \<open>sha256\<close> the hash.
\<close>

section \<open>Placing the entries\<close>

type_synonym children_map = "(string \<times> dir_entry list) list"

definition ensure_key :: "string \<Rightarrow> children_map \<Rightarrow> children_map" where
  "ensure_key k m = (case map_of m k of None \<Rightarrow> AList.update k [] m | Some _ \<Rightarrow> m)"

definition push_entry :: "string \<Rightarrow> dir_entry \<Rightarrow> children_map \<Rightarrow> children_map" where
  "push_entry k d m = AList.update k ((case map_of m k of Some ds \<Rightarrow> ds | None \<Rightarrow> []) @ [d]) m"

text \<open>The entry a tree entry becomes; \<open>Ok None\<close> is one that is skipped (a submodule).\<close>

definition symlink_target :: "(string \<rightharpoonup> bytes) option \<Rightarrow> tree_entry \<Rightarrow> string ctxfs_result" where
  "symlink_target inline e =
     (case inline of
        None \<Rightarrow> Ok []
      | Some m \<Rightarrow>
          (case m (te_sha e) of
             None \<Rightarrow> Err (Provider (''symlink sha '' @ te_sha e @ '' (path '' @ quoted (te_path e)
               @ '') missing from inline map; prefetch must include all symlink SHAs''))
           | Some b \<Rightarrow>
               (case utf8_error 0 b of
                  None \<Rightarrow> Ok b
                | Some bad \<Rightarrow> Err (Provider (''symlink target for '' @ quoted (te_path e) @ '' (sha '' @ te_sha e
                    @ '') is not valid UTF-8: '' @ utf8_error_display bad)))))"

definition convert_entry :: "(string \<rightharpoonup> bytes) option \<Rightarrow> tree_entry \<Rightarrow> dir_entry option ctxfs_result" where
  "convert_entry inline e =
     (let name = file_name (te_path e) in
      if te_mode e = MODE_SYMLINK then
        omap (\<lambda>target. Some (DirEntry_Symlink \<lparr> se_name = name, se_target = target \<rparr>)) (symlink_target inline e)
      else if te_type e = ''blob'' then
        (let sz = (case te_size e of Some s \<Rightarrow> s | None \<Rightarrow> 0) in
         Ok (Some (DirEntry_File \<lparr> fe_name = name, fe_digest = from_sha1_hex (te_sha e), fe_size = sz,
           fe_executable = (te_mode e = MODE_EXECUTABLE),
           fe_inline_content = (case inline of
               Some m \<Rightarrow> if sz \<le> SMALL_BLOB_THRESHOLD_BYTES then m (te_sha e) else None
             | None \<Rightarrow> None) \<rparr>)))
      else if te_type e = ''tree'' then
        Ok (Some (DirEntry_Directory \<lparr> de_name = name, de_digest = from_sha1_hex (te_sha e) \<rparr>))
      else Ok None)"

definition place_entry :: "(string \<rightharpoonup> bytes) option \<Rightarrow> tree_entry \<Rightarrow> children_map \<Rightarrow> children_map ctxfs_result" where
  "place_entry inline e m =
     (let parent = parent_path (te_path e);
          m1 = (if te_type e = ''tree'' then ensure_key (te_path e) m else m);
          m2 = (case parent of Some p \<Rightarrow> ensure_key p m1 | None \<Rightarrow> m1);
          parent_key = (case parent of Some p \<Rightarrow> p | None \<Rightarrow> [])
      in omap (\<lambda>d. case d of Some d \<Rightarrow> push_entry parent_key d m2 | None \<Rightarrow> m2) (convert_entry inline e))"

fun place_entries :: "(string \<rightharpoonup> bytes) option \<Rightarrow> tree_entry list \<Rightarrow> children_map \<Rightarrow> children_map ctxfs_result" where
  "place_entries inline [] m = Ok m"
| "place_entries inline (e # es) m = obind (place_entry inline e m) (place_entries inline es)"

section \<open>Digests, deepest directories first\<close>

text \<open>The number of separators, and the comparison by depth, then by length, both descending.\<close>

definition path_depth :: "string \<Rightarrow> nat" where
  "path_depth p = length (filter (\<lambda>c. c = CHR ''/'') p)"

definition deepest_first :: "string list \<Rightarrow> string list" where
  "deepest_first ps = sort_key (\<lambda>p. (- int (path_depth p), - int (length p))) ps"

definition child_path :: "string \<Rightarrow> string \<Rightarrow> string" where
  "child_path p name = (if p = [] then name else p @ ''/'' @ name)"

definition set_child_digest :: "string \<Rightarrow> (string \<times> digest) list \<Rightarrow> dir_entry \<Rightarrow> dir_entry" where
  "set_child_digest p digests e =
     (case e of
        DirEntry_Directory d \<Rightarrow>
          (case map_of digests (child_path p (de_name d)) of
             Some dg \<Rightarrow> DirEntry_Directory (d\<lparr> de_digest := dg \<rparr>)
           | None \<Rightarrow> e)
      | _ \<Rightarrow> e)"

type_synonym dir_serializer = "dir_entry list \<Rightarrow> bytes option"

fun build_loop ::
  "dir_serializer \<Rightarrow> (bytes \<Rightarrow> string) \<Rightarrow> children_map \<Rightarrow> string list \<Rightarrow> (string \<times> directory) list \<Rightarrow>
     (string \<times> digest) list \<Rightarrow> ((string \<times> directory) list \<times> (string \<times> digest) list) ctxfs_result" where
  "build_loop to_json sha256 children [] dirs digests = Ok (dirs, digests)"
| "build_loop to_json sha256 children (p # ps) dirs digests =
     (let es = map (set_child_digest p digests)
                 (sort_key dir_entry_name (case map_of children p of Some ds \<Rightarrow> ds | None \<Rightarrow> []))
      in obind (compute_digest to_json sha256 es) (\<lambda>dg.
           build_loop to_json sha256 (AList.delete p children) ps
             (AList.update p \<lparr> dir_digest = dg, dir_entries = es \<rparr> dirs) (AList.update p dg digests)))"

definition build_directories_inner ::
  "dir_serializer \<Rightarrow> (bytes \<Rightarrow> string) \<Rightarrow> tree_entry list \<Rightarrow> (string \<rightharpoonup> bytes) option \<Rightarrow>
     (digest \<times> (string \<times> directory) list) ctxfs_result" where
  "build_directories_inner to_json sha256 entries inline =
     obind (place_entries inline entries [([], [])]) (\<lambda>children.
     omap (\<lambda>(dirs, digests).
         (case map_of digests [] of Some d \<Rightarrow> d | None \<Rightarrow> digest_sha256 sha256 ''empty'', dirs))
       (build_loop to_json sha256 children (deepest_first (keys_of children)) [] []))"

text \<open>Without an inline map the result is expected, that is an error panics.\<close>

definition build_directories ::
  "dir_serializer \<Rightarrow> (bytes \<Rightarrow> string) \<Rightarrow> tree_entry list \<Rightarrow> (digest \<times> (string \<times> directory) list) ctxfs_result" where
  "build_directories to_json sha256 entries =
     (case build_directories_inner to_json sha256 entries None of Ok r \<Rightarrow> Ok r | _ \<Rightarrow> Panic)"

definition build_directories_with_inline ::
  "dir_serializer \<Rightarrow> (bytes \<Rightarrow> string) \<Rightarrow> tree_entry list \<Rightarrow> (string \<rightharpoonup> bytes) \<Rightarrow>
     (digest \<times> (string \<times> directory) list) ctxfs_result" where
  "build_directories_with_inline to_json sha256 entries inline =
     build_directories_inner to_json sha256 entries (Some inline)"

section \<open>Paths\<close>

lemma parent_path_Some: "parent_path p = Some q \<longleftrightarrow> (\<exists>b. rsplit_once CHR ''/'' p = Some (q, b) \<and> file_name p = b)"
  by (auto simp: parent_path_def file_name_def split: option.splits simp del: rsplit_once_None)

lemma split_path:
  assumes "parent_path p = Some q"
  shows "p = q @ ''/'' @ file_name p \<and> CHR ''/'' \<notin> set (file_name p)"
proof -
  obtain b where "rsplit_once CHR ''/'' p = Some (q, b)" "file_name p = b" using assms parent_path_Some by blast
  then show ?thesis using rsplit_once_SomeD by fastforce
qed

lemma parent_None: "parent_path p = None \<longleftrightarrow> CHR ''/'' \<notin> set p"
  by (auto simp: parent_path_def rsplit_once_None)

text \<open>A path is proper when it does not start with a separator; git's never do.\<close>

definition proper_path :: "string \<Rightarrow> bool" where
  "proper_path p \<longleftrightarrow> p \<noteq> [] \<and> hd p \<noteq> CHR ''/''"

definition parent_key :: "string \<Rightarrow> string" where
  "parent_key p = (case parent_path p of Some q \<Rightarrow> q | None \<Rightarrow> [])"

lemma child_of_parent: "proper_path p \<Longrightarrow> child_path (parent_key p) (file_name p) = p"
proof (cases "parent_path p")
  case None
  then have "rsplit_once CHR ''/'' p = None" by (simp add: parent_path_def del: rsplit_once_None split: option.splits)
  then show "proper_path p \<Longrightarrow> ?thesis" using None
    by (simp add: parent_key_def child_path_def file_name_def del: rsplit_once_None)
next
  case (Some q)
  assume proper: "proper_path p"
  have p: "p = q @ ''/'' @ file_name p" using split_path [OF Some] by blast
  have "q \<noteq> []"
  proof
    assume "q = []"
    then have "hd p = CHR ''/''" using p by (metis append_Nil append_Cons list.sel(1))
    then show False using proper by (simp add: proper_path_def)
  qed
  then show ?thesis using Some p by (simp add: parent_key_def child_path_def)
qed

text \<open>A path strictly below another comes before it.\<close>

definition before :: "string \<Rightarrow> string \<Rightarrow> bool" where
  "before q p \<longleftrightarrow> path_depth p < path_depth q \<or> path_depth p = path_depth q \<and> length p < length q"

lemma child_before: "name \<noteq> [] \<Longrightarrow> before (child_path p name) p \<or> p = [] \<and> path_depth [] < path_depth name"
  by (auto simp: before_def path_depth_def child_path_def)

lemma before_child: "child_path p name = q \<Longrightarrow> proper_path q \<Longrightarrow> before q p"
  by (cases "p = []") (auto simp: before_def path_depth_def child_path_def proper_path_def)

lemma set_deepest [simp]: "set (deepest_first ps) = set ps" "distinct (deepest_first ps) = distinct ps"
  by (simp_all add: deepest_first_def)

lemma deepest_order:
  assumes "deepest_first ps = xs @ p # ys" "before q p"
  shows "q \<notin> set ys"
proof
  let ?f = "\<lambda>p. (- int (path_depth p), - int (length p))"
  assume "q \<in> set ys"
  have "sorted (map ?f (xs @ p # ys))" unfolding assms(1) [symmetric] deepest_first_def by (rule sorted_sort_key)
  then have "?f p \<le> ?f q" using \<open>q \<in> set ys\<close> by (auto simp: sorted_append)
  then show False using assms(2) by (auto simp: before_def)
qed

section \<open>What is placed where\<close>

definition kids_of :: "children_map \<Rightarrow> string \<Rightarrow> dir_entry list" where
  "kids_of m p = (case map_of m p of Some ds \<Rightarrow> ds | None \<Rightarrow> [])"

definition placed :: "(string \<rightharpoonup> bytes) option \<Rightarrow> tree_entry list \<Rightarrow> string \<Rightarrow> dir_entry list" where
  "placed inline es p =
     List.map_filter (\<lambda>e. if parent_key (te_path e) = p
       then (case convert_entry inline e of Ok x \<Rightarrow> x | _ \<Rightarrow> None) else None) es"

lemma kids_ensure [simp]: "kids_of (ensure_key k m) p = kids_of m p"
  by (auto simp: kids_of_def ensure_key_def AList.update_conv' split: option.split)

lemma keys_ensure [simp]: "set (keys_of (ensure_key k m)) = insert k (set (keys_of m))"
  by (auto simp: ensure_key_def split: option.split dest: map_of_SomeD) (metis image_eqI map_of_SomeD fst_conv)

lemma distinct_ensure: "distinct (keys_of m) \<Longrightarrow> distinct (keys_of (ensure_key k m))"
  by (auto simp: ensure_key_def split: option.split intro: AList.distinct_update)

lemma kids_push [simp]: "kids_of (push_entry k d m) p = (if p = k then kids_of m p @ [d] else kids_of m p)"
  by (auto simp: kids_of_def push_entry_def AList.update_conv')

lemma keys_push [simp]: "set (keys_of (push_entry k d m)) = insert k (set (keys_of m))"
  by (auto simp: push_entry_def)

lemma distinct_push: "distinct (keys_of m) \<Longrightarrow> distinct (keys_of (push_entry k d m))"
  unfolding push_entry_def by (rule AList.distinct_update)

lemma place_entry_Ok:
  assumes "place_entry inline e m = Ok m'" and "distinct (keys_of m)" and "[] \<in> set (keys_of m)"
  shows "distinct (keys_of m') \<and> set (keys_of m) \<subseteq> set (keys_of m') \<and> parent_key (te_path e) \<in> set (keys_of m')
    \<and> (te_type e = ''tree'' \<longrightarrow> te_path e \<in> set (keys_of m'))
    \<and> (\<forall>p. kids_of m' p = kids_of m p @ placed inline [e] p)
    \<and> (\<exists>x. convert_entry inline e = Ok x)"
proof -
  have "\<exists>x. convert_entry inline e = Ok x"
    using assms(1) by (cases "convert_entry inline e") (simp_all add: place_entry_def Let_def)
  then obtain x where x: "convert_entry inline e = Ok x" by blast
  have m': "m' = (let m1 = (if te_type e = ''tree'' then ensure_key (te_path e) m else m);
          m2 = (case parent_path (te_path e) of Some p \<Rightarrow> ensure_key p m1 | None \<Rightarrow> m1)
      in (case x of Some d \<Rightarrow> push_entry (parent_key (te_path e)) d m2 | None \<Rightarrow> m2))"
    using assms(1) x unfolding place_entry_def Let_def parent_key_def by (simp split del: if_split)
  have keys: "distinct (keys_of m')" using m' assms(2)
    by (auto simp: Let_def intro!: distinct_push distinct_ensure split: option.splits)
  have sub: "set (keys_of m) \<subseteq> set (keys_of m')" "parent_key (te_path e) \<in> set (keys_of m')"
    "te_type e = ''tree'' \<longrightarrow> te_path e \<in> set (keys_of m')"
    using m' assms(3) unfolding Let_def parent_key_def
    by (auto simp del: set_map split: option.splits if_splits)
  define m2 where "m2 = (let m1 = (if te_type e = ''tree'' then ensure_key (te_path e) m else m) in
      (case parent_path (te_path e) of Some p \<Rightarrow> ensure_key p m1 | None \<Rightarrow> m1))"
  have base: "kids_of m2 p = kids_of m p" for p by (simp add: m2_def Let_def split: option.split)
  have m'2: "m' = (case x of Some d \<Rightarrow> push_entry (parent_key (te_path e)) d m2 | None \<Rightarrow> m2)"
    using m' by (simp only: m2_def Let_def)
  have "placed inline [e] p = (if parent_key (te_path e) = p then (case x of None \<Rightarrow> [] | Some d \<Rightarrow> [d]) else [])" for p
    by (cases x) (simp_all add: placed_def List.map_filter_simps x)
  then have "kids_of m' p = kids_of m p @ placed inline [e] p" for p
    unfolding m'2 by (cases x) (auto simp: base)
  then show ?thesis using keys sub x by blast
qed

lemma placed_Cons: "placed inline (e # es) p = placed inline [e] p @ placed inline es p"
  by (simp add: placed_def List.map_filter_simps split: option.split)

lemma place_entries_Ok:
  "place_entries inline es m = Ok m' \<Longrightarrow> distinct (keys_of m) \<Longrightarrow> [] \<in> set (keys_of m) \<Longrightarrow>
   distinct (keys_of m') \<and> set (keys_of m) \<subseteq> set (keys_of m')
    \<and> (\<forall>e\<in>set es. parent_key (te_path e) \<in> set (keys_of m'))
    \<and> (\<forall>e\<in>set es. te_type e = ''tree'' \<longrightarrow> te_path e \<in> set (keys_of m'))
    \<and> (\<forall>p. kids_of m' p = kids_of m p @ placed inline es p)"
proof (induction es arbitrary: m)
  case (Cons e es)
  obtain m1 where m1: "place_entry inline e m = Ok m1" "place_entries inline es m1 = Ok m'"
    using Cons.prems(1) by (auto simp: obind_eq_Ok)
  note one = place_entry_Ok [OF m1(1) Cons.prems(2,3)]
  have keys1: "distinct (keys_of m1)" "[] \<in> set (keys_of m1)" using one Cons.prems(3) by blast+
  note IH = Cons.IH [OF m1(2) keys1]
  have kids: "kids_of m' p = kids_of m p @ placed inline (e # es) p" for p
  proof -
    have "kids_of m' p = kids_of m1 p @ placed inline es p" using IH by blast
    moreover have "kids_of m1 p = kids_of m p @ placed inline [e] p" using one by blast
    ultimately show ?thesis using placed_Cons [of inline e es p] by simp
  qed
  have sub: "set (keys_of m1) \<subseteq> set (keys_of m')" using IH by blast
  have "\<forall>x\<in>set (e # es). parent_key (te_path x) \<in> set (keys_of m')"
    "\<forall>x\<in>set (e # es). te_type x = ''tree'' \<longrightarrow> te_path x \<in> set (keys_of m')"
    using one IH sub by (auto simp del: set_map)
  then show ?case using one IH kids sub by blast
qed (simp add: placed_def List.map_filter_simps)

text \<open>A directory entry was placed by a tree entry of that path.\<close>

lemma convert_directory:
  assumes "convert_entry inline e = Ok (Some (DirEntry_Directory x))"
  shows "te_type e = ''tree'' \<and> de_name x = file_name (te_path e)"
proof (cases "te_mode e = MODE_SYMLINK")
  case True
  then show ?thesis using assms by (cases "symlink_target inline e") (simp_all add: convert_entry_def)
next
  case False
  then show ?thesis using assms by (auto simp: convert_entry_def Let_def split: if_splits)
qed

lemma placed_directory:
  assumes "DirEntry_Directory x \<in> set (placed inline es p)"
  shows "\<exists>e\<in>set es. te_type e = ''tree'' \<and> parent_key (te_path e) = p \<and> file_name (te_path e) = de_name x"
proof -
  obtain e where e: "e \<in> set es" and some: "(if parent_key (te_path e) = p
      then (case convert_entry inline e of Ok x \<Rightarrow> x | _ \<Rightarrow> None) else None) = Some (DirEntry_Directory x)"
    using assms unfolding placed_def set_map_filter by blast
  have "parent_key (te_path e) = p \<and> convert_entry inline e = Ok (Some (DirEntry_Directory x))"
    using some by (cases "convert_entry inline e") (simp_all split: if_split_asm)
  then show ?thesis using convert_directory e by force
qed

section \<open>Every directory names its children by their digest\<close>

text \<open>
  \<open>dirs_ok\<close>: the two maps built so far have the same keys; each directory carries the digest of its own
  entries, which are the placed ones sorted by name with the digests of the directories below filled in.
\<close>

definition dirs_ok ::
  "dir_serializer \<Rightarrow> (bytes \<Rightarrow> string) \<Rightarrow> (string \<Rightarrow> dir_entry list) \<Rightarrow> (string \<times> directory) list \<Rightarrow> (string \<times> digest) list \<Rightarrow> bool" where
  "dirs_ok to_json sha256 kids dirs digests \<longleftrightarrow>
     set (keys_of dirs) = set (keys_of digests) \<and>
     (\<forall>p d. map_of dirs p = Some d \<longrightarrow>
        dir_entries d = map (set_child_digest p digests) (sort_key dir_entry_name (kids p)) \<and>
        compute_digest to_json sha256 (dir_entries d) = Ok (dir_digest d) \<and>
        map_of digests p = Some (dir_digest d))"

definition kids_settled :: "(string \<Rightarrow> dir_entry list) \<Rightarrow> string \<Rightarrow> string list \<Rightarrow> bool" where
  "kids_settled kids p todo \<longleftrightarrow>
     (\<forall>x. DirEntry_Directory x \<in> set (kids p) \<longrightarrow> child_path p (de_name x) \<notin> set todo)"

lemma dirs_okD:
  assumes "dirs_ok to_json sha256 kids dirs digests" "map_of dirs p = Some d"
  shows "dir_entries d = map (set_child_digest p digests) (sort_key dir_entry_name (kids p))"
    "compute_digest to_json sha256 (dir_entries d) = Ok (dir_digest d)"
    "map_of digests p = Some (dir_digest d)"
  using assms unfolding dirs_ok_def by blast+

lemma set_child_digest_other:
  assumes "\<forall>x. e = DirEntry_Directory x \<longrightarrow> child_path p (de_name x) \<noteq> q"
  shows "set_child_digest p (AList.update q dg digests) e = set_child_digest p digests e"
  using assms by (cases e) (simp_all add: set_child_digest_def AList.update_conv')

lemma kids_of_delete: "q \<noteq> p \<Longrightarrow> kids_of (AList.delete p m) q = kids_of m q"
  by (simp add: kids_of_def AList.delete_conv')

lemma dirs_ok_step:
  assumes ok: "dirs_ok to_json sha256 kids dirs digests"
    and new: "p \<notin> set (keys_of dirs)" and self: "kids_settled kids p [p]"
    and settled: "\<forall>q\<in>set (keys_of dirs). kids_settled kids q [p]"
    and es: "es = map (set_child_digest p digests) (sort_key dir_entry_name (kids p))"
    and dg: "compute_digest to_json sha256 es = Ok dg"
  shows "dirs_ok to_json sha256 kids (AList.update p \<lparr> dir_digest = dg, dir_entries = es \<rparr> dirs) (AList.update p dg digests)"
proof -
  have same: "map (set_child_digest q (AList.update p dg digests)) (sort_key dir_entry_name (kids q)) =
      map (set_child_digest q digests) (sort_key dir_entry_name (kids q))" if "kids_settled kids q [p]" for q
    using that by (intro map_cong refl set_child_digest_other) (auto simp: kids_settled_def)
  have old: "kids_settled kids q [p]" if "map_of dirs q = Some d" for q d
    using settled that by (metis image_eqI fst_conv map_of_SomeD set_map)
  let ?dirs = "AList.update p \<lparr> dir_digest = dg, dir_entries = es \<rparr> dirs" and ?digests = "AList.update p dg digests"
  have "dir_entries d = map (set_child_digest q ?digests) (sort_key dir_entry_name (kids q)) \<and>
      compute_digest to_json sha256 (dir_entries d) = Ok (dir_digest d) \<and> map_of ?digests q = Some (dir_digest d)"
    if d: "map_of ?dirs q = Some d" for q d
  proof (cases "q = p")
    case True
    then have "d = \<lparr> dir_digest = dg, dir_entries = es \<rparr>" using d by (simp add: AList.update_conv')
    then show ?thesis using True es dg by (simp add: same [OF self] AList.update_conv')
  next
    case False
    then have d': "map_of dirs q = Some d" using d by (simp add: AList.update_conv')
    have "map (set_child_digest q ?digests) (sort_key dir_entry_name (kids q)) =
        map (set_child_digest q digests) (sort_key dir_entry_name (kids q))" by (rule same [OF old [OF d']])
    moreover have "dir_entries d = map (set_child_digest q digests) (sort_key dir_entry_name (kids q)) \<and>
        compute_digest to_json sha256 (dir_entries d) = Ok (dir_digest d) \<and> map_of digests q = Some (dir_digest d)"
      using ok d' unfolding dirs_ok_def by blast
    moreover have "map_of ?digests q = map_of digests q" using False by (simp add: AList.update_conv')
    ultimately show ?thesis by argo
  qed
  moreover have "set (keys_of ?dirs) = set (keys_of ?digests)" using ok by (simp add: dirs_ok_def)
  ultimately show ?thesis unfolding dirs_ok_def by blast
qed

lemma build_loop_ok:
  assumes "build_loop to_json sha256 m todo dirs digests = Ok (dirs', digests')"
    and "dirs_ok to_json sha256 kids dirs digests" and "distinct todo"
    and "set todo \<inter> set (keys_of dirs) = {}"
    and "\<forall>p\<in>set todo. kids_of m p = kids p"
    and "\<forall>q\<in>set (keys_of dirs). kids_settled kids q todo"
    and "\<And>xs p ys. todo = xs @ p # ys \<Longrightarrow> kids_settled kids p (p # ys)"
  shows "dirs_ok to_json sha256 kids dirs' digests' \<and> set (keys_of dirs') = set (keys_of dirs) \<union> set todo"
  using assms
proof (induction todo arbitrary: m dirs digests)
  case (Cons p ps)
  let ?es = "map (set_child_digest p digests) (sort_key dir_entry_name (kids p))"
  have mp: "kids_of m p = kids p" using Cons.prems(5) by simp
  obtain dg where dg: "compute_digest to_json sha256 ?es = Ok dg"
    and loop: "build_loop to_json sha256 (AList.delete p m) ps
      (AList.update p \<lparr> dir_digest = dg, dir_entries = ?es \<rparr> dirs) (AList.update p dg digests) = Ok (dirs', digests')"
    using Cons.prems(1) mp by (auto simp: Let_def obind_eq_Ok kids_of_def)
  have self: "kids_settled kids p (p # ps)" using Cons.prems(7) [of "[]" p ps] by simp
  have "p \<notin> set (keys_of dirs)" using Cons.prems(4) by auto
  moreover have "kids_settled kids p [p]" using self by (simp add: kids_settled_def)
  moreover have "\<forall>q\<in>set (keys_of dirs). kids_settled kids q [p]" using Cons.prems(6) by (simp add: kids_settled_def)
  ultimately have step: "dirs_ok to_json sha256 kids (AList.update p \<lparr> dir_digest = dg, dir_entries = ?es \<rparr> dirs) (AList.update p dg digests)"
    by (rule dirs_ok_step [OF Cons.prems(2) _ _ _ refl dg])
  have "dirs_ok to_json sha256 kids dirs' digests' \<and>
      set (keys_of dirs') = set (keys_of (AList.update p \<lparr> dir_digest = dg, dir_entries = ?es \<rparr> dirs)) \<union> set ps"
  proof (rule Cons.IH [OF loop step])
    show "distinct ps" using Cons.prems(3) by simp
    show "set ps \<inter> set (keys_of (AList.update p \<lparr> dir_digest = dg, dir_entries = ?es \<rparr> dirs)) = {}"
      using Cons.prems(3,4) by auto
    show "\<forall>q\<in>set ps. kids_of (AList.delete p m) q = kids q"
    proof
      fix q assume q: "q \<in> set ps"
      then have "q \<noteq> p" using Cons.prems(3) by auto
      then show "kids_of (AList.delete p m) q = kids q" using kids_of_delete Cons.prems(5) q by simp
    qed
    show "\<forall>q\<in>set (keys_of (AList.update p \<lparr> dir_digest = dg, dir_entries = ?es \<rparr> dirs)). kids_settled kids q ps"
      using Cons.prems(6) self by (auto simp: kids_settled_def)
    show "kids_settled kids q (q # ys)" if "ps = xs @ q # ys" for xs q ys
      using Cons.prems(7) [of "p # xs" q ys] that by simp
  qed
  then show ?case by auto
qed simp

lemma placed_settled:
  assumes "\<forall>e\<in>set es. proper_path (te_path e)" and "deepest_first ks = xs @ p # ys"
  shows "kids_settled (placed inline es) p (p # ys)"
  unfolding kids_settled_def
proof (intro allI impI)
  fix x assume "DirEntry_Directory x \<in> set (placed inline es p)"
  then obtain e where e: "e \<in> set es" "parent_key (te_path e) = p" "file_name (te_path e) = de_name x"
    using placed_directory by blast
  then have path: "child_path p (de_name x) = te_path e" using child_of_parent assms(1) by metis
  then have "before (te_path e) p" using before_child assms(1) e(1) by blast
  moreover have "\<not> before p p" by (simp add: before_def)
  ultimately show "child_path p (de_name x) \<notin> set (p # ys)"
    using deepest_order [OF assms(2)] path by auto
qed

lemma build_directories_ok:
  assumes "build_directories_inner to_json sha256 es inline = Ok (root, dirs)"
    and proper: "\<forall>e\<in>set es. proper_path (te_path e)"
  shows "\<exists>digests. dirs_ok to_json sha256 (placed inline es) dirs digests \<and> [] \<in> set (keys_of dirs)
    \<and> map_of digests [] = Some root
    \<and> (\<forall>e\<in>set es. parent_key (te_path e) \<in> set (keys_of dirs))
    \<and> (\<forall>e\<in>set es. te_type e = ''tree'' \<longrightarrow> te_path e \<in> set (keys_of dirs))"
proof -
  obtain m digests where m: "place_entries inline es [([], [])] = Ok m"
    and loop: "build_loop to_json sha256 m (deepest_first (keys_of m)) [] [] = Ok (dirs, digests)"
    and root: "root = (case map_of digests [] of Some d \<Rightarrow> d | None \<Rightarrow> digest_sha256 sha256 ''empty'')"
    using assms(1) by (auto simp: build_directories_inner_def obind_eq_Ok omap_eq_Ok)
  have placed: "distinct (keys_of m)" "[] \<in> set (keys_of m)"
    "\<forall>e\<in>set es. parent_key (te_path e) \<in> set (keys_of m)"
    "\<forall>e\<in>set es. te_type e = ''tree'' \<longrightarrow> te_path e \<in> set (keys_of m)"
    and kids: "\<forall>p. kids_of m p = placed inline es p"
    using place_entries_Ok [OF m] by (auto simp: kids_of_def)
  have "dirs_ok to_json sha256 (placed inline es) dirs digests \<and>
      set (keys_of dirs) = set (keys_of ([] :: (string \<times> directory) list)) \<union> set (deepest_first (keys_of m))"
  proof (rule build_loop_ok [OF loop])
    show "dirs_ok to_json sha256 (placed inline es) [] []" by (simp add: dirs_ok_def)
    show "distinct (deepest_first (keys_of m))" using placed(1) by simp
    show "\<forall>p\<in>set (deepest_first (keys_of m)). kids_of m p = placed inline es p" using kids by blast
    show "kids_settled (placed inline es) p (p # ys)" if "deepest_first (keys_of m) = xs @ p # ys" for xs p ys
      using placed_settled [OF proper that] .
  qed simp_all
  then have ok: "dirs_ok to_json sha256 (placed inline es) dirs digests" and keys: "set (keys_of dirs) = set (keys_of m)" by auto
  then have "[] \<in> set (keys_of digests)" using placed(2) by (simp add: dirs_ok_def)
  then obtain d where "map_of digests [] = Some d" by (metis map_of_eq_None_iff not_None_eq set_map)
  then show ?thesis using ok keys placed root by auto
qed

text \<open>An entry with the digest of a subdirectory forgotten: what the tree alone determines.\<close>

fun without_digest :: "dir_entry \<Rightarrow> dir_entry" where
  "without_digest (DirEntry_Directory d) = DirEntry_Directory (d\<lparr> de_digest := from_sha256_hex [] \<rparr>)"
| "without_digest e = e"

lemma without_set [simp]: "without_digest (set_child_digest p digests e) = without_digest e"
  by (cases e) (simp_all add: set_child_digest_def split: option.split)

lemma set_child_digest_Directory:
  assumes "set_child_digest p digests y = DirEntry_Directory x"
  shows "\<exists>z. y = DirEntry_Directory z \<and> de_name z = de_name x
    \<and> (\<forall>dg. map_of digests (child_path p (de_name x)) = Some dg \<longrightarrow> de_digest x = dg)"
  using assms by (cases y) (auto simp: set_child_digest_def split: option.splits)

lemma dirs_ok_child:
  assumes ok: "dirs_ok to_json sha256 (placed inline es) dirs digests"
    and proper: "\<forall>e\<in>set es. proper_path (te_path e)"
    and trees: "\<forall>e\<in>set es. te_type e = ''tree'' \<longrightarrow> te_path e \<in> set (keys_of dirs)"
    and d: "map_of dirs p = Some d" and x: "DirEntry_Directory x \<in> set (dir_entries d)"
  shows "\<exists>c. map_of dirs (child_path p (de_name x)) = Some c \<and> de_digest x = dir_digest c"
proof -
  have "dir_entries d = map (set_child_digest p digests) (sort_key dir_entry_name (placed inline es p))"
    using ok d by (simp add: dirs_ok_def)
  then obtain y where y: "y \<in> set (placed inline es p)" "set_child_digest p digests y = DirEntry_Directory x"
    using x by auto
  from set_child_digest_Directory [OF y(2)] obtain z where z: "y = DirEntry_Directory z" "de_name z = de_name x"
    "\<forall>dg. map_of digests (child_path p (de_name x)) = Some dg \<longrightarrow> de_digest x = dg" by blast
  obtain e where e: "e \<in> set es" "te_type e = ''tree''" "parent_key (te_path e) = p" "file_name (te_path e) = de_name x"
    using placed_directory y(1) z(1,2) by metis
  then have "child_path p (de_name x) = te_path e" using child_of_parent proper by metis
  then have "child_path p (de_name x) \<in> set (keys_of dirs)" using trees e(1,2) by simp
  then obtain c where c: "map_of dirs (child_path p (de_name x)) = Some c"
    by (metis map_of_eq_None_iff not_None_eq set_map)
  then have "map_of digests (child_path p (de_name x)) = Some (dir_digest c)" using ok by (simp add: dirs_ok_def)
  then show ?thesis using c z(3) by blast
qed

text \<open>
  C11. The directories of a snapshot form a Merkle tree over its files. When the build of a tree whose
  paths do not start with a separator succeeds, the returned digest is that of the root directory; every
  directory carries the hash of its own serialised entries; every directory entry carries the digest of
  the directory one level down; and the entries of a directory are the tree entries with that parent,
  sorted by name.
\<close>

theorem directories_merkle:
  assumes "build_directories_inner to_json sha256 es inline = Ok (root, dirs)"
    and "\<forall>e\<in>set es. proper_path (te_path e)"
  shows "map_option dir_digest (map_of dirs []) = Some root
    \<and> (\<forall>p d. map_of dirs p = Some d \<longrightarrow>
         compute_digest to_json sha256 (dir_entries d) = Ok (dir_digest d)
       \<and> map without_digest (dir_entries d) = map without_digest (sort_key dir_entry_name (placed inline es p))
       \<and> (\<forall>x. DirEntry_Directory x \<in> set (dir_entries d) \<longrightarrow>
            map_option dir_digest (map_of dirs (child_path p (de_name x))) = Some (de_digest x)))"
proof -
  obtain digests where ok: "dirs_ok to_json sha256 (placed inline es) dirs digests"
    and root: "[] \<in> set (keys_of dirs)" "map_of digests [] = Some root"
    and trees: "\<forall>e\<in>set es. te_type e = ''tree'' \<longrightarrow> te_path e \<in> set (keys_of dirs)"
    using build_directories_ok [OF assms] by blast
  obtain r where r: "map_of dirs [] = Some r" using root(1) by (metis map_of_eq_None_iff not_None_eq set_map)
  have d: "compute_digest to_json sha256 (dir_entries d) = Ok (dir_digest d)
      \<and> map without_digest (dir_entries d) = map without_digest (sort_key dir_entry_name (placed inline es p))"
    if "map_of dirs p = Some d" for p d
  proof
    show "compute_digest to_json sha256 (dir_entries d) = Ok (dir_digest d)" by (rule dirs_okD [OF ok that])
    show "map without_digest (dir_entries d) = map without_digest (sort_key dir_entry_name (placed inline es p))"
      by (simp add: dirs_okD(1) [OF ok that] comp_def)
  qed
  have "dir_digest r = root" using dirs_okD(3) [OF ok r] root(2) by simp
  then show ?thesis using r d dirs_ok_child [OF ok assms(2) trees] by fastforce
qed

section \<open>A tree of two levels\<close>

text \<open>The two functions the build is given, for evaluation: names and digests joined, and the identity.\<close>

definition demo_to_json :: "dir_entry list \<Rightarrow> bytes option" where
  "demo_to_json es = Some (concat (map (\<lambda>e. dir_entry_name e @ (case e of
     DirEntry_File f \<Rightarrow> ''='' @ dg_hex (fe_digest f)
   | DirEntry_Directory d \<Rightarrow> ''<'' @ dg_hex (de_digest d) @ ''>''
   | DirEntry_Symlink s \<Rightarrow> ''->'' @ se_target s)) es))"

definition demo_tree :: "tree_entry list" where
  "demo_tree =
     [\<lparr> te_path = ''src'', te_mode = ''040000'', te_type = ''tree'', te_sha = ''t'', te_size = None \<rparr>,
      \<lparr> te_path = ''src/b'', te_mode = ''100755'', te_type = ''blob'', te_sha = ''2'', te_size = Some 7 \<rparr>,
      \<lparr> te_path = ''a'', te_mode = ''100644'', te_type = ''blob'', te_sha = ''1'', te_size = Some 5 \<rparr>]"

definition demo_file :: "string \<Rightarrow> string \<Rightarrow> u64 \<Rightarrow> bool \<Rightarrow> dir_entry" where
  "demo_file n sha sz x = DirEntry_File \<lparr> fe_name = n, fe_digest = from_sha1_hex sha, fe_size = sz,
     fe_executable = x, fe_inline_content = None \<rparr>"

definition demo_dirs :: "(string \<times> directory) list" where
  "demo_dirs =
     [(''src'', \<lparr> dir_digest = from_sha256_hex ''b=2'', dir_entries = [demo_file ''b'' ''2'' 7 True] \<rparr>),
      ([], \<lparr> dir_digest = from_sha256_hex ''a=1src<b=2>'', dir_entries = [demo_file ''a'' ''1'' 5 False,
         DirEntry_Directory \<lparr> de_name = ''src'', de_digest = from_sha256_hex ''b=2'' \<rparr>] \<rparr>)]"

lemma demo_build:
  "build_directories_inner demo_to_json id demo_tree None = Ok (from_sha256_hex ''a=1src<b=2>'', demo_dirs)"
  by code_simp

theorem directories_merkle_witness:
  "map_option dir_digest (map_of demo_dirs []) = Some (from_sha256_hex ''a=1src<b=2>'')
   \<and> map_option dir_digest (map_of demo_dirs (child_path [] ''src'')) = Some (from_sha256_hex ''b=2'')"
proof -
  have proper: "\<forall>e\<in>set demo_tree. proper_path (te_path e)" by (simp add: demo_tree_def proper_path_def)
  note merkle = directories_merkle [OF demo_build proper]
  have "map_of demo_dirs [] = Some \<lparr> dir_digest = from_sha256_hex ''a=1src<b=2>'', dir_entries = [demo_file ''a'' ''1'' 5 False,
         DirEntry_Directory \<lparr> de_name = ''src'', de_digest = from_sha256_hex ''b=2'' \<rparr>] \<rparr>"
    by (simp add: demo_dirs_def)
  then show ?thesis using merkle by fastforce
qed

end
