(* ===== verification/Tree_Cache.thy ===== *)
theory Tree_Cache
  imports Core_Types
begin

text \<open>
  The cache of commit trees (\<open>crates/ctxfs-cache/src/tree.rs\<close>). The files under the root are an
  association list from paths to contents and modification times, in the order in which the directories
  are read. JSON is an argument: its parser, its printer, the versioned envelope and base64.
\<close>

section \<open>The environment\<close>

record 'j json_lib =
  json_parse :: "bytes \<Rightarrow> 'j option"
  json_print :: "'j \<Rightarrow> bytes option"
  json_of_string :: "string \<Rightarrow> 'j"
  base64_encode :: "bytes \<Rightarrow> string"
  envelope_print :: "u32 \<times> 'j \<Rightarrow> bytes option"
  envelope_parse :: "bytes \<Rightarrow> (u32 \<times> 'j) option"

text \<open>
  The operating system's answers for one call: errors of making a directory, writing (with the number of
  bytes that reached an opened file) and renaming, whether a file can be removed, read, and seen by a walk,
  and the time.
\<close>

record fs_env =
  fs_mkdir_error :: "string \<Rightarrow> string option"
  fs_write_error :: "string \<Rightarrow> (string \<times> nat option) option"
  fs_rename_error :: "string \<Rightarrow> string option"
  fs_remove_ok :: "string \<Rightarrow> bool"
  fs_read_ok :: "string \<Rightarrow> bool"
  fs_visible :: "string \<Rightarrow> bool"
  fs_now :: nat

type_synonym file_store = "(string \<times> bytes \<times> nat) list"

text \<open>
  \<open>Path::extension\<close> and \<open>with_extension\<close> of a path that ends in a file name: the part after the last dot,
  unless the name starts with it.
\<close>

definition name_parts :: "string \<Rightarrow> string \<times> string option" where
  "name_parts f =
     (case rsplit_once CHR ''.'' f of
        Some (stem, ext) \<Rightarrow> if stem = [] then (f, None) else (stem, Some ext)
      | None \<Rightarrow> (f, None))"

definition dir_and_name :: "string \<Rightarrow> string \<times> string" where
  "dir_and_name p = (case rsplit_once CHR ''/'' p of Some (d, f) \<Rightarrow> (d @ ''/'', f) | None \<Rightarrow> ([], p))"

definition with_extension :: "string \<Rightarrow> string \<Rightarrow> string" where
  "with_extension ext p = (let (d, f) = dir_and_name p in d @ fst (name_parts f) @ ''.'' @ ext)"

definition has_extension :: "string \<Rightarrow> string \<Rightarrow> bool" where
  "has_extension ext p \<longleftrightarrow> snd (name_parts (snd (dir_and_name p))) = Some ext"

definition store_write ::
  "fs_env \<Rightarrow> string \<Rightarrow> bytes \<Rightarrow> file_store \<Rightarrow> file_store \<times> (unit, string) outcome" where
  "store_write env p data fs =
     (case fs_write_error env p of
        None \<Rightarrow> (AList.update p (data, fs_now env) fs, Ok ())
      | Some (e, left) \<Rightarrow>
          (case left of None \<Rightarrow> fs | Some n \<Rightarrow> AList.update p (take n data, fs_now env) fs, Err e))"

definition store_rename :: "fs_env \<Rightarrow> string \<Rightarrow> string \<Rightarrow> file_store \<Rightarrow> file_store \<times> (unit, string) outcome" where
  "store_rename env src_path dest_path fs =
     (case fs_rename_error env dest_path of
        Some e \<Rightarrow> (fs, Err e)
      | None \<Rightarrow>
          (case map_of fs src_path of
             None \<Rightarrow> (fs, Err ''No such file or directory'')
           | Some v \<Rightarrow> (AList.update dest_path v (AList.delete src_path fs), Ok ())))"

text \<open>Write to a temporary file, then rename: the atomic write both caches use.\<close>

definition store_replace ::
  "fs_env \<Rightarrow> string \<Rightarrow> string \<Rightarrow> bytes \<Rightarrow> file_store \<Rightarrow> file_store \<times> (unit, string) outcome" where
  "store_replace env tmp p data fs =
     (case store_write env tmp data fs of
        (fs1, Ok _) \<Rightarrow> store_rename env tmp p fs1
      | (fs1, r) \<Rightarrow> (fs1, r))"

section \<open>The tree cache\<close>

abbreviation SCHEMA_VERSION :: u32 where "SCHEMA_VERSION \<equiv> 3"

record tree_cache =
  tc_root :: string
  tc_max_bytes :: u64
  tc_files :: file_store

definition tree_cache_new :: "string \<Rightarrow> u64 \<Rightarrow> file_store \<Rightarrow> tree_cache" where
  "tree_cache_new root mx fs = \<lparr> tc_root = root, tc_max_bytes = mx, tc_files = fs \<rparr>"

definition tree_path :: "tree_cache \<Rightarrow> string \<Rightarrow> string \<Rightarrow> string \<Rightarrow> string" where
  "tree_path c owner repo commit_sha =
     path_push (path_push (path_push (tc_root c) owner) repo) (commit_sha @ ''.json'')"

definition tree_get ::
  "'j json_lib \<Rightarrow> fs_env \<Rightarrow> string \<Rightarrow> string \<Rightarrow> string \<Rightarrow> tree_cache \<Rightarrow> tree_cache \<times> bytes option" where
  "tree_get J env owner repo commit_sha c =
     (let path = tree_path c owner repo commit_sha in
      case (if fs_read_ok env path then map_of (tc_files c) path else None) of
        None \<Rightarrow> (c, None)
      | Some (raw, _) \<Rightarrow>
          (case envelope_parse J raw of
             None \<Rightarrow> (c, None)
           | Some (version, data) \<Rightarrow>
               if version \<noteq> SCHEMA_VERSION
               then (if fs_remove_ok env path then c\<lparr> tc_files := AList.delete path (tc_files c) \<rparr> else c, None)
               else (c, json_print J data)))"

definition walk_files :: "fs_env \<Rightarrow> tree_cache \<Rightarrow> (string \<times> u64 \<times> nat) list" where
  "walk_files env c =
     map (\<lambda>(p, data, mtime). (p, of_nat (length data), mtime))
       (filter (\<lambda>(p, _). starts_with (tc_root c @ ''/'') p \<and> has_extension ''json'' p \<and> fs_visible env p) (tc_files c))"

abbreviation file_size :: "string \<times> u64 \<times> nat \<Rightarrow> u64" where "file_size f \<equiv> fst (snd f)"
abbreviation file_mtime :: "string \<times> u64 \<times> nat \<Rightarrow> nat" where "file_mtime f \<equiv> snd (snd f)"

fun evict_trees :: "fs_env \<Rightarrow> u64 \<Rightarrow> (string \<times> u64 \<times> nat) list \<Rightarrow> u64 \<Rightarrow> file_store \<Rightarrow> file_store" where
  "evict_trees env mx [] remaining fs = fs"
| "evict_trees env mx (f # rest) remaining fs =
     (if remaining \<le> mx then fs
      else evict_trees env mx rest (sat_sub remaining (file_size f))
             (if fs_remove_ok env (fst f) then AList.delete (fst f) fs else fs))"

definition maybe_evict :: "fs_env \<Rightarrow> tree_cache \<Rightarrow> tree_cache" where
  "maybe_evict env c =
     (let files = walk_files env c; total = sum_list (map file_size files) in
      if total \<le> tc_max_bytes c then c
      else c\<lparr> tc_files := evict_trees env (tc_max_bytes c) (sort_key file_mtime files) total (tc_files c) \<rparr>)"

definition tree_put ::
  "'j json_lib \<Rightarrow> fs_env \<Rightarrow> string \<Rightarrow> string \<Rightarrow> string \<Rightarrow> bytes \<Rightarrow> tree_cache \<Rightarrow> tree_cache \<times> (unit, string) outcome" where
  "tree_put J env owner repo commit_sha data c =
     (let path = tree_path c owner repo commit_sha in
      case fs_mkdir_error env (fst (dir_and_name path)) of
        Some e \<Rightarrow> (c, Err e)
      | None \<Rightarrow>
          (let json_data = (case json_parse J data of Some j \<Rightarrow> j | None \<Rightarrow> json_of_string J (base64_encode J data)) in
           case envelope_print J (SCHEMA_VERSION, json_data) of
             None \<Rightarrow> (c, Err ''invalid data'')
           | Some serialized \<Rightarrow>
               (case store_replace env (with_extension ''tmp'' path) path serialized (tc_files c) of
                  (fs, Ok _) \<Rightarrow> (maybe_evict env (c\<lparr> tc_files := fs \<rparr>), Ok ())
                | (fs, r) \<Rightarrow> (c\<lparr> tc_files := fs \<rparr>, r))))"

definition tree_stats :: "fs_env \<Rightarrow> tree_cache \<Rightarrow> nat \<times> u64" where
  "tree_stats env c = (let files = walk_files env c in (length files, sum_list (map file_size files)))"

text \<open>\<open>remove_dir_all\<close> of the root, when it exists, then its creation; a failed removal leaves some files.\<close>

definition prune_all ::
  "bool \<Rightarrow> (file_store \<Rightarrow> file_store \<times> string) option \<Rightarrow> fs_env \<Rightarrow> tree_cache \<Rightarrow> tree_cache \<times> (unit, string) outcome" where
  "prune_all root_exists failure env c =
     (case (if root_exists then failure else None) of
        Some f \<Rightarrow> (let (fs, e) = f (tc_files c) in (c\<lparr> tc_files := fs \<rparr>, Err e))
      | None \<Rightarrow>
          (let c1 = (if root_exists
                     then c\<lparr> tc_files := filter (\<lambda>(p, _). \<not> starts_with (tc_root c @ ''/'') p) (tc_files c) \<rparr> else c)
           in case fs_mkdir_error env (tc_root c) of Some e \<Rightarrow> (c1, Err e) | None \<Rightarrow> (c1, Ok ())))"

section \<open>What eviction removes\<close>

abbreviation size_sum :: "(string \<times> u64 \<times> nat) list \<Rightarrow> nat" where
  "size_sum files \<equiv> sum_list (map (\<lambda>f. unat (file_size f)) files)"

lemma evict_trees_spec:
  assumes "\<forall>p. fs_remove_ok env p" and "unat remaining = size_sum files"
  shows "\<exists>n. evict_trees env mx files remaining fs = filter (\<lambda>p. fst p \<notin> fst ` set (take n files)) fs
    \<and> size_sum (drop n files) \<le> unat mx \<and> (\<forall>j<n. unat mx < size_sum (drop j files))"
  using assms(2)
proof (induction files arbitrary: remaining fs)
  case Nil
  then show ?case by (intro exI [of _ 0]) simp
next
  case (Cons f rest)
  show ?case
  proof (cases "remaining \<le> mx")
    case True
    then show ?thesis using Cons.prems by (intro exI [of _ 0]) (simp add: word_le_nat_alt)
  next
    case False
    have "unat (sat_sub remaining (file_size f)) = size_sum rest"
      using Cons.prems by (simp add: unat_sat_sub)
    from Cons.IH [OF this, of "AList.delete (fst f) fs"] obtain n where n:
      "evict_trees env mx rest (sat_sub remaining (file_size f)) (AList.delete (fst f) fs) =
         filter (\<lambda>p. fst p \<notin> fst ` set (take n rest)) (AList.delete (fst f) fs)"
      "size_sum (drop n rest) \<le> unat mx" "\<forall>j<n. unat mx < size_sum (drop j rest)" by blast
    have all: "\<forall>j<Suc n. unat mx < size_sum (drop j (f # rest))"
    proof (intro allI impI)
      fix j assume "j < Suc n"
      then show "unat mx < size_sum (drop j (f # rest))"
        using n(3) False Cons.prems by (cases j) (simp_all add: word_le_nat_alt)
    qed
    have "evict_trees env mx (f # rest) remaining fs = filter (\<lambda>p. fst p \<notin> fst ` set (take (Suc n) (f # rest))) fs"
      using n(1) False assms(1) by (auto simp: AList.delete_eq intro: filter_cong)
    then show ?thesis using n(2) all by (intro exI [of _ "Suc n"]) simp
  qed
qed

lemma size_sum_mset: "mset xs = mset ys \<Longrightarrow> size_sum xs = size_sum ys"
proof -
  assume eq: "mset xs = mset ys"
  have "size_sum zs = sum_mset (image_mset (\<lambda>f. unat (file_size f)) (mset zs))" for zs
    by (simp flip: sum_mset_sum_list)
  then show ?thesis using eq by simp
qed

lemma walk_filter:
  "walk_files env (c\<lparr> tc_files := filter (\<lambda>p. Q (fst p)) (tc_files c) \<rparr>) = filter (\<lambda>f. Q (fst f)) (walk_files env c)"
  by (simp add: walk_files_def filter_map comp_def case_prod_beta) (meson filter_cong)

lemma distinct_walk: "distinct (keys_of (tc_files c)) \<Longrightarrow> distinct (map fst (walk_files env c))"
  by (simp add: walk_files_def comp_def case_prod_beta distinct_map_filter)

lemma filter_not_taken:
  assumes "distinct (map fst xs)"
  shows "filter (\<lambda>f. fst f \<notin> fst ` set (take n xs)) xs = drop n xs"
proof -
  let ?P = "\<lambda>f. fst f \<notin> fst ` set (take n xs)"
  have "distinct (map fst (take n xs @ drop n xs))" using assms by simp
  then have "fst ` set (take n xs) \<inter> fst ` set (drop n xs) = {}" unfolding map_append distinct_append by simp
  then have "filter ?P (drop n xs) = drop n xs" by (intro filter_True) blast
  moreover have "filter ?P (take n xs) = []" by (simp add: filter_empty_conv)
  moreover have "filter ?P xs = filter ?P (take n xs) @ filter ?P (drop n xs)"
    by (metis append_take_drop_id filter_append)
  ultimately show ?thesis by simp
qed

text \<open>
  When the cached trees exceed the budget, \<open>maybe_evict\<close> removes the oldest ones, as few as bring
  the total within the budget, and no other file; the total it leaves is within the budget.
\<close>

theorem tree_evict_exact:
  assumes "\<forall>p. fs_remove_ok env p" and "distinct (keys_of (tc_files c))"
    and "size_sum (walk_files env c) < 2 ^ 64"
    and files: "files = sort_key file_mtime (walk_files env c)"
  shows "\<exists>n. tc_files (maybe_evict env c) = filter (\<lambda>p. fst p \<notin> fst ` set (take n files)) (tc_files c)
    \<and> size_sum (walk_files env (maybe_evict env c)) \<le> unat (tc_max_bytes c)
    \<and> (\<forall>j<n. unat (tc_max_bytes c) < size_sum (drop j files))"
proof -
  have perm: "mset files = mset (walk_files env c)" unfolding files by simp
  have total: "unat (sum_list (map file_size (walk_files env c))) = size_sum (walk_files env c)"
    using unat_sum_list [of file_size "walk_files env c"] assms(3) by simp
  have sums: "size_sum files = size_sum (walk_files env c)"
    using perm by (rule size_sum_mset)
  have "unat (sum_list (map file_size (walk_files env c))) = size_sum files" using total sums by simp
  from evict_trees_spec [OF assms(1) this, of "tc_max_bytes c" "tc_files c"] obtain n where n:
    "evict_trees env (tc_max_bytes c) files (sum_list (map file_size (walk_files env c))) (tc_files c) =
       filter (\<lambda>p. fst p \<notin> fst ` set (take n files)) (tc_files c)"
    "size_sum (drop n files) \<le> unat (tc_max_bytes c)" "\<forall>j<n. unat (tc_max_bytes c) < size_sum (drop j files)" by blast
  show ?thesis
  proof (cases "sum_list (map file_size (walk_files env c)) \<le> tc_max_bytes c")
    case True
    then have "maybe_evict env c = c" by (simp add: maybe_evict_def Let_def)
    then show ?thesis using True total by (intro exI [of _ 0]) (simp add: word_le_nat_alt)
  next
    case False
    let ?c' = "c\<lparr> tc_files := filter (\<lambda>p. fst p \<notin> fst ` set (take n files)) (tc_files c) \<rparr>"
    have c': "maybe_evict env c = ?c'" using False n(1) files by (simp add: maybe_evict_def Let_def)
    have "distinct (map fst (walk_files env c))" using distinct_walk assms(2) by blast
    then have dist: "distinct (map fst files)" using perm mset_distinct_map by metis
    have "mset (walk_files env ?c') = mset (drop n files)"
      unfolding walk_filter [where Q = "\<lambda>p. p \<notin> fst ` set (take n files)"]
        filter_not_taken [OF dist, symmetric] mset_filter perm ..
    then have "size_sum (walk_files env ?c') = size_sum (drop n files)" by (rule size_sum_mset)
    then show ?thesis using c' n(2,3) by (intro exI [of _ n]) simp
  qed
qed

section \<open>Round trip\<close>

lemma evict_trees_keeps: "map_of (evict_trees env mx files remaining fs) p = Some v \<Longrightarrow> map_of fs p = Some v"
  by (induction env mx files remaining fs rule: evict_trees.induct)
    (auto simp: AList.delete_conv' split: if_splits)

lemma maybe_evict_keeps: "map_of (tc_files (maybe_evict env c)) p = Some v \<Longrightarrow> map_of (tc_files c) p = Some v"
  by (auto simp: maybe_evict_def Let_def dest: evict_trees_keeps split: if_splits)

lemma store_replace_Ok:
  assumes "store_replace env tmp p data fs = (fs', Ok u)"
  shows "\<exists>t. map_of fs' p = Some (data, t)"
  using assms by (auto simp: store_replace_def store_write_def store_rename_def AList.update_conv'
      split: option.splits outcome.splits prod.splits)

text \<open>What \<open>get\<close> returns for data: the JSON value printed again, or, for other data, its base64 text as JSON.\<close>

definition tree_value :: "'j json_lib \<Rightarrow> bytes \<Rightarrow> 'j" where
  "tree_value J data = (case json_parse J data of Some j \<Rightarrow> j | None \<Rightarrow> json_of_string J (base64_encode J data))"

text \<open>
  A tree that was stored and not evicted is read back as the same JSON value, whatever else the call
  evicted; the envelope's own printer and parser are inverse.
\<close>

theorem tree_put_get:
  assumes "\<And>v b. envelope_print J v = Some b \<Longrightarrow> envelope_parse J b = Some v"
    and "tree_put J env owner repo sha data c = (c', Ok ())"
    and "tree_path c owner repo sha \<in> set (keys_of (tc_files c'))"
    and "fs_read_ok env' (tree_path c owner repo sha)"
  shows "tree_get J env' owner repo sha c' = (c', json_print J (tree_value J data))"
proof -
  let ?path = "tree_path c owner repo sha"
  obtain b where b: "envelope_print J (SCHEMA_VERSION, tree_value J data) = Some b"
    using assms(2) by (auto simp: tree_put_def Let_def tree_value_def split: option.splits)
  obtain fs where fs: "store_replace env (with_extension ''tmp'' ?path) ?path b (tc_files c) = (fs, Ok ())"
    and c': "c' = maybe_evict env (c\<lparr> tc_files := fs \<rparr>)"
    using assms(2) b by (auto simp: tree_put_def Let_def tree_value_def split: option.splits outcome.splits prod.splits)
  obtain t where t: "map_of fs ?path = Some (b, t)" using store_replace_Ok [OF fs] by blast
  obtain v where v: "map_of (tc_files c') ?path = Some v"
    using assms(3) by (metis map_of_eq_None_iff not_None_eq set_map)
  then have "map_of (tc_files c') ?path = Some (b, t)"
    using maybe_evict_keeps [of env "c\<lparr> tc_files := fs \<rparr>" ?path v] t c' by simp
  moreover have "tree_path c' owner repo sha = ?path"
    unfolding c' by (simp add: tree_path_def maybe_evict_def Let_def)
  moreover have "envelope_parse J b = Some (SCHEMA_VERSION, tree_value J data)" using assms(1) b by blast
  ultimately show ?thesis using assms(4) by (simp add: tree_get_def Let_def)
qed

section \<open>Witnesses\<close>

text \<open>A JSON library whose values are texts, and an environment in which everything works.\<close>

definition text_json :: "string json_lib" where
  "text_json =
     \<lparr> json_parse = (\<lambda>b. if b = [] then None else Some b), json_print = Some, json_of_string = quoted,
       base64_encode = id, envelope_print = (\<lambda>(v, j). Some (show_nat (unat v) @ '':'' @ j)),
       envelope_parse = (\<lambda>b. case split_once CHR '':'' b of Some (v, j) \<Rightarrow> Some (of_nat (digits_val v), j) | None \<Rightarrow> None) \<rparr>"

definition fine_env :: "nat \<Rightarrow> fs_env" where
  "fine_env now =
     \<lparr> fs_mkdir_error = (\<lambda>_. None), fs_write_error = (\<lambda>_. None), fs_rename_error = (\<lambda>_. None),
       fs_remove_ok = (\<lambda>_. True), fs_read_ok = (\<lambda>_. True), fs_visible = (\<lambda>_. True), fs_now = now \<rparr>"

definition demo_trees :: tree_cache where
  "demo_trees = tree_cache_new ''/t'' 9
     [(''/t/o/r/a.json'', ''3:aaa'', 1), (''/t/o/r/b.json'', ''3:bbb'', 0), (''/t/o/r/b.tmp'', ''3'', 0)]"

theorem tree_evict_exact_witness:
  "\<exists>n. tc_files (maybe_evict (fine_env 7) demo_trees) =
     filter (\<lambda>p. fst p \<notin> fst ` set (take n (sort_key file_mtime (walk_files (fine_env 7) demo_trees)))) (tc_files demo_trees)
   \<and> size_sum (walk_files (fine_env 7) (maybe_evict (fine_env 7) demo_trees)) \<le> 9"
proof -
  have "\<forall>p. fs_remove_ok (fine_env 7) p" by (simp add: fine_env_def)
  moreover have "distinct (keys_of (tc_files demo_trees))" by (simp add: demo_trees_def tree_cache_new_def)
  moreover have "size_sum (walk_files (fine_env 7) demo_trees) = 10" by code_simp
  moreover have "unat (tc_max_bytes demo_trees) = 9" by (simp add: demo_trees_def tree_cache_new_def)
  ultimately show ?thesis using tree_evict_exact [of "fine_env 7" demo_trees _, OF _ _ _ refl] by auto
qed

lemma text_envelope: "envelope_print text_json v = Some b \<Longrightarrow> envelope_parse text_json b = Some v"
proof -
  assume b: "envelope_print text_json v = Some b"
  obtain w j where v: "v = (w, j)" by (cases v)
  have "CHR '':'' \<notin> set (show_nat (unat w))"
    using show_nat_digits [of "unat w"] by (auto simp: list_all_iff is_digit_def char_le_iff_nat)
  then show ?thesis using b v by (auto simp: text_json_def)
qed

theorem tree_put_get_witness:
  "\<exists>c'. tree_put text_json (fine_env 7) ''o'' ''r'' ''c'' ''cc'' demo_trees = (c', Ok ())
     \<and> tree_get text_json (fine_env 8) ''o'' ''r'' ''c'' c' = (c', Some ''cc'')"
proof -
  let ?r = "tree_put text_json (fine_env 7) ''o'' ''r'' ''c'' ''cc'' demo_trees"
  have "snd ?r = Ok () \<and> tree_path demo_trees ''o'' ''r'' ''c'' \<in> set (keys_of (tc_files (fst ?r)))" by code_simp
  then obtain c' where c': "?r = (c', Ok ())" "tree_path demo_trees ''o'' ''r'' ''c'' \<in> set (keys_of (tc_files c'))"
    by (cases ?r) auto
  have "fs_read_ok (fine_env 8) (tree_path demo_trees ''o'' ''r'' ''c'')" by (simp add: fine_env_def)
  from tree_put_get [OF text_envelope c' this] show ?thesis using c'(1)
    by (simp add: tree_value_def text_json_def)
qed

end
