(* ===== verification/Resolution_Cache.thy ===== *)
theory Resolution_Cache
  imports Tree_Cache
begin

text \<open>
  The cache from package specifications to GitHub sources (\<open>crates/ctxfs-cache/src/resolution.rs\<close>), with
  its file. \<open>print_entries\<close> and \<open>parse_entries\<close> are the JSON form of the whole map; a time before the epoch
  is \<open>None\<close>.
\<close>

section \<open>The cache\<close>

record resolved_source =
  rs_owner :: string
  rs_repo :: string
  rs_git_ref :: string
  rs_subpath :: "string option"

record cached_resolution =
  cr_source :: resolved_source
  cr_resolved_at :: u64
  cr_is_latest :: bool

type_synonym resolutions = "(string \<times> cached_resolution) list"

record resolution_cache =
  rc_entries :: resolutions
  rc_file_path :: string
  rc_latest_ttl_secs :: u64

definition now_secs :: "nat option \<Rightarrow> u64" where
  "now_secs now = (case now of Some t \<Rightarrow> of_nat (t div 1000000000) | None \<Rightarrow> 0)"

definition persist ::
  "(resolutions \<Rightarrow> bytes option) \<Rightarrow> fs_env \<Rightarrow> string \<Rightarrow> resolutions \<Rightarrow> file_store \<Rightarrow> file_store \<times> (unit, string) outcome" where
  "persist print_entries env path es fs =
     (case fs_mkdir_error env (fst (dir_and_name path)) of
        Some e \<Rightarrow> (fs, Err e)
      | None \<Rightarrow>
          (case print_entries es of
             None \<Rightarrow> (fs, Err ''serialisation failed'')
           | Some json \<Rightarrow> store_replace env (with_extension ''tmp'' path) path json fs))"

definition resolution_new :: "string \<Rightarrow> u64 \<Rightarrow> resolution_cache" where
  "resolution_new path ttl = \<lparr> rc_entries = [], rc_file_path = path, rc_latest_ttl_secs = ttl \<rparr>"

definition resolution_load ::
  "(bytes \<Rightarrow> resolutions option) \<Rightarrow> fs_env \<Rightarrow> file_store \<Rightarrow> string \<Rightarrow> u64 \<Rightarrow> resolution_cache" where
  "resolution_load parse_entries env fs path ttl =
     (let es = Option.bind (if fs_read_ok env path then map_of fs path else None) (\<lambda>(b, _). parse_entries b)
      in \<lparr> rc_entries = (case es of Some m \<Rightarrow> m | None \<Rightarrow> []), rc_file_path = path, rc_latest_ttl_secs = ttl \<rparr>)"

definition resolution_get :: "nat option \<Rightarrow> string \<Rightarrow> resolution_cache \<Rightarrow> resolved_source option" where
  "resolution_get now key rc =
     (case map_of (rc_entries rc) key of
        None \<Rightarrow> None
      | Some entry \<Rightarrow>
          (if cr_is_latest entry \<and> rc_latest_ttl_secs rc < sat_sub (now_secs now) (cr_resolved_at entry) then None
           else Some (cr_source entry)))"

definition resolution_put ::
  "(resolutions \<Rightarrow> bytes option) \<Rightarrow> fs_env \<Rightarrow> nat option \<Rightarrow> string \<Rightarrow> resolved_source \<Rightarrow> bool \<Rightarrow>
     resolution_cache \<Rightarrow> file_store \<Rightarrow> resolution_cache \<times> file_store \<times> (unit, string) outcome" where
  "resolution_put print_entries env now key src is_latest rc fs =
     (let entry = \<lparr> cr_source = src, cr_resolved_at = now_secs now, cr_is_latest = is_latest \<rparr>;
          rc1 = rc\<lparr> rc_entries := AList.update key entry (rc_entries rc) \<rparr>
      in (rc1, persist print_entries env (rc_file_path rc1) (rc_entries rc1) fs))"

definition resolution_entry_count :: "resolution_cache \<Rightarrow> nat" where
  "resolution_entry_count rc = length (rc_entries rc)"

definition resolution_clear ::
  "(resolutions \<Rightarrow> bytes option) \<Rightarrow> fs_env \<Rightarrow> resolution_cache \<Rightarrow> file_store \<Rightarrow>
     resolution_cache \<times> file_store \<times> (unit, string) outcome" where
  "resolution_clear print_entries env rc fs =
     (let rc1 = rc\<lparr> rc_entries := [] \<rparr> in (rc1, persist print_entries env (rc_file_path rc1) (rc_entries rc1) fs))"

section \<open>Expiry and restarts\<close>

lemma persist_Ok:
  assumes "persist print_entries env path es fs = (fs', Ok u)"
  shows "\<exists>json t. print_entries es = Some json \<and> map_of fs' path = Some (json, t)"
  using assms by (auto simp: persist_def dest: store_replace_Ok split: option.splits)

lemma get_cong:
  assumes "map_of (rc_entries rc) = map_of (rc_entries rc')" "rc_latest_ttl_secs rc = rc_latest_ttl_secs rc'"
  shows "resolution_get now key rc = resolution_get now key rc'"
  unfolding resolution_get_def assms ..

text \<open>
  A resolution that was stored answers from then on, also after a restart that loads the file: a pinned
  version for ever, a moving one as long as the seconds since it was stored (none, when the clock went
  back) are at most the time to live. Every other key answers as before.
\<close>

theorem resolution_survives_restart:
  assumes json: "\<And>es b. print_entries es = Some b \<Longrightarrow> \<exists>es'. parse_entries b = Some es' \<and> map_of es' = map_of es"
    and put: "resolution_put print_entries env now key src is_latest rc fs = (rc', fs', Ok ())"
    and read: "fs_read_ok env' (rc_file_path rc)"
    and reload: "rc'' = resolution_load parse_entries env' fs' (rc_file_path rc) (rc_latest_ttl_secs rc)"
  shows "resolution_get later key rc'' =
      (if is_latest \<and> rc_latest_ttl_secs rc < sat_sub (now_secs later) (now_secs now) then None else Some src)
    \<and> (\<forall>k. k \<noteq> key \<longrightarrow> resolution_get later k rc'' = resolution_get later k rc)
    \<and> (\<forall>k. resolution_get later k rc'' = resolution_get later k rc')"
proof -
  let ?entry = "\<lparr> cr_source = src, cr_resolved_at = now_secs now, cr_is_latest = is_latest \<rparr>"
  have rc': "rc' = rc\<lparr> rc_entries := AList.update key ?entry (rc_entries rc) \<rparr>"
    and p: "persist print_entries env (rc_file_path rc) (rc_entries rc') fs = (fs', Ok ())"
    using put by (auto simp: resolution_put_def Let_def)
  obtain b t where b: "print_entries (rc_entries rc') = Some b" "map_of fs' (rc_file_path rc) = Some (b, t)"
    using persist_Ok [OF p] by blast
  obtain es' where es': "parse_entries b = Some es'" "map_of es' = map_of (rc_entries rc')" using json [OF b(1)] by blast
  have same: "map_of (rc_entries rc'') = map_of (rc_entries rc')" "rc_latest_ttl_secs rc'' = rc_latest_ttl_secs rc'"
    unfolding reload using b(2) es' read rc' by (simp_all add: resolution_load_def Let_def)
  have after: "resolution_get later k rc'' = resolution_get later k rc'" for k by (rule get_cong [OF same])
  have ttl: "rc_latest_ttl_secs rc' = rc_latest_ttl_secs rc" by (simp add: rc')
  have "resolution_get later k rc' = resolution_get later k rc" if "k \<noteq> key" for k
  proof -
    have "map_of (rc_entries rc') k = map_of (rc_entries rc) k" using that by (simp add: rc' AList.update_conv')
    then show ?thesis unfolding resolution_get_def ttl by (rule arg_cong)
  qed
  moreover have "resolution_get later key rc' =
      (if is_latest \<and> rc_latest_ttl_secs rc < sat_sub (now_secs later) (now_secs now) then None else Some src)"
    unfolding resolution_get_def ttl by (simp add: rc' AList.update_conv')
  ultimately show ?thesis using after by simp
qed

text \<open>A JSON form for evaluation: one entry, by its repository.\<close>

definition demo_source :: resolved_source where
  "demo_source = \<lparr> rs_owner = ''o'', rs_repo = ''r'', rs_git_ref = ''v1'', rs_subpath = None \<rparr>"

definition demo_resolutions :: resolutions where
  "demo_resolutions = [(''npm:p'', \<lparr> cr_source = demo_source, cr_resolved_at = 5, cr_is_latest = True \<rparr>)]"

theorem resolution_survives_restart_witness:
  "\<exists>rc' fs'. resolution_put (\<lambda>es. if es = demo_resolutions then Some ''x'' else None) (fine_env 0) (Some 5000000000)
       ''npm:p'' demo_source True (resolution_new ''/c/r.json'' 60) [] = (rc', fs', Ok ())
   \<and> resolution_get (Some 65000000000) ''npm:p''
       (resolution_load (\<lambda>b. if b = ''x'' then Some demo_resolutions else None) (fine_env 0) fs' ''/c/r.json'' 60) = Some demo_source
   \<and> resolution_get (Some 66000000000) ''npm:p''
       (resolution_load (\<lambda>b. if b = ''x'' then Some demo_resolutions else None) (fine_env 0) fs' ''/c/r.json'' 60) = None"
proof -
  let ?print = "\<lambda>es. if es = demo_resolutions then Some ''x'' else None"
  let ?put = "resolution_put ?print (fine_env 0) (Some 5000000000) ''npm:p'' demo_source True (resolution_new ''/c/r.json'' 60) []"
  have "snd (snd ?put) = Ok ()"
    by (simp add: resolution_put_def resolution_new_def persist_def demo_resolutions_def now_secs_def fine_env_def
        store_replace_def store_write_def store_rename_def with_extension_def dir_and_name_def name_parts_def)
  then obtain rc' fs' where put: "?put = (rc', fs', Ok ())" by (metis prod.collapse)
  have json: "\<exists>es'. (if b = ''x'' then Some demo_resolutions else None) = Some es' \<and> map_of es' = map_of es" if "?print es = Some b" for es b
    using that by (cases "es = demo_resolutions") simp_all
  have read: "fs_read_ok (fine_env 0) (rc_file_path (resolution_new ''/c/r.json'' 60))" by (simp add: fine_env_def)
  note restart = resolution_survives_restart
    [where parse_entries = "\<lambda>b. if b = ''x'' then Some demo_resolutions else None", OF json put read refl]
  show ?thesis
  proof (intro exI conjI)
    show "?put = (rc', fs', Ok ())" by (rule put)
    show "resolution_get (Some 65000000000) ''npm:p'' (resolution_load (\<lambda>b. if b = ''x'' then Some demo_resolutions else None) (fine_env 0) fs' ''/c/r.json'' 60)
        = Some demo_source"
      using restart [where later = "Some 65000000000", THEN conjunct1] by (simp add: resolution_new_def now_secs_def sat_sub_def)
    show "resolution_get (Some 66000000000) ''npm:p'' (resolution_load (\<lambda>b. if b = ''x'' then Some demo_resolutions else None) (fine_env 0) fs' ''/c/r.json'' 60)
        = None"
      using restart [where later = "Some 66000000000", THEN conjunct1] by (simp add: resolution_new_def now_secs_def sat_sub_def)
  qed
qed

end
