(* ===== verification/Git_Tarball.thy ===== *)
theory Git_Tarball
  imports Git_Tree Cache_Correct Observability
begin

text \<open>
  The tarball path of the GitHub provider (\<open>crates/ctxfs-provider-git/src/github.rs\<close>): the redirect chain,
  the checks of an entry's path, the streaming Git hash and the extraction into the blob cache. The URL
  parser, the HTTP server, gzip and tar are arguments: a server answers the n-th request, and an unpacked
  archive is the list of its entries.
\<close>

section \<open>The streaming Git hash\<close>

text \<open>A SHA-1 state is the bytes fed so far; \<open>sha1\<close> gives the hex form of their hash.\<close>

record git_blob_sha1 =
  gb_fed :: bytes
  gb_size_written :: u64
  gb_header_emitted :: bool
  gb_expected_size :: u64

definition git_blob_new :: "u64 \<Rightarrow> git_blob_sha1" where
  "git_blob_new n = \<lparr> gb_fed = [], gb_size_written = 0, gb_header_emitted = False, gb_expected_size = n \<rparr>"

definition size_header :: "u64 \<Rightarrow> bytes" where
  "size_header n = ''blob '' @ show_nat (unat n) @ [CHR 0x00]"

definition git_blob_update :: "bytes \<Rightarrow> git_blob_sha1 \<Rightarrow> git_blob_sha1" where
  "git_blob_update bs h =
     (let h1 = (if gb_header_emitted h then h
                else h\<lparr> gb_fed := gb_fed h @ size_header (gb_expected_size h), gb_header_emitted := True \<rparr>)
      in h1\<lparr> gb_fed := gb_fed h1 @ bs, gb_size_written := gb_size_written h1 + of_nat (length bs) \<rparr>)"

definition git_blob_finalize :: "(bytes \<Rightarrow> string) \<Rightarrow> git_blob_sha1 \<Rightarrow> string" where
  "git_blob_finalize sha1 h =
     sha1 (if gb_header_emitted h then gb_fed h else gb_fed h @ size_header (gb_expected_size h))"

definition git_blob_hash :: "(bytes \<Rightarrow> string) \<Rightarrow> u64 \<Rightarrow> bytes \<Rightarrow> string" where
  "git_blob_hash sha1 n data = sha1 (size_header n @ data)"

definition hash_of :: "git_blob_sha1 \<Rightarrow> bytes" where
  "hash_of h = (if gb_header_emitted h then gb_fed h else gb_fed h @ size_header (gb_expected_size h))"

lemma hash_of_update: "hash_of (git_blob_update bs h) = hash_of h @ bs"
  by (simp add: hash_of_def git_blob_update_def Let_def)

lemma hash_of_new [simp]: "hash_of (git_blob_new n) = size_header n"
  by (simp add: hash_of_def git_blob_new_def)

lemma finalize_hash_of: "git_blob_finalize sha1 h = sha1 (hash_of h)"
  by (simp add: git_blob_finalize_def hash_of_def)

text \<open>
  The streaming hasher does not depend on how a blob is cut into chunks: it gives Git's blob hash of
  the concatenated content, also for no chunks at all.
\<close>

theorem git_hash_of_chunks:
  "git_blob_finalize sha1 (foldl (\<lambda>h bs. git_blob_update bs h) (git_blob_new n) chunks)
     = git_blob_hash sha1 n (concat chunks)"
proof -
  have "hash_of (foldl (\<lambda>h bs. git_blob_update bs h) h chunks) = hash_of h @ concat chunks" for h
    by (induction chunks arbitrary: h) (simp_all add: hash_of_update)
  then show ?thesis by (simp add: finalize_hash_of git_blob_hash_def)
qed

section \<open>Redirects\<close>

record parsed_url =
  pu_text :: string
  pu_scheme :: string
  pu_host :: "string option"

definition codeload_host_for :: "string \<Rightarrow> string" where
  "codeload_host_for api_host =
     (if api_host = ''api.github.com'' then ''codeload.github.com'' else ''codeload.'' @ api_host)"

definition validate_redirect_target ::
  "(string \<Rightarrow> parsed_url + string) \<Rightarrow> string \<Rightarrow> string \<Rightarrow> parsed_url ctxfs_result" where
  "validate_redirect_target url_parse location expected =
     (case url_parse location of
        Inr e \<Rightarrow> Err (Provider (''invalid redirect URL: '' @ e))
      | Inl url \<Rightarrow>
          (if pu_scheme url \<noteq> ''https''
           then Err (Provider (''tarball redirect rejected: scheme='' @ pu_scheme url @ '' is not https''))
           else (let actual = (case pu_host url of Some h \<Rightarrow> h | None \<Rightarrow> []) in
             if actual \<noteq> expected
             then Err (Provider (''tarball redirect rejected: host '' @ actual @ '' is not codeload host '' @ expected))
             else Ok url)))"

text \<open>
  The two clients: the API's carries the authorisation header, codeload's carries none; neither follows
  redirects itself. \<open>send n\<close> answers the n-th request of the provider.
\<close>

datatype http_client = ApiClient | CodeloadClient

type_synonym 'b server = "nat \<Rightarrow> http_client \<Rightarrow> string \<Rightarrow> 'b response + string"
type_synonym request_log = "(http_client \<times> string) list"

definition is_redirection :: "u16 \<Rightarrow> bool" where
  "is_redirection st \<longleftrightarrow> 300 \<le> st \<and> st < 400"

definition location_of :: "'b response \<Rightarrow> string option" where
  "location_of r = Option.bind (map_of (resp_headers r) ''location'') id"

abbreviation TARBALL_REDIRECT_MAX_DEPTH :: nat where "TARBALL_REDIRECT_MAX_DEPTH \<equiv> 3"

function follow_redirects ::
  "'b server \<Rightarrow> (string \<Rightarrow> parsed_url + string) \<Rightarrow> string \<Rightarrow> nat \<Rightarrow> 'b response \<Rightarrow> request_log \<Rightarrow>
     request_log \<times> 'b response ctxfs_result" where
  "follow_redirects send url_parse codeload_host depth current log =
     (if \<not> is_redirection (resp_status current) then (log, Ok current)
      else if TARBALL_REDIRECT_MAX_DEPTH \<le> depth
      then (log, Err (Provider (''tarball redirect chain exceeded depth '' @ show_nat TARBALL_REDIRECT_MAX_DEPTH)))
      else (case location_of current of
        None \<Rightarrow> (log, Err (Provider ''redirect without Location header''))
      | Some location \<Rightarrow>
          (case validate_redirect_target url_parse location codeload_host of
             Err e \<Rightarrow> (log, Err e)
           | Panic \<Rightarrow> (log, Panic)
           | Ok url \<Rightarrow>
               (let log1 = log @ [(CodeloadClient, pu_text url)] in
                case send (length log) CodeloadClient (pu_text url) of
                  Inr e \<Rightarrow> (log1, Err (Provider (''codeload GET: '' @ e)))
                | Inl r \<Rightarrow> follow_redirects send url_parse codeload_host (depth + 1) r log1))))"
  by pat_completeness auto
termination
  by (relation "measure (\<lambda>(_, _, _, depth, _). TARBALL_REDIRECT_MAX_DEPTH - depth)") auto

declare follow_redirects.simps [simp del]

text \<open>A request the redirect chain may make: to codeload, without the API's authorisation, over https.\<close>

definition codeload_request ::
  "(string \<Rightarrow> parsed_url + string) \<Rightarrow> string \<Rightarrow> http_client \<times> string \<Rightarrow> bool" where
  "codeload_request url_parse codeload_host q \<longleftrightarrow>
     fst q = CodeloadClient \<and> (\<exists>location url. url_parse location = Inl url \<and> snd q = pu_text url
       \<and> pu_scheme url = ''https'' \<and> (case pu_host url of Some h \<Rightarrow> h | None \<Rightarrow> []) = codeload_host)"

lemma validate_redirect_Ok:
  "validate_redirect_target url_parse location host = Ok url \<longleftrightarrow>
     url_parse location = Inl url \<and> pu_scheme url = ''https'' \<and> (case pu_host url of Some h \<Rightarrow> h | None \<Rightarrow> []) = host"
  by (auto simp: validate_redirect_target_def Let_def split: sum.splits)

text \<open>At most three further requests, and a result is a response that is not a redirect.\<close>

lemma follow_redirects_hops:
  assumes "follow_redirects send url_parse codeload_host depth current log = (log', r)"
  shows "\<exists>hops. log' = log @ hops \<and> length hops \<le> 3 - depth
    \<and> list_all (codeload_request url_parse codeload_host) hops
    \<and> (case r of Ok resp \<Rightarrow> \<not> is_redirection (resp_status resp) | _ \<Rightarrow> True)"
  using assms
proof (induction send url_parse codeload_host depth current log rule: follow_redirects.induct)
  case (1 send url_parse codeload_host depth current log)
  show ?case
  proof (cases "is_redirection (resp_status current) \<and> depth < 3")
    case False
    then show ?thesis using 1(2) by (subst (asm) follow_redirects.simps) (auto split: if_splits)
  next
    case True
    then have now: "is_redirection (resp_status current)" "\<not> 3 \<le> depth" by simp_all
    show ?thesis
    proof (cases "location_of current")
      case None
      then show ?thesis using 1(2) now by (subst (asm) follow_redirects.simps) auto
    next
      case (Some location)
      show ?thesis
      proof (cases "validate_redirect_target url_parse location codeload_host")
        case (Ok url)
        let ?log1 = "log @ [(CodeloadClient, pu_text url)]"
        have one: "codeload_request url_parse codeload_host (CodeloadClient, pu_text url)"
          using Ok by (auto simp: codeload_request_def validate_redirect_Ok)
        show ?thesis
        proof (cases "send (length log) CodeloadClient (pu_text url)")
          case (Inr e)
          then have "log' = ?log1 \<and> r = Err (Provider (''codeload GET: '' @ e))"
            using 1(2) now Some Ok by (subst (asm) follow_redirects.simps) (auto simp: Let_def)
          then show ?thesis using one now by (intro exI [of _ "[(CodeloadClient, pu_text url)]"]) auto
        next
          case (Inl x)
          then have "follow_redirects send url_parse codeload_host (depth + 1) x ?log1 = (log', r)"
            using 1(2) now Some Ok by (subst (asm) follow_redirects.simps) (auto simp: Let_def)
          from 1(1) [OF _ _ Some Ok refl Inl this] obtain hops where
            "log' = ?log1 @ hops" "length hops \<le> 3 - (depth + 1)"
            "list_all (codeload_request url_parse codeload_host) hops"
            "case r of Ok resp \<Rightarrow> \<not> is_redirection (resp_status resp) | _ \<Rightarrow> True"
            using now by auto
          then show ?thesis using one now by (intro exI [of _ "(CodeloadClient, pu_text url) # hops"]) auto
        qed
      next
        case (Err e)
        then show ?thesis using 1(2) now Some by (subst (asm) follow_redirects.simps) auto
      next
        case Panic
        then show ?thesis using 1(2) now Some by (subst (asm) follow_redirects.simps) auto
      qed
    qed
  qed
qed

end
