(* ===== verification/Git_Extract.thy ===== *)
theory Git_Extract
  imports Git_Tarball
begin

text \<open>
  \<open>fetch_tarball_into_cache\<close>'s extraction: an unpacked archive is a list of entries, each with the chunks
  its reads return and the error that ends them, if any. \<open>io\<close> answers for the files, \<open>L\<close> is the cache's
  index; the mount's counters and its handle on the cache are optional.
\<close>

section \<open>Entry paths\<close>

datatype entry_type = TarRegular | TarDirectory | TarOther

definition wrapper_only :: "entry_type \<Rightarrow> string \<Rightarrow> string ctxfs_result" where
  "wrapper_only ty s =
     (case ty of TarDirectory \<Rightarrow> Ok [] | _ \<Rightarrow> Err (Provider (''tar entry not under wrapper dir: '' @ s)))"

definition validate_tar_entry_path :: "bytes \<Rightarrow> entry_type \<Rightarrow> string ctxfs_result" where
  "validate_tar_entry_path raw ty =
     (if \<not> utf8_ok raw then Err (Provider ''tar entry path is not UTF-8'')
      else if CHR 0x00 \<in> set raw then Err (Provider ''tar entry path contains NUL'')
      else if starts_with ''/'' raw then Err (Provider (''tar entry is absolute: '' @ raw))
      else if list_ex (\<lambda>c. (of_char c :: nat) < 0x20) raw
      then Err (Provider (''tar entry has control chars: '' @ raw))
      else if ''..'' \<in> set (split_on CHR ''/'' raw) then Err (Provider (''tar entry contains '' @ quoted ''..'' @ '': '' @ raw))
      else (case split_once CHR ''/'' raw of
        Some (wrapper, cleaned) \<Rightarrow> if cleaned = [] then wrapper_only ty raw else Ok cleaned
      | None \<Rightarrow> wrapper_only ty raw))"

section \<open>Copying an entry\<close>

record tee =
  tee_hasher :: git_blob_sha1
  tee_writer :: temp_writer
  tee_peek :: "bytes option"

text \<open>One \<open>write\<close>: what the file took of the buffer goes to the hasher and the peek buffer.\<close>

definition tee_write :: "nat \<Rightarrow> bytes \<Rightarrow> tee \<Rightarrow> tee" where
  "tee_write n buf t =
     t\<lparr> tee_writer := temp_write n buf (tee_writer t), tee_hasher := git_blob_update (take n buf) (tee_hasher t),
        tee_peek := map_option (\<lambda>p. p @ take n buf) (tee_peek t) \<rparr>"

function tee_write_all :: "(bytes \<Rightarrow> nat + string) \<Rightarrow> bytes \<Rightarrow> tee \<Rightarrow> (tee, string) outcome" where
  "tee_write_all accept buf t =
     (if buf = [] then Ok t
      else (case accept buf of
        Inl n \<Rightarrow> if n = 0 then Err ''failed to write whole buffer''
                 else tee_write_all accept (drop n buf) (tee_write n buf t)
      | Inr e \<Rightarrow> Err e))"
  by pat_completeness auto
termination
  by (relation "measure (\<lambda>(_, buf, _). length buf)") auto

declare tee_write_all.simps [simp del]

text \<open>\<open>io::copy\<close>: read until an empty read or an error, writing each chunk out.\<close>

fun tee_copy :: "(bytes \<Rightarrow> nat + string) \<Rightarrow> bytes list \<Rightarrow> string option \<Rightarrow> tee \<Rightarrow> (tee, string) outcome" where
  "tee_copy accept [] failure t = (case failure of None \<Rightarrow> Ok t | Some e \<Rightarrow> Err e)"
| "tee_copy accept (b # bs) failure t =
     (if b = [] then Ok t else obind (tee_write_all accept b t) (tee_copy accept bs failure))"

section \<open>The extraction\<close>

record tar_entry =
  ta_path :: bytes
  ta_type :: entry_type
  ta_chunks :: "bytes list"
  ta_error :: "string option"

record tarball_outcome =
  blobs_committed :: u64
  blobs_skipped_invalid :: u64
  blobs_skipped_digest :: u64
  blobs_total_bytes :: u64

record 'm extraction =
  ex_cache :: "'m blob_cache"
  ex_counters :: "mount_counters option"
  ex_outcome :: tarball_outcome

definition count_event :: "counter_event \<Rightarrow> 'm extraction \<Rightarrow> 'm extraction" where
  "count_event ev x = x\<lparr> ex_counters := map_option (record_event ev) (ex_counters x) \<rparr>"

abbreviation LFS_PEEK_MAX :: u64 where "LFS_PEEK_MAX \<equiv> 1024"

type_synonym blob_index = "(string list \<times> string \<times> u64) list"

definition skip_invalid :: "'m extraction \<Rightarrow> 'm extraction" where
  "skip_invalid x =
     count_event TarballInvalidEntries
       (x\<lparr> ex_outcome := (ex_outcome x)\<lparr> blobs_skipped_invalid := blobs_skipped_invalid (ex_outcome x) + 1 \<rparr> \<rparr>)"

definition skip_mismatch :: "'m extraction \<Rightarrow> 'm extraction" where
  "skip_mismatch x =
     count_event TarballDigestMismatch
       (x\<lparr> ex_outcome := (ex_outcome x)\<lparr> blobs_skipped_digest := blobs_skipped_digest (ex_outcome x) + 1 \<rparr> \<rparr>)"

definition count_pointer :: "bytes option \<Rightarrow> string \<Rightarrow> 'm extraction \<Rightarrow> 'm extraction" where
  "count_pointer peek path x =
     (case Option.bind peek detect_lfs_pointer of
        None \<Rightarrow> x
      | Some _ \<Rightarrow> count_event (LfsPointerWithPath path) x)"

definition count_committed :: "u64 \<Rightarrow> 'm extraction \<Rightarrow> 'm extraction" where
  "count_committed sz x =
     count_event PrefetchHit
       (x\<lparr> ex_outcome := (ex_outcome x)\<lparr> blobs_committed := blobs_committed (ex_outcome x) + 1,
            blobs_total_bytes := blobs_total_bytes (ex_outcome x) + sz \<rparr> \<rparr>)"

text \<open>A regular entry the index knows: hash while writing, and finalise only when the hash is the one expected.\<close>

definition commit_entry ::
  "'m lru_ops \<Rightarrow> io_env \<Rightarrow> (bytes \<Rightarrow> string) \<Rightarrow> mount_cache_view option \<Rightarrow> string \<Rightarrow> string \<Rightarrow> u64 \<Rightarrow>
     tar_entry \<Rightarrow> 'm extraction \<Rightarrow> ('m extraction \<times> unit ctxfs_result) option" where
  "commit_entry L io sha1 view path expected_sha expected_size e x =
     (case commit_atomic_with_writer io (ex_cache x) of
        Err err \<Rightarrow> Some (x, Err err)
      | Panic \<Rightarrow> Some (x, Panic)
      | Ok writer \<Rightarrow>
          (case tee_copy (tmp_accept io) (ta_chunks e) (ta_error e)
                  \<lparr> tee_hasher = git_blob_new expected_size, tee_writer = writer,
                    tee_peek = (if expected_size \<le> LFS_PEEK_MAX then Some [] else None) \<rparr> of
             Err err \<Rightarrow> Some (x, Err (Provider (''tar entry stream: '' @ err)))
           | Panic \<Rightarrow> Some (x, Panic)
           | Ok t \<Rightarrow>
               (if git_blob_finalize sha1 (tee_hasher t) \<noteq> expected_sha then Some (skip_mismatch x, Ok ())
                else (let x1 = count_pointer (tee_peek t) path x; d = from_sha1_hex expected_sha in
                  case writer_finalize L io (tee_writer t) d (ex_cache x1) of
                    None \<Rightarrow> None
                  | Some (c, r) \<Rightarrow>
                      (case r of
                         Ok _ \<Rightarrow>
                           (let c1 = (case view of Some v \<Rightarrow> add_owner (repo_key v) (dg_hex d) c | None \<Rightarrow> c)
                            in Some (count_committed expected_size (x1\<lparr> ex_cache := c1 \<rparr>), Ok ()))
                       | _ \<Rightarrow> Some (x1\<lparr> ex_cache := c \<rparr>, r))))))"

definition extract_entry ::
  "'m lru_ops \<Rightarrow> io_env \<Rightarrow> (bytes \<Rightarrow> string) \<Rightarrow> mount_cache_view option \<Rightarrow> blob_index \<Rightarrow> tar_entry \<Rightarrow>
     'm extraction \<Rightarrow> ('m extraction \<times> unit ctxfs_result) option" where
  "extract_entry L io sha1 view index e x =
     (case validate_tar_entry_path (ta_path e) (ta_type e) of
        Ok mount_path \<Rightarrow>
          (if ta_type e \<noteq> TarRegular \<or> mount_path = [] then Some (x, Ok ())
           else (case map_of index (path_key mount_path) of
             None \<Rightarrow> Some (x, Ok ())
           | Some (expected_sha, expected_size) \<Rightarrow>
               commit_entry L io sha1 view mount_path expected_sha expected_size e x))
      | _ \<Rightarrow> Some (skip_invalid x, Ok ()))"

fun extract_entries ::
  "'m lru_ops \<Rightarrow> io_env \<Rightarrow> (bytes \<Rightarrow> string) \<Rightarrow> mount_cache_view option \<Rightarrow> blob_index \<Rightarrow> (tar_entry + string) list \<Rightarrow>
     'm extraction \<Rightarrow> ('m extraction \<times> unit ctxfs_result) option" where
  "extract_entries L io sha1 view index [] x = Some (x, Ok ())"
| "extract_entries L io sha1 view index (item # items) x =
     (case item of
        Inr err \<Rightarrow> Some (x, Err (Provider (''tar entry: '' @ err)))
      | Inl e \<Rightarrow>
          (case extract_entry L io sha1 view index e x of
             None \<Rightarrow> None
           | Some (x1, Ok _) \<Rightarrow> extract_entries L io sha1 view index items x1
           | Some (x1, r) \<Rightarrow> Some (x1, r)))"

definition extract_archive ::
  "'m lru_ops \<Rightarrow> io_env \<Rightarrow> (bytes \<Rightarrow> string) \<Rightarrow> mount_cache_view option \<Rightarrow> blob_index \<Rightarrow>
     (tar_entry + string) list + string \<Rightarrow> 'm blob_cache \<Rightarrow> mount_counters option \<Rightarrow>
     ('m extraction \<times> unit ctxfs_result) option" where
  "extract_archive L io sha1 view index archive c tally =
     (let x = \<lparr> ex_cache = c, ex_counters = tally, ex_outcome = \<lparr> blobs_committed = 0,
             blobs_skipped_invalid = 0, blobs_skipped_digest = 0, blobs_total_bytes = 0 \<rparr> \<rparr>
      in case archive of
           Inr err \<Rightarrow> Some (x, Err (Provider (''tar entries iter: '' @ err)))
         | Inl items \<Rightarrow> extract_entries L io sha1 view index items x)"

section \<open>What reaches the files\<close>

lemma tee_write_all_Ok:
  "tee_write_all accept buf t = Ok t' \<Longrightarrow>
     temp (tee_writer t') = temp (tee_writer t) @ buf \<and> hash_of (tee_hasher t') = hash_of (tee_hasher t) @ buf"
proof (induction accept buf t rule: tee_write_all.induct)
  case (1 accept buf t)
  show ?case
  proof (cases "buf = []")
    case True
    then show ?thesis using 1(2) by (simp add: tee_write_all.simps)
  next
    case False
    then obtain n where n: "accept buf = Inl n" "n \<noteq> 0" "tee_write_all accept (drop n buf) (tee_write n buf t) = Ok t'"
      using 1(2) by (auto simp: tee_write_all.simps [of accept buf t] split: sum.splits if_splits)
    then show ?thesis using 1(1) [OF False n] by (simp add: tee_write_def temp_write_def hash_of_update)
  qed
qed

lemma tee_write_all_no_panic: "tee_write_all accept buf t \<noteq> Panic"
  by (induction accept buf t rule: tee_write_all.induct) (subst tee_write_all.simps, auto split: sum.splits)

lemma tee_copy_Ok:
  "tee_copy accept chunks failure t = Ok t' \<Longrightarrow>
     \<exists>data. temp (tee_writer t') = temp (tee_writer t) @ data \<and> hash_of (tee_hasher t') = hash_of (tee_hasher t) @ data"
proof (induction chunks arbitrary: t)
  case (Cons b bs)
  show ?case
  proof (cases "b = []")
    case False
    then obtain t1 where t1: "tee_write_all accept b t = Ok t1" "tee_copy accept bs failure t1 = Ok t'"
      using Cons.prems by (auto simp: obind_eq_Ok)
    then show ?thesis using Cons.IH [OF t1(2)] tee_write_all_Ok [OF t1(1)] by auto
  qed (use Cons.prems in auto)
qed (auto split: option.splits)

lemma tee_copy_no_panic: "tee_copy accept chunks failure t \<noteq> Panic"
  by (induction chunks arbitrary: t) (auto simp: obind_eq_Panic tee_write_all_no_panic split: option.splits)

lemma remove_blob_files_mono:
  "remove_blob_files io evs c = (c', r) \<Longrightarrow> cache_root c' = cache_root c \<and> (disk c' p = Some d \<longrightarrow> disk c p = Some d)"
proof (induction evs arbitrary: c)
  case (Cons ev evs)
  obtain k a where ev: "ev = (k, a)" by (cases ev)
  obtain c1 r1 where one: "remove_blob_file io k a c = (c1, r1)" by (cases "remove_blob_file io k a c")
  then have "cache_root c1 = cache_root c \<and> (disk c1 p = Some d \<longrightarrow> disk c p = Some d)"
    by (auto simp: remove_blob_file_def split: option.splits if_splits)
  then show ?case using Cons.IH [of c1] Cons.prems ev one by (cases r1) auto
qed simp

lemma track_and_evict_mono:
  assumes "track_and_evict L io d sz c = Some (c', r)"
  shows "cache_root c' = cache_root c \<and> (disk c' p = Some x \<longrightarrow> disk c p = Some x)"
proof -
  obtain c1 ev where one: "lru_insert_evict L (dg_hex d) sz (dg_algorithm d) c = Some (c1, ev)"
    and two: "remove_blob_files io ev c1 = (c', r)"
    using assms by (auto simp: track_and_evict_def)
  have "cache_root c1 = cache_root c \<and> disk c1 = disk c"
    using one by (auto simp: lru_insert_evict_def Let_def split: option.splits)
  then show ?thesis using remove_blob_files_mono [OF two] by metis
qed

lemma finalize_cases:
  assumes "writer_finalize L io w d c = Some (c', r)"
  obtains "c' = c"
  | dest where "blob_path c d = Some dest"
      "track_and_evict L io d (bytes_written w) (c\<lparr> disk := (disk c)(dest \<mapsto> temp w) \<rparr>) = Some (c', r)"
  using assms unfolding writer_finalize_def by (auto split: option.splits)

lemma finalize_mono:
  assumes "writer_finalize L io w d c = Some (c', r)" "disk c' p = Some x"
  shows "disk c p = Some x \<or> blob_path c d = Some p \<and> x = temp w"
proof (cases rule: finalize_cases [OF assms(1)])
  case 1
  then show ?thesis using assms(2) by simp
next
  case (2 dest)
  have "disk (c\<lparr> disk := (disk c)(dest \<mapsto> temp w) \<rparr>) p = Some x" using track_and_evict_mono [OF 2(2)] assms(2) by blast
  then show ?thesis using 2(1) by (auto split: if_splits)
qed

lemma finalize_root:
  assumes "writer_finalize L io w d c = Some (c', r)"
  shows "cache_root c' = cache_root c"
proof (cases rule: finalize_cases [OF assms(1)])
  case (2 dest)
  from track_and_evict_mono [OF 2(2)] show ?thesis by simp
qed simp

text \<open>The files of \<open>c'\<close> are those of \<open>c\<close> and verified blobs of the index, each at its own place.\<close>

definition only_verified ::
  "(bytes \<Rightarrow> string) \<Rightarrow> blob_index \<Rightarrow> 'm blob_cache \<Rightarrow> 'm blob_cache \<Rightarrow> bool" where
  "only_verified sha1 index c c' \<longleftrightarrow>
     cache_root c' = cache_root c \<and>
     (\<forall>p data. disk c' p = Some data \<longrightarrow> disk c p = Some data \<or>
        (\<exists>k sha n. map_of index k = Some (sha, n) \<and> git_blob_hash sha1 n data = sha
           \<and> blob_path c (from_sha1_hex sha) = Some p))"

lemma only_verified_refl: "only_verified sha1 index c c"
  by (simp add: only_verified_def)

lemma only_verified_trans:
  assumes "only_verified sha1 index c c1" "only_verified sha1 index c1 c2"
  shows "only_verified sha1 index c c2"
proof -
  have "blob_path c1 d = blob_path c d" for d using assms(1) by (simp add: only_verified_def blob_path_def)
  then show ?thesis using assms unfolding only_verified_def by metis
qed

lemma count_frames [simp]:
  "ex_cache (count_event ev x) = ex_cache x" "ex_cache (skip_invalid x) = ex_cache x"
  "ex_cache (skip_mismatch x) = ex_cache x" "ex_cache (count_pointer peek path x) = ex_cache x"
  "ex_cache (count_committed sz x) = ex_cache x"
  by (simp_all add: count_event_def skip_invalid_def skip_mismatch_def count_pointer_def count_committed_def
      split: option.split)

text \<open>What each step of an extraction keeps: it returns, without a panic, with the cache in order.\<close>

definition extracts_to ::
  "'m lru_ops \<Rightarrow> (bytes \<Rightarrow> string) \<Rightarrow> blob_index \<Rightarrow> 'm extraction \<Rightarrow> ('m extraction \<times> unit ctxfs_result) option \<Rightarrow> bool" where
  "extracts_to L sha1 index x res \<longleftrightarrow>
     (\<exists>x' r. res = Some (x', r) \<and> r \<noteq> Panic \<and> cache_inv L (ex_cache x') \<and> only_verified sha1 index (ex_cache x) (ex_cache x'))"

lemma extracts_toI:
  "res = Some (x', r) \<Longrightarrow> r \<noteq> Panic \<Longrightarrow> cache_inv L (ex_cache x') \<Longrightarrow>
     only_verified sha1 index (ex_cache x) (ex_cache x') \<Longrightarrow> extracts_to L sha1 index x res"
  by (auto simp: extracts_to_def)

lemma finalize_returns:
  assumes "linked_hash_map L" "cache_inv L c" "hex_ok (dg_hex d)"
  shows "\<exists>c' r. writer_finalize L io w d c = Some (c', r) \<and> r \<noteq> Panic \<and> cache_inv L c'"
proof -
  obtain path where path: "blob_path c d = Some path" using blob_path_hex_ok [OF assms(3)] by blast
  obtain c1 where t: "track_and_evict L io d (bytes_written w) (c\<lparr> disk := (disk c)(path \<mapsto> temp w) \<rparr>) = Some (c1, Ok ())"
    using lru_index.write_and_track [OF lru_index_of [OF assms(1)] assms(2,3) path] by metis
  have "\<exists>c' r. writer_finalize L io w d c = Some (c', r) \<and> r \<noteq> Panic"
    using path t by (auto simp: writer_finalize_def split: option.split)
  then show ?thesis
    using lru_index.cache_inv_finalize [OF lru_index_of [OF assms(1)] _ assms(3,2)] by blast
qed

lemma commit_entry_extracts:
  assumes L: "linked_hash_map L" and inv: "cache_inv L (ex_cache x)" and hex: "\<forall>b. hex_ok (sha1 b)"
    and index: "map_of index k = Some (sha, n)"
  shows "extracts_to L sha1 index x (commit_entry L io sha1 view path sha n e x)"
proof (cases "commit_atomic_with_writer io (ex_cache x)")
  case (Err err)
  then show ?thesis by (intro extracts_toI [of _ x "Err err"]) (simp_all add: commit_entry_def inv only_verified_refl)
next
  case Panic
  then show ?thesis using commit_atomic_with_writer_def by (auto simp: commit_atomic_with_writer_def split: option.splits)
next
  case (Ok w)
  then have w: "temp w = []" by (auto simp: commit_atomic_with_writer_def split: option.splits)
  let ?t0 = "\<lparr> tee_hasher = git_blob_new n, tee_writer = w, tee_peek = (if n \<le> LFS_PEEK_MAX then Some [] else None) \<rparr>"
  show ?thesis
  proof (cases "tee_copy (tmp_accept io) (ta_chunks e) (ta_error e) ?t0")
    case (Err err)
    then show ?thesis using Ok
      by (intro extracts_toI [of _ x "Err (Provider (''tar entry stream: '' @ err))"])
        (simp_all add: commit_entry_def inv only_verified_refl)
  next
    case Panic
    then show ?thesis using tee_copy_no_panic by blast
  next
    case ok: (Ok t)
    from tee_copy_Ok [OF ok] obtain data where data: "temp (tee_writer t) = data" "hash_of (tee_hasher t) = size_header n @ data"
      using w by auto
    then have hash: "git_blob_finalize sha1 (tee_hasher t) = git_blob_hash sha1 n data"
      by (simp add: finalize_hash_of git_blob_hash_def)
    show ?thesis
    proof (cases "git_blob_hash sha1 n data = sha")
      case False
      then show ?thesis using Ok ok hash
        by (intro extracts_toI [of _ "skip_mismatch x" "Ok ()"]) (simp_all add: commit_entry_def inv only_verified_refl)
    next
      case True
      let ?d = "from_sha1_hex sha"
      have "hex_ok (dg_hex ?d)" using hex True by (auto simp: from_sha1_hex_def git_blob_hash_def)
      from finalize_returns [OF L inv this] obtain c r where
        f: "writer_finalize L io (tee_writer t) ?d (ex_cache x) = Some (c, r)" "r \<noteq> Panic" "cache_inv L c" by blast
      have v: "only_verified sha1 index (ex_cache x) c"
        using finalize_mono [OF f(1)] finalize_root [OF f(1)] index True data(1)
        by (auto simp: only_verified_def)
      let ?c1 = "case view of Some v \<Rightarrow> add_owner (repo_key v) (dg_hex ?d) c | None \<Rightarrow> c"
      have c1: "cache_inv L ?c1" "only_verified sha1 index (ex_cache x) ?c1"
        using f(3) v cache_inv_add_owner
        by (auto simp: only_verified_def add_owner_def split: option.split)
      show ?thesis
      proof (cases r)
        case okr: (Ok u)
        then show ?thesis using Ok ok hash True f c1
          by (intro extracts_toI [of _ "count_committed n ((count_pointer (tee_peek t) path x)\<lparr> ex_cache := ?c1 \<rparr>)" "Ok ()"])
            (simp_all add: commit_entry_def Let_def)
      next
        case (Err err)
        then show ?thesis using Ok ok hash True f v
          by (intro extracts_toI [of _ "(count_pointer (tee_peek t) path x)\<lparr> ex_cache := c \<rparr>" r])
            (simp_all add: commit_entry_def Let_def)
      qed (use f(2) in blast)
    qed
  qed
qed

lemma extract_entry_extracts:
  assumes "linked_hash_map L" "cache_inv L (ex_cache x)" "\<forall>b. hex_ok (sha1 b)"
  shows "extracts_to L sha1 index x (extract_entry L io sha1 view index e x)"
proof (cases "validate_tar_entry_path (ta_path e) (ta_type e)")
  case (Ok p)
  show ?thesis
  proof (cases "ta_type e \<noteq> TarRegular \<or> p = [] \<or> map_of index (path_key p) = None")
    case True
    then show ?thesis using Ok assms(2)
      by (intro extracts_toI [of _ x "Ok ()"]) (auto simp: extract_entry_def only_verified_refl split: option.split)
  next
    case False
    then obtain sha n where "map_of index (path_key p) = Some (sha, n)" by auto
    then show ?thesis using Ok False commit_entry_extracts [OF assms] by (simp add: extract_entry_def)
  qed
qed (use assms(2) in \<open>simp_all add: extract_entry_def extracts_to_def only_verified_refl\<close>)

lemma extract_entries_extracts:
  assumes "linked_hash_map L" "cache_inv L (ex_cache x)" "\<forall>b. hex_ok (sha1 b)"
  shows "extracts_to L sha1 index x (extract_entries L io sha1 view index items x)"
  using assms(2)
proof (induction items arbitrary: x)
  case Nil
  then show ?case by (simp add: extracts_to_def only_verified_refl)
next
  case (Cons item items)
  show ?case
  proof (cases item)
    case (Inr err)
    then show ?thesis using Cons.prems by (simp add: extracts_to_def only_verified_refl)
  next
    case (Inl e)
    have "extracts_to L sha1 index x (extract_entry L io sha1 view index e x)"
      by (rule extract_entry_extracts [OF assms(1) Cons.prems assms(3)])
    then obtain x1 r where one: "extract_entry L io sha1 view index e x = Some (x1, r)" "r \<noteq> Panic"
      "cache_inv L (ex_cache x1)" "only_verified sha1 index (ex_cache x) (ex_cache x1)"
      by (auto simp: extracts_to_def)
    show ?thesis
    proof (cases r)
      case (Ok u)
      obtain x2 r2 where rest: "extract_entries L io sha1 view index items x1 = Some (x2, r2)" "r2 \<noteq> Panic"
        "cache_inv L (ex_cache x2)" "only_verified sha1 index (ex_cache x1) (ex_cache x2)"
        using Cons.IH [OF one(3)] by (auto simp: extracts_to_def)
      then show ?thesis using Inl one Ok only_verified_trans [OF one(4) rest(4)]
        by (intro extracts_toI [of _ x2 r2]) simp_all
    qed (use Inl one in \<open>simp_all add: extracts_to_def\<close>)
  qed
qed

text \<open>
  C7. Whatever a tarball contains and however reading and writing fail, the extraction returns without a
  panic and leaves the cache in order; every file it leaves was there before, byte for byte, or is at the
  place of a blob of the manifest and has the Git hash the manifest gives.
\<close>

theorem tarball_commits_verified:
  assumes "linked_hash_map L" "cache_inv L c" "\<forall>b. hex_ok (sha1 b)"
  shows "\<exists>x r. extract_archive L io sha1 view index archive c tally = Some (x, r) \<and> r \<noteq> Panic
    \<and> cache_inv L (ex_cache x)
    \<and> (\<forall>p data. disk (ex_cache x) p = Some data \<longrightarrow> disk c p = Some data \<or>
         (\<exists>k sha n. map_of index k = Some (sha, n) \<and> git_blob_hash sha1 n data = sha
            \<and> blob_path c (from_sha1_hex sha) = Some p))"
proof -
  let ?x = "\<lparr> ex_cache = c, ex_counters = tally, ex_outcome = \<lparr> blobs_committed = 0,
             blobs_skipped_invalid = 0, blobs_skipped_digest = 0, blobs_total_bytes = 0 \<rparr> \<rparr>"
  have "extracts_to L sha1 index ?x (extract_archive L io sha1 view index archive c tally)"
  proof (cases archive)
    case (Inl items)
    then show ?thesis using extract_entries_extracts [OF assms(1) _ assms(3), of ?x] assms(2)
      by (simp add: extract_archive_def Let_def)
  next
    case (Inr err)
    then show ?thesis using assms(2) by (simp add: extract_archive_def Let_def extracts_to_def only_verified_refl)
  qed
  then obtain x r where x: "extract_archive L io sha1 view index archive c tally = Some (x, r)" "r \<noteq> Panic"
    "cache_inv L (ex_cache x)" "only_verified sha1 index c (ex_cache x)"
    by (auto simp: extracts_to_def)
  then show ?thesis unfolding only_verified_def by blast
qed

text \<open>A hash for evaluation: the characters that are hex digits.\<close>

definition demo_sha1 :: "bytes \<Rightarrow> string" where
  "demo_sha1 b = ''aaa'' @ filter is_hex_char b"

lemma demo_sha1_ok: "\<forall>b. hex_ok (demo_sha1 b)"
  by (auto simp: hex_ok_def demo_sha1_def is_hex_char_def list_all_iff char_le_iff_nat)

definition demo_archive :: "(tar_entry + string) list" where
  "demo_archive =
     [Inl \<lparr> ta_path = ''o-r-1/'', ta_type = TarDirectory, ta_chunks = [], ta_error = None \<rparr>,
      Inl \<lparr> ta_path = ''o-r-1/../x'', ta_type = TarRegular, ta_chunks = [''x''], ta_error = None \<rparr>,
      Inl \<lparr> ta_path = ''o-r-1/a'', ta_type = TarRegular, ta_chunks = [''ab'', ''c''], ta_error = None \<rparr>,
      Inl \<lparr> ta_path = ''o-r-1/b'', ta_type = TarRegular, ta_chunks = [''abd''], ta_error = None \<rparr>,
      Inr ''unexpected end'']"

definition demo_index :: blob_index where
  "demo_index = [([''a''], git_blob_hash demo_sha1 3 ''abc'', 3), ([''b''], git_blob_hash demo_sha1 3 ''abc'', 3)]"

theorem tarball_commits_verified_witness:
  "\<exists>x. extract_archive list_lhm good_io demo_sha1 None demo_index (Inl demo_archive) demo_cache None
       = Some (x, Err (Provider ''tar entry: unexpected end''))
     \<and> blobs_committed (ex_outcome x) = 1 \<and> blobs_skipped_invalid (ex_outcome x) = 1
     \<and> blobs_skipped_digest (ex_outcome x) = 1 \<and> cache_inv list_lhm (ex_cache x)"
proof -
  let ?r = "extract_archive list_lhm good_io demo_sha1 None demo_index (Inl demo_archive) demo_cache None"
  have "case ?r of None \<Rightarrow> False | Some (x, r) \<Rightarrow> r = Err (Provider ''tar entry: unexpected end'')
     \<and> blobs_committed (ex_outcome x) = 1 \<and> blobs_skipped_invalid (ex_outcome x) = 1
     \<and> blobs_skipped_digest (ex_outcome x) = 1"
    by code_simp
  from case_Some_pairD [OF this] obtain x r where x: "?r = Some (x, r)" "r = Err (Provider ''tar entry: unexpected end'')"
    "blobs_committed (ex_outcome x) = 1" "blobs_skipped_invalid (ex_outcome x) = 1"
    "blobs_skipped_digest (ex_outcome x) = 1" by blast
  then show ?thesis
    using tarball_commits_verified [OF linked_hash_map_list demo_inv demo_sha1_ok,
        of good_io None demo_index "Inl demo_archive" None] by auto
qed

end
