(* ===== verification/Git_Api.thy ===== *)
theory Git_Api
  imports Git_Extract Git_Directories Tree_Cache Singleflight Source_Spec
begin

text \<open>
  The REST side of \<open>GitHubProvider\<close> (\<open>crates/ctxfs-provider-git/src/github.rs\<close>): the provider's state, the
  rate-limit bookkeeping of every response, and the calls for commits, trees and blobs. Every operation
  takes the state and returns it with its result; \<open>None\<close> stands for a loop that does not end.
\<close>

section \<open>Operations on a state\<close>

type_synonym ('s, 'a, 'e) task = "'s \<Rightarrow> ('s \<times> ('a, 'e) outcome) option"
type_synonym ('s, 'a) prog = "('s, 'a, ctxfs_error) task"

definition prog_lift :: "('a, 'e) outcome \<Rightarrow> ('s, 'a, 'e) task" where
  "prog_lift r s = Some (s, r)"

abbreviation prog_return :: "'a \<Rightarrow> ('s, 'a, 'e) task" where "prog_return x \<equiv> prog_lift (Ok x)"

definition prog_bind :: "('s, 'a, 'e) task \<Rightarrow> ('a \<Rightarrow> ('s, 'b, 'e) task) \<Rightarrow> ('s, 'b, 'e) task" where
  "prog_bind m f s =
     (case m s of
        None \<Rightarrow> None
      | Some (s1, r) \<Rightarrow> (case r of Ok x \<Rightarrow> f x s1 | Err e \<Rightarrow> Some (s1, Err e) | Panic \<Rightarrow> Some (s1, Panic)))"

text \<open>Run and look at the result, error or not: \<open>match\<close> on a \<open>Result\<close>. A panic passes through.\<close>

definition prog_try :: "('s, 'a, 'd) task \<Rightarrow> ('a + 'd \<Rightarrow> ('s, 'b, 'e) task) \<Rightarrow> ('s, 'b, 'e) task" where
  "prog_try m f s =
     (case m s of
        None \<Rightarrow> None
      | Some (s1, r) \<Rightarrow> (case r of Ok x \<Rightarrow> f (Inl x) s1 | Err e \<Rightarrow> f (Inr e) s1 | Panic \<Rightarrow> Some (s1, Panic)))"

definition prog_read :: "('s \<Rightarrow> 'a) \<Rightarrow> ('s, 'a, 'e) task" where
  "prog_read f s = Some (s, Ok (f s))"

definition prog_change :: "('s \<Rightarrow> 's) \<Rightarrow> ('s, unit, 'e) task" where
  "prog_change f s = Some (f s, Ok ())"

lemma prog_bind_Ok: "m s = Some (s1, Ok x) \<Longrightarrow> prog_bind m f s = f x s1"
  by (simp add: prog_bind_def)

lemma prog_bind_change: "prog_bind (prog_change g) f s = f () (g s)" by (simp add: prog_bind_def prog_change_def)

lemma prog_bind_read: "prog_bind (prog_read g) f s = f (g s) s" by (simp add: prog_bind_def prog_read_def)

lemma prog_bind_return: "prog_bind (prog_return x) f s = f x s" by (simp add: prog_bind_def prog_lift_def)

section \<open>The provider and its environment\<close>

text \<open>What a provider is constructed with, and what its interior mutability and shared parts hold.\<close>

record github_config =
  cf_api_host :: string
  cf_codeload_host :: string
  cf_auth :: auth_identity

record 'm github =
  gs_cache :: "'m blob_cache"
  gs_tree_cache :: "tree_cache option"
  gs_shared_puts :: "((string \<times> string \<times> string) \<times> bytes) list"
  gs_observability :: observability
  gs_flights :: singleflight
  gs_counter_key :: "counter_key option"
  gs_active_source :: "source_spec option"
  gs_sha_to_path :: "(string \<times> string) list"
  gs_mount_cache :: "mount_cache_view option"
  gs_log :: request_log

record tree_response =
  tr_sha :: string
  tr_tree :: "tree_entry list"
  tr_truncated :: bool

record blob_response =
  br_content :: string
  br_encoding :: string

text \<open>
  The environment: the cache's index and files, the server, the clock at the n-th request, the JSON
  decoders and encoders, base64, the hashes, gzip with tar, the shared tree cache (when there is one) and
  the order in which concurrent requests complete.
\<close>

record ('m, 'j) github_env =
  ev_lru :: "'m lru_ops"
  ev_io :: io_env
  ev_send :: "bytes server"
  ev_now :: "nat \<Rightarrow> system_time"
  ev_status_text :: "u16 \<Rightarrow> string"
  ev_url_parse :: "string \<Rightarrow> parsed_url + string"
  ev_dec_commit :: "bytes \<Rightarrow> string + string"
  ev_dec_tree :: "bytes \<Rightarrow> tree_response + string"
  ev_dec_blob :: "bytes \<Rightarrow> blob_response + string"
  ev_base64_decode :: "string \<Rightarrow> bytes + string"
  ev_sha1 :: "bytes \<Rightarrow> string"
  ev_sha256 :: "bytes \<Rightarrow> string"
  ev_unpack :: "bytes response \<Rightarrow> (tar_entry + string) list + string"
  ev_entries_json :: "dir_entry list \<Rightarrow> bytes option"
  ev_directory_json :: "directory \<Rightarrow> bytes + string"
  ev_directory_parse :: "bytes \<Rightarrow> directory option"
  ev_snapshot_json :: "snapshot \<Rightarrow> bytes + string"
  ev_snapshot_parse :: "bytes \<Rightarrow> snapshot option"
  ev_json :: "'j json_lib"
  ev_fs :: fs_env
  ev_shared_get :: "(string \<Rightarrow> string \<Rightarrow> string \<Rightarrow> bytes option) option"
  ev_created_at :: string
  ev_next :: "string list \<Rightarrow> nat"

definition owner_repo :: "source_spec \<Rightarrow> (string \<times> string) ctxfs_result" where
  "owner_repo src =
     ok_or (InvalidSource (''expected owner/repo in name '' @ quoted (sp_name src) @ '', got no '' @ quoted ''/''))
       (split_once CHR ''/'' (sp_name src))"

definition github_new :: "string option \<Rightarrow> string option \<Rightarrow> string \<Rightarrow> github_config" where
  "github_new token codeload_host_override api_host =
     \<lparr> cf_api_host = api_host,
       cf_codeload_host = (case codeload_host_override of Some h \<Rightarrow> h | None \<Rightarrow> codeload_host_for api_host),
       cf_auth = (case token of Some t \<Rightarrow> pat_identity api_host t | None \<Rightarrow> anonymous_identity api_host) \<rparr>"

definition snapshot_blob_hexes :: "'m github \<Rightarrow> string list" where
  "snapshot_blob_hexes s = keys_of (gs_sha_to_path s)"

definition set_mount_cache :: "mount_cache_view option \<Rightarrow> 'm github \<Rightarrow> 'm github" where
  "set_mount_cache view s = s\<lparr> gs_mount_cache := view \<rparr>"

definition api_base :: "string \<Rightarrow> string" where
  "api_base api_host =
     (if starts_with ''http://'' api_host \<or> starts_with ''https://'' api_host then api_host
      else ''https://'' @ api_host) @ ''/repos/''"

definition api_url :: "github_config \<Rightarrow> string \<Rightarrow> string \<Rightarrow> string \<Rightarrow> string" where
  "api_url cf owner repo path = api_base (cf_api_host cf) @ owner @ ''/'' @ repo @ ''/'' @ path"

section \<open>Responses and rate limits\<close>

definition classify_response :: "system_time \<Rightarrow> u16 \<Rightarrow> headers \<Rightarrow> unit ctxfs_result" where
  "classify_response now st hs =
     obind (classify st hs) (\<lambda>verdict.
       case verdict of
         VerdictOk _ \<Rightarrow> Ok ()
       | SecondaryThrottle retry_after _ \<Rightarrow> Err (RateLimited retry_after)
       | PrimaryExhausted reset_at _ \<Rightarrow>
           Err (RateLimited (if now \<le> reset_at then of_nat ((reset_at - now) div nanos) else 60))
       | VerdictOther _ \<Rightarrow> Ok ())"

text \<open>An event on the bucket of the current mount, if there is one.\<close>

definition count_for_mount :: "counter_event \<Rightarrow> 'm github \<Rightarrow> 'm github" where
  "count_for_mount ev s =
     (case gs_counter_key s of
        Some key \<Rightarrow> s\<lparr> gs_observability := record_for key ev (gs_observability s) \<rparr>
      | None \<Rightarrow> s)"

definition check_rate_limit ::
  "('m, 'j) github_env \<Rightarrow> github_config \<Rightarrow> bytes response \<Rightarrow> ('m github, unit) prog" where
  "check_rate_limit E cf resp s =
     (let st = resp_status resp; hs = response_headers_map resp; resource = resource_of hs;
          now = ev_now E (length (gs_log s));
          s1 = count_for_mount RestCall s;
          (ob, r) = update_gauge (cf_auth cf) resource hs (gs_observability s1);
          s2 = s1\<lparr> gs_observability := ob \<rparr>
      in case obind r (\<lambda>_. classify st hs) of
           Err e \<Rightarrow> Some (s2, Err e)
         | Panic \<Rightarrow> Some (s2, Panic)
         | Ok (SecondaryThrottle retry_after _) \<Rightarrow>
             (let (ob2, r2) = mark_secondary_throttle now (cf_auth cf) resource retry_after (gs_observability s2);
                  s3 = s2\<lparr> gs_observability := ob2 \<rparr>
              in case r2 of
                   Ok _ \<Rightarrow> Some (count_for_mount ThrottleEvent s3, classify_response now st hs)
                 | Err e \<Rightarrow> Some (s3, Err e)
                 | Panic \<Rightarrow> Some (s3, Panic))
         | Ok _ \<Rightarrow> Some (s2, classify_response now st hs))"

text \<open>One request of the API client, logged.\<close>

definition api_get :: "('m, 'j) github_env \<Rightarrow> string \<Rightarrow> string \<Rightarrow> ('m github, bytes response) prog" where
  "api_get E url failure s =
     (let answer = ev_send E (length (gs_log s)) ApiClient url; s1 = s\<lparr> gs_log := gs_log s @ [(ApiClient, url)] \<rparr>
      in case answer of Inr e \<Rightarrow> Some (s1, Err (Provider (failure @ e))) | Inl resp \<Rightarrow> Some (s1, Ok resp))"

definition get_json ::
  "('m, 'j) github_env \<Rightarrow> github_config \<Rightarrow> (bytes \<Rightarrow> 'a + string) \<Rightarrow> string \<Rightarrow> string \<Rightarrow> ('m github, 'a) prog" where
  "get_json E cf decode url what =
     prog_bind (api_get E url (''HTTP error '' @ what @ '': '')) (\<lambda>resp.
     prog_bind (check_rate_limit E cf resp) (\<lambda>_.
     if \<not> success_status (resp_status resp)
     then prog_lift (Err (Provider (''failed to '' @ what @ '': HTTP '' @ ev_status_text E (resp_status resp))))
     else (case resp_json resp of
         Inr e \<Rightarrow> prog_lift (Err (Provider (''JSON parse error: '' @ e)))
       | Inl body \<Rightarrow>
           (case decode body of
              Inr e \<Rightarrow> prog_lift (Err (Provider (''JSON parse error: '' @ e)))
            | Inl x \<Rightarrow> prog_return x))))"

definition resolve_ref :: "('m, 'j) github_env \<Rightarrow> github_config \<Rightarrow> source_spec \<Rightarrow> ('m github, string) prog" where
  "resolve_ref E cf src =
     prog_bind (prog_lift (owner_repo src)) (\<lambda>(owner, repo).
     get_json E cf (ev_dec_commit E) (api_url cf owner repo (''commits/'' @ sp_version src))
       (''resolve ref '' @ quoted (sp_version src)))"

definition fetch_tree ::
  "('m, 'j) github_env \<Rightarrow> github_config \<Rightarrow> source_spec \<Rightarrow> string \<Rightarrow> ('m github, tree_response) prog" where
  "fetch_tree E cf src tree_sha =
     prog_bind (prog_lift (owner_repo src)) (\<lambda>(owner, repo).
     get_json E cf (ev_dec_tree E) (api_url cf owner repo (''git/trees/'' @ tree_sha @ ''?recursive=1'')) ''fetch tree'')"

definition fetch_subtree ::
  "('m, 'j) github_env \<Rightarrow> github_config \<Rightarrow> source_spec \<Rightarrow> string \<Rightarrow> ('m github, tree_entry list) prog" where
  "fetch_subtree E cf src tree_sha =
     prog_bind (prog_lift (owner_repo src)) (\<lambda>(owner, repo).
     prog_bind (get_json E cf (ev_dec_tree E) (api_url cf owner repo (''git/trees/'' @ tree_sha)) ''fetch subtree'')
       (\<lambda>t. prog_return (tr_tree t)))"

text \<open>The walk of \<^const>\<open>walk_tree\<close> with the requests' effects on the state.\<close>

partial_function (option) walk_loop ::
  "(string \<Rightarrow> ('s, tree_entry list) prog) \<Rightarrow> (string \<times> string) list \<Rightarrow> tree_entry list \<Rightarrow> ('s, tree_entry list) prog" where
  "walk_loop get stack out s =
     (case stack of
        [] \<Rightarrow> Some (s, Ok out)
      | (sha, prefix) # rest \<Rightarrow>
          Option.bind (get sha s) (\<lambda>(s1, r).
            (case r of
               Ok es \<Rightarrow> walk_loop get (rev (subtrees_of prefix es) @ rest) (out @ map (prefix_entry prefix) es) s1
             | Err e \<Rightarrow> Some (s1, Err e)
             | Panic \<Rightarrow> Some (s1, Panic))))"

declare walk_loop.simps [code]

definition walk_truncated ::
  "('m, 'j) github_env \<Rightarrow> github_config \<Rightarrow> source_spec \<Rightarrow> string \<Rightarrow> ('m github, tree_entry list) prog" where
  "walk_truncated E cf src root_tree_sha =
     prog_bind (prog_change (count_for_mount TruncatedTreeFallback)) (\<lambda>_.
     walk_loop (fetch_subtree E cf src) [(root_tree_sha, [])] [])"

section \<open>Blobs\<close>

text \<open>\<open>content.chars().filter(|c| !c.is_whitespace())\<close> on the bytes of the text.\<close>

function without_whitespace :: "string \<Rightarrow> string" where
  "without_whitespace s =
     (case s of
        [] \<Rightarrow> []
      | c # cs \<Rightarrow>
          (case leading_ws s of
             Some w \<Rightarrow> without_whitespace (drop (length w) s)
           | None \<Rightarrow> c # without_whitespace cs))"
  by pat_completeness auto
termination
proof (relation "measure length")
  fix s w and c :: char and cs
  assume s: "s = c # cs" and "leading_ws s = Some w"
  then have "w \<noteq> []" using leading_ws_Some by blast
  then show "(drop (length w) s, s) \<in> measure length" using s by (cases w) auto
qed auto

declare without_whitespace.simps [simp del]

text \<open>The path a pointer is reported under; slicing the hash is a panic inside a character.\<close>

definition blob_label :: "string \<Rightarrow> (string \<times> string) list \<Rightarrow> string ctxfs_result" where
  "blob_label sha paths =
     (case map_of paths sha of
        Some p \<Rightarrow> Ok p
      | None \<Rightarrow>
          (let n = min 8 (length sha) in
           if char_boundary n sha then Ok (''<sha:'' @ take n sha @ ''>'') else Panic))"

definition fetch_blob_content ::
  "('m, 'j) github_env \<Rightarrow> github_config \<Rightarrow> source_spec \<Rightarrow> string \<Rightarrow> ('m github, bytes) prog" where
  "fetch_blob_content E cf src sha =
     prog_bind (prog_lift (owner_repo src)) (\<lambda>(owner, repo).
     prog_bind (get_json E cf (ev_dec_blob E) (api_url cf owner repo (''git/blobs/'' @ sha)) (''fetch blob '' @ sha)) (\<lambda>blob.
     if br_encoding blob \<noteq> ''base64''
     then prog_lift (Err (Provider (''unexpected blob encoding: '' @ br_encoding blob)))
     else (case ev_base64_decode E (without_whitespace (br_content blob)) of
         Inr e \<Rightarrow> prog_lift (Err (Provider (''base64 decode error: '' @ e)))
       | Inl data \<Rightarrow>
           (case detect_lfs_pointer data of
              None \<Rightarrow> prog_return data
            | Some _ \<Rightarrow>
                prog_bind (prog_read gs_sha_to_path) (\<lambda>paths.
                prog_bind (prog_lift (blob_label sha paths)) (\<lambda>label.
                prog_bind (prog_change (count_for_mount (LfsPointerWithPath label))) (\<lambda>_. prog_return data)))))))"

end
