(* ===== verification/Git_Provider.thy ===== *)
theory Git_Provider
  imports Git_Api
begin

text \<open>
  \<open>GitHubProvider\<close>'s operations (\<open>crates/ctxfs-provider-git/src/github.rs\<close>): the tarball fetch behind the
  singleflight registry, the prefetch of small blobs, \<open>fetch_snapshot_inner\<close> and the three operations of
  the \<open>Provider\<close> interface. Tasks of one provider run one after the other here; how concurrent tarball
  tasks share a slot is the subject of \<open>Singleflight\<close>.
\<close>

section \<open>The blob cache as part of the provider\<close>

definition cache_get :: "('m, 'j) github_env \<Rightarrow> digest \<Rightarrow> ('m github, bytes option) prog" where
  "cache_get E d s =
     (let (c, r) = blob_get (ev_lru E) (ev_io E) d (gs_cache s) in Some (s\<lparr> gs_cache := c \<rparr>, r))"

definition cache_put :: "('m, 'j) github_env \<Rightarrow> digest \<Rightarrow> bytes \<Rightarrow> ('m github, unit) prog" where
  "cache_put E d data s =
     (case blob_put (ev_lru E) (ev_io E) d data (gs_cache s) of
        None \<Rightarrow> None
      | Some (c, r) \<Rightarrow> Some (s\<lparr> gs_cache := c \<rparr>, r))"

definition record_ownership :: "digest \<Rightarrow> 'm github \<Rightarrow> 'm github" where
  "record_ownership d s =
     (case gs_mount_cache s of
        Some v \<Rightarrow> s\<lparr> gs_cache := add_owner (repo_key v) (dg_hex d) (gs_cache s) \<rparr>
      | None \<Rightarrow> s)"

section \<open>The tarball\<close>

text \<open>The redirect chain, then the extraction with the counters of the caller's bucket.\<close>

definition follow_chain ::
  "('m, 'j) github_env \<Rightarrow> github_config \<Rightarrow> bytes response \<Rightarrow> ('m github, bytes response) prog" where
  "follow_chain E cf initial s =
     (let (log, r) = follow_redirects (ev_send E) (ev_url_parse E) (cf_codeload_host cf) 0 initial (gs_log s)
      in Some (s\<lparr> gs_log := log \<rparr>, r))"

definition extract_into_cache ::
  "('m, 'j) github_env \<Rightarrow> blob_index \<Rightarrow> counter_key option \<Rightarrow> bytes response \<Rightarrow> ('m github, tarball_outcome) prog" where
  "extract_into_cache E index counter_key resp s =
     (let (ob, tally) = (case counter_key of
             Some k \<Rightarrow> (let (ob, c) = counters_for k (gs_observability s) in (ob, Some c))
           | None \<Rightarrow> (gs_observability s, None))
      in case extract_archive (ev_lru E) (ev_io E) (ev_sha1 E) (gs_mount_cache s) index (ev_unpack E resp)
                (gs_cache s) tally of
           None \<Rightarrow> None
         | Some (x, r) \<Rightarrow>
             (let ob1 = (case (counter_key, ex_counters x) of
                   (Some k, Some c) \<Rightarrow> ob\<lparr> counters := AList.update k c (counters ob) \<rparr> | _ \<Rightarrow> ob)
              in Some (s\<lparr> gs_cache := ex_cache x, gs_observability := ob1 \<rparr>, omap (\<lambda>_. ex_outcome x) r)))"

definition fetch_tarball_into_cache ::
  "('m, 'j) github_env \<Rightarrow> github_config \<Rightarrow> source_spec \<Rightarrow> string \<Rightarrow> blob_index \<Rightarrow> counter_key option \<Rightarrow>
     ('m github, tarball_outcome) prog" where
  "fetch_tarball_into_cache E cf src commit_sha index counter_key =
     prog_bind (prog_lift (owner_repo src)) (\<lambda>(owner, repo).
     prog_bind (api_get E (api_url cf owner repo (''tarball/'' @ commit_sha)) ''HTTP error tarball: '') (\<lambda>initial.
     prog_bind (check_rate_limit E cf initial) (\<lambda>_.
     prog_bind (follow_chain E cf initial) (\<lambda>final.
     if \<not> success_status (resp_status final)
     then prog_lift (Err (Provider (''tarball download failed: HTTP '' @ ev_status_text E (resp_status final))))
     else extract_into_cache E index counter_key final))))"

definition count_on :: "counter_key option \<Rightarrow> counter_event list \<Rightarrow> 'm github \<Rightarrow> 'm github" where
  "count_on key evs s =
     (case key of
        Some k \<Rightarrow> s\<lparr> gs_observability := foldl (\<lambda>ob ev. record_for k ev ob) (gs_observability s) evs \<rparr>
      | None \<Rightarrow> s)"

text \<open>The closure of \<open>get_or_init\<close>: the download as the result that is kept in the slot's cell.\<close>

definition download_result ::
  "('m, 'j) github_env \<Rightarrow> github_config \<Rightarrow> source_spec \<Rightarrow> string \<Rightarrow> blob_index \<Rightarrow> counter_key option \<Rightarrow>
     ('m github, (unit, string) outcome) prog" where
  "download_result E cf src commit_sha index counter_key =
     prog_try (fetch_tarball_into_cache E cf src commit_sha index counter_key) (\<lambda>r.
       case r of
         Inl out \<Rightarrow>
           prog_bind (prog_change (count_on counter_key [BytesTransferred (blobs_total_bytes out), HttpTransfer]))
             (\<lambda>_. prog_return (Ok ()))
       | Inr e \<Rightarrow>
           prog_bind (prog_change (count_on counter_key [PrefetchFailure])) (\<lambda>_. prog_return (Err (error_display e))))"

definition get_or_init ::
  "nat \<Rightarrow> ('m github, (unit, string) outcome) prog \<Rightarrow> ('m github, (unit, string) outcome) prog" where
  "get_or_init slot init s =
     (case (if slot < length (slot_cells (gs_flights s)) then slot_cells (gs_flights s) ! slot else None) of
        Some r \<Rightarrow> Some (s, Ok r)
      | None \<Rightarrow> prog_bind init (\<lambda>r s. Some (s\<lparr> gs_flights := fill_cell slot r (gs_flights s) \<rparr>, Ok r)) s)"

definition dispatch_tarball_for_requests ::
  "('m, 'j) github_env \<Rightarrow> github_config \<Rightarrow> source_spec \<Rightarrow> string \<Rightarrow> content_request list \<Rightarrow> counter_key option \<Rightarrow>
     ('m github, unit) prog" where
  "dispatch_tarball_for_requests E cf src commit_sha requests counter_key =
     prog_bind (prog_lift (owner_repo src)) (\<lambda>(owner, repo) s.
       if contains_all (ev_lru E) (List.map_filter cr_digest requests) (gs_cache s) then Some (s, Ok ())
       else
         (let key = \<lparr> tk_host = cf_api_host cf, tk_owner = owner, tk_repo = repo, tk_commit_sha = commit_sha \<rparr>;
              (sf, claim) = claim_singleflight_slot key (gs_flights s);
              index = build_path_to_sha_size_from_requests requests
          in prog_bind (get_or_init (claim_slot claim) (download_result E cf src commit_sha index counter_key))
               (\<lambda>outcome s. Some (s\<lparr> gs_flights := release_claim claim (gs_flights s) \<rparr>,
                  case outcome of Ok _ \<Rightarrow> Ok () | Err e \<Rightarrow> Err (Provider e) | Panic \<Rightarrow> Panic))
               (s\<lparr> gs_flights := sf \<rparr>)))"

text \<open>\<open>ContentFetcher::fetch_batch\<close>; its map is always empty.\<close>

definition fetch_batch ::
  "('m, 'j) github_env \<Rightarrow> github_config \<Rightarrow> source_spec \<Rightarrow> string \<Rightarrow> content_request list \<Rightarrow> fetch_mode \<Rightarrow>
     counter_key option \<Rightarrow> ('m github, (string \<times> bytes) list) prog" where
  "fetch_batch E cf src revision requests mode counter_key =
     (if mode = FetchLazy
      then prog_lift (Err (Provider ''fetch_batch called with FetchMode::Lazy; expected BulkPrefetch or Forced''))
      else prog_bind (dispatch_tarball_for_requests E cf src revision requests counter_key) (\<lambda>_. prog_return []))"

section \<open>Prefetching small blobs\<close>

abbreviation PREFETCH_CONCURRENCY :: nat where "PREFETCH_CONCURRENCY \<equiv> 8"

text \<open>The hashes the cache holds, with their bytes, and the misses, both in order.\<close>

fun cached_blobs ::
  "('m, 'j) github_env \<Rightarrow> string list \<Rightarrow> (string \<times> bytes) list \<Rightarrow> string list \<Rightarrow>
     ('m github, (string \<times> bytes) list \<times> string list) prog" where
  "cached_blobs E [] results misses = prog_return (results, misses)"
| "cached_blobs E (sha # shas) results misses =
     prog_bind (cache_get E (from_sha1_hex sha)) (\<lambda>hit.
       case hit of
         Some b \<Rightarrow> cached_blobs E shas (AList.update sha b results) misses
       | None \<Rightarrow> cached_blobs E shas results (misses @ [sha]))"

text \<open>
  The queue: of the requests in flight, \<open>ev_next\<close> names the one that completes next; a new one is started
  after each. A symbolic link's failure ends the prefetch.
\<close>

definition completes_next :: "('m, 'j) github_env \<Rightarrow> string list \<Rightarrow> nat" where
  "completes_next E in_flight = ev_next E in_flight mod length in_flight"

lemma completes_next_less [simp]: "in_flight \<noteq> [] \<Longrightarrow> \<not> length in_flight \<le> completes_next E in_flight"
  by (simp add: completes_next_def not_le)

lemma completes_next_rest [simp]:
  assumes "in_flight \<noteq> []"
  shows "completes_next E in_flight + (length in_flight - Suc (completes_next E in_flight)) = length in_flight - 1"
  using completes_next_less [OF assms, of E] by arith

function prefetch_loop ::
  "('m, 'j) github_env \<Rightarrow> github_config \<Rightarrow> source_spec \<Rightarrow> string set \<Rightarrow> string list \<Rightarrow> string list \<Rightarrow>
     (string \<times> bytes) list \<Rightarrow> nat \<Rightarrow> ('m github, (string \<times> bytes) list \<times> nat) prog" where
  "prefetch_loop E cf src symlinks in_flight waiting results fetched =
     (if in_flight = [] then prog_return (results, fetched)
      else
        (let i = completes_next E in_flight; sha = in_flight ! i;
             in_flight1 = take i in_flight @ drop (Suc i) in_flight @ take 1 waiting
         in prog_try (fetch_blob_content E cf src sha) (\<lambda>r.
              case r of
                Inl b \<Rightarrow>
                  prefetch_loop E cf src symlinks in_flight1 (drop 1 waiting) (AList.update sha b results) (fetched + 1)
              | Inr e \<Rightarrow>
                  if sha \<in> symlinks
                  then prog_lift (Err (Provider (''symlink prefetch failed for sha '' @ sha @ '': '' @ error_display e)))
                  else prog_bind (prog_change (count_for_mount PrefetchFailure)) (\<lambda>_.
                    prefetch_loop E cf src symlinks in_flight1 (drop 1 waiting) results fetched))))"
  by pat_completeness auto
termination
  by (relation "measure (\<lambda>(_, _, _, _, in_flight, waiting, _). length in_flight + length waiting)")
    (auto simp: min_def dest: length_greater_0_conv [THEN iffD2])

declare prefetch_loop.simps [simp del]

definition prefetch_small_blobs ::
  "('m, 'j) github_env \<Rightarrow> github_config \<Rightarrow> source_spec \<Rightarrow> string list \<Rightarrow> string set \<Rightarrow>
     ('m github, (string \<times> bytes) list \<times> nat) prog" where
  "prefetch_small_blobs E cf src shas symlinks =
     prog_bind (cached_blobs E shas [] []) (\<lambda>(results, misses).
     prefetch_loop E cf src symlinks (take PREFETCH_CONCURRENCY misses) (drop PREFETCH_CONCURRENCY misses) results 0)"

section \<open>Snapshots\<close>

record fetch_options =
  fo_prefetch :: prefetch_policy
  fo_threshold_count :: u64
  fo_max_bytes :: u64

definition default_fetch_options :: fetch_options where
  "default_fetch_options =
     \<lparr> fo_prefetch = PrefetchDisabled, fo_threshold_count = 30, fo_max_bytes = 256 * 1024 * 1024 \<rparr>"

text \<open>
  \<open>collect_snapshot_blob_hexes\<close>: the recursive walk over the cached directories as a list of what is left
  to visit. A directory below itself would make it endless.
\<close>

datatype collect_item = CollectDirectory digest string | CollectEntry string dir_entry

partial_function (option) collect_blob_hexes ::
  "('m, 'j) github_env \<Rightarrow> collect_item list \<Rightarrow> (string \<times> string) list \<Rightarrow>
     ('m github, (string \<times> string) list) prog" where
  "collect_blob_hexes E todo out s =
     (case todo of
        [] \<Rightarrow> Some (s, Ok out)
      | item # rest \<Rightarrow>
          (case item of
             CollectEntry prefix e \<Rightarrow>
               (case e of
                  DirEntry_File f \<Rightarrow>
                    collect_blob_hexes E rest
                      (AList.update (dg_hex (fe_digest f)) (path_push prefix (fe_name f)) out) s
                | DirEntry_Directory d \<Rightarrow>
                    collect_blob_hexes E (CollectDirectory (de_digest d) (path_push prefix (de_name d)) # rest) out s
                | DirEntry_Symlink _ \<Rightarrow> collect_blob_hexes E rest out s)
           | CollectDirectory d prefix \<Rightarrow>
               Option.bind (cache_get E d s) (\<lambda>(s1, r).
                 (case r of
                    Ok b \<Rightarrow>
                      (case Option.bind b (ev_directory_parse E) of
                         None \<Rightarrow> collect_blob_hexes E rest out s1
                       | Some dir \<Rightarrow> collect_blob_hexes E (map (CollectEntry prefix) (dir_entries dir) @ rest) out s1)
                  | Err e \<Rightarrow> Some (s1, Err e)
                  | Panic \<Rightarrow> Some (s1, Panic)))))"

text \<open>After a hit in a tree cache: the blobs of the snapshot, as far as its directories are cached.\<close>

definition note_cached_blobs :: "('m, 'j) github_env \<Rightarrow> bytes \<Rightarrow> ('m github, unit) prog" where
  "note_cached_blobs E data =
     (case ev_snapshot_parse E data of
        None \<Rightarrow> prog_return ()
      | Some snap \<Rightarrow>
          prog_bind (collect_blob_hexes E [CollectDirectory (root_directory snap) []] [])
            (\<lambda>out. prog_change (\<lambda>s. s\<lparr> gs_sha_to_path := out \<rparr>)))"

definition local_tree_get ::
  "('m, 'j) github_env \<Rightarrow> string \<Rightarrow> string \<Rightarrow> string \<Rightarrow> ('m github, bytes option) prog" where
  "local_tree_get E owner repo sha s =
     (case gs_tree_cache s of
        None \<Rightarrow> Some (s, Ok None)
      | Some tc \<Rightarrow>
          (let (tc1, data) = tree_get (ev_json E) (ev_fs E) owner repo sha tc
           in Some (s\<lparr> gs_tree_cache := Some tc1 \<rparr>, Ok data)))"

definition local_tree_put ::
  "('m, 'j) github_env \<Rightarrow> string \<Rightarrow> string \<Rightarrow> string \<Rightarrow> bytes \<Rightarrow> 'm github \<Rightarrow> 'm github" where
  "local_tree_put E owner repo sha data s =
     s\<lparr> gs_tree_cache := map_option (\<lambda>tc. fst (tree_put (ev_json E) (ev_fs E) owner repo sha data tc)) (gs_tree_cache s) \<rparr>"

definition shared_tree_put ::
  "('m, 'j) github_env \<Rightarrow> string \<Rightarrow> string \<Rightarrow> string \<Rightarrow> bytes \<Rightarrow> 'm github \<Rightarrow> 'm github" where
  "shared_tree_put E owner repo sha data s =
     (case ev_shared_get E of
        None \<Rightarrow> s
      | Some _ \<Rightarrow> s\<lparr> gs_shared_puts := gs_shared_puts s @ [((owner, repo, sha), data)] \<rparr>)"

definition cached_snapshot ::
  "('m, 'j) github_env \<Rightarrow> fetch_options \<Rightarrow> string \<Rightarrow> string \<Rightarrow> string \<Rightarrow> ('m github, bytes option) prog" where
  "cached_snapshot E opts owner repo commit_sha =
     (if fo_prefetch opts = PrefetchForce then prog_return None
      else prog_bind (local_tree_get E owner repo commit_sha) (\<lambda>hit.
        case hit of
          Some data \<Rightarrow> prog_bind (note_cached_blobs E data) (\<lambda>_. prog_return (Some data))
        | None \<Rightarrow>
            (case Option.bind (ev_shared_get E) (\<lambda>get. get owner repo commit_sha) of
               None \<Rightarrow> prog_return None
             | Some data \<Rightarrow>
                 prog_bind (prog_change (local_tree_put E owner repo commit_sha data)) (\<lambda>_.
                 prog_bind (note_cached_blobs E data) (\<lambda>_. prog_return (Some data))))))"

definition fetch_manifest ::
  "('m, 'j) github_env \<Rightarrow> github_config \<Rightarrow> source_spec \<Rightarrow> string \<Rightarrow> ('m github, tree_entry list) prog" where
  "fetch_manifest E cf src commit_sha =
     prog_bind (fetch_tree E cf src commit_sha) (\<lambda>t.
       if tr_truncated t then walk_truncated E cf src (tr_sha t) else prog_return (tr_tree t))"

definition blob_paths :: "tree_entry list \<Rightarrow> (string \<times> string) list" where
  "blob_paths es = foldl (\<lambda>m e. if te_type e = ''blob'' then AList.update (te_sha e) (tree_entry.te_path e) m else m) [] es"

text \<open>The gate: a failed batch does not fail the snapshot.\<close>

definition auto_gate ::
  "('m, 'j) github_env \<Rightarrow> github_config \<Rightarrow> source_spec \<Rightarrow> fetch_options \<Rightarrow> string \<Rightarrow> counter_key \<Rightarrow>
     tree_entry list \<Rightarrow> ('m github, unit) prog" where
  "auto_gate E cf src opts commit_sha real_key es =
     (if fo_prefetch opts = PrefetchDisabled then prog_return ()
      else
        (let requests = List.map_filter tree_entry_to_request es;
             policy = effective_prefetch_policy es (fo_prefetch opts)
         in case decide_policy (of_nat (length requests)) (sum_list (known_sizes requests)) policy
                   (fo_threshold_count opts) (fo_max_bytes opts) of
              LazyFetch \<Rightarrow> prog_return ()
            | LazyOversized _ _ _ \<Rightarrow> prog_change (count_on (Some real_key) [PrefetchSkippedOversized])
            | Tarball _ _ \<Rightarrow>
                prog_try (fetch_batch E cf src commit_sha requests
                    (if policy = PrefetchForce then Forced else BulkPrefetch) (Some real_key))
                  (\<lambda>_. prog_return ())))"

fun store_directories ::
  "('m, 'j) github_env \<Rightarrow> (string \<times> directory) list \<Rightarrow> ('m github, unit) prog" where
  "store_directories E [] = prog_return ()"
| "store_directories E ((path, dir) # dirs) =
     (case ev_directory_json E dir of
        Inr e \<Rightarrow> prog_lift (Err (Manifest (''serialize directory: '' @ e)))
      | Inl json \<Rightarrow> prog_bind (cache_put E (dir_digest dir) json) (\<lambda>_. store_directories E dirs))"

definition build_snapshot ::
  "('m, 'j) github_env \<Rightarrow> github_config \<Rightarrow> source_spec \<Rightarrow> fetch_options \<Rightarrow> string \<Rightarrow> string \<Rightarrow> string \<Rightarrow>
     counter_key \<Rightarrow> ('m github, bytes) prog" where
  "build_snapshot E cf src opts owner repo commit_sha real_key =
     prog_bind (fetch_manifest E cf src commit_sha) (\<lambda>es.
     prog_bind (prog_change (\<lambda>s. s\<lparr> gs_sha_to_path := blob_paths es \<rparr>)) (\<lambda>_.
     prog_bind (auto_gate E cf src opts commit_sha real_key es) (\<lambda>_.
     prog_bind (if small_blob_shas es = [] then prog_return ([], 0)
                else prefetch_small_blobs E cf src (small_blob_shas es) (symlink_shas es)) (\<lambda>(inline, fetched).
     prog_bind (prog_change (count_on (Some real_key) [PrefetchHits (of_nat fetched)])) (\<lambda>_.
     prog_bind (prog_lift (build_directories_with_inline (ev_entries_json E) (ev_sha256 E) es (map_of inline)))
       (\<lambda>(root_digest, directories).
     prog_bind (store_directories E directories) (\<lambda>_.
     case ev_snapshot_json E \<lparr> snap_source = source_display src, snap_commit_sha = commit_sha,
            root_directory = root_digest, created_at = ev_created_at E \<rparr> of
       Inr e \<Rightarrow> prog_lift (Err (Manifest (''serialize snapshot: '' @ e)))
     | Inl json \<Rightarrow>
         prog_bind (prog_change (\<lambda>s. shared_tree_put E owner repo commit_sha json
             (local_tree_put E owner repo commit_sha json s)))
           (\<lambda>_. prog_return json))))))))"

definition counter_key_of :: "source_spec \<Rightarrow> string \<Rightarrow> counter_key" where
  "counter_key_of src commit =
     \<lparr> ck_source = provider_display (sp_provider src), ck_repo = sp_name src, ck_commit = commit,
       ck_mount_id = source_id src \<rparr>"

definition fetch_snapshot_inner ::
  "('m, 'j) github_env \<Rightarrow> github_config \<Rightarrow> source_spec \<Rightarrow> fetch_options \<Rightarrow> ('m github, bytes) prog" where
  "fetch_snapshot_inner E cf src opts =
     (let placeholder = counter_key_of src (PLACEHOLDER_COMMIT_PREFIX @ sp_version src @ ''>'') in
      prog_bind (prog_change (\<lambda>s. s\<lparr> gs_active_source := Some src, gs_counter_key := Some placeholder \<rparr>)) (\<lambda>_.
      prog_bind (resolve_ref E cf src) (\<lambda>commit_sha.
      (let real_key = counter_key_of src commit_sha in
       prog_bind (prog_change (\<lambda>s. s\<lparr> gs_counter_key := Some real_key,
           gs_observability := merge_and_drop_placeholder placeholder real_key (gs_observability s) \<rparr>)) (\<lambda>_.
       prog_bind (prog_lift (owner_repo src)) (\<lambda>(owner, repo).
       prog_bind (cached_snapshot E opts owner repo commit_sha) (\<lambda>hit.
         case hit of
           Some data \<Rightarrow> prog_return data
         | None \<Rightarrow> build_snapshot E cf src opts owner repo commit_sha real_key)))))))"

definition fetch_snapshot_with_options ::
  "('m, 'j) github_env \<Rightarrow> github_config \<Rightarrow> source_spec \<Rightarrow> fetch_options \<Rightarrow> ('m github, bytes) prog" where
  "fetch_snapshot_with_options E cf src opts = fetch_snapshot_inner E cf src opts"

section \<open>The \<open>Provider\<close> interface\<close>

definition gh_fetch_snapshot ::
  "('m, 'j) github_env \<Rightarrow> github_config \<Rightarrow> source_spec \<Rightarrow> ('m github, bytes) prog" where
  "gh_fetch_snapshot E cf src = fetch_snapshot_inner E cf src default_fetch_options"

definition gh_fetch_directory :: "('m, 'j) github_env \<Rightarrow> digest \<Rightarrow> ('m github, bytes) prog" where
  "gh_fetch_directory E d =
     prog_bind (cache_get E d) (\<lambda>hit.
       case hit of
         Some data \<Rightarrow> prog_return data
       | None \<Rightarrow> prog_lift (Err (NotFound (''directory '' @ digest_display d
           @ '' not in cache; re-fetch snapshot to populate''))))"

definition gh_fetch_blob :: "('m, 'j) github_env \<Rightarrow> github_config \<Rightarrow> digest \<Rightarrow> ('m github, bytes) prog" where
  "gh_fetch_blob E cf d =
     prog_bind (cache_get E d) (\<lambda>hit.
       case hit of
         Some data \<Rightarrow> prog_return data
       | None \<Rightarrow>
           prog_bind (prog_read gs_active_source) (\<lambda>source.
           prog_bind (prog_lift (ok_or
               (Provider ''fetch_blob called before fetch_snapshot; no active source'') source)) (\<lambda>src.
           prog_bind (fetch_blob_content E cf src (dg_hex d)) (\<lambda>data.
           prog_bind (cache_put E d data) (\<lambda>_.
           prog_bind (prog_change (record_ownership d)) (\<lambda>_. prog_return data))))))"

end
