(* ===== verification/Git_Relations.thy ===== *)
theory Git_Relations
  imports Git_Provider
begin

text \<open>
  What the provider's operations do to parts of its state: a relation between states that is reflexive and
  transitive and holds along every primitive step holds along whole operations.
\<close>

section \<open>Relations along an operation\<close>

definition along :: "('s \<Rightarrow> 's \<Rightarrow> bool) \<Rightarrow> ('s, 'a, 'e) task \<Rightarrow> bool" where
  "along R m \<longleftrightarrow> (\<forall>s s' r. m s = Some (s', r) \<longrightarrow> R s s')"

lemma alongD: "along R m \<Longrightarrow> m s = Some (s', r) \<Longrightarrow> R s s'"
  by (auto simp: along_def)

locale state_relation =
  fixes R :: "'s \<Rightarrow> 's \<Rightarrow> bool"
  assumes refl: "R s s"
    and trans: "R a b \<Longrightarrow> R b c \<Longrightarrow> R a c"
begin

lemma along_lift: "along R (prog_lift r)"
  by (simp add: along_def prog_lift_def refl)

lemma along_read: "along R (prog_read f)"
  by (simp add: along_def prog_read_def refl)

lemma along_change: "(\<And>s. R s (f s)) \<Longrightarrow> along R (prog_change f)"
  by (simp add: along_def prog_change_def)

lemma along_bind:
  assumes "along R m" "\<And>x. along R (f x)"
  shows "along R (prog_bind m f)"
  unfolding along_def
proof (intro allI impI)
  fix s s' r assume "prog_bind m f s = Some (s', r)"
  then obtain s1 r1 where one: "m s = Some (s1, r1)"
    and "(case r1 of Ok x \<Rightarrow> f x s1 | Err e \<Rightarrow> Some (s1, Err e) | Panic \<Rightarrow> Some (s1, Panic)) = Some (s', r)"
    by (auto simp: prog_bind_def split: option.splits)
  moreover have "R s s1" using alongD [OF assms(1) one] .
  ultimately show "R s s'" using alongD [OF assms(2)] trans by (cases r1) fastforce+
qed

lemma along_try:
  assumes "along R m" "\<And>x. along R (f x)"
  shows "along R (prog_try m f)"
  unfolding along_def
proof (intro allI impI)
  fix s s' r assume "prog_try m f s = Some (s', r)"
  then obtain s1 r1 where one: "m s = Some (s1, r1)"
    and "(case r1 of Ok x \<Rightarrow> f (Inl x) s1 | Err e \<Rightarrow> f (Inr e) s1 | Panic \<Rightarrow> Some (s1, Panic)) = Some (s', r)"
    by (auto simp: prog_try_def split: option.splits)
  moreover have "R s s1" using alongD [OF assms(1) one] .
  ultimately show "R s s'" using alongD [OF assms(2)] trans by (cases r1) fastforce+
qed

lemma along_if: "(b \<Longrightarrow> along R m) \<Longrightarrow> (\<not> b \<Longrightarrow> along R m') \<Longrightarrow> along R (if b then m else m')"
  by simp

lemma along_sum: "(\<And>x. along R (f x)) \<Longrightarrow> (\<And>y. along R (g y)) \<Longrightarrow> along R (case z of Inl x \<Rightarrow> f x | Inr y \<Rightarrow> g y)"
  by (cases z) simp_all

lemma along_option: "along R m \<Longrightarrow> (\<And>x. along R (f x)) \<Longrightarrow> along R (case z of None \<Rightarrow> m | Some x \<Rightarrow> f x)"
  by (cases z) simp_all

lemma along_pair: "(\<And>a b. along R (f a b)) \<Longrightarrow> along R (case p of (a, b) \<Rightarrow> f a b)"
  by (cases p) simp

lemma along_walk:
  assumes "\<And>sha. along R (get sha)"
  shows "along R (walk_loop get stack out)"
proof -
  have "(\<forall>sha. along R (g sha)) \<longrightarrow> R s (fst p)" if "walk_loop g stk ot s = Some p" for g stk ot s p
    using that
  proof (rule walk_loop.raw_induct [rotated], intro impI)
    fix walk g and stk :: "(string \<times> string) list" and ot s p
    assume IH: "\<And>g stk ot s p. walk g stk ot s = Some p \<Longrightarrow> (\<forall>sha. along R (g sha)) \<longrightarrow> R s (fst p)"
      and step: "(case stk of [] \<Rightarrow> Some (s, Ok ot)
        | (sha, prefix) # rest \<Rightarrow>
            Option.bind (g sha s) (\<lambda>(s1, r).
              (case r of
                 Ok es \<Rightarrow> walk g (rev (subtrees_of prefix es) @ rest) (ot @ map (prefix_entry prefix) es) s1
               | Err e \<Rightarrow> Some (s1, Err e)
               | Panic \<Rightarrow> Some (s1, Panic)))) = Some p"
      and g: "\<forall>sha. along R (g sha)"
    show "R s (fst p)"
    proof (cases stk)
      case Nil
      then show ?thesis using step by (auto simp: refl)
    next
      case (Cons top rest)
      obtain sha prefix where top: "top = (sha, prefix)" by (cases top)
      obtain s1 r where one: "g sha s = Some (s1, r)" using step Cons top by (cases "g sha s") auto
      have R1: "R s s1" using g one by (auto simp: along_def)
      show ?thesis
      proof (cases r)
        case (Ok es)
        then have "walk g (rev (subtrees_of prefix es) @ rest) (ot @ map (prefix_entry prefix) es) s1 = Some p"
          using step Cons top one by simp
        then show ?thesis using IH g trans [OF R1] by blast
      qed (use step Cons top one R1 in auto)
    qed
  qed
  then show ?thesis using assms unfolding along_def by fastforce
qed

end

section \<open>Relations along the provider's operations\<close>

text \<open>The steps a relation has to allow: requests, the use of the caches, and the changes of single fields.\<close>

locale provider_relation = state_relation R for R :: "'m github \<Rightarrow> 'm github \<Rightarrow> bool" +
  fixes E :: "('m, 'j) github_env" and cf :: github_config
  assumes requests: "along R (api_get E (api_url cf owner repo path) failure)" "along R (follow_chain E cf resp)"
    and blobs: "along R (cache_get E d)" "along R (cache_put E d data)" "along R (extract_into_cache E index key resp)"
    and fields: "R s (s\<lparr> gs_observability := ob \<rparr>)" "R s (s\<lparr> gs_flights := sf \<rparr>)" "R s (s\<lparr> gs_sha_to_path := m \<rparr>)"
      "R s (s\<lparr> gs_tree_cache := tc \<rparr>)" "R s (s\<lparr> gs_shared_puts := puts \<rparr>)"
      "R s (s\<lparr> gs_active_source := src, gs_counter_key := k \<rparr>)"
      "R s (s\<lparr> gs_counter_key := k, gs_observability := ob \<rparr>)"
    and ownership: "R s (record_ownership d s)"
begin

lemma along_count: "R s (count_for_mount ev s)" "R s (count_on key evs s)"
  by (auto simp: count_for_mount_def count_on_def refl fields split: option.split)

lemma along_checked: "along R (check_rate_limit E cf resp)"
  unfolding along_def
proof (intro allI impI)
  fix s s' r assume run: "check_rate_limit E cf resp s = Some (s', r)"
  have "\<exists>ob. s' = s1\<lparr> gs_observability := ob \<rparr> \<or> s' = count_for_mount ThrottleEvent (s1\<lparr> gs_observability := ob \<rparr>)"
    if "s1 = count_for_mount RestCall s" for s1
    using run that
    by (auto simp: check_rate_limit_def Let_def split: prod.splits outcome.splits rate_limit_verdict.splits)
  then show "R s s'" using along_count fields(1) trans by metis
qed

lemmas along_intros = along_lift along_read along_bind along_try along_if along_sum along_option along_pair along_change
  along_checked requests

lemma along_json: "along R (get_json E cf decode (api_url cf owner repo path) what)"
  unfolding get_json_def by (intro along_intros)

lemma along_resolve: "along R (resolve_ref E cf src)"
  unfolding resolve_ref_def by (intro along_intros along_json)

lemma along_manifest: "along R (fetch_manifest E cf src sha)"
proof -
  have "along R (fetch_tree E cf src sha)" unfolding fetch_tree_def by (intro along_intros along_json)
  moreover have "along R (fetch_subtree E cf src sha)" for sha unfolding fetch_subtree_def by (intro along_intros along_json)
  ultimately show ?thesis
    unfolding fetch_manifest_def walk_truncated_def by (intro along_intros along_walk along_count)
qed

lemma along_blob_content: "along R (fetch_blob_content E cf src sha)"
  unfolding fetch_blob_content_def by (intro along_intros along_json along_count)

lemma along_download: "along R (download_result E cf src sha index key)"
  unfolding download_result_def fetch_tarball_into_cache_def by (intro along_intros blobs along_count)

lemma along_get_or_init:
  assumes "along R m"
  shows "along R (get_or_init slot m)"
  unfolding along_def
proof (intro allI impI)
  fix s s' r assume "get_or_init slot m s = Some (s', r)"
  then consider "s' = s" | s1 r1 where "m s = Some (s1, r1)" "s' = s1 \<or> (\<exists>sf. s' = s1\<lparr> gs_flights := sf \<rparr>)"
    by (auto simp: get_or_init_def prog_bind_def split: option.splits if_splits outcome.splits prod.splits)
  then show "R s s'"
  proof cases
    case 2
    then show ?thesis using alongD [OF assms] fields(2) trans by blast
  qed (simp add: refl)
qed

lemma along_release: "along R (\<lambda>s. Some (s\<lparr> gs_flights := f s \<rparr>, r))"
  by (auto simp: along_def fields)

lemma along_dispatch: "along R (dispatch_tarball_for_requests E cf src sha reqs key)"
  unfolding dispatch_tarball_for_requests_def
proof (intro along_bind along_pair along_lift)
  fix owner repo
  let ?init = "\<lambda>claim. get_or_init (claim_slot claim)
     (download_result E cf src sha (build_path_to_sha_size_from_requests reqs) key)"
  let ?finish = "\<lambda>claim outcome s. Some (s\<lparr> gs_flights := release_claim claim (gs_flights s) \<rparr>,
                  case outcome of Ok _ \<Rightarrow> Ok () | Err e \<Rightarrow> Err (Provider e) | Panic \<Rightarrow> Panic)"
  have body: "along R (prog_bind (?init claim) (?finish claim))" for claim
    by (intro along_bind along_get_or_init along_download along_release)
  show "along R (\<lambda>s.
       if contains_all (ev_lru E) (List.map_filter cr_digest reqs) (gs_cache s) then Some (s, Ok ())
       else
         (let key' = \<lparr> tk_host = cf_api_host cf, tk_owner = owner, tk_repo = repo, tk_commit_sha = sha \<rparr>;
              (sf, claim) = claim_singleflight_slot key' (gs_flights s);
              index = build_path_to_sha_size_from_requests reqs
          in prog_bind (get_or_init (claim_slot claim) (download_result E cf src sha index key)) (?finish claim)
               (s\<lparr> gs_flights := sf \<rparr>)))"
    unfolding along_def
  proof (intro allI impI)
    fix s s' r
    assume step: "(if contains_all (ev_lru E) (List.map_filter cr_digest reqs) (gs_cache s) then Some (s, Ok ())
       else
         (let key' = \<lparr> tk_host = cf_api_host cf, tk_owner = owner, tk_repo = repo, tk_commit_sha = sha \<rparr>;
              (sf, claim) = claim_singleflight_slot key' (gs_flights s);
              index = build_path_to_sha_size_from_requests reqs
          in prog_bind (get_or_init (claim_slot claim) (download_result E cf src sha index key)) (?finish claim)
               (s\<lparr> gs_flights := sf \<rparr>))) = Some (s', r)"
    show "R s s'"
    proof (cases "contains_all (ev_lru E) (List.map_filter cr_digest reqs) (gs_cache s)")
      case True
      then show ?thesis using step by (simp add: refl)
    next
      case False
      then obtain sf claim where "prog_bind (?init claim) (?finish claim) (s\<lparr> gs_flights := sf \<rparr>) = Some (s', r)"
        using step by (auto simp: Let_def split: prod.splits)
      from trans [OF fields(2) alongD [OF body this]] show ?thesis .
    qed
  qed
qed

lemma along_batch: "along R (fetch_batch E cf src sha reqs mode key)"
  unfolding fetch_batch_def by (intro along_intros along_dispatch)

lemma along_cached_blobs: "along R (cached_blobs E shas results misses)"
  by (induction shas arbitrary: results misses) (auto intro!: along_intros blobs)

lemma along_prefetch_loop: "along R (prefetch_loop E cf src symlinks in_flight waiting results fetched)"
proof (induction "length in_flight + length waiting" arbitrary: in_flight waiting results fetched rule: less_induct)
  case less
  show ?case
  proof (cases "in_flight = []")
    case False
    let ?i = "completes_next E in_flight"
    let ?flying = "take ?i in_flight @ drop (Suc ?i) in_flight @ take 1 waiting"
    have "length ?flying + length (drop 1 waiting) < length in_flight + length waiting"
      using False completes_next_less [OF False, of E] by (auto simp: min_def)
    note IH = less [OF this]
    show ?thesis using False
      by (subst prefetch_loop.simps)
        (auto simp: Let_def intro!: along_intros along_blob_content along_count IH [simplified])
  qed (subst prefetch_loop.simps, simp add: along_lift)
qed

lemma along_prefetch: "along R (prefetch_small_blobs E cf src shas symlinks)"
  unfolding prefetch_small_blobs_def by (intro along_intros along_cached_blobs along_prefetch_loop)

lemma along_collect: "along R (collect_blob_hexes E todo out)"
proof -
  have "(\<forall>d. along R (cache_get F d)) \<longrightarrow> R s (fst p)" if "collect_blob_hexes F todo out s = Some p"
    for F :: "('m, 'j) github_env" and todo out s p
    using that
  proof (rule collect_blob_hexes.raw_induct [rotated], intro impI)
    fix walk :: "('m, 'j) github_env \<Rightarrow> collect_item list \<Rightarrow> (string \<times> string) list \<Rightarrow> ('m github, (string \<times> string) list) prog"
      and F :: "('m, 'j) github_env" and todo out s p
    assume IH: "\<And>F todo out s p. walk F todo out s = Some p \<Longrightarrow> (\<forall>d. along R (cache_get F d)) \<longrightarrow> R s (fst p)"
      and get: "\<forall>d. along R (cache_get F d)"
    assume step: "(case todo of
        [] \<Rightarrow> Some (s, Ok out)
      | item # rest \<Rightarrow>
          (case item of
             CollectEntry prefix e \<Rightarrow>
               (case e of
                  DirEntry_File f \<Rightarrow>
                    walk F rest (AList.update (dg_hex (fe_digest f)) (path_push prefix (fe_name f)) out) s
                | DirEntry_Directory d \<Rightarrow>
                    walk F (CollectDirectory (de_digest d) (path_push prefix (de_name d)) # rest) out s
                | DirEntry_Symlink _ \<Rightarrow> walk F rest out s)
           | CollectDirectory d prefix \<Rightarrow>
               Option.bind (cache_get F d s) (\<lambda>(s1, r).
                 (case r of
                    Ok b \<Rightarrow>
                      (case Option.bind b (ev_directory_parse F) of
                         None \<Rightarrow> walk F rest out s1
                       | Some dir \<Rightarrow> walk F (map (CollectEntry prefix) (dir_entries dir) @ rest) out s1)
                  | Err e \<Rightarrow> Some (s1, Err e)
                  | Panic \<Rightarrow> Some (s1, Panic))))) = Some p"
    have hit: "R s s1" if "cache_get F d s = Some (s1, r)" for d s1 r
      using get that by (auto simp: along_def)
    note IH = IH [rule_format, OF _ get [rule_format]]
    show "R s (fst p)"
    proof (cases "\<exists>d prefix rest. todo = CollectDirectory d prefix # rest")
      case True
      then obtain d prefix rest where todo: "todo = CollectDirectory d prefix # rest" by blast
      then obtain s1 r where get1: "cache_get F d s = Some (s1, r)"
        using step by (auto simp: bind_eq_Some_conv)
      have "R s1 (fst p)"
      proof (cases r)
        case (Ok b)
        then show ?thesis using step todo get1 IH
          by (cases "Option.bind b (ev_directory_parse F)") fastforce+
      qed (use step todo get1 in \<open>auto simp: refl\<close>)
      with hit [OF get1] show ?thesis by (rule trans)
    next
      case False
      then consider "todo = []" | prefix e rest where "todo = CollectEntry prefix e # rest"
        by (metis collect_item.exhaust list.exhaust)
      then show ?thesis
      proof cases
        case 1
        then show ?thesis using step by (auto simp: refl)
      next
        case (2 prefix e rest)
        then show ?thesis using step IH by (cases e) auto
      qed
    qed
  qed
  then show ?thesis using blobs(1) unfolding along_def by fastforce
qed

lemma along_note: "along R (note_cached_blobs E data)"
  unfolding note_cached_blobs_def by (intro along_intros along_collect fields)

lemma along_trees:
  "along R (local_tree_get E owner repo sha)" "R s (local_tree_put E owner repo sha data s)"
  "R s (shared_tree_put E owner repo sha data s)"
  by (auto simp: along_def local_tree_get_def local_tree_put_def shared_tree_put_def refl fields
      split: option.splits prod.splits)

lemma along_cached_snapshot: "along R (cached_snapshot E opts owner repo sha)"
  unfolding cached_snapshot_def by (intro along_intros along_trees along_note)

lemma along_gate: "along R (auto_gate E cf src opts sha key es)"
  unfolding auto_gate_def Let_def
  by (auto intro!: along_intros along_batch along_count split: fetch_policy.split)

lemma along_store: "along R (store_directories E dirs)"
proof (induction dirs)
  case (Cons d dirs)
  obtain path dir where d: "d = (path, dir)" by (cases d)
  show ?case unfolding d store_directories.simps by (intro along_intros blobs Cons.IH)
qed (simp add: along_lift)

lemma along_build: "along R (build_snapshot E cf src opts owner repo sha key)"
  unfolding build_snapshot_def
  by (intro along_intros along_manifest along_gate along_prefetch along_store along_count fields trans [OF along_trees(2,3)])

lemma along_snapshot: "along R (fetch_snapshot_with_options E cf src opts)"
  unfolding fetch_snapshot_with_options_def fetch_snapshot_inner_def Let_def
  by (intro along_intros along_resolve along_cached_snapshot along_build fields)

lemma along_fetch_blob: "along R (gh_fetch_blob E cf d)"
  unfolding gh_fetch_blob_def by (intro along_intros blobs along_blob_content ownership)

lemma along_fetch_directory: "along R (gh_fetch_directory E d)"
  unfolding gh_fetch_directory_def by (intro along_intros blobs)

end

text \<open>Everything a mount asks of its provider.\<close>

inductive provider_step :: "('m, 'j) github_env \<Rightarrow> github_config \<Rightarrow> 'm github \<Rightarrow> 'm github \<Rightarrow> bool" for E cf where
  provider_snapshot: "fetch_snapshot_with_options E cf src opts s = Some (s', r) \<Longrightarrow> provider_step E cf s s'"
| provider_directory: "gh_fetch_directory E d s = Some (s', r) \<Longrightarrow> provider_step E cf s s'"
| provider_blob: "gh_fetch_blob E cf d s = Some (s', r) \<Longrightarrow> provider_step E cf s s'"

context provider_relation
begin

lemma steps_related: "(provider_step E cf)\<^sup>*\<^sup>* s s' \<Longrightarrow> R s s'"
proof (induction rule: rtranclp_induct)
  case (step a b)
  from step.hyps(2) have "R a b"
    by cases (auto dest: alongD [OF along_snapshot] alongD [OF along_fetch_directory] alongD [OF along_fetch_blob])
  with step.IH show ?case by (rule trans)
qed (rule refl)

end

end
