(* ===== verification/Git_Requests.thy ===== *)
theory Git_Requests
  imports Git_Relations
begin

text \<open>
  Two consequences for the provider: where its requests go, and what a snapshot from the tree cache is
  worth when the blob cache has lost its directories.
\<close>

section \<open>The requests of an operation\<close>

text \<open>
  A request the provider may make: with its authorisation to the repositories of its API host, or without
  to the codeload host, as far as a redirect named a target there.
\<close>

definition allowed_request :: "('m, 'j) github_env \<Rightarrow> github_config \<Rightarrow> http_client \<times> string \<Rightarrow> bool" where
  "allowed_request E cf q \<longleftrightarrow>
     fst q = ApiClient \<and> starts_with (api_base (cf_api_host cf)) (snd q)
     \<or> codeload_request (ev_url_parse E) (cf_codeload_host cf) q"

definition adds_allowed :: "('m, 'j) github_env \<Rightarrow> github_config \<Rightarrow> 'm github \<Rightarrow> 'm github \<Rightarrow> bool" where
  "adds_allowed E cf s s' \<longleftrightarrow> (\<exists>q. gs_log s' = gs_log s @ q \<and> list_all (allowed_request E cf) q)"

lemma adds_same: "gs_log s' = gs_log s \<Longrightarrow> adds_allowed E cf s s'"
  by (simp add: adds_allowed_def)

lemma api_url_base: "starts_with (api_base (cf_api_host cf)) (api_url cf owner repo path)"
  by (simp add: api_url_def starts_with_def)

lemma requests_same_log:
  "(\<And>s s' r. m s = Some (s', r) \<Longrightarrow> gs_log s' = gs_log s) \<Longrightarrow> along (adds_allowed E cf) m"
  by (auto simp: along_def intro: adds_same)

lemma requests_chain: "along (adds_allowed E cf) (follow_chain E cf initial)"
  unfolding along_def
proof (intro allI impI)
  fix s s' r assume "follow_chain E cf initial s = Some (s', r)"
  then have "follow_redirects (ev_send E) (ev_url_parse E) (cf_codeload_host cf) 0 initial (gs_log s) = (gs_log s', r)"
    by (auto simp: follow_chain_def split: prod.splits)
  from follow_redirects_hops [OF this] show "adds_allowed E cf s s'"
    by (auto simp: adds_allowed_def allowed_request_def list_all_iff)
qed

interpretation requests: provider_relation "adds_allowed E cf" E cf for E cf
proof
  show "adds_allowed E cf s s" for s by (simp add: adds_allowed_def)
  show "adds_allowed E cf a c" if "adds_allowed E cf a b" "adds_allowed E cf b c" for a b c
    using that by (auto simp: adds_allowed_def)
  show "along (adds_allowed E cf) (api_get E (api_url cf owner repo path) failure)" for owner repo path failure
    by (auto simp: along_def api_get_def Let_def adds_allowed_def allowed_request_def api_url_base split: sum.splits)
  show "along (adds_allowed E cf) (follow_chain E cf resp)" for resp by (rule requests_chain)
  show "along (adds_allowed E cf) (cache_get E d)" for d
    by (rule requests_same_log) (auto simp: cache_get_def split: prod.splits)
  show "along (adds_allowed E cf) (cache_put E d data)" for d data
    by (rule requests_same_log) (auto simp: cache_put_def split: option.splits)
  show "along (adds_allowed E cf) (extract_into_cache E index key resp)" for index key resp
    by (rule requests_same_log) (auto simp: extract_into_cache_def Let_def split: option.splits prod.splits)
qed (auto intro!: adds_same simp: record_ownership_def split: option.split)

text \<open>
  C9. The token stays with the API host. Whatever the servers, caches and files answer, every request of any
  sequence of provider operations either goes to the repositories of the API host, or goes to the codeload
  host over https with the client that has no authorisation header, and only to a target a redirect named.
\<close>

theorem token_stays_with_api_host:
  assumes "(provider_step E cf)\<^sup>*\<^sup>* s s'"
  shows "\<exists>q. gs_log s' = gs_log s @ q
    \<and> list_all (\<lambda>(client, url). case client of
         ApiClient \<Rightarrow> starts_with (api_base (cf_api_host cf)) url
       | CodeloadClient \<Rightarrow> codeload_request (ev_url_parse E) (cf_codeload_host cf) (client, url)) q"
proof -
  from requests.steps_related [OF assms] obtain q where q: "gs_log s' = gs_log s @ q" "list_all (allowed_request E cf) q" by (auto simp: adds_allowed_def)
  have "case client of
         ApiClient \<Rightarrow> starts_with (api_base (cf_api_host cf)) url
       | CodeloadClient \<Rightarrow> codeload_request (ev_url_parse E) (cf_codeload_host cf) (client, url)"
    if "allowed_request E cf (client, url)" for client url
    using that by (cases client) (auto simp: allowed_request_def codeload_request_def)
  then show ?thesis using q by (auto simp: list_all_iff)
qed

section \<open>A snapshot whose directories are gone\<close>

definition same_caches :: "'m github \<Rightarrow> 'm github \<Rightarrow> bool" where
  "same_caches s s' \<longleftrightarrow> gs_cache s' = gs_cache s \<and> gs_tree_cache s' = gs_tree_cache s"

interpretation caches: state_relation same_caches
  by unfold_locales (auto simp: same_caches_def)

lemma caches_count [simp]:
  "gs_cache (count_for_mount ev s) = gs_cache s" "gs_tree_cache (count_for_mount ev s) = gs_tree_cache s"
  by (simp_all add: count_for_mount_def split: option.split)

lemma caches_check: "along same_caches (check_rate_limit E cf resp)"
  unfolding along_def
proof (intro allI impI)
  fix s s' r assume "check_rate_limit E cf resp s = Some (s', r)"
  then show "same_caches s s'"
    by (auto simp: check_rate_limit_def Let_def same_caches_def
        split: prod.splits outcome.splits rate_limit_verdict.splits)
qed

lemma caches_api_get: "along same_caches (api_get E url failure)"
  by (auto simp: along_def api_get_def Let_def same_caches_def split: sum.splits)

lemma caches_resolve: "along same_caches (resolve_ref E cf src)"
  unfolding resolve_ref_def get_json_def
  by (intro caches.along_lift caches.along_bind caches.along_if caches.along_sum caches.along_pair
      caches_check caches_api_get)

text \<open>The state in which the reference is resolved: source and placeholder bucket are set.\<close>

definition resolving :: "source_spec \<Rightarrow> 'm github \<Rightarrow> 'm github" where
  "resolving src s = s\<lparr> gs_active_source := Some src,
     gs_counter_key := Some (counter_key_of src (PLACEHOLDER_COMMIT_PREFIX @ sp_version src @ ''>'')) \<rparr>"

lemma tree_hit_without_root:
  assumes "fo_prefetch opts \<noteq> PrefetchForce"
    and resolved: "resolve_ref E cf src (resolving src s) = Some (s1, Ok commit_sha)"
    and name: "owner_repo src = Ok (owner, repo)"
    and tc: "gs_tree_cache s = Some tc" "tree_get (ev_json E) (ev_fs E) owner repo commit_sha tc = (tc, Some data)"
    and snap: "ev_snapshot_parse E data = Some snap"
    and lost: "lhm_get (ev_lru E) (dg_hex (root_directory snap)) (entries (state (gs_cache s))) = None"
  shows "\<exists>s'. fetch_snapshot_with_options E cf src opts s = Some (s', Ok data)
    \<and> gs_log s' = gs_log s1 \<and> gs_cache s' = gs_cache s \<and> gs_tree_cache s' = gs_tree_cache s
    \<and> gh_fetch_directory E (root_directory snap) s' = Some (s', Err (NotFound (''directory ''
         @ digest_display (root_directory snap) @ '' not in cache; re-fetch snapshot to populate'')))"
proof -
  have s1: "gs_cache s1 = gs_cache s" "gs_tree_cache s1 = Some tc"
    using alongD [OF caches_resolve resolved] tc(1) by (simp_all add: same_caches_def resolving_def)
  let ?real = "counter_key_of src commit_sha"
  let ?s2 = "s1\<lparr> gs_counter_key := Some ?real, gs_observability := merge_and_drop_placeholder
     (counter_key_of src (PLACEHOLDER_COMMIT_PREFIX @ sp_version src @ ''>'')) ?real (gs_observability s1) \<rparr>"
  let ?s3 = "?s2\<lparr> gs_tree_cache := Some tc, gs_sha_to_path := [] \<rparr>"
  have miss: "cache_get E (root_directory snap) s = Some (s, Ok None)" if "gs_cache s = gs_cache s1" for s
    using lost that s1(1) by (simp add: cache_get_def blob_get_def)
  have get: "local_tree_get E owner repo commit_sha ?s2 = Some (?s2\<lparr> gs_tree_cache := Some tc \<rparr>, Ok (Some data))"
    using tc(2) s1(2) by (simp add: local_tree_get_def)
  have collect: "collect_blob_hexes E [CollectDirectory (root_directory snap) []] [] s = Some (s, Ok [])"
    if "gs_cache s = gs_cache s1" for s
    using miss [OF that] by (simp add: collect_blob_hexes.simps)
  have noted: "note_cached_blobs E data (?s2\<lparr> gs_tree_cache := Some tc \<rparr>) = Some (?s3, Ok ())"
    using snap collect by (simp add: note_cached_blobs_def prog_bind_def prog_change_def)
  have run: "fetch_snapshot_with_options E cf src opts s = Some (?s3, Ok data)"
    using resolved name get noted assms(1)
    by (simp add: fetch_snapshot_with_options_def fetch_snapshot_inner_def Let_def prog_bind_def prog_change_def
        prog_lift_def cached_snapshot_def resolving_def)
  have "gh_fetch_directory E (root_directory snap) ?s3 = Some (?s3, Err (NotFound (''directory ''
         @ digest_display (root_directory snap) @ '' not in cache; re-fetch snapshot to populate'')))"
    using miss by (simp add: gh_fetch_directory_def prog_bind_def prog_lift_def)
  then show ?thesis using run s1 tc(1) by fastforce
qed

text \<open>
  C38. A tree-cache hit does not bring back what the blob cache has lost. When the resolved commit is in the
  tree cache but its root directory is not in the blob cache, fetching the snapshot succeeds and sends no
  request after those that resolved the reference, both caches stay as they are, so the next fetch does
  the same, and reading the root directory fails, itself without a request, with the advice to fetch the
  snapshot again.
\<close>

theorem stale_tree_hit_is_permanent:
  assumes "fo_prefetch opts \<noteq> PrefetchForce"
    and resolved: "resolve_ref E cf src (resolving src s) = Some (s1, Ok commit_sha)"
    and name: "owner_repo src = Ok (owner, repo)"
    and tc: "gs_tree_cache s = Some tc" "tree_get (ev_json E) (ev_fs E) owner repo commit_sha tc = (tc, Some data)"
    and snap: "ev_snapshot_parse E data = Some snap"
    and lost: "lhm_get (ev_lru E) (dg_hex (root_directory snap)) (entries (state (gs_cache s))) = None"
  shows "\<exists>s'. fetch_snapshot_with_options E cf src opts s = Some (s', Ok data)
    \<and> gs_log s' = gs_log s1 \<and> gs_cache s' = gs_cache s \<and> gs_tree_cache s' = gs_tree_cache s
    \<and> gh_fetch_directory E (root_directory snap) s' = Some (s', Err (NotFound (''directory ''
         @ digest_display (root_directory snap) @ '' not in cache; re-fetch snapshot to populate'')))"
  by (rule tree_hit_without_root [OF assms])

end
