(* ===== verification/Git_Witness.thy ===== *)
theory Git_Witness
  imports Git_Requests
begin

text \<open>
  A small repository on a small server: the environment in which the properties of the GitHub provider are
  evaluated.
\<close>

definition demo_reply :: "u16 \<Rightarrow> (string \<times> string option) list \<Rightarrow> bytes \<Rightarrow> bytes response" where
  "demo_reply st hs body = \<lparr> resp_status = st, resp_headers = hs, resp_json = Inl body \<rparr>"

text \<open>A commit, a tree, a tarball that is moved to codeload, and no connection there.\<close>

definition demo_send :: "bytes server" where
  "demo_send n client url =
     (if n = 0 then Inl (demo_reply 200 [] ''a'')
      else if n = 1 then Inl (demo_reply 200 [] ''tree'')
      else if n = 2 then Inl (demo_reply 302 [(''location'', Some ''https://codeload.h/x'')] [])
      else Inr ''connection refused'')"

definition demo_url :: "string \<Rightarrow> parsed_url + string" where
  "demo_url u = (if starts_with ''https://codeload.h/'' u
     then Inl \<lparr> pu_text = u, pu_scheme = ''https'', pu_host = Some ''codeload.h'' \<rparr> else Inr ''relative URL'')"

definition demo_snapshot :: snapshot where
  "demo_snapshot = \<lparr> snap_source = ''github:o/r@main'', snap_commit_sha = ''a'',
     root_directory = from_sha256_hex ''ee00'', created_at = ''now'' \<rparr>"

definition demo_big :: tree_entry where
  "demo_big = (demo_entry ''big'' ''blob'' ''bb11'')\<lparr> te_size := Some 5000 \<rparr>"

definition demo_github_env :: "((string, cache_entry) lru_map, string) github_env" where
  "demo_github_env =
     \<lparr> ev_lru = list_lhm, ev_io = good_io, ev_send = demo_send, ev_now = (\<lambda>_. 0), ev_status_text = (\<lambda>_. []),
       ev_url_parse = demo_url, ev_dec_commit = Inl,
       ev_dec_tree = (\<lambda>_. Inl \<lparr> tr_sha = ''t'', tr_tree =
         [demo_big], tr_truncated = False \<rparr>),
       ev_dec_blob = (\<lambda>_. Inr ''not a blob''), ev_base64_decode = Inl, ev_sha1 = demo_sha1, ev_sha256 = demo_sha1,
       ev_unpack = (\<lambda>_. Inl []), ev_entries_json = (\<lambda>_. None), ev_directory_json = (\<lambda>_. Inl ''{}''),
       ev_directory_parse = (\<lambda>_. None), ev_snapshot_json = (\<lambda>_. Inl ''snapshot''),
       ev_snapshot_parse = (\<lambda>b. if b = ''aaa'' then Some demo_snapshot else None), ev_json = text_json,
       ev_fs = fine_env 9, ev_shared_get = None, ev_created_at = ''now'', ev_next = (\<lambda>_. 0) \<rparr>"

definition demo_config :: github_config where
  "demo_config = github_new None None ''h''"

definition demo_repo :: source_spec where
  "demo_repo = \<lparr> sp_provider = GitHub, sp_name = ''o/r'', sp_version = ''main'', sp_subpath = None \<rparr>"

definition demo_github :: "(string, cache_entry) lru_map github" where
  "demo_github =
     \<lparr> gs_cache = demo_cache, gs_tree_cache = Some demo_trees, gs_shared_puts = [],
       gs_observability = observability_new, gs_flights = \<lparr> registry = [], slot_cells = [] \<rparr>, gs_counter_key = None,
       gs_active_source = None, gs_sha_to_path = [], gs_mount_cache = None, gs_log = [] \<rparr>"

definition forced :: fetch_options where
  "forced = default_fetch_options\<lparr> fo_prefetch := PrefetchForce \<rparr>"


section \<open>Its requests\<close>

abbreviation moved :: headers where "moved \<equiv> [(''location'', ''https://codeload.h/x'')]"

lemma demo_headers [simp]:
  "response_headers_map (demo_reply 200 [] b) = []"
  "response_headers_map (demo_reply 302 [(''location'', Some ''https://codeload.h/x'')] b) = moved"
  "resp_status (demo_reply st hs b) = st" "resp_json (demo_reply st hs b) = Inl b"
  by (simp_all add: demo_reply_def response_headers_map_def ascii_lower_def)

lemma demo_verdicts [simp]:
  "classify 200 [] = Ok (VerdictOk (resource_of []))" "classify 302 moved = Ok (VerdictOther 302)"
  by code_simp+

lemma demo_gauges [simp]:
  "snd (update_gauge a r [] ob) = Ok ()" "snd (update_gauge a r moved ob) = Ok ()"
  by (simp_all add: update_gauge_def update_from_headers_def header_u64_def split: prod.split)

lemma demo_counted: "\<exists>ob. count_for_mount ev s = s\<lparr> gs_observability := ob \<rparr>"
  by (cases "gs_counter_key s") (auto simp: count_for_mount_def intro: exI [of _ "gs_observability s"])

lemma demo_checked:
  assumes "response_headers_map resp = hs" "classify (resp_status resp) hs = Ok v"
    "\<forall>a r ob. snd (update_gauge a r hs ob) = Ok ()"
    and "(\<exists>r. v = VerdictOk r) \<or> v = VerdictOther (resp_status resp)"
  shows "\<exists>ob. check_rate_limit E cf resp s = Some (s\<lparr> gs_observability := ob \<rparr>, Ok ())"
proof -
  obtain ob where ob: "count_for_mount RestCall s = s\<lparr> gs_observability := ob \<rparr>" using demo_counted by blast
  obtain ob1 r where u: "update_gauge (cf_auth cf) (resource_of hs) hs ob = (ob1, r)" by fastforce
  with assms(3) have "r = Ok ()" by (metis snd_conv)
  then show ?thesis using assms(1,2,4) ob u
    by (auto simp: check_rate_limit_def Let_def classify_response_def)
qed

text \<open>A request that is answered with status 200 and a body that decodes.\<close>

lemma demo_get_json:
  assumes "ev_send E (length (gs_log s)) ApiClient url = Inl (demo_reply 200 [] b)" "decode b = Inl x"
  shows "\<exists>ob. get_json E cf decode url what s
     = Some (s\<lparr> gs_log := gs_log s @ [(ApiClient, url)], gs_observability := ob \<rparr>, Ok x)"
proof -
  let ?s = "s\<lparr> gs_log := gs_log s @ [(ApiClient, url)] \<rparr>"
  have "\<exists>ob. check_rate_limit E cf (demo_reply 200 [] b) ?s = Some (?s\<lparr> gs_observability := ob \<rparr>, Ok ())"
    by (rule demo_checked) auto
  then obtain ob where "check_rate_limit E cf (demo_reply 200 [] b) ?s = Some (?s\<lparr> gs_observability := ob \<rparr>, Ok ())"
    by blast
  then show ?thesis using assms
    by (intro exI [of _ ob]) (simp add: get_json_def prog_bind_def prog_lift_def api_get_def success_status_def)
qed


lemma demo_names [simp]:
  "owner_repo demo_repo = Ok (''o'', ''r'')" "source_id demo_repo = ''github_o_r_main''"
  by code_simp+

lemma demo_urls [simp]:
  "api_url demo_config ''o'' ''r'' (''commits/'' @ sp_version demo_repo) = ''https://h/repos/o/r/commits/main''"
  "api_url demo_config ''o'' ''r'' (''git/trees/'' @ ''a'' @ ''?recursive=1'') = ''https://h/repos/o/r/git/trees/a?recursive=1''"
  "api_url demo_config ''o'' ''r'' (''tarball/'' @ ''a'') = ''https://h/repos/o/r/tarball/a''"
  by code_simp+

lemma demo_env [simp]:
  "ev_send demo_github_env = demo_send" "ev_dec_commit demo_github_env = Inl" "ev_lru demo_github_env = list_lhm"
  "ev_dec_tree demo_github_env b = Inl \<lparr> tr_sha = ''t'', tr_tree = [demo_big], tr_truncated = False \<rparr>"
  "ev_url_parse demo_github_env = demo_url" "ev_json demo_github_env = text_json" "ev_fs demo_github_env = fine_env 9"
  "ev_entries_json demo_github_env = (\<lambda>_. None)"
  by (simp_all add: demo_github_env_def)

lemma demo_sends [simp]:
  "demo_send 0 c u = Inl (demo_reply 200 [] ''a'')" "demo_send (Suc 0) c u = Inl (demo_reply 200 [] ''tree'')"
  "demo_send (Suc (Suc 0)) c u = Inl (demo_reply 302 [(''location'', Some ''https://codeload.h/x'')] [])"
  "demo_send (Suc (Suc (Suc n))) c u = Inr ''connection refused''"
  by (simp_all add: demo_send_def)

lemma demo_resolved:
  assumes "gs_log s = []"
  shows "\<exists>ob. resolve_ref demo_github_env demo_config demo_repo s
     = Some (s\<lparr> gs_log := gs_log s @ [(ApiClient, ''https://h/repos/o/r/commits/main'')], gs_observability := ob \<rparr>, Ok ''a'')"
proof -
  have "\<exists>ob. get_json demo_github_env demo_config (ev_dec_commit demo_github_env)
      ''https://h/repos/o/r/commits/main'' (''resolve ref '' @ quoted (sp_version demo_repo)) s
     = Some (s\<lparr> gs_log := gs_log s @ [(ApiClient, ''https://h/repos/o/r/commits/main'')], gs_observability := ob \<rparr>, Ok ''a'')"
    using assms by (intro demo_get_json) simp_all
  then show ?thesis by (simp add: resolve_ref_def prog_bind_Ok [where m = "prog_lift _"] prog_lift_def del: append.simps)
qed

lemma demo_manifest:
  assumes "length (gs_log s) = 1"
  shows "\<exists>ob. fetch_manifest demo_github_env demo_config demo_repo ''a'' s
     = Some (s\<lparr> gs_log := gs_log s @ [(ApiClient, ''https://h/repos/o/r/git/trees/a?recursive=1'')],
               gs_observability := ob \<rparr>, Ok [demo_big])"
proof -
  have "\<exists>ob. get_json demo_github_env demo_config (ev_dec_tree demo_github_env)
      ''https://h/repos/o/r/git/trees/a?recursive=1'' ''fetch tree'' s
     = Some (s\<lparr> gs_log := gs_log s @ [(ApiClient, ''https://h/repos/o/r/git/trees/a?recursive=1'')], gs_observability := ob \<rparr>,
         Ok \<lparr> tr_sha = ''t'', tr_tree = [demo_big], tr_truncated = False \<rparr>)"
    using assms by (intro demo_get_json) simp_all
  then show ?thesis
    by (auto simp: fetch_manifest_def fetch_tree_def prog_bind_def prog_lift_def simp del: append.simps)
qed

text \<open>The tarball is moved to codeload, where the connection fails: the batch fails with that error.\<close>

lemma demo_tarball:
  assumes "length (gs_log s) = 2"
  shows "\<exists>ob. fetch_tarball_into_cache demo_github_env demo_config demo_repo ''a'' index key s
     = Some (s\<lparr> gs_log := gs_log s @ [(ApiClient, ''https://h/repos/o/r/tarball/a''), (CodeloadClient, ''https://codeload.h/x'')],
               gs_observability := ob \<rparr>, Err (Provider ''codeload GET: connection refused''))"
proof -
  let ?reply = "demo_reply 302 [(''location'', Some ''https://codeload.h/x'')] []"
  let ?s = "s\<lparr> gs_log := gs_log s @ [(ApiClient, ''https://h/repos/o/r/tarball/a'')] \<rparr>"
  have "\<exists>ob. check_rate_limit demo_github_env demo_config ?reply ?s = Some (?s\<lparr> gs_observability := ob \<rparr>, Ok ())"
    by (rule demo_checked) auto
  then obtain ob where ob: "check_rate_limit demo_github_env demo_config ?reply ?s
      = Some (?s\<lparr> gs_observability := ob \<rparr>, Ok ())" by blast
  have get: "api_get demo_github_env ''https://h/repos/o/r/tarball/a'' failure s = Some (?s, Ok ?reply)" for failure
    using assms by (simp add: api_get_def numeral_2_eq_2)
  have "validate_redirect_target demo_url ''https://codeload.h/x'' (cf_codeload_host demo_config)
      = Ok \<lparr> pu_text = ''https://codeload.h/x'', pu_scheme = ''https'', pu_host = Some ''codeload.h'' \<rparr>"
    "is_redirection 302" "location_of ?reply = Some ''https://codeload.h/x''"
    by code_simp+
  then have "follow_redirects demo_send demo_url (cf_codeload_host demo_config) 0 ?reply (gs_log ?s)
      = (gs_log ?s @ [(CodeloadClient, ''https://codeload.h/x'')], Err (Provider (''codeload GET: '' @ ''connection refused'')))"
    using assms by (subst follow_redirects.simps) (simp add: numeral_3_eq_3)
  then have "follow_chain demo_github_env demo_config ?reply (?s\<lparr> gs_observability := ob \<rparr>)
      = Some (?s\<lparr> gs_observability := ob, gs_log := gs_log ?s @ [(CodeloadClient, ''https://codeload.h/x'')] \<rparr>,
          Err (Provider ''codeload GET: connection refused''))"
    by (simp add: follow_chain_def)
  then show ?thesis using get ob
    by (intro exI [of _ ob])
      (simp add: fetch_tarball_into_cache_def prog_bind_def prog_lift_def del: append.simps)
qed


lemma demo_batch:
  assumes "length (gs_log s) = 2" "gs_cache s = demo_cache" "gs_flights s = \<lparr> registry = [], slot_cells = [] \<rparr>"
  shows "\<exists>ob sf. fetch_batch demo_github_env demo_config demo_repo ''a'' [\<lparr> cr_path = ''big'',
       cr_digest = Some (from_sha1_hex ''bb11''), cr_size = Some 5000, cr_kind = ContentFile \<rparr>] Forced key s
     = Some (s\<lparr> gs_log := gs_log s @ [(ApiClient, ''https://h/repos/o/r/tarball/a''), (CodeloadClient, ''https://codeload.h/x'')],
               gs_observability := ob, gs_flights := sf \<rparr>,
          Err (Provider (error_display (Provider ''codeload GET: connection refused''))))"
proof -
  let ?key = "\<lparr> tk_host = cf_api_host demo_config, tk_owner = ''o'', tk_repo = ''r'', tk_commit_sha = ''a'' \<rparr>"
  let ?s = "s\<lparr> gs_flights := \<lparr> registry = [(?key, 0)], slot_cells = [None] \<rparr> \<rparr>"
  let ?rs = "[\<lparr> cr_path = ''big'', cr_digest = Some (from_sha1_hex ''bb11''), cr_size = Some 5000, cr_kind = ContentFile \<rparr>]"
  have miss: "\<not> contains_all list_lhm (List.map_filter cr_digest ?rs) demo_cache" by code_simp
  have claim: "claim_singleflight_slot ?key (gs_flights s) = (gs_flights ?s,
      \<lparr> claim_key = ?key, claim_slot = 0, is_leader = True \<rparr>)"
    using assms(3) by (simp add: claim_singleflight_slot_def)
  have "length (gs_log ?s) = 2" using assms(1) by simp
  from demo_tarball [OF this, of "build_path_to_sha_size_from_requests ?rs" key] obtain ob
    where tar: "fetch_tarball_into_cache demo_github_env demo_config demo_repo ''a'' (build_path_to_sha_size_from_requests ?rs) key ?s
     = Some (?s\<lparr> gs_log := gs_log s @ [(ApiClient, ''https://h/repos/o/r/tarball/a''), (CodeloadClient, ''https://codeload.h/x'')],
               gs_observability := ob \<rparr>, Err (Provider ''codeload GET: connection refused''))" by auto
  obtain ob1 where "count_on key [PrefetchFailure] (?s\<lparr> gs_log := gs_log s @ [(ApiClient, ''https://h/repos/o/r/tarball/a''), (CodeloadClient, ''https://codeload.h/x'')],
               gs_observability := ob \<rparr>) = ?s\<lparr> gs_log := gs_log s @ [(ApiClient, ''https://h/repos/o/r/tarball/a''), (CodeloadClient, ''https://codeload.h/x'')],
               gs_observability := ob1 \<rparr>"
    by (cases key) (auto simp: count_on_def)
  then have "download_result demo_github_env demo_config demo_repo ''a'' (build_path_to_sha_size_from_requests ?rs) key ?s
     = Some (?s\<lparr> gs_log := gs_log s @ [(ApiClient, ''https://h/repos/o/r/tarball/a''), (CodeloadClient, ''https://codeload.h/x'')],
               gs_observability := ob1 \<rparr>, Ok (Err (error_display (Provider ''codeload GET: connection refused''))))"
    using tar by (simp add: download_result_def prog_try_def prog_bind_def prog_change_def prog_lift_def)
  then show ?thesis using miss claim assms(2)
    by (simp add: fetch_batch_def dispatch_tarball_for_requests_def prog_bind_def prog_lift_def get_or_init_def Let_def
        del: append.simps)
      (rule exI [of _ ob1], rule exI, rule refl)
qed


lemma demo_gate:
  "auto_gate demo_github_env demo_config demo_repo forced ''a'' key [demo_big]
     = prog_try (fetch_batch demo_github_env demo_config demo_repo ''a'' [\<lparr> cr_path = ''big'',
         cr_digest = Some (from_sha1_hex ''bb11''), cr_size = Some 5000, cr_kind = ContentFile \<rparr>] Forced (Some key))
         (\<lambda>_. prog_return ())"
proof -
  have "List.map_filter tree_entry_to_request [demo_big]
      = [\<lparr> cr_path = ''big'', cr_digest = Some (from_sha1_hex ''bb11''), cr_size = Some 5000, cr_kind = ContentFile \<rparr>]"
    by code_simp
  then show ?thesis
    by (simp add: auto_gate_def forced_def effective_prefetch_policy_def decide_policy_def)
qed

text \<open>The directories cannot be printed, so the snapshot fails after its requests.\<close>

lemma demo_built:
  fixes s :: "(string, cache_entry) lru_map github"
  assumes "length (gs_log s) = 1" "gs_cache s = demo_cache" "gs_flights s = \<lparr> registry = [], slot_cells = [] \<rparr>"
  shows "\<exists>s' r. build_snapshot demo_github_env demo_config demo_repo forced ''o'' ''r'' ''a'' key s = Some (s', r)
    \<and> gs_log s' = gs_log s @ [(ApiClient, ''https://h/repos/o/r/git/trees/a?recursive=1''),
        (ApiClient, ''https://h/repos/o/r/tarball/a''), (CodeloadClient, ''https://codeload.h/x'')]"
proof -
  obtain s1 where manifest: "fetch_manifest demo_github_env demo_config demo_repo ''a'' s = Some (s1, Ok [demo_big])"
    and s1: "gs_log s1 = gs_log s @ [(ApiClient, ''https://h/repos/o/r/git/trees/a?recursive=1'')]"
      "gs_cache s1 = demo_cache" "gs_flights s1 = \<lparr> registry = [], slot_cells = [] \<rparr>"
    using demo_manifest [OF assms(1)] assms(2,3) by auto
  let ?s2 = "s1\<lparr> gs_sha_to_path := blob_paths [demo_big] \<rparr>"
  obtain s3 where gate: "auto_gate demo_github_env demo_config demo_repo forced ''a'' key [demo_big] ?s2 = Some (s3, Ok ())"
    and s3: "gs_log s3 = gs_log s1 @ [(ApiClient, ''https://h/repos/o/r/tarball/a''), (CodeloadClient, ''https://codeload.h/x'')]"
    using demo_batch [of ?s2 "Some key"] assms(1) s1
    by (auto simp: demo_gate prog_try_def prog_lift_def simp del: append.simps)
  have small: "small_blob_shas [demo_big] = []" by code_simp
  let ?built = "build_directories_with_inline (\<lambda>_. None) (ev_sha256 demo_github_env) [demo_big] (map_of [])"
  have "case ?built of Ok _ \<Rightarrow> False | _ \<Rightarrow> True" by code_simp
  then have fails: "?built = Panic \<or> (\<exists>e. ?built = Err e)" by (simp split: outcome.splits)
  have log: "gs_log (count_on (Some key) evs s) = gs_log s" for evs and s :: "(string, cache_entry) lru_map github"
    by (simp add: count_on_def)
  have manifested: "prog_bind (fetch_manifest demo_github_env demo_config demo_repo ''a'') f s = f [demo_big] s1"
    for f :: "_ \<Rightarrow> ((string, cache_entry) lru_map github, bytes) prog"
    using manifest by (simp add: prog_bind_def)
  have gated: "prog_bind (auto_gate demo_github_env demo_config demo_repo forced ''a'' key [demo_big]) f ?s2 = f () s3"
    for f :: "_ \<Rightarrow> ((string, cache_entry) lru_map github, bytes) prog"
    using gate by (simp add: prog_bind_def)
  have "build_snapshot demo_github_env demo_config demo_repo forced ''o'' ''r'' ''a'' key s
      = prog_bind (prog_lift ?built) f (count_on (Some key) [PrefetchHits (of_nat 0)] s3) \<Longrightarrow> ?thesis" for f
    using fails log s1 s3 by (auto simp: prog_bind_def prog_lift_def)
  then show ?thesis
    by (simp add: build_snapshot_def manifested gated prog_bind_change prog_bind_return small)
qed

lemma demo_forced_log:
  "\<exists>s r. fetch_snapshot_with_options demo_github_env demo_config demo_repo forced demo_github = Some (s, r)
     \<and> gs_log s = [(ApiClient, ''https://h/repos/o/r/commits/main''),
        (ApiClient, ''https://h/repos/o/r/git/trees/a?recursive=1''), (ApiClient, ''https://h/repos/o/r/tarball/a''),
        (CodeloadClient, ''https://codeload.h/x'')]"
proof -
  let ?P = "counter_key_of demo_repo (PLACEHOLDER_COMMIT_PREFIX @ sp_version demo_repo @ ''>'')"
  let ?R = "counter_key_of demo_repo ''a''"
  let ?s0 = "demo_github\<lparr> gs_active_source := Some demo_repo, gs_counter_key := Some ?P \<rparr>"
  obtain s1 where resolved: "resolve_ref demo_github_env demo_config demo_repo ?s0 = Some (s1, Ok ''a'')"
    and s1: "gs_log s1 = [(ApiClient, ''https://h/repos/o/r/commits/main'')]" "gs_cache s1 = demo_cache"
      "gs_flights s1 = \<lparr> registry = [], slot_cells = [] \<rparr>"
    using demo_resolved [of ?s0] by (auto simp: demo_github_def)
  let ?s2 = "s1\<lparr> gs_counter_key := Some ?R, gs_observability := merge_and_drop_placeholder ?P ?R (gs_observability s1) \<rparr>"
  have "fetch_snapshot_with_options demo_github_env demo_config demo_repo forced demo_github
      = build_snapshot demo_github_env demo_config demo_repo forced ''o'' ''r'' ''a'' ?R ?s2"
    using resolved by (simp add: fetch_snapshot_with_options_def fetch_snapshot_inner_def Let_def prog_bind_def prog_change_def
        prog_lift_def cached_snapshot_def forced_def del: append.simps)
  then show ?thesis using demo_built [of ?s2 ?R] s1 by simp
qed

theorem token_stays_with_api_host_witness:
  "\<exists>(s :: (string, cache_entry) lru_map github) q. gs_log s = gs_log demo_github @ q \<and> length q = 4
    \<and> list_all (\<lambda>(client, url). case client of
         ApiClient \<Rightarrow> starts_with (api_base ''h'') url
       | CodeloadClient \<Rightarrow> codeload_request demo_url ''codeload.h'' (client, url)) q"
proof -
  obtain s r where run: "fetch_snapshot_with_options demo_github_env demo_config demo_repo forced demo_github = Some (s, r)"
    and log: "length (gs_log s) = 4" using demo_forced_log by fastforce
  have steps: "(provider_step demo_github_env demo_config)\<^sup>*\<^sup>* demo_github s"
    using provider_snapshot [OF run] by (rule r_into_rtranclp)
  have hosts: "cf_api_host demo_config = ''h''" "cf_codeload_host demo_config = ''codeload.h''"
    "ev_url_parse demo_github_env = demo_url"
    by (code_simp, code_simp, simp)
  from token_stays_with_api_host [OF steps] obtain q where q: "gs_log s = gs_log demo_github @ q"
    and "list_all (\<lambda>(client, url). case client of
         ApiClient \<Rightarrow> starts_with (api_base ''h'') url
       | CodeloadClient \<Rightarrow> codeload_request demo_url ''codeload.h'' (client, url)) q"
    unfolding hosts by blast
  moreover have "length q = 4" using q log by (simp add: demo_github_def)
  ultimately show ?thesis by blast
qed

theorem stale_tree_hit_is_permanent_witness:
  "\<exists>s'. fetch_snapshot_with_options demo_github_env demo_config demo_repo default_fetch_options demo_github = Some (s', Ok ''aaa'')
    \<and> gs_log s' = [(ApiClient, ''https://h/repos/o/r/commits/main'')] \<and> gs_cache s' = gs_cache demo_github \<and> gs_tree_cache s' = gs_tree_cache demo_github
    \<and> gh_fetch_directory demo_github_env (root_directory demo_snapshot) s' = Some (s', Err (NotFound (''directory ''
         @ digest_display (root_directory demo_snapshot) @ '' not in cache; re-fetch snapshot to populate'')))"
proof -
  have "gs_log (resolving demo_repo demo_github) = []" by (simp add: resolving_def demo_github_def)
  from demo_resolved [OF this] this obtain s1
    where R: "resolve_ref demo_github_env demo_config demo_repo (resolving demo_repo demo_github) = Some (s1, Ok ''a'')"
      and log: "gs_log s1 = [(ApiClient, ''https://h/repos/o/r/commits/main'')]" by fastforce
  show ?thesis unfolding log [symmetric]
  proof (rule stale_tree_hit_is_permanent [OF _ R])
    show "fo_prefetch default_fetch_options \<noteq> PrefetchForce" by (simp add: default_fetch_options_def)
    show "owner_repo demo_repo = Ok (''o'', ''r'')" by simp
    show "gs_tree_cache demo_github = Some demo_trees" by (simp add: demo_github_def)
    have "tree_path demo_trees ''o'' ''r'' ''a'' = ''/t/o/r/a.json''"
      "map_of (tc_files demo_trees) ''/t/o/r/a.json'' = Some (''3:aaa'', 1)"
      "envelope_parse text_json ''3:aaa'' = Some (3, ''aaa'')"
      by code_simp+
    then show "tree_get (ev_json demo_github_env) (ev_fs demo_github_env) ''o'' ''r'' ''a'' demo_trees = (demo_trees, Some ''aaa'')"
      by (simp add: tree_get_def fine_env_def) (simp add: text_json_def)
    show "ev_snapshot_parse demo_github_env ''aaa'' = Some demo_snapshot" by (simp add: demo_github_env_def)
    have "lhm_get list_lhm (dg_hex (root_directory demo_snapshot)) (entries (state demo_cache)) = None" by code_simp
    then show "lhm_get (ev_lru demo_github_env) (dg_hex (root_directory demo_snapshot)) (entries (state (gs_cache demo_github))) = None"
      by (simp add: demo_github_def)
  qed
qed

end
