(* ===== verification/Registry.thy ===== *)
theory Registry
  imports Rate_Limit Provider_Common Resolution_Cache
begin

text \<open>
  The resolvers from packages to GitHub sources: \<open>crates/ctxfs-provider-npm\<close>, \<open>ctxfs-provider-pypi\<close> and
  \<open>ctxfs-provider-crate\<close>. A JSON document is a value of \<open>serde_json\<close>'s type; the members of an object are
  listed in the order the library iterates over them. The registries' servers, the printed form of a status
  and the lower-casing of text are the environment's.
\<close>

section \<open>JSON values\<close>

datatype json_number = PosInt u64 | NegInt "64 word" | Float string

datatype json =
    Json_Null
  | Json_Bool bool
  | Json_Number json_number
  | Json_String string
  | Json_Array "json list"
  | Json_Object "(string \<times> json) list"

fun json_get :: "string \<Rightarrow> json \<Rightarrow> json option" where
  "json_get k (Json_Object ms) = map_of ms k"
| "json_get k _ = None"

fun json_str :: "json \<Rightarrow> string option" where
  "json_str (Json_String s) = Some s"
| "json_str _ = None"

fun json_members :: "json \<Rightarrow> (string \<times> json) list option" where
  "json_members (Json_Object ms) = Some ms"
| "json_members _ = None"

text \<open>\<open>value[key]\<close>: a missing member is null.\<close>

definition json_index :: "json \<Rightarrow> string \<Rightarrow> json" where
  "json_index j k = (case json_get k j of Some v \<Rightarrow> v | None \<Rightarrow> Json_Null)"

record registry_env =
  rg_send :: "string \<Rightarrow> json response + string"
  rg_status_text :: "u16 \<Rightarrow> string"
  rg_lower :: "string \<Rightarrow> string"

section \<open>npm\<close>

text \<open>\<open>rest.replacen('/', "%2F", 1)\<close> below the scope sign.\<close>

definition encode_package_name :: "string \<Rightarrow> string" where
  "encode_package_name name =
     (case strip_prefix ''@'' name of
        Some rest \<Rightarrow>
          ''@'' @ (case split_once CHR ''/'' rest of Some (a, b) \<Rightarrow> a @ ''%2F'' @ b | None \<Rightarrow> rest)
      | None \<Rightarrow> name)"

definition npm_metadata :: "registry_env \<Rightarrow> string \<Rightarrow> string \<Rightarrow> json ctxfs_result" where
  "npm_metadata R name version =
     fetch_registry_json (rg_status_text R)
       (rg_send R (''https://registry.npmjs.org/'' @ encode_package_name name @ ''/'' @ version))
       ''npm registry'' (''npm:'' @ name @ ''@'' @ version)"

definition npm_repo_info :: "json \<Rightarrow> (string \<times> string \<times> string option) option" where
  "npm_repo_info j =
     Option.bind (json_get ''repository'' j) (\<lambda>field.
     Option.bind
       (case json_str field of
          Some url \<Rightarrow> Some (url, None)
        | None \<Rightarrow>
            Option.bind (Option.bind (json_get ''url'' field) json_str) (\<lambda>url.
            Some (url, Option.bind (json_get ''directory'' field) json_str)))
       (\<lambda>(url, directory). map_option (\<lambda>(owner, repo). (owner, repo, directory)) (parse_github_url url)))"

definition npm_git_head :: "json \<Rightarrow> string option" where
  "npm_git_head j = Option.bind (Option.bind (json_get ''dist'' j) (json_get ''gitHead'')) json_str"

definition npm_resolve :: "registry_env \<Rightarrow> string \<Rightarrow> string \<Rightarrow> resolved_source ctxfs_result" where
  "npm_resolve R name version =
     obind (npm_metadata R name version) (\<lambda>j.
     omap (\<lambda>(owner, repo, directory).
         \<lparr> rs_owner = owner, rs_repo = repo,
           rs_git_ref = (case npm_git_head j of Some h \<Rightarrow> h | None \<Rightarrow> ''v'' @ version), rs_subpath = directory \<rparr>)
       (ok_or (NoSourceRepo (name @ ''@'' @ version) ''npm'') (npm_repo_info j)))"

definition npm_resolve_latest :: "registry_env \<Rightarrow> string \<Rightarrow> string ctxfs_result" where
  "npm_resolve_latest R name =
     obind (npm_metadata R name ''latest'') (\<lambda>j.
     ok_or (Provider (''npm registry response for '' @ name @ ''/latest missing '' @ quoted ''version'' @ '' field''))
       (json_str (json_index j ''version'')))"

section \<open>PyPI\<close>

definition PROJECT_URL_KEYS :: "string list" where
  "PROJECT_URL_KEYS = [''source code'', ''source'', ''github'', ''repository'', ''code'', ''homepage'']"

definition pypi_metadata :: "registry_env \<Rightarrow> string \<Rightarrow> string option \<Rightarrow> json ctxfs_result" where
  "pypi_metadata R name version =
     fetch_registry_json (rg_status_text R)
       (rg_send R (case version of
            Some v \<Rightarrow> ''https://pypi.org/pypi/'' @ name @ ''/'' @ v @ ''/json''
          | None \<Rightarrow> ''https://pypi.org/pypi/'' @ name @ ''/json''))
       ''PyPI'' (case version of Some v \<Rightarrow> ''pypi:'' @ name @ ''@'' @ v | None \<Rightarrow> ''pypi:'' @ name)"

text \<open>The map from lower-cased keys to the texts of \<open>project_urls\<close>: a later key replaces an equal one.\<close>

definition lower_map :: "(string \<Rightarrow> string) \<Rightarrow> (string \<times> json) list \<Rightarrow> (string \<times> string) list" where
  "lower_map lower ms =
     foldl (\<lambda>m (k, v). case json_str v of Some url \<Rightarrow> AList.update (lower k) url m | None \<Rightarrow> m) [] ms"

fun first_repo :: "(string \<times> string) list \<Rightarrow> string list \<Rightarrow> (string \<times> string) option" where
  "first_repo m [] = None"
| "first_repo m (key # keys) =
     (case Option.bind (map_of m key) parse_github_url of Some r \<Rightarrow> Some r | None \<Rightarrow> first_repo m keys)"

definition pypi_repo_url :: "(string \<Rightarrow> string) \<Rightarrow> json \<Rightarrow> (string \<times> string) option" where
  "pypi_repo_url lower j =
     Option.bind (json_get ''info'' j) (\<lambda>info.
     case Option.bind (Option.bind (json_get ''project_urls'' info) json_members)
            (\<lambda>ms. first_repo (lower_map lower ms) PROJECT_URL_KEYS) of
       Some r \<Rightarrow> Some r
     | None \<Rightarrow> Option.bind (Option.bind (json_get ''home_page'' info) json_str) parse_github_url)"

definition pypi_resolve :: "registry_env \<Rightarrow> string \<Rightarrow> string \<Rightarrow> resolved_source ctxfs_result" where
  "pypi_resolve R name version =
     obind (pypi_metadata R name (Some version)) (\<lambda>j.
     omap (\<lambda>(owner, repo). \<lparr> rs_owner = owner, rs_repo = repo, rs_git_ref = ''v'' @ version, rs_subpath = None \<rparr>)
       (ok_or (NoSourceRepo (name @ ''@'' @ version) ''pypi'') (pypi_repo_url (rg_lower R) j)))"

definition pypi_resolve_latest :: "registry_env \<Rightarrow> string \<Rightarrow> string ctxfs_result" where
  "pypi_resolve_latest R name =
     obind (pypi_metadata R name None) (\<lambda>j.
     ok_or (Provider (''PyPI response for '' @ name @ '' missing '' @ quoted ''info.version'' @ '' field''))
       (json_str (json_index (json_index j ''info'') ''version'')))"

section \<open>crates.io\<close>

definition crate_metadata :: "registry_env \<Rightarrow> string \<Rightarrow> json ctxfs_result" where
  "crate_metadata R name =
     fetch_registry_json (rg_status_text R) (rg_send R (''https://crates.io/api/v1/crates/'' @ name))
       ''crates.io'' (''crate:'' @ name)"

definition crate_repo_url :: "json \<Rightarrow> (string \<times> string) option" where
  "crate_repo_url j =
     Option.bind (Option.bind (Option.bind (json_get ''crate'' j) (json_get ''repository'')) json_str) parse_github_url"

definition crate_latest_version :: "json \<Rightarrow> string option" where
  "crate_latest_version j =
     Option.bind (json_get ''crate'' j) (\<lambda>krate.
     case Option.bind (json_get ''max_stable_version'' krate) json_str of
       Some newest \<Rightarrow>
         if newest \<noteq> [] then Some newest else Option.bind (json_get ''max_version'' krate) json_str
     | None \<Rightarrow> Option.bind (json_get ''max_version'' krate) json_str)"

definition crate_resolve :: "registry_env \<Rightarrow> string \<Rightarrow> string \<Rightarrow> resolved_source ctxfs_result" where
  "crate_resolve R name version =
     obind (crate_metadata R name) (\<lambda>j.
     omap (\<lambda>(owner, repo). \<lparr> rs_owner = owner, rs_repo = repo, rs_git_ref = ''v'' @ version, rs_subpath = None \<rparr>)
       (ok_or (NoSourceRepo (name @ ''@'' @ version) ''crates.io'') (crate_repo_url j)))"

definition crate_resolve_latest :: "registry_env \<Rightarrow> string \<Rightarrow> string ctxfs_result" where
  "crate_resolve_latest R name =
     obind (crate_metadata R name) (\<lambda>j.
     ok_or (Provider (''crates.io response for '' @ name @ '' missing version fields'')) (crate_latest_version j))"

section \<open>What a resolution names\<close>

text \<open>The contract of \<open>RegistryResolver::resolve\<close>: owner and repository are segments of a path.\<close>

definition path_segment :: "string \<Rightarrow> bool" where
  "path_segment s \<longleftrightarrow> s \<noteq> [] \<and> CHR ''/'' \<notin> set s"

lemma parse_path_segments:
  "parse_owner_repo_from_path p = Some (owner, repo) \<Longrightarrow> path_segment owner \<and> path_segment repo"
  using split_on_no_sep [of _ "CHR ''/''" p]
  by (auto simp: parse_owner_repo_from_path_def path_segment_def split: list.splits if_splits)

lemma try_prefixes_segments: "try_prefixes ps s = Some (owner, repo) \<Longrightarrow> path_segment owner \<and> path_segment repo"
  by (induction ps s rule: try_prefixes.induct) (auto split: option.splits dest: parse_path_segments)

lemma parse_url_segments: "parse_github_url url = Some (owner, repo) \<Longrightarrow> path_segment owner \<and> path_segment repo"
  unfolding parse_github_url_def Let_def
  by (auto split: if_splits option.splits dest: parse_path_segments try_prefixes_segments)

locale registry_resolver =
  fixes resolve :: "string \<Rightarrow> string \<Rightarrow> resolved_source ctxfs_result"
  assumes names_repository: "resolve name version = Ok src \<Longrightarrow> path_segment (rs_owner src) \<and> path_segment (rs_repo src)"
begin

lemma name_splits:
  "resolve name version = Ok src \<Longrightarrow>
     split_once CHR ''/'' (rs_owner src @ ''/'' @ rs_repo src) = Some (rs_owner src, rs_repo src)"
  using names_repository [of name version src] by (simp add: path_segment_def split_once_append)

end

lemma first_repo_segments: "first_repo m keys = Some (owner, repo) \<Longrightarrow> path_segment owner \<and> path_segment repo"
  by (induction m keys rule: first_repo.induct)
    (auto simp: bind_eq_Some_conv split: option.splits dest: parse_url_segments)

interpretation npm: registry_resolver "npm_resolve R" for R
  by unfold_locales
    (auto simp: npm_resolve_def npm_repo_info_def bind_eq_Some_conv obind_eq_Ok omap_eq_Ok ok_or_eq_Ok dest: parse_url_segments)

interpretation pypi: registry_resolver "pypi_resolve R" for R
  by unfold_locales
    (auto simp: pypi_resolve_def pypi_repo_url_def bind_eq_Some_conv obind_eq_Ok omap_eq_Ok ok_or_eq_Ok
      split: option.splits dest: parse_url_segments first_repo_segments)

interpretation crates: registry_resolver "crate_resolve R" for R
  by unfold_locales
    (auto simp: crate_resolve_def crate_repo_url_def bind_eq_Some_conv obind_eq_Ok omap_eq_Ok ok_or_eq_Ok
      dest: parse_url_segments)

section \<open>Which URL PyPI's metadata gives\<close>

text \<open>The texts of \<open>project_urls\<close> under a lower-cased key; the last of several counts.\<close>

definition url_under :: "(string \<Rightarrow> string) \<Rightarrow> (string \<times> json) list \<Rightarrow> string \<Rightarrow> string option" where
  "url_under lower ms key =
     map_of (rev (List.map_filter (\<lambda>(k, v). map_option (Pair (lower k)) (json_str v)) ms)) key"

lemma lower_map_snoc:
  "lower_map lower (ms @ [(k, v)]) =
     (case json_str v of Some url \<Rightarrow> AList.update (lower k) url (lower_map lower ms) | None \<Rightarrow> lower_map lower ms)"
  by (simp add: lower_map_def split: option.split)

lemma lower_map_lookup: "map_of (lower_map lower ms) key = url_under lower ms key"
proof (induction ms rule: rev_induct)
  case (snoc m ms)
  then show ?case
    by (cases m; cases "json_str (snd m)")
      (auto simp: lower_map_snoc url_under_def List.map_filter_def update_conv')
qed (simp add: lower_map_def url_under_def List.map_filter_def)

lemma first_repo_iff:
  "first_repo m keys = Some r \<longleftrightarrow>
     (\<exists>before key after. keys = before @ key # after \<and> Option.bind (map_of m key) parse_github_url = Some r
        \<and> (\<forall>k \<in> set before. Option.bind (map_of m k) parse_github_url = None))"
proof (induction keys)
  case (Cons key keys)
  show ?case
  proof (cases "Option.bind (map_of m key) parse_github_url")
    case None
    have "(\<exists>before k after. key # keys = before @ k # after \<and> Option.bind (map_of m k) parse_github_url = Some r
        \<and> (\<forall>k \<in> set before. Option.bind (map_of m k) parse_github_url = None))
      \<longleftrightarrow> (\<exists>before k after. keys = before @ k # after \<and> Option.bind (map_of m k) parse_github_url = Some r
        \<and> (\<forall>k \<in> set before. Option.bind (map_of m k) parse_github_url = None))" (is "?L \<longleftrightarrow> ?R")
    proof
      assume ?L
      then obtain before k after where *: "key # keys = before @ k # after"
        "Option.bind (map_of m k) parse_github_url = Some r" "\<forall>k \<in> set before. Option.bind (map_of m k) parse_github_url = None"
        by blast
      then obtain b where "before = key # b" using None by (cases before) auto
      with * show ?R by auto
    next
      assume ?R
      then obtain before k after where "keys = before @ k # after"
        "Option.bind (map_of m k) parse_github_url = Some r" "\<forall>k \<in> set before. Option.bind (map_of m k) parse_github_url = None"
        by blast
      then show ?L using None by (intro exI [of _ "key # before"] exI [of _ k] exI [of _ after]) auto
    qed
    then show ?thesis using None Cons.IH by simp
  next
    case (Some q)
    have "\<exists>before k after. key # keys = before @ k # after \<and> Option.bind (map_of m k) parse_github_url = Some r
        \<and> (\<forall>k \<in> set before. Option.bind (map_of m k) parse_github_url = None)" if "q = r"
      using Some that by (intro exI [of _ "[]"] exI [of _ key] exI [of _ keys]) simp
    with Some show ?thesis by (fastforce simp: Cons_eq_append_conv)
  qed
qed simp

lemma first_repo_None: "first_repo m keys = None \<longleftrightarrow> (\<forall>k \<in> set keys. Option.bind (map_of m k) parse_github_url = None)"
  by (induction keys) (auto split: option.splits)

text \<open>
  PyPI's metadata gives the repository of the first project URL that is one, in the fixed order of the
  keys and whatever the case they are written in, and the home page's only when no project URL names a
  repository.
\<close>

theorem pypi_first_usable_url:
  fixes lower :: "string \<Rightarrow> string"
  assumes "json_get ''info'' j = Some info" "json_get ''project_urls'' info = Some (Json_Object ms)"
  defines "usable key \<equiv> Option.bind (url_under lower ms key) parse_github_url"
  shows "pypi_repo_url lower j = Some r \<longleftrightarrow>
     (\<exists>before key after. PROJECT_URL_KEYS = before @ key # after \<and> usable key = Some r
        \<and> (\<forall>k \<in> set before. usable k = None))
     \<or> (\<forall>k \<in> set PROJECT_URL_KEYS. usable k = None)
        \<and> Option.bind (Option.bind (json_get ''home_page'' info) json_str) parse_github_url = Some r"
proof -
  let ?first = "first_repo (lower_map lower ms) PROJECT_URL_KEYS"
  have url: "pypi_repo_url lower j = (case ?first of Some q \<Rightarrow> Some q
      | None \<Rightarrow> Option.bind (Option.bind (json_get ''home_page'' info) json_str) parse_github_url)"
    using assms(1,2) by (simp add: pypi_repo_url_def)
  show ?thesis
  proof (cases ?first)
    case None
    moreover have "\<forall>k \<in> set PROJECT_URL_KEYS. usable k = None"
      using None unfolding first_repo_None lower_map_lookup usable_def .
    moreover from this have "\<not> (\<exists>before key after. PROJECT_URL_KEYS = before @ key # after \<and> usable key = Some r
        \<and> (\<forall>k \<in> set before. usable k = None))"
      by (metis in_set_conv_decomp option.distinct(1))
    ultimately show ?thesis unfolding url by (simp only: option.case) blast
  next
    case (Some q)
    have "?first = Some r \<longleftrightarrow> (\<exists>before key after. PROJECT_URL_KEYS = before @ key # after \<and> usable key = Some r
        \<and> (\<forall>k \<in> set before. usable k = None))"
      unfolding first_repo_iff lower_map_lookup usable_def ..
    moreover have "\<not> (\<forall>k \<in> set PROJECT_URL_KEYS. usable k = None)"
      using Some first_repo_None [of "lower_map lower ms" PROJECT_URL_KEYS] unfolding lower_map_lookup usable_def by auto
    ultimately show ?thesis unfolding url Some by (simp only: option.case) blast
  qed
qed

definition demo_metadata :: json where
  "demo_metadata = Json_Object [(''info'', Json_Object
     [(''home_page'', Json_String ''https://github.com/h/p''),
      (''project_urls'', Json_Object
        [(''Homepage'', Json_String ''https://github.com/a/b''), (''SOURCE'', Json_String ''https://github.com/c/d.git''),
         (''Source Code'', Json_String ''https://gitlab.com/e/f'')])])]"

lemma str_trim_id: "leading_ws s = None \<Longrightarrow> trailing_ws s = None \<Longrightarrow> str_trim s = s"
  by (simp add: str_trim_def trim_start.simps [of s] trim_end.simps [of s])

lemma white_space_bytes:
  "white_space = [[CHR 0x09], [CHR 0x0A], [CHR 0x0B], [CHR 0x0C], [CHR 0x0D], '' '', [CHR 0xC2, CHR 0x85],
     [CHR 0xC2, CHR 0xA0], [CHR 0xE1, CHR 0x9A, CHR 0x80], [CHR 0xE2, CHR 0x80, CHR 0x80],
     [CHR 0xE2, CHR 0x80, CHR 0x81], [CHR 0xE2, CHR 0x80, CHR 0x82], [CHR 0xE2, CHR 0x80, CHR 0x83],
     [CHR 0xE2, CHR 0x80, CHR 0x84], [CHR 0xE2, CHR 0x80, CHR 0x85], [CHR 0xE2, CHR 0x80, CHR 0x86],
     [CHR 0xE2, CHR 0x80, CHR 0x87], [CHR 0xE2, CHR 0x80, CHR 0x88], [CHR 0xE2, CHR 0x80, CHR 0x89],
     [CHR 0xE2, CHR 0x80, CHR 0x8A], [CHR 0xE2, CHR 0x80, CHR 0xA8], [CHR 0xE2, CHR 0x80, CHR 0xA9],
     [CHR 0xE2, CHR 0x80, CHR 0xAF], [CHR 0xE2, CHR 0x81, CHR 0x9F], [CHR 0xE3, CHR 0x80, CHR 0x80]]"
  by code_simp

lemma demo_repositories:
  "parse_github_url ''https://github.com/c/d.git'' = Some (''c'', ''d'')"
  "parse_github_url ''https://gitlab.com/e/f'' = None"
proof -
  have "leading_ws ''https://github.com/c/d.git'' = None" "trailing_ws ''https://github.com/c/d.git'' = None"
    "leading_ws ''https://gitlab.com/e/f'' = None" "trailing_ws ''https://gitlab.com/e/f'' = None"
    by (simp_all add: leading_ws_def trailing_ws_def white_space_bytes starts_with_def ends_with_def)
  then have trimmed: "str_trim ''https://github.com/c/d.git'' = ''https://github.com/c/d.git''"
    "str_trim ''https://gitlab.com/e/f'' = ''https://gitlab.com/e/f''"
    by (simp_all only: str_trim_id)
  have no_scheme: "strip_prefix ''github:'' ''https://github.com/c/d.git'' = None" "strip_prefix ''github:'' ''https://gitlab.com/e/f'' = None"
    "strip_prefix ''git+'' ''https://github.com/c/d.git'' = None" "strip_prefix ''git+'' ''https://gitlab.com/e/f'' = None"
    "strip_prefix ''ssh://git@github.com:'' ''https://github.com/c/d.git'' = None"
    "strip_prefix ''ssh://git@github.com:'' ''https://gitlab.com/e/f'' = None"
    by (simp_all add: strip_prefix_def starts_with_def)
  have "try_prefixes url_prefixes ''https://github.com/c/d.git'' = parse_owner_repo_from_path (without_suffix ''.git'' ''c/d.git'')"
    "try_prefixes url_prefixes ''https://gitlab.com/e/f'' = None"
    by (simp_all add: url_prefixes_def strip_prefix_def starts_with_def)
  moreover have "parse_owner_repo_from_path (without_suffix ''.git'' ''c/d.git'') = Some (''c'', ''d'')" by code_simp
  ultimately have schemes: "try_prefixes url_prefixes ''https://github.com/c/d.git'' = Some (''c'', ''d'')"
    "try_prefixes url_prefixes ''https://gitlab.com/e/f'' = None" by simp_all
  show "parse_github_url ''https://github.com/c/d.git'' = Some (''c'', ''d'')"
    "parse_github_url ''https://gitlab.com/e/f'' = None"
    by (simp_all add: parse_github_url_def trimmed no_scheme schemes)
qed

theorem pypi_first_usable_url_witness:
  "pypi_repo_url (map ascii_lower) demo_metadata = Some (''c'', ''d'')"
proof -
  let ?ms = "[(''Homepage'', Json_String ''https://github.com/a/b''), (''SOURCE'', Json_String ''https://github.com/c/d.git''),
      (''Source Code'', Json_String ''https://gitlab.com/e/f'')]"
  let ?info = "Json_Object [(''home_page'', Json_String ''https://github.com/h/p''), (''project_urls'', Json_Object ?ms)]"
  have urls: "url_under (map ascii_lower) ?ms ''source'' = Some ''https://github.com/c/d.git''"
    "url_under (map ascii_lower) ?ms ''source code'' = Some ''https://gitlab.com/e/f''"
    by code_simp+
  have "json_get ''info'' demo_metadata = Some ?info" "json_get ''project_urls'' ?info = Some (Json_Object ?ms)"
    by (simp_all add: demo_metadata_def)
  from iffD2 [OF pypi_first_usable_url [OF this], of "map ascii_lower" "(''c'', ''d'')"]
  show ?thesis
    by (elim meta_mp)
      (intro disjI1 exI [of _ "[''source code'']"] exI [of _ "''source''"]
        exI [of _ "[''github'', ''repository'', ''code'', ''homepage'']"] conjI;
       simp add: PROJECT_URL_KEYS_def urls demo_repositories)
qed

end
