(* ===== verification/Mount_State.thy ===== *)
theory Mount_State
  imports Core_Types Rate_Limit Tree_Cache
begin

text \<open>
  The daemon's record of its mounts on disk, \<open>mounts.json\<close> (\<open>crates/ctxfs-daemon/src/mount_state.rs\<close>). The
  files are a store as in \<open>Tree_Cache\<close>; the JSON form of the list is an argument.
\<close>

section \<open>The file\<close>

record mount_state_entry =
  me_source :: string
  me_volume_path :: string
  me_symlink_paths :: "string list"
  me_backend :: backend
  me_tcp_port :: "u16 option"
  me_auth_token :: "string option"

type_synonym mount_entries = "mount_state_entry list"

record entries_json =
  ej_print :: "mount_entries \<Rightarrow> bytes + string"
  ej_parse :: "bytes \<Rightarrow> mount_entries option"

definition state_file_new :: "string \<Rightarrow> string" where
  "state_file_new base_dir = path_push base_dir ''mounts.json''"

definition state_read :: "entries_json \<Rightarrow> fs_env \<Rightarrow> string \<Rightarrow> file_store \<Rightarrow> mount_entries" where
  "state_read J env path fs =
     (case (if fs_read_ok env path then map_of fs path else None) of
        None \<Rightarrow> []
      | Some (data, _) \<Rightarrow> (case ej_parse J data of Some es \<Rightarrow> es | None \<Rightarrow> []))"

definition state_write ::
  "entries_json \<Rightarrow> fs_env \<Rightarrow> string \<Rightarrow> mount_entries \<Rightarrow> file_store \<Rightarrow> file_store \<times> (unit, string) outcome" where
  "state_write J env path es fs =
     (case ej_print J es of
        Inr e \<Rightarrow> (fs, Err e)
      | Inl data \<Rightarrow>
          (case fs_mkdir_error env (fst (dir_and_name path)) of
             Some e \<Rightarrow> (fs, Err e)
           | None \<Rightarrow> store_replace env (with_extension ''json.tmp'' path) path data fs))"

section \<open>Operations\<close>

definition state_add ::
  "entries_json \<Rightarrow> fs_env \<Rightarrow> string \<Rightarrow> mount_state_entry \<Rightarrow> file_store \<Rightarrow> file_store \<times> (unit, string) outcome" where
  "state_add J env path entry fs = state_write J env path (state_read J env path fs @ [entry]) fs"

text \<open>The first entry of the volume; \<open>None\<close> when there is none.\<close>

fun push_symlink :: "string \<Rightarrow> string \<Rightarrow> mount_entries \<Rightarrow> mount_entries option" where
  "push_symlink vp link [] = None"
| "push_symlink vp link (e # es) =
     (if me_volume_path e = vp
      then Some ((if link \<in> set (me_symlink_paths e) then e
                  else e\<lparr> me_symlink_paths := me_symlink_paths e @ [link] \<rparr>) # es)
      else map_option (\<lambda>es'. e # es') (push_symlink vp link es))"

definition no_mount_entry :: "string \<Rightarrow> string" where
  "no_mount_entry vp = ''no mount entry for volume_path '' @ quoted vp"

definition state_add_symlink ::
  "entries_json \<Rightarrow> fs_env \<Rightarrow> string \<Rightarrow> string \<Rightarrow> string \<Rightarrow> file_store \<Rightarrow> file_store \<times> (unit, string) outcome" where
  "state_add_symlink J env path vp link fs =
     (case push_symlink vp link (state_read J env path fs) of
        Some es \<Rightarrow> state_write J env path es fs
      | None \<Rightarrow> (fs, Err (no_mount_entry vp)))"

text \<open>The first entry with the link loses its first occurrence; whether it has none left is the answer.\<close>

fun drop_symlink :: "string \<Rightarrow> mount_entries \<Rightarrow> (mount_entries \<times> bool) option" where
  "drop_symlink link [] = None"
| "drop_symlink link (e # es) =
     (if link \<in> set (me_symlink_paths e)
      then (let left = remove1 link (me_symlink_paths e)
            in Some (e\<lparr> me_symlink_paths := left \<rparr> # es, left = []))
      else map_option (\<lambda>(es', b). (e # es', b)) (drop_symlink link es))"

definition state_remove_symlink ::
  "entries_json \<Rightarrow> fs_env \<Rightarrow> string \<Rightarrow> string \<Rightarrow> file_store \<Rightarrow> file_store \<times> (bool, string) outcome" where
  "state_remove_symlink J env path link fs =
     (case drop_symlink link (state_read J env path fs) of
        Some (es, no_links) \<Rightarrow> (let (fs1, r) = state_write J env path es fs in (fs1, omap (\<lambda>_. no_links) r))
      | None \<Rightarrow> (fs, Err (''symlink '' @ quoted link @ '' not found in any mount entry'')))"

definition state_remove_volume ::
  "entries_json \<Rightarrow> fs_env \<Rightarrow> string \<Rightarrow> string \<Rightarrow> file_store \<Rightarrow> file_store \<times> (unit, string) outcome" where
  "state_remove_volume J env path vp fs =
     (let es = state_read J env path fs; kept = filter (\<lambda>e. me_volume_path e \<noteq> vp) es
      in if length kept = length es then (fs, Err (no_mount_entry vp)) else state_write J env path kept fs)"

definition state_clear :: "entries_json \<Rightarrow> fs_env \<Rightarrow> string \<Rightarrow> file_store \<Rightarrow> file_store \<times> (unit, string) outcome" where
  "state_clear J env path fs = state_write J env path [] fs"

section \<open>The list the file stands for\<close>

text \<open>
  The operations on the list itself: the specification. A link is added to or taken from the entry at the
  first place where the volume or the link is found, and no other entry changes.
\<close>

datatype mount_op = AddEntry mount_state_entry | AddSymlink string string | RemoveSymlink string | RemoveVolume string | ClearEntries

definition first_place :: "('a \<Rightarrow> bool) \<Rightarrow> 'a list \<Rightarrow> nat option" where
  "first_place P xs = (let i = length (takeWhile (\<lambda>x. \<not> P x) xs) in if i < length xs then Some i else None)"

definition links_changed :: "(string list \<Rightarrow> string list) \<Rightarrow> nat \<Rightarrow> mount_entries \<Rightarrow> mount_entries" where
  "links_changed f i es = es[i := (es ! i)\<lparr> me_symlink_paths := f (me_symlink_paths (es ! i)) \<rparr>]"

fun entries_after :: "mount_op \<Rightarrow> mount_entries \<Rightarrow> mount_entries option" where
  "entries_after (AddEntry e) es = Some (es @ [e])"
| "entries_after (AddSymlink vp link) es =
     map_option (\<lambda>i. links_changed (\<lambda>ls. if list_ex (\<lambda>l. l = link) ls then ls else ls @ [link]) i es)
       (first_place (\<lambda>e. me_volume_path e = vp) es)"
| "entries_after (RemoveSymlink link) es =
     map_option (\<lambda>i. links_changed (\<lambda>ls. takeWhile (\<lambda>l. l \<noteq> link) ls @ tl (dropWhile (\<lambda>l. l \<noteq> link) ls)) i es)
       (first_place (\<lambda>e. list_ex (\<lambda>l. l = link) (me_symlink_paths e)) es)"
| "entries_after (RemoveVolume vp) es =
     (if list_ex (\<lambda>e. me_volume_path e = vp) es then Some (filter (\<lambda>e. me_volume_path e \<noteq> vp) es) else None)"
| "entries_after ClearEntries es = Some []"

lemma first_place_Nil [simp]: "first_place P [] = None"
  by (simp add: first_place_def)

lemma first_place_Cons: "first_place P (x # xs) = (if P x then Some 0 else map_option Suc (first_place P xs))"
  by (simp add: first_place_def Let_def)

lemma links_changed_Cons [simp]:
  "links_changed f 0 (e # es) = e\<lparr> me_symlink_paths := f (me_symlink_paths e) \<rparr> # es"
  "links_changed f (Suc i) (e # es) = e # links_changed f i es"
  by (simp_all add: links_changed_def)

lemma remove1_takeWhile: "link \<in> set ls \<Longrightarrow> remove1 link ls = takeWhile (\<lambda>l. l \<noteq> link) ls @ tl (dropWhile (\<lambda>l. l \<noteq> link) ls)"
  by (induction ls) auto

lemma list_ex_eq: "list_ex (\<lambda>l. l = x) xs \<longleftrightarrow> x \<in> set xs"
  by (auto simp: list_ex_iff)

text \<open>The loops of the code find the place of the specification.\<close>

lemma push_symlink_spec: "push_symlink vp link es = entries_after (AddSymlink vp link) es"
  by (induction es) (simp_all add: first_place_Cons list_ex_eq option.map_comp comp_def)

lemma drop_symlink_spec: "map_option fst (drop_symlink link es) = entries_after (RemoveSymlink link) es"
proof (induction es)
  case (Cons e es)
  show ?case
  proof (cases "link \<in> set (me_symlink_paths e)")
    case False
    then have "map_option fst (drop_symlink link (e # es)) = map_option (\<lambda>es'. e # es') (map_option fst (drop_symlink link es))"
      by (simp add: option.map_comp comp_def case_prod_beta)
    then show ?thesis using Cons False by (simp add: first_place_Cons list_ex_eq option.map_comp comp_def)
  qed (simp add: first_place_Cons list_ex_eq Let_def remove1_takeWhile)
qed simp

text \<open>The operations on the file, and whether they succeeded.\<close>

fun run_mount_op :: "entries_json \<Rightarrow> fs_env \<Rightarrow> string \<Rightarrow> mount_op \<Rightarrow> file_store \<Rightarrow> file_store \<times> bool" where
  "run_mount_op J env path (AddEntry e) fs = map_prod id is_ok (state_add J env path e fs)"
| "run_mount_op J env path (AddSymlink vp link) fs = map_prod id is_ok (state_add_symlink J env path vp link fs)"
| "run_mount_op J env path (RemoveSymlink link) fs = map_prod id is_ok (state_remove_symlink J env path link fs)"
| "run_mount_op J env path (RemoveVolume vp) fs = map_prod id is_ok (state_remove_volume J env path vp fs)"
| "run_mount_op J env path ClearEntries fs = map_prod id is_ok (state_clear J env path fs)"

lemma is_ok_omap [simp]: "is_ok (omap f r) = is_ok r"
  by (cases r) simp_all

text \<open>The temporary file of \<open>mounts.json\<close> is another file.\<close>

lemma state_file_tmp: "with_extension ''json.tmp'' (state_file_new base) \<noteq> state_file_new base"
proof -
  define d where "d = (if base = [] \<or> ends_with ''/'' base then base else base @ ''/'')"
  have d: "state_file_new base = d @ ''mounts.json''" "d = [] \<or> (\<exists>x. d = x @ ''/'')"
    by (auto simp: state_file_new_def path_push_def d_def starts_with_def ends_with_iff)
  have name: "name_parts ''mounts.json'' = (''mounts'', Some ''json'')" by code_simp
  have "rsplit_once CHR ''/'' (x @ CHR ''/'' # ''mounts.json'') = Some (x, ''mounts.json'')" for x
    by (rule rsplit_once_append) simp
  moreover have "rsplit_once CHR ''/'' ''mounts.json'' = None" by code_simp
  ultimately have "dir_and_name (d @ ''mounts.json'') = (d, ''mounts.json'')"
    using d(2) by (elim disjE exE) (simp_all add: dir_and_name_def)
  then show ?thesis unfolding d(1) with_extension_def by (simp add: name)
qed

lemma store_replace_cases:
  assumes "store_replace env tmp p data fs = (fs', r)" "tmp \<noteq> p"
  shows "is_ok r \<and> (\<exists>t. map_of fs' p = Some (data, t)) \<or> \<not> is_ok r \<and> map_of fs' p = map_of fs p"
  using assms
  by (auto simp: store_replace_def store_write_def store_rename_def AList.update_conv' AList.delete_conv'
      split: option.splits prod.splits)

definition faithful_json :: "entries_json \<Rightarrow> bool" where
  "faithful_json J \<longleftrightarrow> (\<forall>es b. ej_print J es = Inl b \<longrightarrow> ej_parse J b = Some es)"

lemma state_write_cases:
  assumes "state_write J env path es fs = (fs', r)" "faithful_json J" "fs_read_ok env' path"
    and "with_extension ''json.tmp'' path \<noteq> path"
  shows "is_ok r \<and> state_read J env' path fs' = es \<or> \<not> is_ok r \<and> state_read J env' path fs' = state_read J env' path fs"
  using assms
  by (auto simp: state_write_def faithful_json_def split: sum.splits option.splits)
    (auto simp: state_read_def dest!: store_replace_cases)

lemma length_filter_all: "length (filter P xs) = length xs \<longleftrightarrow> \<not> list_ex (\<lambda>x. \<not> P x) xs" for xs :: mount_entries
  using filter_id_conv [of P xs] by (metis (mono_tags, lifting) filter_cong length_filter_less less_irrefl list_ex_iff filter_True)

text \<open>
  C33. \<open>mounts.json\<close> is the list of mounts: an operation that succeeds has done to the list it read what it
  does to a list (a link goes to, or leaves, the first entry of its volume, or with it, and nothing else
  changes), one that fails, before or after it wrote the temporary file, leaves the list in the file as it
  was, and so does one that names a volume or link of no entry. The list it read is the one in the file when
  the file can be read at that moment; when it cannot, the operation takes the list to be empty, so an
  addition that then succeeds leaves its own entry alone.
\<close>

theorem mount_state_refines_list:
  assumes json: "faithful_json J" and readable: "fs_read_ok env' (state_file_new base)"
    and run: "run_mount_op J env (state_file_new base) op fs = (fs', succeeded)"
  defines "before \<equiv> state_read J env' (state_file_new base) fs" and "after \<equiv> state_read J env' (state_file_new base) fs'"
  shows "if succeeded
    then entries_after op (if fs_read_ok env (state_file_new base) then before else []) = Some after
    else after = before"
proof -
  define es where "es = state_read J env (state_file_new base) fs"
  have es: "(if fs_read_ok env (state_file_new base) then before else []) = es"
    using readable by (simp add: es_def before_def state_read_def)
  note W = state_write_cases [OF _ json readable state_file_tmp, of env _ fs fs']
  have "if succeeded then entries_after op es = Some after else after = before"
  proof (cases op)
    case (AddEntry e)
    then show ?thesis using run W unfolding es_def before_def after_def
      by (fastforce simp: state_add_def map_prod_def split: prod.splits)
  next
    case (AddSymlink vp link)
    then show ?thesis using run W unfolding es_def before_def after_def AddSymlink push_symlink_spec [symmetric]
      by (fastforce simp: state_add_symlink_def map_prod_def split: prod.splits option.splits)
  next
    case (RemoveSymlink link)
    then show ?thesis using run W unfolding es_def before_def after_def RemoveSymlink drop_symlink_spec [symmetric]
      by (fastforce simp: state_remove_symlink_def Let_def map_prod_def split: prod.splits option.splits)
  next
    case (RemoveVolume vp)
    with length_filter_all show ?thesis using run W unfolding es_def before_def after_def
      by (fastforce simp: state_remove_volume_def Let_def map_prod_def split: prod.splits if_splits)
  next
    case ClearEntries
    then show ?thesis using run W unfolding es_def before_def after_def
      by (fastforce simp: state_clear_def map_prod_def split: prod.splits)
  qed
  then show ?thesis unfolding es .
qed

text \<open>Two mounts, in a JSON form of their volumes only.\<close>

definition demo_mount :: "string \<Rightarrow> mount_state_entry" where
  "demo_mount vp = \<lparr> me_source = [], me_volume_path = vp, me_symlink_paths = [], me_backend = FsKit, me_tcp_port = None,
     me_auth_token = None \<rparr>"

definition demo_entries_json :: entries_json where
  "demo_entries_json =
     \<lparr> ej_print = (\<lambda>es. if es = map (demo_mount \<circ> (\<lambda>c. [c])) (concat (map me_volume_path es)) \<and> es \<noteq> []
                      then Inl (concat (map me_volume_path es)) else Inr ''unsupported''),
       ej_parse = (\<lambda>b. Some (map (demo_mount \<circ> (\<lambda>c. [c])) b)) \<rparr>"

theorem mount_state_refines_list_witness:
  "\<exists>fs'. run_mount_op demo_entries_json (fine_env 5) (state_file_new ''/r'') (RemoveVolume ''a'')
         [(''/r/mounts.json'', ''ab'', 1)] = (fs', True)
     \<and> state_read demo_entries_json (fine_env 5) (state_file_new ''/r'') fs' = [demo_mount ''b'']"
proof -
  let ?run = "run_mount_op demo_entries_json (fine_env 5) (state_file_new ''/r'') (RemoveVolume ''a'') [(''/r/mounts.json'', ''ab'', 1)]"
  have "snd ?run" by code_simp
  then have run: "?run = (fst ?run, True)" by (metis prod.collapse)
  have readable: "fs_read_ok (fine_env 5) (state_file_new ''/r'')" by (simp add: fine_env_def)
  have json: "faithful_json demo_entries_json"
    by (auto simp: faithful_json_def demo_entries_json_def split: if_splits)
  have "entries_after (RemoveVolume ''a'')
      (state_read demo_entries_json (fine_env 5) (state_file_new ''/r'') [(''/r/mounts.json'', ''ab'', 1)]) = Some [demo_mount ''b'']"
    by code_simp
  then have "state_read demo_entries_json (fine_env 5) (state_file_new ''/r'') (fst ?run) = [demo_mount ''b'']"
    using mount_state_refines_list [OF json readable run] readable by simp
  with run show ?thesis by blast
qed

end
