(* ===== verification/Daemon_Mount.thy ===== *)
theory Daemon_Mount
  imports Git_Provider Registry Mount_State Config Vfs Fskit_Adapter
begin

text \<open>
  What the daemon keeps of a mount and how it starts one: the records of the RPC interface
  (\<open>crates/ctxfs-ipc/src/service.rs\<close>), the mount handles and the daemon's state
  (\<open>crates/ctxfs-daemon/src/daemon.rs\<close>), the virtual filesystem over the live provider, and the start of
  an FSKit mount (\<open>crates/ctxfs-daemon/src/fskit_mount.rs\<close>). The operations of the daemon are in \<open>Daemon\<close>.
\<close>

section \<open>The RPC interface's records\<close>

record mount_options =
  mo_prefetch :: prefetch_policy
  mo_reservation :: "u64 option"

datatype mount_status = Mounting | Ready | MountError string | Unmounting

fun mount_status_display :: "mount_status \<Rightarrow> string" where
  "mount_status_display Mounting = ''mounting''"
| "mount_status_display Ready = ''ready''"
| "mount_status_display (MountError e) = ''error: '' @ e"
| "mount_status_display Unmounting = ''unmounting''"

record mount_info =
  mi_id :: string
  mi_source :: string
  mi_mount_point :: string
  mi_commit_sha :: string
  mi_status :: mount_status
  mi_mounted_at :: string
  mi_nfs_port :: "u16 option"
  mi_backend :: backend
  mi_volume_path :: "string option"
  mi_symlink_paths :: "string list"

record cache_stats =
  cs_total_bytes :: u64
  cs_entry_count :: nat
  cs_freed_bytes :: u64
  cs_tree_count :: nat
  cs_tree_bytes :: u64
  cs_resolution_count :: nat

record cache_breakdown =
  cb_blob_bytes :: u64
  cb_blob_count :: u64
  cb_tree_bytes :: u64
  cb_tree_count :: u64
  cb_max_bytes :: u64

section \<open>Mounts and the daemon\<close>

text \<open>
  A provider shares the caches, the observability data and the tarball registry with all others and has
  four fields of its own. While it works they stand in the state \<open>github\<close>; a mount keeps them in between.
\<close>

record provider_fields =
  pf_counter_key :: "counter_key option"
  pf_active_source :: "source_spec option"
  pf_sha_to_path :: "(string \<times> string) list"
  pf_mount_cache :: "mount_cache_view option"

definition fresh_provider :: provider_fields where
  "fresh_provider = \<lparr> pf_counter_key = None, pf_active_source = None, pf_sha_to_path = [], pf_mount_cache = None \<rparr>"

definition fields_of :: "'m github \<Rightarrow> provider_fields" where
  "fields_of g = \<lparr> pf_counter_key = gs_counter_key g, pf_active_source = gs_active_source g,
     pf_sha_to_path = gs_sha_to_path g, pf_mount_cache = gs_mount_cache g \<rparr>"

definition load_fields :: "provider_fields \<Rightarrow> 'm github \<Rightarrow> 'm github" where
  "load_fields pf g = g\<lparr> gs_counter_key := pf_counter_key pf, gs_active_source := pf_active_source pf,
     gs_sha_to_path := pf_sha_to_path pf, gs_mount_cache := pf_mount_cache pf \<rparr>"

text \<open>What a running server owns: its provider and its view of the tree.\<close>

record served =
  sv_provider :: provider_fields
  sv_vfs :: vfs

record nfs_server =
  ns_addr :: string
  ns_served :: served

record fskit_handle =
  fh_session :: "(filesystem_adapter \<times> served) option"
  fh_volume_path :: string
  fh_unmount_rx :: bool

record mount_handle =
  mh_info :: mount_info
  mh_backend :: backend
  mh_nfs :: "nfs_server option"
  mh_fskit :: "fskit_handle option"
  mh_repo_key :: "repo_key option"
  mh_counter_mount_id :: string

record 'm daemon =
  dm_config :: config
  dm_shared :: "'m github"
  dm_resolutions :: resolution_cache
  dm_mounts :: "(string \<times> mount_handle) list"
  dm_files :: file_store

text \<open>
  What the world answers during one request: the provider's and the registries' environment, the files, the
  JSON forms, the ports and servers, the volume directory and the mount table, the directory of the tree
  cache and the order in which the map of mounts is iterated.
\<close>

datatype path_kind = IsDirectory | NotDirectory | Missing | Unreadable string

record ('m, 'j) daemon_env =
  dv_github :: "('m, 'j) github_env"
  dv_registry :: registry_env
  dv_clock :: "nat option"
  dv_print_resolutions :: "resolutions \<Rightarrow> bytes option"
  dv_fs :: fs_env
  dv_entries_json :: entries_json
  dv_dir_parse :: dir_parser
  dv_snapshot_parse :: "bytes \<Rightarrow> snapshot + string"
  dv_mkdir_error :: "string \<Rightarrow> string option"
  dv_bind :: "(u16 + string) + string"
  dv_spawn_error :: "string \<Rightarrow> string option"
  dv_volumes_exists :: bool
  dv_path_kind :: "string \<Rightarrow> path_kind"
  dv_create_dir_error :: "string \<Rightarrow> string option"
  dv_mount_table :: "string option"
  dv_session_error :: "string \<Rightarrow> string \<Rightarrow> string option"
  dv_mount_order :: "(string \<times> mount_handle) list \<Rightarrow> (string \<times> mount_handle) list"
  dv_tree_root_exists :: bool
  dv_tree_prune_failure :: "(file_store \<Rightarrow> file_store \<times> string) option"
  dv_rfc3339_now :: string
  dv_panic_text :: string

text \<open>A step of the daemon's own: on the shared state, and with the error in another form.\<close>

definition on_shared :: "('m github, 'a, 'e) task \<Rightarrow> ('m daemon, 'a, 'e) task" where
  "on_shared m s = map_option (\<lambda>(g, r). (s\<lparr> dm_shared := g \<rparr>, r)) (m (dm_shared s))"

definition on_cache :: "('m blob_cache \<Rightarrow> 'm blob_cache) \<Rightarrow> 'm daemon \<Rightarrow> 'm daemon" where
  "on_cache f s = s\<lparr> dm_shared := (dm_shared s)\<lparr> gs_cache := f (gs_cache (dm_shared s)) \<rparr> \<rparr>"

fun map_err :: "('e \<Rightarrow> 'd) \<Rightarrow> ('a, 'e) outcome \<Rightarrow> ('a, 'd) outcome" where
  "map_err f (Ok x) = Ok x"
| "map_err f (Err e) = Err (f e)"
| "map_err f Panic = Panic"

definition with_error :: "('e \<Rightarrow> 'd) \<Rightarrow> ('s, 'a, 'e) task \<Rightarrow> ('s, 'a, 'd) task" where
  "with_error f m s = map_option (\<lambda>(s', r). (s', map_err f r)) (m s)"

section \<open>The filesystem over the provider\<close>

fun vfs_error_display :: "vfs_error \<Rightarrow> string" where
  "vfs_error_display Vfs_NotFound = ''not found''"
| "vfs_error_display Vfs_NotDir = ''not a directory''"
| "vfs_error_display Vfs_IsDir = ''is a directory''"
| "vfs_error_display Vfs_Invalid = ''invalid argument''"
| "vfs_error_display Vfs_ReadOnly = ''read-only filesystem''"
| "vfs_error_display (Vfs_Io e) = ''I/O error: '' @ e"
| "vfs_error_display (Vfs_RateLimited secs) = ''rate limited: retry after '' @ show_nat (unat secs) @ ''s''"

text \<open>The walk of a subpath and the construction of \<open>VfsState\<close>, with the provider's directory calls as steps.\<close>

fun live_walk :: "('m, 'j) github_env \<Rightarrow> dir_parser \<Rightarrow> string list \<Rightarrow> digest \<Rightarrow> ('m github, digest, vfs_error) task" where
  "live_walk E parse_dir [] d = prog_return d"
| "live_walk E parse_dir (component # cs) d =
     prog_bind
       (with_error (\<lambda>e. provider_err_to_vfs e ''fetch_directory_for_subpath'') (gh_fetch_directory E d)) (\<lambda>data.
     case parse_dir data of
       Inr e \<Rightarrow> prog_lift (Err (Vfs_Io (''parsing directory: '' @ e)))
     | Inl dir \<Rightarrow> prog_bind (prog_lift (ok_or Vfs_NotFound (find_subdir component dir))) (live_walk E parse_dir cs))"

definition rooted_vfs :: "digest \<Rightarrow> vfs" where
  "rooted_vfs d =
     \<lparr> next_id = 2,
       nodes = [(ROOT_ID, \<lparr> node_id = ROOT_ID, node_parent = ROOT_ID, node_name = ''/'',
                    node_kind = NodeKind_Directory d False \<rparr>)],
       dir_cache = [], dir_children = [] \<rparr>"

definition live_vfs :: "('m, 'j) github_env \<Rightarrow> dir_parser \<Rightarrow> snapshot \<Rightarrow> string option \<Rightarrow> ('m github, vfs, vfs_error) task" where
  "live_vfs E parse_dir snap subpath =
     (case subpath of
        None \<Rightarrow> prog_return (rooted_vfs (root_directory snap))
      | Some sp \<Rightarrow>
          prog_bind (live_walk E parse_dir (subpath_components sp) (root_directory snap)) (\<lambda>d.
          prog_return (rooted_vfs d)))"

text \<open>
  When the provider answers every directory as \<open>p\<close> does whatever it served before, building the
  filesystem over it is \<open>vfs_new\<close>.
\<close>

lemma live_walk_answers:
  assumes "\<And>d s. \<exists>s'. gh_fetch_directory E d s = Some (s', fetch_directory p d)"
  shows "\<exists>s'. live_walk E parse_dir cs d s = Some (s', walk_subpath p parse_dir cs d)"
proof (induction cs arbitrary: d s)
  case Nil
  then show ?case by (simp add: prog_lift_def)
next
  case (Cons c cs)
  obtain s1 where s1: "gh_fetch_directory E d s = Some (s1, fetch_directory p d)" using assms by blast
  show ?case
  proof (cases "fetch_directory p d")
    case (Ok data)
    then show ?thesis
      using s1 Cons.IH by (cases "parse_dir data")
        (auto simp: prog_bind_def prog_lift_def with_error_def fetch_and_parse_def ok_or_eq_Ok split: option.split outcome.split)
  qed (use s1 in \<open>auto simp: prog_bind_def with_error_def fetch_and_parse_def\<close>)
qed

lemma rooted_update: "update_kind ROOT_ID (\<lambda>_. NodeKind_Directory d' False) (rooted_vfs d) = rooted_vfs d'"
  by (simp add: update_kind_def rooted_vfs_def)

lemma live_vfs_answers:
  assumes "\<And>d s. \<exists>s'. gh_fetch_directory E d s = Some (s', fetch_directory p d)"
  shows "\<exists>s'. live_vfs E parse_dir snap subpath s = Some (s', vfs_new p parse_dir snap subpath)"
proof (cases subpath)
  case None
  then show ?thesis by (simp add: live_vfs_def vfs_new_def rooted_vfs_def prog_lift_def)
next
  case (Some sp)
  obtain s' where walk: "live_walk E parse_dir (subpath_components sp) (root_directory snap) s
      = Some (s', walk_subpath p parse_dir (subpath_components sp) (root_directory snap))"
    using live_walk_answers [OF assms] by blast
  have "vfs_new p parse_dir snap subpath
      = omap rooted_vfs (walk_subpath p parse_dir (subpath_components sp) (root_directory snap))"
    using rooted_update [of _ "root_directory snap"] Some
    by (simp add: vfs_new_def resolve_subpath_def get_node_def rooted_vfs_def [abs_def])
  then show ?thesis using walk Some
    by (cases "walk_subpath p parse_dir (subpath_components sp) (root_directory snap)")
      (auto simp: live_vfs_def prog_bind_def prog_lift_def)
qed

section \<open>Starting an FSKit mount\<close>

datatype fskit_mount_error =
    MissingBundleId
  | ParentMissing
  | AlreadyMounted string
  | MountDir string string
  | VfsFailed string
  | SessionFailed string

fun fskit_mount_error_display :: "fskit_mount_error \<Rightarrow> string" where
  "fskit_mount_error_display MissingBundleId = ''fskit_bundle_id is not configured (set CTXFS_FSKIT_BUNDLE_ID)''"
| "fskit_mount_error_display ParentMissing = ''/Volumes/ctxfs/ does not exist '' @ [CHR 0xE2, CHR 0x80, CHR 0x94] @ '' run `ctxfs setup install-fskit`''"
| "fskit_mount_error_display (AlreadyMounted slug) =
     ''/Volumes/ctxfs/'' @ slug @ '' appears to already be mounted '' @ [CHR 0xE2, CHR 0x80, CHR 0x94] @ '' unmount it first''"
| "fskit_mount_error_display (MountDir slug e) = ''failed to create /Volumes/ctxfs/'' @ slug @ '': '' @ e"
| "fskit_mount_error_display (VfsFailed e) = ''failed to build VfsState: '' @ e"
| "fskit_mount_error_display (SessionFailed e) = ''failed to start fskit-rs session: '' @ e"

text \<open>\<open>str::lines\<close>: the pieces that end in a line feed, without a carriage return before it, and a last one.\<close>

definition str_lines :: "string \<Rightarrow> string list" where
  "str_lines s =
     (let ls = split_on CHR 0x0A s
      in map (\<lambda>l. case strip_suffix [CHR 0x0D] l of Some x \<Rightarrow> x | None \<Rightarrow> l) (butlast ls)
           @ (if last ls = [] then [] else [last ls]))"

definition is_already_mounted :: "string option \<Rightarrow> string \<Rightarrow> bool" where
  "is_already_mounted table path =
     (case table of
        Some out \<Rightarrow> list_ex (str_contains ('' on '' @ path @ '' '')) (str_lines out)
      | None \<Rightarrow> False)"

definition validate_volume_path :: "('m, 'j) daemon_env \<Rightarrow> string \<Rightarrow> string \<Rightarrow> (unit, fskit_mount_error) outcome" where
  "validate_volume_path D path slug =
     (case dv_path_kind D path of
        IsDirectory \<Rightarrow> if is_already_mounted (dv_mount_table D) path then Err (AlreadyMounted slug) else Ok ()
      | NotDirectory \<Rightarrow> Err (MountDir slug ''path exists but is not a directory'')
      | Missing \<Rightarrow> (case dv_create_dir_error D path of Some e \<Rightarrow> Err (MountDir slug e) | None \<Rightarrow> Ok ())
      | Unreadable e \<Rightarrow> Err (MountDir slug e))"

definition start_fskit_mount ::
  "('m, 'j) daemon_env \<Rightarrow> source_spec \<Rightarrow> provider_fields \<Rightarrow> snapshot \<Rightarrow> string option \<Rightarrow> string \<Rightarrow>
     ('m github, fskit_handle, fskit_mount_error) task" where
  "start_fskit_mount D src pf snap subpath bundle_id =
     (let slug = volume_slug (rg_lower (dv_registry D)) src;
          volume_path = path_push ''/Volumes/ctxfs'' slug
      in if \<not> dv_volumes_exists D then prog_lift (Err ParentMissing)
         else
           prog_bind (prog_lift (validate_volume_path D volume_path slug)) (\<lambda>_.
           prog_bind (with_error (\<lambda>e. VfsFailed (vfs_error_display e))
               (live_vfs (dv_github D) (dv_dir_parse D) snap subpath)) (\<lambda>v.
           case dv_session_error D bundle_id volume_path of
             Some e \<Rightarrow> prog_lift (Err (SessionFailed e))
           | None \<Rightarrow>
               prog_return
                 \<lparr> fh_session = Some (with_unmount_notifier (adapter_new slug (source_display_name src)),
                     \<lparr> sv_provider = pf, sv_vfs = v \<rparr>),
                   fh_volume_path = volume_path, fh_unmount_rx = True \<rparr>)))"

end
