(* ===== verification/Daemon.thy ===== *)
theory Daemon
  imports Daemon_Mount Observability
begin

text \<open>
  The daemon, \<open>crates/ctxfs-daemon/src/daemon.rs\<close>: resolving a source and preparing a mount, the two
  backends, unmounting, the handlers of the RPC interface, start and shutdown. Every handler is one step on
  the daemon's state; \<open>None\<close> stands for a provider or cache loop that does not end, \<open>Panic\<close> for a panic.
\<close>

section \<open>Resolving a source\<close>

record resolver_fns =
  rv_resolve :: "string \<Rightarrow> string \<Rightarrow> resolved_source ctxfs_result"
  rv_resolve_latest :: "string \<Rightarrow> string ctxfs_result"

definition make_resolver :: "registry_env \<Rightarrow> source_spec \<Rightarrow> (resolver_fns, string) outcome" where
  "make_resolver R src =
     (case sp_provider src of
        Npm \<Rightarrow> Ok \<lparr> rv_resolve = npm_resolve R, rv_resolve_latest = npm_resolve_latest R \<rparr>
      | PyPI \<Rightarrow> Ok \<lparr> rv_resolve = pypi_resolve R, rv_resolve_latest = pypi_resolve_latest R \<rparr>
      | Crate \<Rightarrow> Ok \<lparr> rv_resolve = crate_resolve R, rv_resolve_latest = crate_resolve_latest R \<rparr>
      | GitHub \<Rightarrow> Err (''GitHub sources don'' @ [CHR 0x27] @ ''t use a registry resolver''))"

text \<open>The version a registry is asked for: the newest one under the name \<open>latest\<close>.\<close>

definition wanted_version :: "resolver_fns \<Rightarrow> source_spec \<Rightarrow> (string, string) outcome" where
  "wanted_version rv src =
     (if sp_version src = ''latest''
      then map_err (\<lambda>e. ''failed to resolve latest: '' @ error_display e) (rv_resolve_latest rv (sp_name src))
      else Ok (sp_version src))"

definition or_else :: "'a option \<Rightarrow> 'a option \<Rightarrow> 'a option" where
  "or_else x y = (case x of Some _ \<Rightarrow> x | None \<Rightarrow> y)"

definition store_resolution ::
  "('m, 'j) daemon_env \<Rightarrow> string \<Rightarrow> resolved_source \<Rightarrow> bool \<Rightarrow> 'm daemon \<Rightarrow> 'm daemon" where
  "store_resolution D key r is_latest s =
     (let (rc, fs, _) = resolution_put (dv_print_resolutions D) (dv_fs D) (dv_clock D) key r is_latest
                          (dm_resolutions s) (dm_files s)
      in s\<lparr> dm_resolutions := rc, dm_files := fs \<rparr>)"

definition resolve_source ::
  "('m, 'j) daemon_env \<Rightarrow> string \<Rightarrow> source_spec \<Rightarrow> ('m daemon, source_spec \<times> resolved_source, string) task" where
  "resolve_source D source_str src =
     (if sp_provider src = GitHub
      then prog_lift (omap
             (\<lambda>(o', r). (src, \<lparr> rs_owner = o', rs_repo = r, rs_git_ref = sp_version src, rs_subpath = sp_subpath src \<rparr>))
             (ok_or (''invalid github source: '' @ sp_name src) (split_once CHR ''/'' (sp_name src))))
      else
        prog_bind (prog_read (\<lambda>s. resolution_get (dv_clock D) source_str (dm_resolutions s))) (\<lambda>cached.
        case cached of
          Some r \<Rightarrow> prog_return (src, r\<lparr> rs_subpath := or_else (sp_subpath src) (rs_subpath r) \<rparr>)
        | None \<Rightarrow>
            prog_bind (prog_lift (make_resolver (dv_registry D) src)) (\<lambda>rv.
            prog_bind (prog_lift (wanted_version rv src)) (\<lambda>v.
            prog_bind (prog_lift (map_err error_display (rv_resolve rv (sp_name src) v))) (\<lambda>r.
            prog_bind (prog_change (store_resolution D source_str r (sp_version src = ''latest''))) (\<lambda>_.
            prog_return (src\<lparr> sp_version := v \<rparr>, r\<lparr> rs_subpath := or_else (sp_subpath src) (rs_subpath r) \<rparr>)))))))"

section \<open>Preparing a mount\<close>

record mount_prep =
  mp_source :: source_spec
  mp_github_source :: source_spec
  mp_provider :: provider_fields
  mp_snapshot :: snapshot
  mp_subpath :: "string option"
  mp_repo_key :: repo_key

definition github_source_of :: "resolved_source \<Rightarrow> source_spec" where
  "github_source_of r =
     \<lparr> sp_provider = GitHub, sp_name = rs_owner r @ ''/'' @ rs_repo r, sp_version = rs_git_ref r,
       sp_subpath = rs_subpath r \<rparr>"

definition provider_config :: "config \<Rightarrow> github_config" where
  "provider_config c = github_new (github_token c) None (github_host c)"

definition mount_fetch_options :: "config \<Rightarrow> mount_options \<Rightarrow> fetch_options" where
  "mount_fetch_options c opts =
     \<lparr> fo_prefetch = mo_prefetch opts, fo_threshold_count = prefetch_threshold_count c,
       fo_max_bytes = prefetch_max_bytes c \<rparr>"

definition build_github_provider_for_mount :: "'m daemon \<Rightarrow> 'm daemon" where
  "build_github_provider_for_mount s = s\<lparr> dm_shared := load_fields fresh_provider (dm_shared s) \<rparr>"

text \<open>A failure after the reservation was registered takes it back.\<close>

definition roll_back :: "repo_key \<Rightarrow> string \<Rightarrow> ('m daemon, 'a, string) task" where
  "roll_back key e = prog_bind (prog_change (on_cache (unregister_mount key))) (\<lambda>_. prog_lift (Err e))"

definition finish_prep ::
  "source_spec \<Rightarrow> source_spec \<Rightarrow> repo_key \<Rightarrow> snapshot \<Rightarrow> ('m daemon, mount_prep, string) task" where
  "finish_prep src gh key snap =
     prog_bind (prog_change (\<lambda>s. on_cache (add_owners key (snapshot_blob_hexes (dm_shared s))) s)) (\<lambda>_.
     prog_bind (prog_change (\<lambda>s. s\<lparr> dm_shared := set_mount_cache (Some \<lparr> repo_key = key \<rparr>) (dm_shared s) \<rparr>)) (\<lambda>_.
     prog_read (\<lambda>s. \<lparr> mp_source = src, mp_github_source = gh, mp_provider = fields_of (dm_shared s),
                      mp_snapshot = snap, mp_subpath = sp_subpath gh, mp_repo_key = key \<rparr>)))"

definition fetch_for_mount ::
  "('m, 'j) daemon_env \<Rightarrow> mount_options \<Rightarrow> source_spec \<Rightarrow> source_spec \<Rightarrow> repo_key \<Rightarrow>
     ('m daemon, mount_prep, string) task" where
  "fetch_for_mount D opts src gh key =
     prog_bind (prog_read dm_config) (\<lambda>c.
     prog_try (on_shared (fetch_snapshot_with_options (dv_github D) (provider_config c) gh (mount_fetch_options c opts)))
       (\<lambda>r. case r of
          Inr e \<Rightarrow> roll_back key (''failed to fetch snapshot: '' @ error_display e)
        | Inl data \<Rightarrow>
            (case dv_snapshot_parse D data of
               Inr e \<Rightarrow> roll_back key (''failed to parse snapshot: '' @ e)
             | Inl snap \<Rightarrow> finish_prep src gh key snap)))"

definition prepare_mount ::
  "('m, 'j) daemon_env \<Rightarrow> string \<Rightarrow> mount_options \<Rightarrow> ('m daemon, mount_prep, string) task" where
  "prepare_mount D source_str opts =
     prog_bind (prog_lift (map_err (\<lambda>e. ''invalid source: '' @ error_display e) (parse source_str))) (\<lambda>parsed.
     prog_bind (resolve_source D source_str parsed) (\<lambda>(src, r).
     (let gh = github_source_of r in
      prog_bind (prog_lift (ok_or (''invalid github source name: '' @ sp_name gh)
          (split_once CHR ''/'' (sp_name gh)))) (\<lambda>(owner, repo).
      prog_bind (prog_read (\<lambda>s. RepoKey (github_host (dm_config s)) owner repo)) (\<lambda>key.
      prog_bind (prog_change (on_cache (register_mount key (mo_reservation opts) []))) (\<lambda>_.
      prog_bind (prog_change build_github_provider_for_mount) (\<lambda>_.
      fetch_for_mount D opts src gh key)))))))"

section \<open>The backends\<close>

text \<open>\<open>Path::parent\<close>, of a path without \<open>.\<close> components.\<close>

definition strip_slashes :: "string \<Rightarrow> string" where
  "strip_slashes p = rev (dropWhile (\<lambda>c. c = CHR ''/'') (rev p))"

definition path_parent :: "string \<Rightarrow> string option" where
  "path_parent p =
     (if strip_slashes p = [] then None
      else Some (case rsplit_once CHR ''/'' (strip_slashes p) of
             None \<Rightarrow> []
           | Some (d, _) \<Rightarrow> if strip_slashes d = [] then ''/'' else strip_slashes d))"

definition mounts_json :: "config \<Rightarrow> string" where
  "mounts_json c = state_file_new (case path_parent (pid_file c) of Some d \<Rightarrow> d | None \<Rightarrow> ''/tmp'')"

text \<open>An operation on \<open>mounts.json\<close> whose failure is only logged.\<close>

definition change_files :: "(string \<Rightarrow> file_store \<Rightarrow> file_store \<times> (unit, string) outcome) \<Rightarrow> 'm daemon \<Rightarrow> 'm daemon" where
  "change_files f s = s\<lparr> dm_files := fst (f (mounts_json (dm_config s)) (dm_files s)) \<rparr>"

definition insert_mount :: "mount_handle \<Rightarrow> 'm daemon \<Rightarrow> 'm daemon" where
  "insert_mount h s = s\<lparr> dm_mounts := AList.update (mi_id (mh_info h)) h (dm_mounts s) \<rparr>"

definition fskit_handle_of ::
  "('m, 'j) daemon_env \<Rightarrow> string \<Rightarrow> string \<Rightarrow> mount_prep \<Rightarrow> fskit_handle \<Rightarrow> mount_handle" where
  "fskit_handle_of D source_str mount_point prep fh =
     \<lparr> mh_info =
         \<lparr> mi_id = source_id (mp_source prep), mi_source = source_str, mi_mount_point = mount_point,
           mi_commit_sha = snap_commit_sha (mp_snapshot prep), mi_status = Ready, mi_mounted_at = dv_rfc3339_now D,
           mi_nfs_port = None, mi_backend = FsKit, mi_volume_path = Some (fh_volume_path fh),
           mi_symlink_paths = (if mount_point = fh_volume_path fh then [] else [mount_point]) \<rparr>,
       mh_backend = FsKit, mh_nfs = None, mh_fskit = Some (fh\<lparr> fh_unmount_rx := False \<rparr>),
       mh_repo_key = Some (mp_repo_key prep), mh_counter_mount_id = source_id (mp_github_source prep) \<rparr>"

definition state_entry_of :: "mount_info \<Rightarrow> mount_state_entry" where
  "state_entry_of info =
     \<lparr> me_source = mi_source info, me_volume_path = (case mi_volume_path info of Some vp \<Rightarrow> vp | None \<Rightarrow> []),
       me_symlink_paths = mi_symlink_paths info, me_backend = FsKit, me_tcp_port = None, me_auth_token = None \<rparr>"

definition do_mount_fskit ::
  "('m, 'j) daemon_env \<Rightarrow> string \<Rightarrow> string \<Rightarrow> mount_options \<Rightarrow> ('m daemon, mount_info, string) task" where
  "do_mount_fskit D source_str mount_point opts =
     prog_bind (prog_read (\<lambda>s. fskit_bundle_id (dm_config s))) (\<lambda>configured.
     prog_bind (prog_lift (ok_or
         (''CTXFS_FSKIT_BUNDLE_ID not set '' @ [CHR 0xE2, CHR 0x80, CHR 0x94] @ '' cannot start FSKit mount'') configured)) (\<lambda>bundle_id.
     prog_bind (prepare_mount D source_str opts) (\<lambda>prep.
     prog_bind (with_error (\<lambda>e. ''fskit mount failed: '' @ fskit_mount_error_display e)
         (on_shared (start_fskit_mount D (mp_source prep) (mp_provider prep) (mp_snapshot prep) (mp_subpath prep) bundle_id)))
       (\<lambda>fh.
     (let h = fskit_handle_of D source_str mount_point prep fh in
      prog_bind (prog_change (change_files (\<lambda>p. state_add (dv_entries_json D) (dv_fs D) p (state_entry_of (mh_info h))))) (\<lambda>_.
      prog_bind (prog_change (insert_mount h)) (\<lambda>_. prog_return (mh_info h))))))))"

text \<open>A port of the loopback interface, from binding and closing a socket.\<close>

definition pick_free_port :: "('m, 'j) daemon_env \<Rightarrow> (u16, string) outcome" where
  "pick_free_port D =
     (case dv_bind D of
        Inr e \<Rightarrow> Err (''failed to reserve port: '' @ e)
      | Inl (Inr e) \<Rightarrow> Err (''failed to read local addr: '' @ e)
      | Inl (Inl port) \<Rightarrow> Ok port)"

definition nfs_handle_of ::
  "('m, 'j) daemon_env \<Rightarrow> string \<Rightarrow> string \<Rightarrow> mount_prep \<Rightarrow> u16 \<Rightarrow> vfs \<Rightarrow> mount_handle" where
  "nfs_handle_of D source_str mount_point prep port v =
     \<lparr> mh_info =
         \<lparr> mi_id = source_id (mp_source prep), mi_source = source_str, mi_mount_point = mount_point,
           mi_commit_sha = snap_commit_sha (mp_snapshot prep), mi_status = Ready, mi_mounted_at = dv_rfc3339_now D,
           mi_nfs_port = Some port, mi_backend = Nfs, mi_volume_path = None, mi_symlink_paths = [] \<rparr>,
       mh_backend = Nfs,
       mh_nfs = Some \<lparr> ns_addr = ''127.0.0.1:'' @ show_nat (unat port),
                       ns_served = \<lparr> sv_provider = mp_provider prep, sv_vfs = v \<rparr> \<rparr>,
       mh_fskit = None, mh_repo_key = Some (mp_repo_key prep), mh_counter_mount_id = source_id (mp_github_source prep) \<rparr>"

definition spawn_nfs :: "('m, 'j) daemon_env \<Rightarrow> string \<Rightarrow> (unit, string) outcome" where
  "spawn_nfs D addr =
     (case dv_spawn_error D addr of
        Some e \<Rightarrow> Err (''failed to start NFS server on '' @ addr @ '': '' @ e) | None \<Rightarrow> Ok ())"

definition do_mount_nfs ::
  "('m, 'j) daemon_env \<Rightarrow> string \<Rightarrow> string \<Rightarrow> mount_options \<Rightarrow> ('m daemon, mount_info, string) task" where
  "do_mount_nfs D source_str mount_point opts =
     prog_bind (prepare_mount D source_str opts) (\<lambda>prep.
     prog_bind (prog_lift (case dv_mkdir_error D mount_point of
         Some e \<Rightarrow> Err (''failed to create mount point: '' @ e) | None \<Rightarrow> Ok ())) (\<lambda>_.
     prog_bind (prog_lift (pick_free_port D)) (\<lambda>port.
     prog_bind (with_error (\<lambda>e. ''failed to build VFS: '' @ vfs_error_display e)
         (on_shared (live_vfs (dv_github D) (dv_dir_parse D) (mp_snapshot prep) (mp_subpath prep)))) (\<lambda>v.
     prog_bind (prog_lift (spawn_nfs D (''127.0.0.1:'' @ show_nat (unat port)))) (\<lambda>_.
     (let h = nfs_handle_of D source_str mount_point prep port v in
      prog_bind (prog_change (insert_mount h)) (\<lambda>_. prog_return (mh_info h))))))))"

definition do_mount ::
  "('m, 'j) daemon_env \<Rightarrow> string \<Rightarrow> string \<Rightarrow> backend \<Rightarrow> mount_options \<Rightarrow> ('m daemon, mount_info, string) task" where
  "do_mount D source_str mount_point b opts =
     (case b of
        Nfs \<Rightarrow> do_mount_nfs D source_str mount_point opts
      | FsKit \<Rightarrow> do_mount_fskit D source_str mount_point opts)"

section \<open>Unmounting\<close>

definition do_unmount_by_id :: "('m, 'j) daemon_env \<Rightarrow> string \<Rightarrow> ('m daemon, unit, string) task" where
  "do_unmount_by_id D mount_id =
     prog_bind (prog_read (\<lambda>s. map_of (dm_mounts s) mount_id)) (\<lambda>handle.
     case handle of
       None \<Rightarrow> prog_lift (Err (''mount not found: '' @ mount_id))
     | Some h \<Rightarrow>
         prog_bind (prog_change (\<lambda>s. s\<lparr> dm_mounts := AList.delete mount_id (dm_mounts s) \<rparr>)) (\<lambda>_.
         prog_bind (prog_change (case mh_repo_key h of Some key \<Rightarrow> on_cache (unregister_mount key) | None \<Rightarrow> id)) (\<lambda>_.
         prog_change (case mi_volume_path (mh_info h) of
             Some vp \<Rightarrow> change_files (\<lambda>p. state_remove_volume (dv_entries_json D) (dv_fs D) p vp)
           | None \<Rightarrow> id))))"

section \<open>The handlers of the RPC interface\<close>

definition rpc_mount ::
  "('m, 'j) daemon_env \<Rightarrow> string \<Rightarrow> string \<Rightarrow> backend \<Rightarrow> mount_options \<Rightarrow> ('m daemon, mount_info, string) task" where
  "rpc_mount D source_str mount_point b opts s =
     map_option (\<lambda>(s', r). (s', case r of Panic \<Rightarrow> Err (''mount task panicked: '' @ dv_panic_text D) | _ \<Rightarrow> r))
       (do_mount D source_str mount_point b opts s)"

definition is_target :: "string \<Rightarrow> mount_info \<Rightarrow> bool" where
  "is_target t info \<longleftrightarrow> mi_mount_point info = t \<or> mi_id info = t \<or> mi_volume_path info = Some t"

definition rpc_unmount :: "('m, 'j) daemon_env \<Rightarrow> string \<Rightarrow> ('m daemon, unit, string) task" where
  "rpc_unmount D t =
     prog_bind (prog_read (\<lambda>s. List.find (\<lambda>(_, h). is_target t (mh_info h)) (dv_mount_order D (dm_mounts s)))) (\<lambda>found.
     case found of
       Some (k, _) \<Rightarrow> do_unmount_by_id D k
     | None \<Rightarrow> prog_lift (Err (''mount not found: '' @ t)))"

definition rpc_list :: "('m, 'j) daemon_env \<Rightarrow> 'm daemon \<Rightarrow> mount_info list" where
  "rpc_list D s = map (\<lambda>(_, h). mh_info h) (dv_mount_order D (dm_mounts s))"

definition rpc_status :: "string \<Rightarrow> 'm daemon \<Rightarrow> (mount_info, string) outcome" where
  "rpc_status mount_id s =
     ok_or (''mount not found: '' @ mount_id) (map_option mh_info (map_of (dm_mounts s) mount_id))"

definition daemon_trees :: "'m daemon \<Rightarrow> tree_cache" where
  "daemon_trees s = (case gs_tree_cache (dm_shared s) of Some t \<Rightarrow> t | None \<Rightarrow> tree_cache_new [] 0 [])"

definition stats_with :: "('m, 'j) daemon_env \<Rightarrow> u64 \<Rightarrow> 'm daemon \<Rightarrow> cache_stats" where
  "stats_with D freed s =
     (let (total, n) = stats (ev_lru (dv_github D)) (gs_cache (dm_shared s));
          (trees, tree_bytes) = tree_stats (dv_fs D) (daemon_trees s)
      in \<lparr> cs_total_bytes = total, cs_entry_count = n, cs_freed_bytes = freed, cs_tree_count = trees,
           cs_tree_bytes = tree_bytes, cs_resolution_count = resolution_entry_count (dm_resolutions s) \<rparr>)"

definition rpc_cache_stats :: "('m, 'j) daemon_env \<Rightarrow> ('m daemon, cache_stats, string) task" where
  "rpc_cache_stats D = prog_read (stats_with D 0)"

text \<open>An operation of the blob cache as a step.\<close>

definition cache_task ::
  "('m blob_cache \<Rightarrow> ('m blob_cache \<times> ('a, 'e) outcome) option) \<Rightarrow> ('m daemon, 'a, 'e) task" where
  "cache_task m s = map_option (\<lambda>(c, r). (on_cache (\<lambda>_. c) s, r)) (m (gs_cache (dm_shared s)))"

definition prune_trees :: "('m, 'j) daemon_env \<Rightarrow> ('m daemon, unit, string) task" where
  "prune_trees D s =
     (let (t, r) = prune_all (dv_tree_root_exists D) (dv_tree_prune_failure D) (dv_fs D) (daemon_trees s)
      in Some (s\<lparr> dm_shared := (dm_shared s)\<lparr> gs_tree_cache := Some t \<rparr> \<rparr>, r))"

definition rpc_cache_prune :: "('m, 'j) daemon_env \<Rightarrow> u64 option \<Rightarrow> ('m daemon, cache_stats, string) task" where
  "rpc_cache_prune D limit =
     prog_bind (with_error (\<lambda>e. ''prune failed: '' @ error_display e)
         (cache_task (prune (ev_lru (dv_github D)) (ev_io (dv_github D)) limit))) (\<lambda>freed.
     prog_bind (with_error (\<lambda>e. ''tree cache prune failed: '' @ e) (prune_trees D)) (\<lambda>_.
     prog_read (stats_with D freed)))"

definition rpc_cache_breakdown :: "('m, 'j) daemon_env \<Rightarrow> ('m daemon, cache_breakdown, string) task" where
  "rpc_cache_breakdown D =
     prog_read (\<lambda>s.
       let (total, n) = stats (ev_lru (dv_github D)) (gs_cache (dm_shared s));
           (trees, tree_bytes) = tree_stats (dv_fs D) (daemon_trees s)
       in \<lparr> cb_blob_bytes = total, cb_blob_count = of_nat n, cb_tree_bytes = tree_bytes, cb_tree_count = of_nat trees,
            cb_max_bytes = max_bytes (gs_cache (dm_shared s)) \<rparr>)"

definition rpc_set_cache_limits :: "('m, 'j) daemon_env \<Rightarrow> u64 \<Rightarrow> ('m daemon, cache_breakdown, string) task" where
  "rpc_set_cache_limits D limit =
     prog_bind (with_error error_display
         (cache_task (set_max_bytes (ev_lru (dv_github D)) (ev_io (dv_github D)) limit))) (\<lambda>_.
     rpc_cache_breakdown D)"

definition rpc_prune_blobs :: "('m, 'j) daemon_env \<Rightarrow> u64 \<Rightarrow> ('m daemon, u64, string) task" where
  "rpc_prune_blobs D limit =
     with_error error_display (cache_task (prune_blobs (ev_lru (dv_github D)) (ev_io (dv_github D)) limit))"

definition rpc_ping :: "('m daemon, string, string) task" where
  "rpc_ping = prog_return ''pong''"

section \<open>The status report\<close>

text \<open>From the counters' mount id to the reservation's key; of two mounts with one id the later counts.\<close>

definition keys_by_mount :: "('m, 'j) daemon_env \<Rightarrow> 'm daemon \<Rightarrow> (string \<times> repo_key) list" where
  "keys_by_mount D s =
     foldl (\<lambda>m (_, h). case mh_repo_key h of Some k \<Rightarrow> AList.update (mh_counter_mount_id h) k m | None \<Rightarrow> m) []
       (dv_mount_order D (dm_mounts s))"

definition with_cache_figures ::
  "'m lru_ops \<Rightarrow> 'm blob_cache \<Rightarrow> (string \<times> repo_key) list \<Rightarrow> 'f mount_summary \<Rightarrow> 'f mount_summary" where
  "with_cache_figures L c keys m =
     (case map_of keys (ms_mount_id m) of
        Some k \<Rightarrow> m\<lparr> ms_working_set_bytes := working_set_bytes L k c,
                     ms_cache_reservation_bytes := (case reservation_bytes k c of Some b \<Rightarrow> b | None \<Rightarrow> 0) \<rparr>
      | None \<Rightarrow> m)"

definition assemble_status_report ::
  "('m, 'j) daemon_env \<Rightarrow> (u64 \<Rightarrow> u64 \<Rightarrow> 'f) \<Rightarrow> 'm daemon \<Rightarrow> 'f status_report_v1" where
  "assemble_status_report D div_f64 s =
     (let c = gs_cache (dm_shared s);
          report = status_report div_f64 (gs_observability (dm_shared s))
      in report\<lparr> mounts := map (with_cache_figures (ev_lru (dv_github D)) c (keys_by_mount D s)) (mounts report),
                 cache_eviction_attempts_blocked_by_reservation := eviction_blocked_total c \<rparr>)"

definition rpc_get_status ::
  "('m, 'j) daemon_env \<Rightarrow> (u64 \<Rightarrow> u64 \<Rightarrow> 'f) \<Rightarrow> ('m daemon, 'f status_report_v1, string) task" where
  "rpc_get_status D div_f64 = prog_read (assemble_status_report D div_f64)"

section \<open>Start and shutdown\<close>

text \<open>\<open>Daemon::new\<close> over what the files hold.\<close>

definition daemon_new ::
  "('m, 'j) github_env \<Rightarrow> fs_env \<Rightarrow> (scan_entry list \<Rightarrow> scan_entry list) \<Rightarrow> algo_dir list option \<Rightarrow>
     (string \<rightharpoonup> bytes) \<Rightarrow> nat \<Rightarrow> (tmp_entry list + string) option \<Rightarrow> file_store \<Rightarrow> (bytes \<Rightarrow> resolutions option) \<Rightarrow>
     file_store \<Rightarrow> config \<Rightarrow> ('m daemon, string) outcome" where
  "daemon_new E env hash_order listing blobs now tmp_listing trees parse_resolutions files c =
     omap (\<lambda>cache.
       let cache1 = fst (cleanup_orphan_temps (ev_io E) now (3600 * nanos) tmp_listing cache)
       in \<lparr> dm_config = c,
            dm_shared =
              \<lparr> gs_cache = cache1,
                gs_tree_cache = Some (tree_cache_new (path_push (cache_dir c) ''trees'') (tree_cache_max_bytes c) trees),
                gs_shared_puts = [], gs_observability = observability_new,
                gs_flights = \<lparr> registry = [], slot_cells = [] \<rparr>, gs_counter_key = None, gs_active_source = None,
                gs_sha_to_path = [], gs_mount_cache = None, gs_log = [] \<rparr>,
            dm_resolutions = resolution_load parse_resolutions env files
              (path_push (cache_dir c) ''resolutions.json'') (latest_ttl_secs c),
            dm_mounts = [], dm_files = files \<rparr>)
       (map_err (\<lambda>_. ''failed to initialize cache'')
         (blob_cache_new (ev_lru E) (ev_io E) hash_order listing (cache_dir c) (cache_max_bytes c) blobs))"

text \<open>The PID file: the pid in it and whether the process table has it.\<close>

definition parse_i32 :: "string \<Rightarrow> int option" where
  "parse_i32 s =
     (case s of
        c # cs \<Rightarrow>
          if c = CHR ''-''
          then (if cs \<noteq> [] \<and> list_all is_digit cs \<and> digits_val cs \<le> 2 ^ 31 then Some (- int (digits_val cs)) else None)
          else map_option int (parse_uint 31 s)
      | [] \<Rightarrow> None)"

definition running_pid :: "fs_env \<Rightarrow> (int \<Rightarrow> bool) \<Rightarrow> string \<Rightarrow> file_store \<Rightarrow> int option" where
  "running_pid env alive path fs =
     (case map_of fs path of
        Some (data, _) \<Rightarrow>
          if fs_read_ok env path
          then (case parse_i32 (str_trim data) of Some pid \<Rightarrow> if alive pid then Some pid else None | None \<Rightarrow> None)
          else None
      | None \<Rightarrow> None)"

definition show_int :: "int \<Rightarrow> string" where
  "show_int i = (if i < 0 then ''-'' @ show_nat (nat (- i)) else show_nat (nat i))"

definition write_pid_file ::
  "fs_env \<Rightarrow> (int \<Rightarrow> bool) \<Rightarrow> nat \<Rightarrow> 'm daemon \<Rightarrow> 'm daemon \<times> (unit, string) outcome" where
  "write_pid_file env alive own_pid s =
     (let path = pid_file (dm_config s) in
      case Option.bind (path_parent path) (fs_mkdir_error env) of
        Some e \<Rightarrow> (s, Err e)
      | None \<Rightarrow>
          (case running_pid env alive path (dm_files s) of
             Some pid \<Rightarrow> (s, Err (''daemon already running with PID '' @ show_int pid))
           | None \<Rightarrow>
               (let (fs, r) = store_write env path (show_nat own_pid) (dm_files s)
                in (s\<lparr> dm_files := fs \<rparr>, r))))"

text \<open>The volumes of a previous run that are force-unmounted, and the file without them.\<close>

definition cleanup_stale_mounts :: "entries_json \<Rightarrow> fs_env \<Rightarrow> 'm daemon \<Rightarrow> 'm daemon \<times> string list" where
  "cleanup_stale_mounts J env s =
     (let es = state_read J env (mounts_json (dm_config s)) (dm_files s)
      in if es = [] then (s, [])
         else (change_files (\<lambda>p. state_clear J env p) s, map me_volume_path (filter (\<lambda>e. me_backend e = FsKit) es)))"

text \<open>The beginning of \<open>Daemon::run\<close>: the volumes it force-unmounts, and whether it goes on.\<close>

definition daemon_start ::
  "entries_json \<Rightarrow> fs_env \<Rightarrow> (int \<Rightarrow> bool) \<Rightarrow> nat \<Rightarrow> 'm daemon \<Rightarrow> 'm daemon \<times> string list \<times> (unit, string) outcome" where
  "daemon_start J env alive own_pid s =
     (let (s1, volumes) = cleanup_stale_mounts J env s; (s2, r) = write_pid_file env alive own_pid s1
      in (s2, volumes, r))"

definition remove_file :: "fs_env \<Rightarrow> string \<Rightarrow> file_store \<Rightarrow> file_store" where
  "remove_file env p fs = (if fs_remove_ok env p then AList.delete p fs else fs)"

definition daemon_cleanup :: "entries_json \<Rightarrow> fs_env \<Rightarrow> 'm daemon \<Rightarrow> 'm daemon" where
  "daemon_cleanup J env s =
     (let s1 = change_files (\<lambda>p. state_clear J env p) (s\<lparr> dm_mounts := [] \<rparr>)
      in s1\<lparr> dm_files := remove_file env (socket_path (dm_config s)) (remove_file env (pid_file (dm_config s)) (dm_files s1)) \<rparr>)"

end
