(* ===== verification/Git_Reservations.thy ===== *)
theory Git_Reservations
  imports Git_Relations Cache_Budget
begin

text \<open>
  The provider uses the cache but never its reservations: those are the daemon's. A third instance of the
  relations of \<open>Git_Relations\<close>.
\<close>

definition reserved :: "'m blob_cache \<Rightarrow> (repo_key \<times> reservation_entry) list" where
  "reserved c = reservations (state c)"

lemma evict_loop_reservations:
  "evict_loop L limit rotated st blocked evicted = Some p \<Longrightarrow> reservations (fst p) = reservations st"
proof (rule evict_loop.raw_induct [rotated], assumption)
  fix loop :: "'a lru_ops \<Rightarrow> u64 \<Rightarrow> nat \<Rightarrow> 'a cache_state \<Rightarrow> u64 \<Rightarrow> (string \<times> hash_algorithm) list \<Rightarrow>
     ('a cache_state \<times> u64 \<times> (string \<times> hash_algorithm) list) option"
    and L limit rotated st blocked evicted p
  assume IH: "\<And>L limit rotated st blocked evicted p.
      loop L limit rotated st blocked evicted = Some p \<Longrightarrow> reservations (fst p) = reservations st"
    and step: "(if limit < total_bytes st \<and> \<not> lhm_is_empty L (entries st) then
        if lhm_len L (entries st) \<le> rotated then Some (st, blocked, evicted)
        else (case lhm_front L (entries st) of
          None \<Rightarrow> Some (st, blocked, evicted)
        | Some (candidate_hex, e) \<Rightarrow>
            if is_protected_by_reservation L candidate_hex st then
              loop L limit (rotated + 1)
                (st\<lparr> entries := lhm_get_refresh L candidate_hex (entries st) \<rparr>) (blocked + 1) evicted
            else (case lhm_pop_front L (entries st) of
              Some ((k, entry), es) \<Rightarrow>
                loop L limit 0
                  (st\<lparr> entries := es, total_bytes := total_bytes st - entry_size entry,
                       blob_owners := AList.delete k (blob_owners st) \<rparr>)
                  blocked (evicted @ [(k, entry_algorithm entry)])
            | None \<Rightarrow> loop L limit 0 st blocked evicted))
      else Some (st, blocked, evicted)) = Some p"
  from step show "reservations (fst p) = reservations st"
    by (auto split: if_splits option.splits prod.splits dest: IH)
qed

lemma remove_files_reserved: "remove_blob_files io evs c = (c', r) \<Longrightarrow> reserved c' = reserved c"
proof (induction evs arbitrary: c)
  case (Cons ev evs)
  obtain k a where ev: "ev = (k, a)" by (cases ev)
  obtain c1 r1 where one: "remove_blob_file io k a c = (c1, r1)" by (cases "remove_blob_file io k a c")
  then have "reserved c1 = reserved c" by (auto simp: remove_blob_file_def reserved_def split: option.splits if_splits)
  then show ?case using Cons.IH [of c1] Cons.prems ev one by (cases r1) auto
qed simp

lemma track_reserved:
  assumes "track_and_evict L io d sz c = Some (c', r)"
  shows "reserved c' = reserved c"
proof -
  obtain c1 ev where one: "lru_insert_evict L (dg_hex d) sz (dg_algorithm d) c = Some (c1, ev)"
    and two: "remove_blob_files io ev c1 = (c', r)"
    using assms by (auto simp: track_and_evict_def)
  have "reserved c1 = reserved c"
    using one by (auto simp: lru_insert_evict_def Let_def reserved_def dest!: evict_loop_reservations split: option.splits)
  then show ?thesis using remove_files_reserved [OF two] by simp
qed

lemma put_reserved: "blob_put L io d data c = Some (c', r) \<Longrightarrow> reserved c' = reserved c"
  by (auto simp: blob_put_def reserved_def split: option.splits dest!: track_reserved)

lemma get_reserved: "blob_get L io d c = (c', r) \<Longrightarrow> reserved c' = reserved c"
  by (auto simp: blob_get_def reserved_def Let_def split: option.splits)

lemma finalize_reserved:
  assumes "writer_finalize L io w d c = Some (c', r)"
  shows "reserved c' = reserved c"
  by (cases rule: finalize_cases [OF assms]) (auto dest!: track_reserved simp: reserved_def)

lemma add_owner_reserved [simp]: "reserved (add_owner key h c) = reserved c"
  by (simp add: add_owner_def reserved_def)

lemma commit_reserved:
  "commit_entry L io sha1 view path sha n e x = Some (x', r) \<Longrightarrow> reserved (ex_cache x') = reserved (ex_cache x)"
  unfolding commit_entry_def Let_def
  by (auto split: outcome.splits option.splits if_splits prod.splits dest!: finalize_reserved)

lemma extract_reserved:
  "extract_entries L io sha1 view index items x = Some (x', r) \<Longrightarrow> reserved (ex_cache x') = reserved (ex_cache x)"
proof (induction items arbitrary: x)
  case (Cons item items)
  show ?case
  proof (cases item)
    case (Inl e)
    then obtain x1 r1 where one: "extract_entry L io sha1 view index e x = Some (x1, r1)"
      using Cons.prems by (auto split: option.splits)
    then have "reserved (ex_cache x1) = reserved (ex_cache x)"
      by (auto simp: extract_entry_def split: outcome.splits if_splits option.splits prod.splits dest!: commit_reserved)
    then show ?thesis using Cons Inl one by (cases r1) auto
  qed (use Cons.prems in auto)
qed simp

definition same_reservations :: "'m github \<Rightarrow> 'm github \<Rightarrow> bool" where
  "same_reservations s s' \<longleftrightarrow> reserved (gs_cache s') = reserved (gs_cache s)"

lemma same_cache_reserved:
  "(\<And>s s' r. m s = Some (s', r) \<Longrightarrow> gs_cache s' = gs_cache s) \<Longrightarrow> along same_reservations m"
  by (auto simp: along_def same_reservations_def)

interpretation reservations: provider_relation same_reservations E cf for E cf
proof
  show "same_reservations s s" for s by (simp add: same_reservations_def)
  show "same_reservations a c" if "same_reservations a b" "same_reservations b c" for a b c
    using that by (simp add: same_reservations_def)
  show "along same_reservations (api_get E (api_url cf owner repo path) failure)" for owner repo path failure
    by (rule same_cache_reserved) (auto simp: api_get_def Let_def split: sum.splits)
  show "along same_reservations (follow_chain E cf resp)" for resp
    by (rule same_cache_reserved) (auto simp: follow_chain_def split: prod.splits)
  show "along same_reservations (cache_get E d)" for d
    by (auto simp: along_def cache_get_def same_reservations_def split: prod.splits dest: get_reserved)
  show "along same_reservations (cache_put E d data)" for d data
    by (auto simp: along_def cache_put_def same_reservations_def split: option.splits dest: put_reserved)
  show "along same_reservations (extract_into_cache E index key resp)" for index key resp
    by (auto simp: along_def extract_into_cache_def extract_archive_def Let_def same_reservations_def
        split: option.splits prod.splits sum.splits dest!: extract_reserved)
qed (auto simp: same_reservations_def record_ownership_def split: option.split)

end
