(* ===== verification/Daemon_Correct.thy ===== *)
theory Daemon_Correct
  imports Daemon Git_Reservations Cache_Budget
begin

text \<open>
  What the daemon does to its mounts and their reservations: preparing a mount, failing after it, the table
  of mounts over any sequence of requests, and mounting followed by unmounting.
\<close>

section \<open>Counting\<close>

text \<open>The mounts the cache counts for a repository, and the handles of the table that stand for them.\<close>

abbreviation counted :: "repo_key \<Rightarrow> 'm daemon \<Rightarrow> nat" where
  "counted k s \<equiv> mounts_of k (gs_cache (dm_shared s))"

definition handles_of :: "repo_key \<Rightarrow> 'm daemon \<Rightarrow> nat" where
  "handles_of k s = length (filter (\<lambda>(_, h). mh_repo_key h = Some k) (dm_mounts s))"

definition keeps :: "'m daemon \<Rightarrow> 'm daemon \<Rightarrow> bool" where
  "keeps s s' \<longleftrightarrow> dm_mounts s' = dm_mounts s \<and> dm_config s' = dm_config s \<and> (\<forall>k. counted k s' = counted k s)"

interpretation keeps: state_relation keeps
  by unfold_locales (auto simp: keeps_def)

lemma mounts_of_reserved: "reserved c' = reserved c \<Longrightarrow> mounts_of k c' = mounts_of k c"
  by (simp add: mounts_of_def reserved_def)

lemma keeps_shared: "along same_reservations m \<Longrightarrow> along keeps (on_shared m)"
  by (auto simp: along_def on_shared_def keeps_def same_reservations_def intro: mounts_of_reserved)

lemma keeps_error: "along keeps m \<Longrightarrow> along keeps (with_error f m)"
  by (auto simp: along_def with_error_def)

lemma keeps_walk: "along same_reservations (live_walk E parse_dir cs d)"
proof (induction cs arbitrary: d)
  case Nil
  then show ?case by (simp add: reservations.along_lift)
next
  case (Cons c cs)
  have "along same_reservations (with_error (\<lambda>e. provider_err_to_vfs e ''fetch_directory_for_subpath'') (gh_fetch_directory E d))"
    using reservations.along_fetch_directory [of E d] by (auto simp: along_def with_error_def)
  then show ?case
    using Cons.IH by (simp, intro reservations.along_bind reservations.along_sum reservations.along_lift) auto
qed

lemma keeps_vfs: "along same_reservations (live_vfs E parse_dir snap subpath)"
  unfolding live_vfs_def
  by (intro reservations.along_option reservations.along_bind reservations.along_lift keeps_walk)

lemma keeps_start: "along same_reservations (start_fskit_mount D src pf snap subpath bundle_id)"
proof -
  have "along same_reservations (with_error (\<lambda>e. VfsFailed (vfs_error_display e)) (live_vfs (dv_github D) (dv_dir_parse D) snap subpath))"
    using keeps_vfs [of "dv_github D"] by (auto simp: along_def with_error_def)
  then show ?thesis unfolding start_fskit_mount_def Let_def
    by (intro reservations.along_if reservations.along_bind reservations.along_option reservations.along_lift)
qed

lemma keeps_resolve: "along keeps (resolve_source D source_str src)"
  unfolding resolve_source_def
  by (intro keeps.along_if keeps.along_bind keeps.along_option keeps.along_lift keeps.along_read keeps.along_change)
    (simp add: keeps_def store_resolution_def Let_def split: prod.split)

section \<open>Preparing a mount\<close>

lemma prog_bind_cases:
  assumes "prog_bind m f s = Some (s', r)"
  obtains (ok) s1 x where "m s = Some (s1, Ok x)" "f x s1 = Some (s', r)"
    | (err) e where "m s = Some (s', Err e)" "r = Err e"
    | (panic) "m s = Some (s', Panic)" "r = Panic"
  using assms by (auto simp: prog_bind_def split: option.splits outcome.splits)

lemma prog_lift_eq: "prog_lift q s = Some (s', r) \<longleftrightarrow> s' = s \<and> r = q"
  by (auto simp: prog_lift_def)

lemma prog_read_eq: "prog_read f s = Some (s', r) \<longleftrightarrow> s' = s \<and> r = Ok (f s)"
  by (auto simp: prog_read_def)

lemma prog_change_eq: "prog_change f s = Some (s', r) \<longleftrightarrow> s' = f s \<and> r = Ok ()"
  by (auto simp: prog_change_def)

lemmas prog_eqs = prog_lift_eq prog_read_eq prog_change_eq

text \<open>The counts of the state are those of \<open>s\<close>, with one mount more for \<open>key\<close>.\<close>

definition one_more :: "repo_key \<Rightarrow> 'm daemon \<Rightarrow> 'm daemon \<Rightarrow> bool" where
  "one_more key s s' \<longleftrightarrow>
     dm_mounts s' = dm_mounts s \<and> dm_config s' = dm_config s
     \<and> (\<forall>k. counted k s' = (if k = key then counted k s + 1 else counted k s))"

lemma one_more_keeps: "one_more key s s1 \<Longrightarrow> keeps s1 s2 \<Longrightarrow> one_more key s s2"
  by (auto simp: one_more_def keeps_def)

lemma keeps_one_more: "keeps s s1 \<Longrightarrow> one_more key s1 s2 \<Longrightarrow> one_more key s s2"
  by (auto simp: one_more_def keeps_def)

lemma counted_on_cache: "counted k (on_cache f s) = mounts_of k (f (gs_cache (dm_shared s)))"
  by (simp add: on_cache_def)

lemma roll_back_undoes:
  assumes "one_more key s s1" "roll_back key e s1 = Some (s', r)"
  shows "r = Err e \<and> keeps s s'"
  using assms by (auto simp: roll_back_def prog_bind_def prog_change_def prog_lift_def keeps_def one_more_def
      counted_on_cache mounts_unregister) (auto simp: on_cache_def)

text \<open>
  What a mount is built from: its key is that of its GitHub source, its provider records new blobs under this
  key, and the blobs of its manifest are already recorded.
\<close>

definition prepared :: "mount_prep \<Rightarrow> 'm daemon \<Rightarrow> bool" where
  "prepared p s \<longleftrightarrow>
     pf_mount_cache (mp_provider p) = Some \<lparr> repo_key = mp_repo_key p \<rparr>
     \<and> list_all (\<lambda>h. owns (mp_repo_key p) h (gs_cache (dm_shared s))) (keys_of (pf_sha_to_path (mp_provider p)))"

lemma owns_add_owners: "owns k h (add_owners key hs c) \<longleftrightarrow> owns k h c \<or> k = key \<and> h \<in> set hs"
  unfolding owns_def add_owners_def
  using owner_seed [where key = key and hs = hs and bo = "blob_owners (state c)" and h = h and k = k] by simp

lemma finish_prep_keeps:
  assumes "finish_prep src gh key snap s = Some (s', r)"
  shows "keeps s s' \<and> (\<exists>p. r = Ok p \<and> mp_repo_key p = key \<and> mp_source p = src \<and> mp_github_source p = gh
    \<and> prepared p s')"
proof -
  have "mounts_of k (add_owners key hs c) = mounts_of k c" for k hs and c :: "'a blob_cache"
    by (simp add: mounts_of_def add_owners_def)
  then show ?thesis using assms
    by (auto simp: finish_prep_def prog_bind_def prog_change_def prog_read_def keeps_def on_cache_def prepared_def
        set_mount_cache_def fields_of_def snapshot_blob_hexes_def owns_add_owners list_all_iff)
qed

lemma fetch_for_mount_counts:
  assumes "one_more key s s1" "fetch_for_mount D opts src gh key s1 = Some (s', r)"
  shows "case r of Ok p \<Rightarrow> one_more key s s' \<and> mp_repo_key p = key \<and> mp_source p = src \<and> mp_github_source p = gh
      \<and> prepared p s' | Err _ \<Rightarrow> keeps s s' | Panic \<Rightarrow> one_more key s s'"
proof -
  let ?m = "on_shared (fetch_snapshot_with_options (dv_github D) (provider_config (dm_config s1)) gh
      (mount_fetch_options (dm_config s1) opts))"
  obtain s2 q where m: "?m s1 = Some (s2, q)" using assms(2)
    by (auto simp: fetch_for_mount_def prog_bind_def prog_read_def prog_try_def split: option.splits)
  have k: "keeps s1 s2" using alongD [OF keeps_shared [OF reservations.along_snapshot] m] .
  note more = one_more_keeps [OF assms(1) k]
  have run: "(case q of Ok x \<Rightarrow> (case dv_snapshot_parse D x of
        Inr e \<Rightarrow> roll_back key (''failed to parse snapshot: '' @ e) | Inl snap \<Rightarrow> finish_prep src gh key snap) s2
      | Err e \<Rightarrow> roll_back key (''failed to fetch snapshot: '' @ error_display e) s2
      | Panic \<Rightarrow> Some (s2, Panic)) = Some (s', r)"
    using assms(2) m by (simp add: fetch_for_mount_def prog_bind_def prog_read_def prog_try_def split: outcome.splits)
  show ?thesis
  proof (cases q)
    case (Ok data)
    then show ?thesis using run more
      by (auto split: sum.splits dest!: roll_back_undoes [OF more] finish_prep_keeps intro: one_more_keeps)
  next
    case (Err e)
    then show ?thesis using run by (auto dest!: roll_back_undoes [OF more])
  qed (use run more in auto)
qed

text \<open>Every key is counted below the width of the counter.\<close>

definition countable :: "'m daemon \<Rightarrow> bool" where
  "countable s \<longleftrightarrow> (\<forall>k. counted k s < 2 ^ 32 - 1)"

lemma keeps_countable: "keeps s s' \<Longrightarrow> countable s' = countable s"
  by (simp add: keeps_def countable_def)

lemma register_one_more:
  assumes "countable s"
  shows "one_more key s (build_github_provider_for_mount (on_cache (register_mount key rb []) s))"
proof -
  have "counted key s < 2 ^ 32 - 1" using assms by (simp add: countable_def)
  then have "mounts_of key (register_mount key rb [] (gs_cache (dm_shared s))) = counted key s + 1"
    unfolding mounts_register by (auto simp: mounts_of_def unat_word_ariths split: option.splits)
  moreover have "mounts_of k (register_mount key rb [] (gs_cache (dm_shared s))) = counted k s" if "k \<noteq> key" for k
    using that by (simp add: mounts_register)
  ultimately show ?thesis
    by (simp add: one_more_def build_github_provider_for_mount_def load_fields_def on_cache_def)
qed

lemma prepare_mount_effect:
  assumes "countable s" "prepare_mount D source_str opts s = Some (s', r)"
  shows "case r of
      Ok p \<Rightarrow> one_more (mp_repo_key p) s s' \<and> prepared p s'
        \<and> (\<exists>owner repo. mp_repo_key p = RepoKey (github_host (dm_config s)) owner repo
             \<and> split_once CHR ''/'' (sp_name (mp_github_source p)) = Some (owner, repo))
    | Err _ \<Rightarrow> keeps s s'
    | Panic \<Rightarrow> keeps s s' \<or> (\<exists>key. one_more key s s')"
proof -
  let ?parsed = "map_err (\<lambda>e. ''invalid source: '' @ error_display e) (parse source_str)"
  show ?thesis
  proof (cases ?parsed)
    case (Ok parsed)
    then obtain s1 q where res: "resolve_source D source_str parsed s = Some (s1, q)"
      using assms(2) by (auto simp: prepare_mount_def prog_bind_def prog_lift_def split: option.splits)
    have k1: "keeps s s1" by (rule alongD [OF keeps_resolve res])
    have c1: "countable s1" using keeps_countable [OF k1] assms(1) by simp
    show ?thesis
    proof (cases q)
      case q: (Ok sr)
      obtain src rs where sr: "sr = (src, rs)" by force
      let ?gh = "github_source_of rs"
      have "CHR ''/'' \<in> set (sp_name ?gh)" by (simp add: github_source_of_def)
      then obtain owner repo where names: "split_once CHR ''/'' (sp_name ?gh) = Some (owner, repo)"
        by (cases "split_once CHR ''/'' (sp_name ?gh)") auto
      let ?key = "RepoKey (github_host (dm_config s1)) owner repo"
      have fetch: "fetch_for_mount D opts src ?gh ?key
          (build_github_provider_for_mount (on_cache (register_mount ?key (mo_reservation opts) []) s1)) = Some (s', r)"
        using assms(2) Ok res q sr names
        by (simp add: prepare_mount_def prog_bind_def prog_lift_def prog_read_def prog_change_def Let_def)
      have host: "dm_config s1 = dm_config s" using k1 by (simp add: keeps_def)
      show ?thesis
        using fetch_for_mount_counts [OF register_one_more [OF c1] fetch] keeps_one_more [OF k1] names host
          keeps.trans [OF k1]
        by (cases r) auto
    qed (use assms(2) Ok res k1 in \<open>auto simp: prepare_mount_def prog_bind_def prog_lift_def\<close>)
  qed (use assms(2) in \<open>auto simp: prepare_mount_def prog_bind_def prog_lift_def keeps.refl\<close>)
qed

text \<open>
  C25. Preparing a mount counts it once for the repository it is of, whose reservation then is in place and whose
  blobs are recorded as this repository's; a preparation that fails, before or after it registered the
  reservation, leaves every count as it was.
\<close>

theorem prepare_mount_reservation:
  assumes "countable s" "prepare_mount D source_str opts s = Some (s', r)"
  shows "case r of
      Ok p \<Rightarrow> one_more (mp_repo_key p) s s' \<and> prepared p s'
        \<and> (\<exists>owner repo. mp_repo_key p = RepoKey (github_host (dm_config s)) owner repo
             \<and> split_once CHR ''/'' (sp_name (mp_github_source p)) = Some (owner, repo))
    | Err _ \<Rightarrow> keeps s s'
    | Panic \<Rightarrow> keeps s s' \<or> (\<exists>key. one_more key s s')"
  by (rule prepare_mount_effect [OF assms])

section \<open>Mounting\<close>

text \<open>A handle has the server of its backend, and its description says how to reach it.\<close>

definition handle_ok :: "string \<Rightarrow> mount_handle \<Rightarrow> bool" where
  "handle_ok mount_id h \<longleftrightarrow>
     mi_id (mh_info h) = mount_id \<and> mi_backend (mh_info h) = mh_backend h \<and> mi_status (mh_info h) = Ready
     \<and> mh_repo_key h \<noteq> None
     \<and> (case mh_backend h of
          Nfs \<Rightarrow> mh_fskit h = None \<and> mi_volume_path (mh_info h) = None
            \<and> (case (mh_nfs h, mi_nfs_port (mh_info h)) of
                 (Some server, Some port) \<Rightarrow> ns_addr server = ''127.0.0.1:'' @ show_nat (unat port)
               | _ \<Rightarrow> False)
        | FsKit \<Rightarrow> mh_nfs h = None \<and> mi_nfs_port (mh_info h) = None
            \<and> (case mh_fskit h of
                 Some fh \<Rightarrow> fh_session fh \<noteq> None \<and> mi_volume_path (mh_info h) = Some (fh_volume_path fh)
               | None \<Rightarrow> False))"

text \<open>A handle for \<open>key\<close> stands in the table under the id of its description; nothing else has changed since \<open>s\<close>.\<close>

definition inserted :: "repo_key \<Rightarrow> mount_info \<Rightarrow> 'm daemon \<Rightarrow> 'm daemon \<Rightarrow> bool" where
  "inserted key info s s' \<longleftrightarrow>
     (\<exists>h. dm_mounts s' = AList.update (mi_id info) h (dm_mounts s) \<and> mh_info h = info \<and> handle_ok (mi_id info) h
        \<and> mh_repo_key h = Some key)
     \<and> dm_config s' = dm_config s \<and> (\<forall>k. counted k s' = counted k s)"

definition nfs_after_prep ::
  "('m, 'j) daemon_env \<Rightarrow> string \<Rightarrow> string \<Rightarrow> mount_prep \<Rightarrow> ('m daemon, mount_info, string) task" where
  "nfs_after_prep D source_str mount_point prep =
     prog_bind (prog_lift (case dv_mkdir_error D mount_point of
         Some e \<Rightarrow> Err (''failed to create mount point: '' @ e) | None \<Rightarrow> Ok ())) (\<lambda>_.
     prog_bind (prog_lift (pick_free_port D)) (\<lambda>port.
     prog_bind (with_error (\<lambda>e. ''failed to build VFS: '' @ vfs_error_display e)
         (on_shared (live_vfs (dv_github D) (dv_dir_parse D) (mp_snapshot prep) (mp_subpath prep)))) (\<lambda>v.
     prog_bind (prog_lift (spawn_nfs D (''127.0.0.1:'' @ show_nat (unat port)))) (\<lambda>_.
     (let h = nfs_handle_of D source_str mount_point prep port v in
      prog_bind (prog_change (insert_mount h)) (\<lambda>_. prog_return (mh_info h)))))))"

definition fskit_after_prep ::
  "('m, 'j) daemon_env \<Rightarrow> string \<Rightarrow> string \<Rightarrow> string \<Rightarrow> mount_prep \<Rightarrow> ('m daemon, mount_info, string) task" where
  "fskit_after_prep D source_str mount_point bundle_id prep =
     prog_bind (with_error (\<lambda>e. ''fskit mount failed: '' @ fskit_mount_error_display e)
         (on_shared (start_fskit_mount D (mp_source prep) (mp_provider prep) (mp_snapshot prep) (mp_subpath prep) bundle_id)))
       (\<lambda>fh.
     (let h = fskit_handle_of D source_str mount_point prep fh in
      prog_bind (prog_change (change_files (\<lambda>p. state_add (dv_entries_json D) (dv_fs D) p (state_entry_of (mh_info h))))) (\<lambda>_.
      prog_bind (prog_change (insert_mount h)) (\<lambda>_. prog_return (mh_info h)))))"

lemma do_mount_nfs_parts:
  "do_mount_nfs D source_str mount_point opts = prog_bind (prepare_mount D source_str opts) (nfs_after_prep D source_str mount_point)"
  unfolding do_mount_nfs_def nfs_after_prep_def ..

lemma do_mount_fskit_parts:
  "do_mount_fskit D source_str mount_point opts =
     prog_bind (prog_read (\<lambda>s. fskit_bundle_id (dm_config s))) (\<lambda>configured.
     prog_bind (prog_lift (ok_or
         (''CTXFS_FSKIT_BUNDLE_ID not set '' @ [CHR 0xE2, CHR 0x80, CHR 0x94] @ '' cannot start FSKit mount'') configured)) (\<lambda>bundle_id.
     prog_bind (prepare_mount D source_str opts) (fskit_after_prep D source_str mount_point bundle_id)))"
  unfolding do_mount_fskit_def fskit_after_prep_def ..

lemma inserted_insert_mount:
  assumes "keeps s s2" "handle_ok (mi_id (mh_info h)) h" "mh_repo_key h = Some key"
  shows "inserted key (mh_info h) s (insert_mount h s2)"
  using assms by (auto simp: inserted_def insert_mount_def keeps_def)

text \<open>A task that, begun in a state with the counts and mounts of \<open>s0\<close>, keeps them unless it succeeds with \<open>P\<close>.\<close>

definition keeps_or :: "'m daemon \<Rightarrow> ('a \<Rightarrow> 'm daemon \<Rightarrow> bool) \<Rightarrow> ('m daemon, 'a, 'e) task \<Rightarrow> 'm daemon \<Rightarrow> bool" where
  "keeps_or s0 P m s \<longleftrightarrow> (\<forall>s' r. m s = Some (s', r) \<longrightarrow> (case r of Ok x \<Rightarrow> P x s' | _ \<Rightarrow> keeps s0 s'))"

lemma keeps_or_bind:
  assumes "keeps s0 s" "along keeps m" "\<And>s1 x. m s = Some (s1, Ok x) \<Longrightarrow> keeps s0 s1 \<Longrightarrow> keeps_or s0 P (f x) s1"
  shows "keeps_or s0 P (prog_bind m f) s"
  unfolding keeps_or_def
proof (intro allI impI)
  fix s' r assume "prog_bind m f s = Some (s', r)"
  then show "case r of Ok x \<Rightarrow> P x s' | _ \<Rightarrow> keeps s0 s'"
  proof (cases rule: prog_bind_cases)
    case (ok s1 x)
    then show ?thesis using assms keeps.trans [OF assms(1) alongD [OF assms(2) ok(1)]] by (simp add: keeps_or_def)
  qed (use keeps.trans [OF assms(1) alongD [OF assms(2)]] in auto)
qed

lemma keeps_or_final: "P x (g s) \<Longrightarrow> keeps_or s0 P (prog_bind (prog_change g) (\<lambda>_. prog_return x)) s"
  by (simp add: keeps_or_def prog_bind_def prog_change_def prog_lift_def)

lemma nfs_after_prep_effect:
  "keeps_or s (\<lambda>info. inserted (mp_repo_key prep) info s) (nfs_after_prep D source_str mount_point prep) s"
proof -
  have ok: "handle_ok (mi_id (mh_info (nfs_handle_of D source_str mount_point prep port v)))
      (nfs_handle_of D source_str mount_point prep port v)" for port v
    by (simp add: handle_ok_def nfs_handle_of_def)
  have key: "mh_repo_key (nfs_handle_of D source_str mount_point prep port v) = Some (mp_repo_key prep)" for port v
    by (simp add: nfs_handle_of_def)
  show ?thesis unfolding nfs_after_prep_def Let_def
    by (intro keeps_or_bind keeps_or_final keeps.refl keeps.along_lift keeps_error keeps_shared keeps_vfs
        inserted_insert_mount ok key)
qed

lemma start_fskit_session:
  "start_fskit_mount D src pf snap subpath bundle_id g = Some (g', Ok fh) \<Longrightarrow> fh_session fh \<noteq> None"
  by (auto simp: start_fskit_mount_def prog_bind_def prog_lift_def Let_def split: if_splits option.splits outcome.splits)

lemma with_error_Ok: "with_error f m s = Some (s', Ok x) \<longleftrightarrow> m s = Some (s', Ok x)"
proof -
  have "map_err f q = Ok x \<longleftrightarrow> q = Ok x" for q by (cases q) auto
  then show ?thesis by (auto simp: with_error_def)
qed

lemma keeps_files: "keeps s s1 \<Longrightarrow> keeps s (change_files f s1)"
  by (simp add: keeps_def change_files_def)

lemma fskit_after_prep_effect:
  "keeps_or s (\<lambda>info. inserted (mp_repo_key prep) info s) (fskit_after_prep D source_str mount_point bundle_id prep) s"
proof -
  have ok: "handle_ok (mi_id (mh_info (fskit_handle_of D source_str mount_point prep fh)))
      (fskit_handle_of D source_str mount_point prep fh)"
    if "with_error err (on_shared (start_fskit_mount D src pf snap subpath bundle_id)) s1 = Some (s2, Ok fh)"
    for err :: "fskit_mount_error \<Rightarrow> string" and s1 s2 fh src pf snap subpath
    using that by (auto simp: with_error_Ok on_shared_def handle_ok_def fskit_handle_of_def dest: start_fskit_session)
  have key: "mh_repo_key (fskit_handle_of D source_str mount_point prep fh) = Some (mp_repo_key prep)" for fh
    by (simp add: fskit_handle_of_def)
  have files: "along keeps (prog_change (change_files f))" for f
    by (rule keeps.along_change) (rule keeps_files [OF keeps.refl])
  show ?thesis unfolding fskit_after_prep_def Let_def
  proof (rule keeps_or_bind [OF keeps.refl])
    fix s1 :: "'a daemon" and fh :: fskit_handle
    let ?h = "fskit_handle_of D source_str mount_point prep fh"
    assume *: "with_error (\<lambda>e. ''fskit mount failed: '' @ fskit_mount_error_display e)
        (on_shared (start_fskit_mount D (mp_source prep) (mp_provider prep) (mp_snapshot prep) (mp_subpath prep) bundle_id)) s
        = Some (s1, Ok fh)" "keeps s s1"
    show "keeps_or s (\<lambda>info. inserted (mp_repo_key prep) info s)
        (prog_bind (prog_change (change_files (\<lambda>p. state_add (dv_entries_json D) (dv_fs D) p (state_entry_of (mh_info ?h)))))
          (\<lambda>_. prog_bind (prog_change (insert_mount ?h)) (\<lambda>_. prog_return (mh_info ?h)))) s1"
      by (intro keeps_or_bind [OF *(2) files] keeps_or_final inserted_insert_mount ok [OF *(1)] key)
  qed (intro keeps_error keeps_shared keeps_start)
qed

section \<open>What a mount request does\<close>

definition mounted :: "mount_info \<Rightarrow> 'm daemon \<Rightarrow> 'm daemon \<Rightarrow> bool" where
  "mounted info s s' \<longleftrightarrow> (\<exists>s1 key. one_more key s s1 \<and> inserted key info s1 s')"

text \<open>A mount request prepares the mount and goes on with its backend, unless FSKit is not configured.\<close>

lemma do_mount_cases:
  assumes "do_mount D source_str mount_point b opts s = Some (s', r)"
  obtains (prepares) after where "prog_bind (prepare_mount D source_str opts) after s = Some (s', r)"
      "\<And>prep s1. keeps_or s1 (\<lambda>info. inserted (mp_repo_key prep) info s1) (after prep) s1"
    | (unconfigured) e where "b = FsKit" "fskit_bundle_id (dm_config s) = None" "s' = s" "r = Err e"
proof (cases b)
  case Nfs
  show thesis
  proof (rule prepares)
    show "prog_bind (prepare_mount D source_str opts) (nfs_after_prep D source_str mount_point) s = Some (s', r)"
      using assms Nfs by (simp add: do_mount_def do_mount_nfs_parts)
  qed (rule nfs_after_prep_effect)
next
  case FsKit
  show thesis
  proof (cases "fskit_bundle_id (dm_config s)")
    case None
    have "s' = s \<and> (\<exists>e. r = Err e)" using assms FsKit None
      by (auto simp: do_mount_def do_mount_fskit_parts prog_bind_def prog_read_def prog_lift_def)
    then show thesis using unconfigured [OF FsKit None] by blast
  next
    case (Some bundle_id)
    show thesis
    proof (rule prepares)
      show "prog_bind (prepare_mount D source_str opts) (fskit_after_prep D source_str mount_point bundle_id) s = Some (s', r)"
        using assms FsKit Some
        by (simp add: do_mount_def do_mount_fskit_parts prog_bind_Ok [where m = "prog_read _"]
            prog_bind_Ok [where m = "prog_lift _"] prog_read_def prog_lift_def)
    qed (rule fskit_after_prep_effect)
  qed
qed

lemma do_mount_effect:
  assumes "countable s" "do_mount D source_str mount_point b opts s = Some (s', r)"
  shows "case r of Ok info \<Rightarrow> mounted info s s' | _ \<Rightarrow> keeps s s' \<or> (\<exists>key. one_more key s s')"
  using assms(2)
proof (cases rule: do_mount_cases)
  case (prepares after)
  from prepares(1) show ?thesis
  proof (cases rule: prog_bind_cases)
    case (ok s1 prep)
    then have one: "one_more (mp_repo_key prep) s s1" using prepare_mount_effect [OF assms(1) ok(1)] by simp
    have "case r of Ok info \<Rightarrow> inserted (mp_repo_key prep) info s1 s' | _ \<Rightarrow> keeps s1 s'"
      using prepares(2) [of s1 prep] ok(2) by (simp add: keeps_or_def)
    then show ?thesis using one one_more_keeps [OF one] by (cases r) (auto simp: mounted_def)
  qed (auto dest!: prepare_mount_effect [OF assms(1)])
qed (simp add: keeps.refl)

text \<open>
  C35. Only a failed preparation takes its reservation back. A mount whose preparation succeeded and whose backend
  then fails, for want of a mount point, a port, a subpath, a volume or a session, leaves the table as it
  was and one mount too many counted for the repository.
\<close>

theorem failed_backend_leaks_reservation:
  assumes "countable s" "prepare_mount D source_str opts s = Some (s1, Ok prep)"
    and "b = Nfs \<or> fskit_bundle_id (dm_config s) \<noteq> None"
    and "rpc_mount D source_str mount_point b opts s = Some (s', Err e)"
  shows "dm_mounts s' = dm_mounts s \<and> counted (mp_repo_key prep) s' = counted (mp_repo_key prep) s + 1
    \<and> rpc_list D s' = rpc_list D s"
proof -
  have one: "one_more (mp_repo_key prep) s s1" using prepare_mount_effect [OF assms(1,2)] by simp
  obtain r where r: "do_mount D source_str mount_point b opts s = Some (s', r)"
      "Err e = (case r of Panic \<Rightarrow> Err (''mount task panicked: '' @ dv_panic_text D) | _ \<Rightarrow> r)"
    using assms(4) by (auto simp: rpc_mount_def)
  from r(1) have "keeps s1 s'"
  proof (cases rule: do_mount_cases)
    case (prepares after)
    have "after prep s1 = Some (s', r)"
      using prepares(1) prog_bind_Ok [where m = "prepare_mount D source_str opts" and f = after, OF assms(2)] by simp
    then show ?thesis using prepares(2) [of s1 prep] r(2) by (cases r) (auto simp: keeps_or_def)
  qed (use assms(3) in auto)
  then have "one_more (mp_repo_key prep) s s'" by (rule one_more_keeps [OF one])
  then show ?thesis by (simp add: one_more_def rpc_list_def)
qed

end
