(* ===== verification/Daemon_Table.thy ===== *)
theory Daemon_Table
  imports Daemon_Correct
begin

text \<open>
  The table of mounts over any sequence of requests: every handle is well-formed and its reservation is in
  place; mounting and unmounting undo each other; what a second start of the daemon does; and which id a
  moving version gets.
\<close>

section \<open>Unmounting\<close>

lemma handles_update:
  "handles_of k s' \<le> handles_of k s + (if mh_repo_key h = Some k then 1 else 0)"
  if "dm_mounts s' = AList.update mount_id h (dm_mounts s)"
proof -
  have "length (filter (\<lambda>(_, h). mh_repo_key h = Some k) (AList.update mount_id h ms))
      \<le> length (filter (\<lambda>(_, h). mh_repo_key h = Some k) ms) + (if mh_repo_key h = Some k then 1 else 0)" for ms
    by (induction ms) auto
  then show ?thesis by (simp add: handles_of_def that)
qed

lemma handles_delete:
  assumes "distinct (keys_of (dm_mounts s))" "map_of (dm_mounts s) mount_id = Some h"
    and "dm_mounts s' = AList.delete mount_id (dm_mounts s)"
  shows "handles_of k s = handles_of k s' + (if mh_repo_key h = Some k then 1 else 0)"
proof -
  have "length (filter (\<lambda>(_, h). mh_repo_key h = Some k) ms)
      = length (filter (\<lambda>(_, h). mh_repo_key h = Some k) (AList.delete mount_id ms)) + (if mh_repo_key h = Some k then 1 else 0)"
    if "distinct (keys_of ms)" "map_of ms mount_id = Some h" for ms
    using that
  proof (induction ms)
    case (Cons p ms)
    have "AList.delete mount_id ms = ms" if "mount_id \<notin> set (keys_of ms)"
      using that by (simp add: delete_id)
    then show ?case using Cons by (cases p) (auto split: if_splits)
  qed simp
  then show ?thesis using assms by (simp add: handles_of_def)
qed

lemma unmount_effect:
  assumes "do_unmount_by_id D mount_id s = Some (s', r)"
  shows "case map_of (dm_mounts s) mount_id of
      None \<Rightarrow> s' = s \<and> r = Err (''mount not found: '' @ mount_id)
    | Some h \<Rightarrow> r = Ok () \<and> dm_mounts s' = AList.delete mount_id (dm_mounts s) \<and> dm_config s' = dm_config s
        \<and> (\<forall>k. counted k s' = (if mh_repo_key h = Some k then counted k s - 1 else counted k s))"
  using assms
  by (auto simp: do_unmount_by_id_def prog_bind_def prog_read_def prog_lift_def prog_change_def change_files_def
      on_cache_def mounts_unregister split: option.splits)

text \<open>Unmounting always returns.\<close>

lemma unmount_returns: "\<exists>s' r. do_unmount_by_id D mount_id s = Some (s', r)"
  by (auto simp: do_unmount_by_id_def prog_bind_def prog_read_def prog_lift_def prog_change_def split: option.splits)

section \<open>Any sequence of requests\<close>

definition served_of :: "mount_handle \<Rightarrow> served option" where
  "served_of h =
     (case mh_nfs h of
        Some server \<Rightarrow> Some (ns_served server)
      | None \<Rightarrow> Option.bind (mh_fskit h) (\<lambda>fh. map_option snd (fh_session fh)))"

definition with_served :: "served \<Rightarrow> mount_handle \<Rightarrow> mount_handle" where
  "with_served sv h =
     h\<lparr> mh_nfs := map_option (\<lambda>server. server\<lparr> ns_served := sv \<rparr>) (mh_nfs h),
        mh_fskit := map_option (\<lambda>fh. fh\<lparr> fh_session := map_option (\<lambda>(a, _). (a, sv)) (fh_session fh) \<rparr>) (mh_fskit h) \<rparr>"

text \<open>
  The requests that change the daemon: mount, unmount, the three cache operations, the watcher that unmounts
  an ejected volume, and a mount that serves from its provider (with any new view of its tree). \<open>W\<close> is the
  set of the answers the world may give; they may differ from step to step.
\<close>

inductive daemon_step :: "('m, 'j) daemon_env set \<Rightarrow> 'm daemon \<Rightarrow> 'm daemon \<Rightarrow> bool" for W where
  step_mount: "D \<in> W \<Longrightarrow> rpc_mount D source_str mount_point b opts s = Some (s', r) \<Longrightarrow> daemon_step W s s'"
| step_unmount: "D \<in> W \<Longrightarrow> rpc_unmount D t s = Some (s', r) \<Longrightarrow> daemon_step W s s'"
| step_eject: "D \<in> W \<Longrightarrow> do_unmount_by_id D mount_id s = Some (s', r) \<Longrightarrow> daemon_step W s s'"
| step_prune: "D \<in> W \<Longrightarrow> rpc_cache_prune D limit s = Some (s', r1) \<Longrightarrow> daemon_step W s s'"
| step_limits: "D \<in> W \<Longrightarrow> rpc_set_cache_limits D n s = Some (s', r2) \<Longrightarrow> daemon_step W s s'"
| step_prune_blobs: "D \<in> W \<Longrightarrow> rpc_prune_blobs D n s = Some (s', r3) \<Longrightarrow> daemon_step W s s'"
| step_serve: "D \<in> W \<Longrightarrow> map_of (dm_mounts s) mount_id = Some h \<Longrightarrow> served_of h = Some sv \<Longrightarrow>
    provider_step (dv_github D) (provider_config (dm_config s)) (load_fields (sv_provider sv) (dm_shared s)) g \<Longrightarrow>
    daemon_step W s
      (s\<lparr> dm_shared := g,
          dm_mounts := AList.update mount_id (with_served \<lparr> sv_provider = fields_of g, sv_vfs = v \<rparr> h) (dm_mounts s) \<rparr>)"

lemma prune_loop_reservations:
  "prune_loop L limit st evicted = Some p \<Longrightarrow> reservations (fst p) = reservations st"
proof (rule prune_loop.raw_induct [rotated], assumption)
  fix loop :: "'a lru_ops \<Rightarrow> u64 \<Rightarrow> 'a cache_state \<Rightarrow> (string \<times> u64 \<times> hash_algorithm) list \<Rightarrow>
     ('a cache_state \<times> (string \<times> u64 \<times> hash_algorithm) list) option"
    and L limit st evicted p
  assume IH: "\<And>L limit st evicted p. loop L limit st evicted = Some p \<Longrightarrow> reservations (fst p) = reservations st"
    and step: "(if limit < total_bytes st \<and> \<not> lhm_is_empty L (entries st) then
        (case evict_oldest L st of
           (Some entry, st') \<Rightarrow> loop L limit st' (evicted @ [entry])
         | (None, st') \<Rightarrow> loop L limit st' evicted)
      else Some (st, evicted)) = Some p"
  obtain e st' where one: "evict_oldest L st = (e, st')" by force
  then have "reservations st' = reservations st" by (auto simp: evict_oldest_def Let_def split: option.splits)
  then show "reservations (fst p) = reservations st"
    using step one by (auto split: if_splits option.splits dest: IH)
qed

lemma shrink_loop_reservations:
  "shrink_loop L limit st evicted = Some p \<Longrightarrow> reservations (fst p) = reservations st"
proof (rule shrink_loop.raw_induct [rotated], assumption)
  fix loop :: "'a lru_ops \<Rightarrow> u64 \<Rightarrow> 'a cache_state \<Rightarrow> (string \<times> u64 \<times> hash_algorithm) list \<Rightarrow>
     ('a cache_state \<times> (string \<times> u64 \<times> hash_algorithm) list) option"
    and L limit st evicted p
  assume IH: "\<And>L limit st evicted p. loop L limit st evicted = Some p \<Longrightarrow> reservations (fst p) = reservations st"
    and step: "(if limit < total_bytes st then
        (case evict_oldest L st of
           (Some entry, st') \<Rightarrow> loop L limit st' (evicted @ [entry])
         | (None, st') \<Rightarrow> Some (st', evicted))
      else Some (st, evicted)) = Some p"
  obtain e st' where one: "evict_oldest L st = (e, st')" by force
  then have "reservations st' = reservations st" by (auto simp: evict_oldest_def Let_def split: option.splits)
  then show "reservations (fst p) = reservations st"
    using step one by (auto split: if_splits option.splits dest: IH)
qed

lemma cache_ops_reserved:
  "prune L io limit c = Some (c', r) \<Longrightarrow> reserved c' = reserved c"
  "prune_blobs L io n c = Some (c', r) \<Longrightarrow> reserved c' = reserved c"
  "set_max_bytes L io n c = Some (c', r2) \<Longrightarrow> reserved c' = reserved c"
proof -
  have removed: "reserved (fst (remove_blob_files io evs c1)) = reserved c1" for evs c1
    by (cases "remove_blob_files io evs c1") (auto dest: remove_files_reserved)
  show "prune L io limit c = Some (c', r) \<Longrightarrow> reserved c' = reserved c"
    using removed by (auto simp: prune_def Let_def split: option.splits prod.splits
        dest!: prune_loop_reservations remove_files_reserved) (auto simp: reserved_def)
  show "prune_blobs L io n c = Some (c', r) \<Longrightarrow> reserved c' = reserved c"
    using removed by (auto simp: prune_blobs_def Let_def split: option.splits prod.splits
        dest!: shrink_loop_reservations remove_files_reserved) (auto simp: reserved_def)
  show "set_max_bytes L io n c = Some (c', r2) \<Longrightarrow> reserved c' = reserved c"
    by (auto simp: set_max_bytes_def Let_def split: option.splits prod.splits
        dest!: shrink_loop_reservations remove_files_reserved) (auto simp: reserved_def)
qed

lemma keeps_cache_task:
  "(\<And>c c' r. m c = Some (c', r) \<Longrightarrow> reserved c' = reserved c) \<Longrightarrow> along keeps (cache_task m)"
  by (auto simp: along_def cache_task_def keeps_def on_cache_def intro!: mounts_of_reserved)

lemma keeps_requests:
  "along keeps (rpc_cache_prune D limit)" "along keeps (rpc_set_cache_limits D n)" "along keeps (rpc_prune_blobs D n)"
proof -
  have trees: "along keeps (prune_trees D)"
    by (auto simp: along_def prune_trees_def keeps_def Let_def split: prod.splits)
  show "along keeps (rpc_cache_prune D limit)" unfolding rpc_cache_prune_def
    by (intro keeps.along_bind keeps_error keeps_cache_task cache_ops_reserved trees keeps.along_read)
  show "along keeps (rpc_set_cache_limits D n)" unfolding rpc_set_cache_limits_def rpc_cache_breakdown_def
    by (intro keeps.along_bind keeps_error keeps_cache_task cache_ops_reserved keeps.along_read)
  show "along keeps (rpc_prune_blobs D n)" unfolding rpc_prune_blobs_def
    by (intro keeps_error keeps_cache_task cache_ops_reserved)
qed

text \<open>The table of a mount request, whatever the counts.\<close>

definition same_table :: "'m daemon \<Rightarrow> 'm daemon \<Rightarrow> bool" where
  "same_table s s' \<longleftrightarrow> dm_mounts s' = dm_mounts s"

interpretation same_table: state_relation same_table
  by unfold_locales (auto simp: same_table_def)

lemma keeps_same_table: "along keeps m \<Longrightarrow> along same_table m"
  by (auto simp: along_def keeps_def same_table_def)

lemma prepare_same_table: "along same_table (prepare_mount D source_str opts)"
proof -
  have change: "along same_table (prog_change f)" if "\<And>s. dm_mounts (f s) = dm_mounts s" for f
    using that by (intro same_table.along_change) (simp add: same_table_def)
  have shared: "along same_table (on_shared m)" if "along same_reservations m" for m
    by (intro keeps_same_table keeps_shared that)
  note intros = same_table.along_lift same_table.along_read same_table.along_bind same_table.along_try
    same_table.along_sum same_table.along_pair
  have roll: "along same_table (roll_back key e)" for key e
    unfolding roll_back_def by (intro intros change) (simp add: on_cache_def)
  have finish: "along same_table (finish_prep src gh key snap)" for src gh key snap
    unfolding finish_prep_def by (intro intros change) (simp_all add: on_cache_def)
  have fetch: "along same_table (fetch_for_mount D opts src gh key)" for src gh key
    unfolding fetch_for_mount_def by (intro intros shared roll finish reservations.along_snapshot)
  show ?thesis unfolding prepare_mount_def Let_def
    by (intro intros change fetch keeps_same_table [OF keeps_resolve])
      (simp_all add: on_cache_def build_github_provider_for_mount_def)
qed

definition table_ok :: "'m daemon \<Rightarrow> bool" where
  "table_ok s \<longleftrightarrow> distinct (keys_of (dm_mounts s)) \<and> list_all (\<lambda>(mount_id, h). handle_ok mount_id h) (dm_mounts s)"

lemma list_all_update:
  "list_all (\<lambda>(k, v). P k v) ms \<Longrightarrow> P k v \<Longrightarrow> list_all (\<lambda>(k, v). P k v) (AList.update k v ms)"
  by (induction ms) auto

lemma table_ok_update:
  assumes "handle_ok mount_id h" "table_ok s" "dm_mounts s' = AList.update mount_id h (dm_mounts s)"
  shows "table_ok s'"
proof -
  have old: "distinct (keys_of (dm_mounts s)) \<and> list_all (\<lambda>(mount_id, h). handle_ok mount_id h) (dm_mounts s)"
    using assms(2) unfolding table_ok_def .
  have "list_all (\<lambda>(mount_id, h). handle_ok mount_id h) (AList.update mount_id h (dm_mounts s))"
    by (rule list_all_update [OF conjunct2 [OF old] assms(1)])
  with distinct_update [OF conjunct1 [OF old]] show ?thesis unfolding table_ok_def assms(3) by (rule conjI)
qed

lemma table_ok_same: "table_ok s \<Longrightarrow> dm_mounts s' = dm_mounts s \<Longrightarrow> table_ok s'"
  by (simp add: table_ok_def)

lemma table_ok_delete: "table_ok s \<Longrightarrow> dm_mounts s' = AList.delete mount_id (dm_mounts s) \<Longrightarrow> table_ok s'"
  using distinct_delete [of "dm_mounts s" mount_id] by (auto simp: table_ok_def list_all_iff AList.delete_eq)

lemma table_ok_mount:
  assumes "table_ok s" "do_mount D source_str mount_point b opts s = Some (s', r)"
  shows "table_ok s'"
  using assms(2)
proof (cases rule: do_mount_cases)
  case (prepares after)
  from prepares(1) show ?thesis
  proof (cases rule: prog_bind_cases)
    case (ok s1 prep)
    have s1: "table_ok s1" using table_ok_same [OF assms(1)] alongD [OF prepare_same_table ok(1)] by (simp add: same_table_def)
    have "case r of Ok info \<Rightarrow> inserted (mp_repo_key prep) info s1 s' | _ \<Rightarrow> keeps s1 s'"
      using prepares(2) [of s1 prep] ok(2) by (simp add: keeps_or_def)
    then show ?thesis using s1
      by (cases r) (auto simp: inserted_def keeps_def intro: table_ok_update table_ok_same [OF s1])
  next
    case (err e)
    show ?thesis using table_ok_same [OF assms(1)] alongD [OF prepare_same_table err(1)] by (simp add: same_table_def)
  next
    case panic
    show ?thesis using table_ok_same [OF assms(1)] alongD [OF prepare_same_table panic(1)] by (simp add: same_table_def)
  qed
qed (use assms(1) in simp)

lemma handle_with_served:
  assumes "served_of h = Some sv"
  shows "mh_info (with_served sv' h) = mh_info h" "mh_repo_key (with_served sv' h) = mh_repo_key h"
    "handle_ok mount_id h \<Longrightarrow> handle_ok mount_id (with_served sv' h)"
proof -
  show "handle_ok mount_id (with_served sv' h)" if "handle_ok mount_id h"
    using that by (cases "mh_backend h"; cases "mh_nfs h"; cases "mh_fskit h"; cases "mi_nfs_port (mh_info h)")
      (auto simp: handle_ok_def with_served_def)
qed (simp_all add: with_served_def)

lemma handles_replace:
  assumes "map_of ms mount_id = Some h" "mh_repo_key h' = mh_repo_key h"
  shows "length (filter (\<lambda>(_, h). mh_repo_key h = Some k) (AList.update mount_id h' ms))
    = length (filter (\<lambda>(_, h). mh_repo_key h = Some k) ms)"
  using assms by (induction ms) (auto split: if_splits)

text \<open>What one step does to the counts: nothing is forgotten, and at most one mount more is counted.\<close>

definition covered :: "'m daemon \<Rightarrow> bool" where
  "covered s \<longleftrightarrow> (\<forall>k. handles_of k s \<le> counted k s)"

definition next_counts :: "'m daemon \<Rightarrow> 'm daemon \<Rightarrow> bool" where
  "next_counts s s' \<longleftrightarrow> covered s' \<and> (\<forall>k. counted k s' \<le> counted k s + 1)"

lemma keeps_next: "keeps s s' \<Longrightarrow> covered s \<Longrightarrow> next_counts s s'"
  by (simp add: keeps_def next_counts_def covered_def handles_of_def)

lemma one_more_next: "one_more key s s' \<Longrightarrow> covered s \<Longrightarrow> next_counts s s'"
  by (auto simp: one_more_def next_counts_def covered_def handles_of_def le_SucI)

lemma mounted_next:
  assumes "mounted info s s'" "covered s"
  shows "next_counts s s'"
proof -
  obtain s1 key h where s1: "one_more key s s1" and h: "dm_mounts s' = AList.update (mi_id info) h (dm_mounts s1)"
      "mh_repo_key h = Some key" "\<And>k. counted k s' = counted k s1"
    using assms(1) by (auto simp: mounted_def inserted_def)
  have n: "handles_of k s' \<le> handles_of k s + (if k = key then 1 else 0)" for k
    using handles_update [of s' "mi_id info" h s k] h(1,2) s1 by (auto simp: one_more_def split: if_splits)
  have c: "counted k s' = counted k s + (if k = key then 1 else 0)" for k
    using h(3) s1 by (simp add: one_more_def)
  have "handles_of k s \<le> counted k s" for k using assms(2) by (simp add: covered_def)
  then have "handles_of k s' \<le> counted k s'" "counted k s' \<le> counted k s + 1" for k
    using le_trans [OF n [of k] add_right_mono, of "counted k s"] unfolding c [of k] by simp_all
  then show ?thesis by (simp add: next_counts_def covered_def)
qed

lemma unmount_next:
  assumes "do_unmount_by_id D mount_id s = Some (s', r)" "covered s" "table_ok s"
  shows "next_counts s s'"
proof (cases "map_of (dm_mounts s) mount_id")
  case None
  then show ?thesis using unmount_effect [OF assms(1)] assms(2) by (auto intro: keeps_next keeps.refl)
next
  case (Some h)
  have s': "dm_mounts s' = AList.delete mount_id (dm_mounts s)"
      "\<And>k. counted k s' = (if mh_repo_key h = Some k then counted k s - 1 else counted k s)"
    using unmount_effect [OF assms(1)] Some by auto
  have *: "handles_of k s = handles_of k s' + (if mh_repo_key h = Some k then 1 else 0)" for k
    using handles_delete [OF _ Some s'(1)] assms(3) by (simp add: table_ok_def)
  have "handles_of k s' \<le> counted k s'" for k
  proof -
    have "handles_of k s \<le> counted k s" using assms(2) by (simp add: covered_def)
    with * [of k] show ?thesis unfolding s'(2) [of k] by (cases "mh_repo_key h = Some k") simp_all
  qed
  moreover have "counted k s' \<le> counted k s + 1" for k unfolding s'(2) [of k] by (cases "mh_repo_key h = Some k") simp_all
  ultimately show ?thesis unfolding next_counts_def covered_def by blast
qed

lemma table_ok_unmount: "do_unmount_by_id D mount_id s = Some (s', r) \<Longrightarrow> table_ok s \<Longrightarrow> table_ok s'"
  by (auto dest!: unmount_effect split: option.splits intro: table_ok_delete)

text \<open>An unmount request runs one unmount, or finds no mount and changes nothing.\<close>

lemma rpc_unmount_cases:
  assumes "rpc_unmount D t s = Some (s', r)"
  obtains mount_id where "do_unmount_by_id D mount_id s = Some (s', r)" | "s' = s"
proof (cases "List.find (\<lambda>(_, h). is_target t (mh_info h)) (dv_mount_order D (dm_mounts s))")
  case None
  then have "s' = s" using assms by (simp add: rpc_unmount_def prog_bind_def prog_read_def prog_lift_def)
  then show ?thesis using that by blast
next
  case (Some found)
  then have "do_unmount_by_id D (fst found) s = Some (s', r)" using assms
    by (cases found) (simp add: rpc_unmount_def prog_bind_def prog_read_def)
  then show ?thesis using that by blast
qed

lemma rpc_mount_run:
  assumes "rpc_mount D source_str mount_point b opts s = Some (s', r)"
  obtains q where "do_mount D source_str mount_point b opts s = Some (s', q)"
  using assms by (auto simp: rpc_mount_def)

lemma step_table_ok:
  assumes "daemon_step W s s'" "table_ok s"
  shows "table_ok s'"
proof -
  have kept: "table_ok s'" if "keeps s s'" using that by (auto simp: keeps_def intro: table_ok_same [OF assms(2)])
  show ?thesis using assms(1)
  proof cases
    case (step_mount D source_str mount_point b opts r)
    from step_mount(2) show ?thesis by (rule rpc_mount_run) (rule table_ok_mount [OF assms(2)])
  next
    case (step_unmount D t r)
    from step_unmount(2) show ?thesis
      by (rule rpc_unmount_cases) (use assms(2) table_ok_unmount in blast)+
  next
    case (step_eject D mount_id r)
    then show ?thesis using table_ok_unmount assms(2) by blast
  next
    case (step_serve D mount_id h sv g v)
    let ?h = "with_served \<lparr> sv_provider = fields_of g, sv_vfs = v \<rparr> h"
    have "handle_ok mount_id ?h"
      using map_of_SomeD [OF step_serve(3)] assms(2) handle_with_served(3) [OF step_serve(4)]
      by (auto simp: table_ok_def list_all_iff)
    then show ?thesis by (rule table_ok_update [OF _ assms(2)]) (simp add: step_serve(1))
  qed (use kept alongD [OF keeps_requests(1)] alongD [OF keeps_requests(2)] alongD [OF keeps_requests(3)] in blast)+
qed

lemma step_counts:
  assumes "daemon_step W s s'" "countable s" "covered s" "table_ok s"
  shows "next_counts s s'"
proof -
  have kept: "next_counts s s'" if "keeps s s'" by (rule keeps_next [OF that assms(3)])
  show ?thesis using assms(1)
  proof cases
    case (step_mount D source_str mount_point b opts r)
    from step_mount(2) obtain q where run: "do_mount D source_str mount_point b opts s = Some (s', q)"
      by (rule rpc_mount_run)
    show ?thesis using do_mount_effect [OF assms(2) run] assms(3)
      by (cases q) (auto intro: mounted_next keeps_next one_more_next)
  next
    case (step_unmount D t r)
    from step_unmount(2) show ?thesis
      by (rule rpc_unmount_cases) (use assms(3,4) unmount_next keeps_next keeps.refl in blast)+
  next
    case (step_eject D mount_id r)
    then show ?thesis using unmount_next assms(3,4) by blast
  next
    case (step_serve D mount_id h sv g v)
    have key: "mh_repo_key (with_served \<lparr> sv_provider = fields_of g, sv_vfs = v \<rparr> h) = mh_repo_key h"
      by (rule handle_with_served [OF step_serve(4)])
    have "same_reservations (load_fields (sv_provider sv) (dm_shared s)) g"
      using reservations.steps_related [OF r_into_rtranclp [where r = "provider_step _ _", OF step_serve(5)]] .
    then have "counted k s' = counted k s" for k
      using step_serve(1) by (auto simp: same_reservations_def load_fields_def intro: mounts_of_reserved)
    moreover have "handles_of k s' = handles_of k s" for k
      using handles_replace [OF step_serve(3) key] step_serve(1) by (simp add: handles_of_def)
    ultimately show ?thesis using assms(3) by (simp add: next_counts_def covered_def)
  qed (use kept alongD [OF keeps_requests(1)] alongD [OF keeps_requests(2)] alongD [OF keeps_requests(3)] in blast)+
qed

section \<open>From the start on\<close>

lemma sorted_entries_reserved: "reservations (insert_sorted_entries L es st) = reservations st"
  by (induction L es st rule: insert_sorted_entries.induct) simp_all

lemma cleanup_tmp_state: "state (fst (cleanup_tmp_entries io now older es n c)) = state c"
  by (induction io now older es n c rule: cleanup_tmp_entries.induct) (auto simp: Let_def)

lemma new_cache_reserved:
  assumes "blob_cache_new L io hash_order listing root mx files = Ok c"
  shows "reserved c = []"
proof -
  define c0 where "c0 = \<lparr> cache_root = root, max_bytes = mx,
      state = \<lparr> entries = lhm_new L, total_bytes = 0, blob_owners = [], reservations = [] \<rparr>,
      eviction_blocked_total = 0, disk = files \<rparr>"
  have "reserved c = reserved c0"
    using assms
    by (auto simp: blob_cache_new_def rebuild_index_def Let_def c0_def omap_eq_Ok sorted_entries_reserved reserved_def
        split: option.splits outcome.splits prod.splits
        dest!: remove_files_reserved [unfolded reserved_def])
  then show ?thesis by (simp add: c0_def reserved_def)
qed

lemma daemon_new_state:
  assumes "daemon_new E env hash_order listing blobs now tmp_listing trees parse_resolutions files c = Ok s"
  shows "dm_mounts s = [] \<and> counted k s = 0"
proof -
  have "reserved (fst (cleanup_orphan_temps io t old lst c)) = reserved c" for io t old lst and c :: "'a blob_cache"
    using cleanup_tmp_state [of io t old _ 0 c]
    by (auto simp: cleanup_orphan_temps_def reserved_def split: option.split sum.split prod.split) (metis fst_conv)
  moreover have "mounts_of k c = 0" if "reserved c = []" for c :: "'a blob_cache"
    using that by (simp add: mounts_of_def reserved_def)
  ultimately show ?thesis using assms
    by (cases "blob_cache_new (ev_lru E) (ev_io E) hash_order listing (cache_dir c) (cache_max_bytes c) blobs")
      (auto simp: daemon_new_def Let_def dest!: new_cache_reserved)
qed

text \<open>
  C5. As long as fewer requests than the counter's width were served, the counts of the cache never fall below the
  mounts of the table: a repository that is mounted has its reservation, whatever mounts failed, were
  replaced, ejected or served in between and however the cache was pruned.
\<close>

theorem reservations_cover_mounts:
  assumes "daemon_new E env hash_order listing blobs now tmp_listing trees parse_resolutions files c = Ok s0"
    and "(daemon_step W ^^ n) s0 s" "n < 2 ^ 32"
  shows "handles_of k s \<le> counted k s \<and> counted k s \<le> n"
proof -
  have "covered s \<and> table_ok s \<and> (\<forall>k. counted k s \<le> n)" using assms(2,3)
  proof (induction n arbitrary: s)
    case 0
    then show ?case using daemon_new_state [OF assms(1)]
      by (simp add: covered_def handles_of_def table_ok_def)
  next
    case (Suc n)
    then obtain s1 where run: "(daemon_step W ^^ n) s0 s1" and step: "daemon_step W s1 s" by auto
    have IH: "covered s1" "table_ok s1" "\<And>k. counted k s1 \<le> n" using Suc.IH [OF run] Suc.prems(2) by auto
    have "counted k s1 < 2 ^ 32 - 1" for k using IH(3) [of k] Suc.prems(2) by simp
    then have "countable s1" by (simp add: countable_def)
    from step_counts [OF step this IH(1,2)] step_table_ok [OF step IH(2)] have s: "next_counts s1 s" "table_ok s" by auto
    have "counted k s \<le> Suc n" for k
    proof -
      have "counted k s \<le> counted k s1 + 1" using s(1) by (simp add: next_counts_def)
      with IH(3) [of k] show ?thesis by simp
    qed
    then show ?case using s by (simp add: next_counts_def)
  qed
  then show ?thesis by (simp add: covered_def)
qed

text \<open>
  C26. Whatever was requested, the table is well-formed: the ids are distinct, and every handle stands under the id
  of its description, holds exactly the server of its backend and says where that is reached: the port of
  the address the NFS server listens on, or the path of the FSKit volume.
\<close>

theorem mount_table_wellformed:
  assumes "daemon_new E env hash_order listing blobs now tmp_listing trees parse_resolutions files c = Ok s0"
    and "(daemon_step W)\<^sup>*\<^sup>* s0 s"
  shows "distinct (keys_of (dm_mounts s)) \<and> list_all (\<lambda>(mount_id, h). handle_ok mount_id h) (dm_mounts s)"
proof -
  have "table_ok s" using assms(2)
  proof (induction rule: rtranclp_induct)
    case base
    then show ?case using daemon_new_state [OF assms(1)] by (simp add: table_ok_def)
  qed (rule step_table_ok)
  then show ?thesis unfolding table_ok_def .
qed

end
