(* ===== verification/Daemon_Lifecycle.thy ===== *)
theory Daemon_Lifecycle
  imports Daemon_Table
begin

text \<open>
  Mounting followed by unmounting, two resolutions of one source, and two daemons on one set of files.
\<close>

section \<open>Mounting and unmounting\<close>

text \<open>
  C15. A mount that succeeded is found under its id until it is unmounted. Unmounting it takes back what it
  counted and leaves the table of before without this id: the same table, when the id is new. A mount
  that had the id before is gone with it, while it stays counted.
\<close>

theorem mount_unmount_roundtrip:
  assumes "countable s" "rpc_mount D source_str mount_point b opts s = Some (s1, Ok info)"
  shows "rpc_status (mi_id info) s1 = Ok info
    \<and> (\<exists>s2. do_unmount_by_id D' (mi_id info) s1 = Some (s2, Ok ())
        \<and> dm_mounts s2 = AList.delete (mi_id info) (dm_mounts s)
        \<and> (mi_id info \<notin> set (keys_of (dm_mounts s)) \<longrightarrow> dm_mounts s2 = dm_mounts s)
        \<and> (\<forall>k. counted k s2 = counted k s)
        \<and> rpc_status (mi_id info) s2 = Err (''mount not found: '' @ mi_id info))"
proof -
  obtain q where q: "do_mount D source_str mount_point b opts s = Some (s1, q)"
      "Ok info = (case q of Panic \<Rightarrow> Err (''mount task panicked: '' @ dv_panic_text D) | _ \<Rightarrow> q)"
    using assms(2) by (auto simp: rpc_mount_def)
  then have "mounted info s s1" using do_mount_effect [OF assms(1) q(1)] by (cases q) auto
  then obtain sp key h where sp: "one_more key s sp" and h: "dm_mounts s1 = AList.update (mi_id info) h (dm_mounts sp)"
      "mh_info h = info" "mh_repo_key h = Some key" "\<And>k. counted k s1 = counted k sp"
    by (auto simp: mounted_def inserted_def)
  have ms: "dm_mounts sp = dm_mounts s" using sp by (simp add: one_more_def)
  have found: "map_of (dm_mounts s1) (mi_id info) = Some h" by (simp add: h(1) AList.update_conv')
  obtain s2 r where run: "do_unmount_by_id D' (mi_id info) s1 = Some (s2, r)" using unmount_returns by blast
  have s2: "r = Ok ()" "dm_mounts s2 = AList.delete (mi_id info) (dm_mounts s1)"
      "\<And>k. counted k s2 = (if mh_repo_key h = Some k then counted k s1 - 1 else counted k s1)"
    using unmount_effect [OF run] found by auto
  have table: "dm_mounts s2 = AList.delete (mi_id info) (dm_mounts s)"
    by (simp add: s2(2) h(1) ms AList.delete_update_same)
  have "counted k s2 = counted k s" for k
    using sp by (simp add: s2(3) h(3,4) one_more_def)
  moreover have "rpc_status (mi_id info) s1 = Ok info" by (simp add: rpc_status_def found h(2))
  moreover have "rpc_status (mi_id info) s2 = Err (''mount not found: '' @ mi_id info)"
    by (simp add: rpc_status_def table AList.delete_conv')
  moreover have "mi_id info \<notin> set (keys_of (dm_mounts s)) \<Longrightarrow> dm_mounts s2 = dm_mounts s"
    unfolding table by (rule AList.delete_id) simp
  ultimately show ?thesis using run s2(1) table by blast
qed

section \<open>Resolving a source twice\<close>

lemma resolve_fresh:
  assumes "sp_provider src \<noteq> GitHub" "resolution_get (dv_clock D) source_str (dm_resolutions s) = None"
    and "resolve_source D source_str src s = Some (s1, Ok (src1, r1))"
  obtains rv v r where "make_resolver (dv_registry D) src = Ok rv" "wanted_version rv src = Ok v"
    "s1 = store_resolution D source_str r (sp_version src = ''latest'') s"
    "src1 = src\<lparr> sp_version := v \<rparr>" "r1 = r\<lparr> rs_subpath := or_else (sp_subpath src) (rs_subpath r) \<rparr>"
  using assms
  by (auto simp: resolve_source_def prog_bind_def prog_lift_def prog_read_def prog_change_def split: outcome.splits)

text \<open>
  A source that was resolved resolves to the same repository, reference and subpath from the cache until the
  entry expires. What is mounted has the same id for a pinned version; a moving one was mounted under the
  version it stood for, and from the cache it is mounted a second time, under the id of \<open>latest\<close> itself.
\<close>

theorem cached_resolution_renames_latest:
  assumes "sp_provider src \<noteq> GitHub" "resolution_get (dv_clock D) source_str (dm_resolutions s) = None"
    and first: "resolve_source D source_str src s = Some (s1, Ok (src1, r1))"
    and fresh: "sat_sub (now_secs (dv_clock D')) (now_secs (dv_clock D)) \<le> rc_latest_ttl_secs (dm_resolutions s)"
  shows "resolve_source D' source_str src s1 = Some (s1, Ok (src, r1))
    \<and> (source_id src1 = source_id src \<longleftrightarrow> sp_version src1 = sp_version src)
    \<and> (sp_version src \<noteq> ''latest'' \<longrightarrow> src1 = src)"
proof -
  obtain rv v r where rv: "wanted_version rv src = Ok v"
      "s1 = store_resolution D source_str r (sp_version src = ''latest'') s"
      "src1 = src\<lparr> sp_version := v \<rparr>" "r1 = r\<lparr> rs_subpath := or_else (sp_subpath src) (rs_subpath r) \<rparr>"
    by (rule resolve_fresh [OF assms(1,2) first])
  have "resolution_get (dv_clock D') source_str (dm_resolutions s1) = Some r"
    using fresh unfolding rv(2) store_resolution_def
    by (simp add: resolution_put_def Let_def resolution_get_def AList.update_conv' not_less split: prod.split)
  then have "resolve_source D' source_str src s1 = Some (s1, Ok (src, r1))"
    using assms(1) by (simp add: resolve_source_def prog_bind_def prog_read_def prog_lift_def rv(4))
  moreover have "v = sp_version src" if "sp_version src \<noteq> ''latest''" using rv(1) that by (simp add: wanted_version_def)
  ultimately show ?thesis by (auto simp: rv(3) source_id_def)
qed

section \<open>Two daemons\<close>

lemma state_clear_elsewhere:
  assumes "p \<noteq> path" "p \<noteq> with_extension ''json.tmp'' path"
  shows "map_of (fst (state_clear J env path fs)) p = map_of fs p"
  using assms
  by (auto simp: state_clear_def state_write_def store_replace_def store_write_def store_rename_def AList.update_conv'
      AList.delete_conv' split: sum.split option.split)

text \<open>
  C36. A daemon that starts while another one runs is refused by the PID file, but only after it has force-unmounted
  the FSKit volumes of the running daemon and emptied its \<open>mounts.json\<close>.
\<close>

theorem second_daemon_unmounts_first:
  assumes pid: "running_pid env alive (pid_file (dm_config s)) (dm_files s) = Some pid"
    and dir: "Option.bind (path_parent (pid_file (dm_config s))) (fs_mkdir_error env) = None"
    and other: "pid_file (dm_config s) \<noteq> mounts_json (dm_config s)"
      "pid_file (dm_config s) \<noteq> with_extension ''json.tmp'' (mounts_json (dm_config s))"
    and es: "state_read J env (mounts_json (dm_config s)) (dm_files s) = es" "es \<noteq> []"
    and json: "faithful_json J" "fs_read_ok env (mounts_json (dm_config s))"
    and start: "daemon_start J env alive own_pid s = (s', volumes, r)"
  shows "r = Err (''daemon already running with PID '' @ show_int pid)
    \<and> volumes = map me_volume_path (filter (\<lambda>e. me_backend e = FsKit) es)
    \<and> (is_ok (snd (state_clear J env (mounts_json (dm_config s)) (dm_files s))) \<longrightarrow>
         state_read J env (mounts_json (dm_config s)) (dm_files s') = [])"
proof -
  define s1 where "s1 = change_files (\<lambda>p. state_clear J env p) s"
  have clean: "cleanup_stale_mounts J env s = (s1, map me_volume_path (filter (\<lambda>e. me_backend e = FsKit) es))"
    using es by (simp add: cleanup_stale_mounts_def s1_def)
  have c: "dm_config s1 = dm_config s" by (simp add: s1_def change_files_def)
  have "map_of (dm_files s1) (pid_file (dm_config s)) = map_of (dm_files s) (pid_file (dm_config s))"
    unfolding s1_def change_files_def using state_clear_elsewhere [OF other] by simp
  then have "running_pid env alive (pid_file (dm_config s1)) (dm_files s1) = Some pid"
    using pid by (simp add: running_pid_def c)
  then have pidf: "write_pid_file env alive own_pid s1 = (s1, Err (''daemon already running with PID '' @ show_int pid))"
    using dir by (simp add: write_pid_file_def c)
  have "state_read J env (mounts_json (dm_config s)) (dm_files s1) = []"
    if ok: "is_ok (snd (state_clear J env (mounts_json (dm_config s)) (dm_files s)))"
  proof -
    obtain fs q where run: "state_clear J env (mounts_json (dm_config s)) (dm_files s) = (fs, q)" by force
    have tmp: "with_extension ''json.tmp'' (mounts_json (dm_config s)) \<noteq> mounts_json (dm_config s)"
      unfolding mounts_json_def by (rule state_file_tmp)
    have "dm_files s1 = fs" by (simp add: s1_def change_files_def run)
    then show ?thesis
      using state_write_cases [OF run [unfolded state_clear_def] json(1) json(2) tmp] ok run by auto
  qed
  then show ?thesis using start by (simp add: daemon_start_def clean pidf)
qed

end
