(* ===== verification/Daemon_Witness.thy ===== *)
theory Daemon_Witness
  imports Daemon_Lifecycle Git_Witness
begin

text \<open>
  A daemon on the small server of \<open>Git_Witness\<close>: the runs in which the properties of the daemon are evaluated.
\<close>

section \<open>A daemon after its start\<close>

definition demo_daemon_config :: config where
  "demo_daemon_config = (default_config None)\<lparr> github_host := ''h'', cache_dir := ''/c'', pid_file := ''/r/pid'' \<rparr>"

text \<open>The JSON of a list of mounts whose volumes have one letter.\<close>

definition demo_state_json :: entries_json where
  "demo_state_json =
     \<lparr> ej_print = (\<lambda>es. if es = map (demo_mount \<circ> (\<lambda>c. [c])) (concat (map me_volume_path es))
                      then Inl (concat (map me_volume_path es)) else Inr ''unsupported''),
       ej_parse = (\<lambda>b. Some (map (demo_mount \<circ> (\<lambda>c. [c])) b)) \<rparr>"

definition demo_crate :: json where
  "demo_crate = Json_Object [(''crate'', Json_Object
     [(''repository'', Json_String ''https://github.com/c/d.git''), (''max_stable_version'', Json_String ''2'')])]"

definition demo_registries :: registry_env where
  "demo_registries =
     \<lparr> rg_send = (\<lambda>_. Inl \<lparr> resp_status = 200, resp_headers = [], resp_json = Inl demo_crate \<rparr>),
       rg_status_text = (\<lambda>_. []), rg_lower = map ascii_lower \<rparr>"

definition demo_world :: "((string, cache_entry) lru_map, string) daemon_env" where
  "demo_world =
     \<lparr> dv_github = demo_github_env, dv_registry = demo_registries, dv_clock = Some 0, dv_print_resolutions = (\<lambda>_. None),
       dv_fs = fine_env 9, dv_entries_json = demo_state_json, dv_dir_parse = (\<lambda>_. Inr ''not a directory''),
       dv_snapshot_parse = (\<lambda>b. if b = ''aaa'' then Inl demo_snapshot else Inr ''not a snapshot''),
       dv_mkdir_error = (\<lambda>_. None), dv_bind = Inl (Inl 2049), dv_spawn_error = (\<lambda>_. None), dv_volumes_exists = True,
       dv_path_kind = (\<lambda>_. Missing), dv_create_dir_error = (\<lambda>_. None), dv_mount_table = None,
       dv_session_error = (\<lambda>_ _. None), dv_mount_order = id, dv_tree_root_exists = True, dv_tree_prune_failure = None,
       dv_rfc3339_now = ''now'', dv_panic_text = [] \<rparr>"

definition demo_tree_files :: file_store where
  "demo_tree_files = [(''/c/trees/o/r/a.json'', ''3:aaa'', 1)]"

definition demo_daemon :: "(string, cache_entry) lru_map daemon" where
  "demo_daemon =
     \<lparr> dm_config = demo_daemon_config,
       dm_shared = demo_github\<lparr>
         gs_cache := \<lparr> cache_root = ''/c'', max_bytes = cache_max_bytes demo_daemon_config,
             state = \<lparr> entries = lhm_new list_lhm, total_bytes = 0, blob_owners = [], reservations = [] \<rparr>,
             eviction_blocked_total = 0, disk = Map.empty \<rparr>,
         gs_tree_cache := Some (tree_cache_new ''/c/trees'' (tree_cache_max_bytes demo_daemon_config) demo_tree_files) \<rparr>,
       dm_resolutions = \<lparr> rc_entries = [], rc_file_path = ''/c/resolutions.json'', rc_latest_ttl_secs = 3600 \<rparr>,
       dm_mounts = [], dm_files = [] \<rparr>"

lemma demo_fields [simp]:
  "dm_config demo_daemon = demo_daemon_config" "dm_mounts demo_daemon = []"
  "github_host demo_daemon_config = ''h''" "provider_config demo_daemon_config = demo_config"
  "dv_github demo_world = demo_github_env" "dv_mount_order demo_world = id" "mounts_of k (gs_cache (dm_shared demo_daemon)) = 0"
  by (simp_all add: demo_daemon_def demo_daemon_config_def demo_world_def provider_config_def demo_config_def
      default_config_def Let_def mounts_of_def)

lemma demo_started:
  "daemon_new demo_github_env (fine_env 9) id None Map.empty 0 None demo_tree_files (\<lambda>_. None) [] demo_daemon_config
     = Ok demo_daemon"
proof -
  have c: "cache_dir demo_daemon_config = ''/c''" "latest_ttl_secs demo_daemon_config = 3600"
    by (simp_all add: demo_daemon_config_def default_config_def Let_def)
  have "path_push ''/c'' ''trees'' = ''/c/trees''" "path_push ''/c'' ''resolutions.json'' = ''/c/resolutions.json''"
    by code_simp+
  moreover have "blob_cache_new list_lhm good_io id None ''/c'' mx Map.empty = Ok
      \<lparr> cache_root = ''/c'', max_bytes = mx,
        state = \<lparr> entries = lhm_new list_lhm, total_bytes = 0, blob_owners = [], reservations = [] \<rparr>,
        eviction_blocked_total = 0, disk = Map.empty \<rparr>" for mx
    by (simp add: blob_cache_new_def rebuild_index_def good_io_def list_lhm_simps)
  ultimately show ?thesis
    by (simp add: daemon_new_def c demo_daemon_def demo_github_def demo_github_env_def cleanup_orphan_temps_def
        resolution_load_def fine_env_def Let_def)
qed

section \<open>A mount whose snapshot is in the tree cache\<close>

abbreviation demo_source :: string where "demo_source \<equiv> ''github:o/r@main''"

definition demo_options :: mount_options where
  "demo_options = \<lparr> mo_prefetch = PrefetchAuto, mo_reservation = None \<rparr>"

lemma daemon_demo_parsed: "parse demo_source = Ok demo_repo"
  by code_simp

definition demo_registered :: "(string, cache_entry) lru_map daemon" where
  "demo_registered = build_github_provider_for_mount
     (on_cache (register_mount (RepoKey ''h'' ''o'' ''r'') None []) demo_daemon)"

lemma demo_fetch:
  "\<exists>g. fetch_snapshot_with_options demo_github_env demo_config demo_repo
     (mount_fetch_options demo_daemon_config demo_options) (dm_shared demo_registered) = Some (g, Ok ''aaa'')"
proof -
  let ?s = "dm_shared demo_registered"
  let ?tc = "tree_cache_new ''/c/trees'' (tree_cache_max_bytes demo_daemon_config) demo_tree_files"
  have s: "gs_log ?s = []" "gs_tree_cache ?s = Some ?tc"
    "entries (state (gs_cache ?s)) = lhm_new list_lhm"
    by (simp_all add: demo_registered_def build_github_provider_for_mount_def on_cache_def load_fields_def demo_daemon_def
        demo_github_def register_mount_def rebalance_default_reservations_def Let_def)
  have "gs_log (resolving demo_repo ?s) = []" using s(1) by (simp add: resolving_def)
  from demo_resolved [OF this] obtain s1
    where R: "resolve_ref demo_github_env demo_config demo_repo (resolving demo_repo ?s) = Some (s1, Ok ''a'')" by blast
  have tree: "tree_get (ev_json demo_github_env) (ev_fs demo_github_env) ''o'' ''r'' ''a'' ?tc = (?tc, Some ''aaa'')"
  proof -
    have "tree_path ?tc ''o'' ''r'' ''a'' = ''/c/trees/o/r/a.json''"
      by (simp add: tree_path_def tree_cache_new_def path_push_def starts_with_def ends_with_def)
    moreover have "envelope_parse text_json ''3:aaa'' = Some (3, ''aaa'')" by code_simp
    ultimately show ?thesis
      by (simp add: tree_get_def fine_env_def tree_cache_new_def demo_tree_files_def) (simp add: text_json_def)
  qed
  have "\<exists>g. fetch_snapshot_with_options demo_github_env demo_config demo_repo
      (mount_fetch_options demo_daemon_config demo_options) ?s = Some (g, Ok ''aaa'')
    \<and> gs_log g = gs_log s1 \<and> gs_cache g = gs_cache ?s \<and> gs_tree_cache g = gs_tree_cache ?s
    \<and> gh_fetch_directory demo_github_env (root_directory demo_snapshot) g = Some (g, Err (NotFound (''directory ''
         @ digest_display (root_directory demo_snapshot) @ '' not in cache; re-fetch snapshot to populate'')))"
  proof (rule tree_hit_without_root [OF _ R _ s(2) tree])
    show "fo_prefetch (mount_fetch_options demo_daemon_config demo_options) \<noteq> PrefetchForce"
      by (simp add: mount_fetch_options_def demo_options_def)
    show "owner_repo demo_repo = Ok (''o'', ''r'')" by simp
    show "ev_snapshot_parse demo_github_env ''aaa'' = Some demo_snapshot" by (simp add: demo_github_env_def)
    show "lhm_get (ev_lru demo_github_env) (dg_hex (root_directory demo_snapshot)) (entries (state (gs_cache ?s))) = None"
      unfolding s(3) by (simp add: list_lhm_simps)
  qed
  then show ?thesis by blast
qed

lemma demo_prepared:
  assumes "dv_github D = demo_github_env" "dv_snapshot_parse D = dv_snapshot_parse demo_world"
  obtains s1 prep where "prepare_mount D demo_source demo_options demo_daemon = Some (s1, Ok prep)"
    "mp_source prep = demo_repo" "mp_subpath prep = None" "mp_repo_key prep = RepoKey ''h'' ''o'' ''r''"
proof -
  obtain g where g: "fetch_snapshot_with_options demo_github_env demo_config demo_repo
     (mount_fetch_options demo_daemon_config demo_options) (dm_shared demo_registered) = Some (g, Ok ''aaa'')"
    using demo_fetch by blast
  have gh: "github_source_of \<lparr> rs_owner = ''o'', rs_repo = ''r'', rs_git_ref = ''main'', rs_subpath = None \<rparr> = demo_repo"
    by (simp add: github_source_of_def demo_repo_def)
  have names: "split_once CHR ''/'' (sp_name demo_repo) = Some (''o'', ''r'')" "sp_provider demo_repo = GitHub"
      "sp_version demo_repo = ''main''" "sp_subpath demo_repo = None" by code_simp+
  have resolved: "resolve_source D demo_source demo_repo demo_daemon
      = Some (demo_daemon, Ok (demo_repo, \<lparr> rs_owner = ''o'', rs_repo = ''r'', rs_git_ref = ''main'', rs_subpath = None \<rparr>))"
    by (simp add: resolve_source_def names prog_lift_def)
  have config: "dm_config demo_registered = demo_daemon_config"
    by (simp add: demo_registered_def build_github_provider_for_mount_def on_cache_def)
  have unreserved: "mo_reservation demo_options = None" by (simp add: demo_options_def)
  let ?s2 = "demo_registered\<lparr> dm_shared := g \<rparr>"
  obtain s1 prep where prep: "finish_prep demo_repo demo_repo (RepoKey ''h'' ''o'' ''r'') demo_snapshot ?s2 = Some (s1, Ok prep)"
      "mp_source prep = demo_repo" "mp_subpath prep = None" "mp_repo_key prep = RepoKey ''h'' ''o'' ''r''"
    by (simp add: finish_prep_def prog_bind_def prog_change_def prog_read_def names)
  have "fetch_for_mount D demo_options demo_repo demo_repo (RepoKey ''h'' ''o'' ''r'') demo_registered = Some (s1, Ok prep)"
    using assms prep(1) g
    by (simp add: fetch_for_mount_def prog_bind_def prog_read_def prog_try_def on_shared_def config demo_world_def)
  then have "prepare_mount D demo_source demo_options demo_daemon = Some (s1, Ok prep)"
    unfolding prepare_mount_def Let_def
    by (simp add: daemon_demo_parsed prog_bind_return prog_bind_Ok [where m = "resolve_source D demo_source demo_repo", OF resolved]
        gh names prog_bind_read prog_bind_change unreserved demo_registered_def [symmetric])
  then show thesis using that prep by blast
qed

text \<open>Its mount over NFS, and the failure of the same mount for want of a mount point.\<close>

lemma demo_countable: "countable demo_daemon"
  by (simp add: countable_def)

lemma demo_mounted:
  obtains s1 info where "rpc_mount demo_world demo_source ''/m'' Nfs demo_options demo_daemon = Some (s1, Ok info)"
    "mi_id info = ''github_o_r_main''" "mi_nfs_port info = Some 2049"
proof -
  obtain s1 prep where prep: "prepare_mount demo_world demo_source demo_options demo_daemon = Some (s1, Ok prep)"
      "mp_source prep = demo_repo" "mp_subpath prep = None"
    by (rule demo_prepared [of demo_world]) (auto simp: demo_world_def)
  let ?h = "nfs_handle_of demo_world demo_source ''/m'' prep 2049 (rooted_vfs (root_directory (mp_snapshot prep)))"
  have world: "dv_mkdir_error demo_world p = None" "pick_free_port demo_world = Ok 2049" "spawn_nfs demo_world a = Ok ()" for p a
    by (simp_all add: demo_world_def pick_free_port_def spawn_nfs_def)
  have "live_vfs demo_github_env (dv_dir_parse demo_world) (mp_snapshot prep) (mp_subpath prep) (dm_shared s1)
      = Some (dm_shared s1, Ok (rooted_vfs (root_directory (mp_snapshot prep))))"
    by (simp add: live_vfs_def prep(3) prog_lift_def)
  then have "with_error (\<lambda>e. ''failed to build VFS: '' @ vfs_error_display e)
      (on_shared (live_vfs demo_github_env (dv_dir_parse demo_world) (mp_snapshot prep) (mp_subpath prep))) s1
      = Some (s1, Ok (rooted_vfs (root_directory (mp_snapshot prep))))"
    by (simp add: with_error_def on_shared_def)
  then have "nfs_after_prep demo_world demo_source ''/m'' prep s1 = Some (insert_mount ?h s1, Ok (mh_info ?h))"
    unfolding nfs_after_prep_def Let_def
    by (simp add: world prog_bind_return prog_bind_change prog_bind_Ok [where m = "with_error _ _"] prog_lift_def)
  then have "do_mount demo_world demo_source ''/m'' Nfs demo_options demo_daemon = Some (insert_mount ?h s1, Ok (mh_info ?h))"
    by (simp add: do_mount_def do_mount_nfs_parts prog_bind_Ok [where m = "prepare_mount _ _ _", OF prep(1)])
  then have "rpc_mount demo_world demo_source ''/m'' Nfs demo_options demo_daemon = Some (insert_mount ?h s1, Ok (mh_info ?h))"
    by (simp add: rpc_mount_def)
  then show thesis by (rule that) (simp_all add: nfs_handle_of_def prep(2))
qed

theorem mount_unmount_roundtrip_witness:
  "\<exists>(s1 :: (string, cache_entry) lru_map daemon) s2.
     rpc_status ''github_o_r_main'' s1 \<noteq> Err (''mount not found: '' @ ''github_o_r_main'')
     \<and> do_unmount_by_id demo_world ''github_o_r_main'' s1 = Some (s2, Ok ()) \<and> dm_mounts s2 = []
     \<and> counted (RepoKey ''h'' ''o'' ''r'') s2 = 0"
proof -
  obtain s1 info where run: "rpc_mount demo_world demo_source ''/m'' Nfs demo_options demo_daemon = Some (s1, Ok info)"
      and info: "mi_id info = ''github_o_r_main''" by (rule demo_mounted)
  from mount_unmount_roundtrip [OF demo_countable run, of demo_world] obtain s2
    where s1: "rpc_status ''github_o_r_main'' s1 = Ok info"
      and s2: "do_unmount_by_id demo_world ''github_o_r_main'' s1 = Some (s2, Ok ())"
        "dm_mounts s2 = AList.delete ''github_o_r_main'' (dm_mounts demo_daemon)"
        "\<And>k. counted k s2 = counted k demo_daemon"
    unfolding info by blast
  have "rpc_status ''github_o_r_main'' s1 \<noteq> Err (''mount not found: '' @ ''github_o_r_main'')" using s1 by simp
  moreover have "dm_mounts s2 = []" "counted (RepoKey ''h'' ''o'' ''r'') s2 = 0" using s2(2,3) by simp_all
  ultimately show ?thesis using s2(1) by blast
qed

theorem prepare_mount_reservation_witness:
  "\<exists>(s1 :: (string, cache_entry) lru_map daemon) prep.
     prepare_mount demo_world demo_source demo_options demo_daemon = Some (s1, Ok prep)
     \<and> counted (RepoKey ''h'' ''o'' ''r'') s1 = 1 \<and> prepared prep s1"
proof -
  obtain s1 prep where prep: "prepare_mount demo_world demo_source demo_options demo_daemon = Some (s1, Ok prep)"
      "mp_repo_key prep = RepoKey ''h'' ''o'' ''r''"
    by (rule demo_prepared [of demo_world]) (auto simp: demo_world_def)
  from prepare_mount_reservation [OF demo_countable prep(1)]
  have "one_more (mp_repo_key prep) demo_daemon s1" "prepared prep s1" by simp_all
  then show ?thesis using prep by (auto simp: one_more_def)
qed

theorem failed_backend_leaks_reservation_witness:
  "\<exists>(s1 :: (string, cache_entry) lru_map daemon) e.
     rpc_mount (demo_world\<lparr> dv_mkdir_error := (\<lambda>_. Some ''permission denied'') \<rparr>) demo_source ''/m'' Nfs demo_options demo_daemon
       = Some (s1, Err e)
     \<and> dm_mounts s1 = [] \<and> counted (RepoKey ''h'' ''o'' ''r'') s1 = 1"
proof -
  let ?D = "demo_world\<lparr> dv_mkdir_error := (\<lambda>_. Some ''permission denied'') \<rparr>"
  obtain sp prep where prep: "prepare_mount ?D demo_source demo_options demo_daemon = Some (sp, Ok prep)"
      "mp_repo_key prep = RepoKey ''h'' ''o'' ''r''"
    by (rule demo_prepared [of ?D]) (auto simp: demo_world_def)
  have "rpc_mount ?D demo_source ''/m'' Nfs demo_options demo_daemon
      = Some (sp, Err (''failed to create mount point: '' @ ''permission denied''))"
    by (simp add: rpc_mount_def do_mount_def do_mount_nfs_parts prog_bind_Ok [where m = "prepare_mount _ _ _", OF prep(1)])
      (simp add: nfs_after_prep_def prog_bind_def prog_lift_def)
  then have run: "rpc_mount ?D demo_source ''/m'' Nfs demo_options demo_daemon
      = Some (sp, Err (''failed to create mount point: '' @ ''permission denied''))" .
  from failed_backend_leaks_reservation [OF demo_countable prep(1) _ run] prep(2) run show ?thesis by auto
qed

lemma demo_step:
  obtains s1 h where "daemon_step {demo_world} demo_daemon s1" "dm_mounts s1 = [(''github_o_r_main'', h)]"
    "mi_nfs_port (mh_info h) = Some 2049"
proof -
  obtain s1 info where run: "rpc_mount demo_world demo_source ''/m'' Nfs demo_options demo_daemon = Some (s1, Ok info)"
      and info: "mi_id info = ''github_o_r_main''" "mi_nfs_port info = Some 2049" by (rule demo_mounted)
  obtain q where q: "do_mount demo_world demo_source ''/m'' Nfs demo_options demo_daemon = Some (s1, q)"
      "Ok info = (case q of Panic \<Rightarrow> Err (''mount task panicked: '' @ dv_panic_text demo_world) | _ \<Rightarrow> q)"
    using run by (auto simp: rpc_mount_def)
  then have "mounted info demo_daemon s1" using do_mount_effect [OF demo_countable q(1)] by (cases q) auto
  then obtain h where "dm_mounts s1 = [(''github_o_r_main'', h)]" "mh_info h = info"
    using info(1) by (auto simp: mounted_def inserted_def one_more_def)
  moreover have "daemon_step {demo_world} demo_daemon s1" using run by (intro step_mount) auto
  ultimately show thesis using that info(2) by blast
qed

theorem reservations_cover_mounts_witness:
  "\<exists>s. (daemon_step {demo_world} ^^ 1) demo_daemon s
     \<and> handles_of (RepoKey ''h'' ''o'' ''r'') s \<le> counted (RepoKey ''h'' ''o'' ''r'') s
     \<and> counted (RepoKey ''h'' ''o'' ''r'') s \<le> 1"
proof -
  obtain s1 h where step: "daemon_step {demo_world} demo_daemon s1" by (rule demo_step)
  then have "(daemon_step {demo_world} ^^ 1) demo_daemon s1" by (simp only: relpowp_1)
  with reservations_cover_mounts [OF demo_started this] show ?thesis by auto
qed

theorem mount_table_wellformed_witness:
  "\<exists>s h. (daemon_step {demo_world})\<^sup>*\<^sup>* demo_daemon s \<and> dm_mounts s = [(''github_o_r_main'', h)]
     \<and> handle_ok ''github_o_r_main'' h"
proof -
  obtain s1 h where step: "daemon_step {demo_world} demo_daemon s1" and h: "dm_mounts s1 = [(''github_o_r_main'', h)]"
    by (rule demo_step)
  have reach: "(daemon_step {demo_world})\<^sup>*\<^sup>* demo_daemon s1" using step by (rule r_into_rtranclp)
  from mount_table_wellformed [OF demo_started this] have "handle_ok ''github_o_r_main'' h" by (simp add: h)
  with reach h show ?thesis by blast
qed

section \<open>A moving version\<close>

definition demo_latest :: source_spec where
  "demo_latest = \<lparr> sp_provider = Crate, sp_name = ''x'', sp_version = ''latest'', sp_subpath = None \<rparr>"

theorem cached_resolution_renames_latest_witness:
  "\<exists>s1 r1. resolve_source demo_world ''crate:x@latest'' demo_latest demo_daemon
       = Some (s1, Ok (demo_latest\<lparr> sp_version := ''2'' \<rparr>, r1))
     \<and> resolve_source (demo_world\<lparr> dv_clock := Some (60 * nanos) \<rparr>) ''crate:x@latest'' demo_latest s1
       = Some (s1, Ok (demo_latest, r1))
     \<and> source_id (demo_latest\<lparr> sp_version := ''2'' \<rparr>) \<noteq> source_id demo_latest"
proof -
  let ?r = "\<lparr> rs_owner = ''c'', rs_repo = ''d'', rs_git_ref = ''v2'', rs_subpath = None \<rparr>"
  have meta: "crate_metadata demo_registries ''x'' = Ok demo_crate"
    by (simp add: crate_metadata_def fetch_registry_json_def demo_registries_def response_headers_map_def success_status_def)
  have rv: "make_resolver (dv_registry demo_world) demo_latest
      = Ok \<lparr> rv_resolve = crate_resolve demo_registries, rv_resolve_latest = crate_resolve_latest demo_registries \<rparr>"
    by (simp add: make_resolver_def demo_latest_def demo_world_def)
  have latest: "crate_resolve_latest demo_registries ''x'' = Ok ''2''"
    by (simp add: crate_resolve_latest_def meta crate_latest_version_def demo_crate_def)
  have repo: "crate_resolve demo_registries ''x'' ''2'' = Ok ?r"
    by (simp add: crate_resolve_def meta crate_repo_url_def demo_crate_def demo_repositories)
  have kind: "sp_provider demo_latest \<noteq> GitHub" "sp_name demo_latest = ''x''" "sp_version demo_latest = ''latest''"
      "sp_subpath demo_latest = None" by (simp_all add: demo_latest_def)
  have none: "resolution_get (dv_clock demo_world) ''crate:x@latest'' (dm_resolutions demo_daemon) = None"
    by (simp add: resolution_get_def demo_daemon_def)
  obtain s1 where first: "resolve_source demo_world ''crate:x@latest'' demo_latest demo_daemon
      = Some (s1, Ok (demo_latest\<lparr> sp_version := ''2'' \<rparr>, ?r))"
    by (simp add: resolve_source_def kind prog_bind_read none prog_bind_return rv wanted_version_def latest repo
        prog_bind_change or_else_def prog_lift_def)
  have "sat_sub (now_secs (dv_clock (demo_world\<lparr> dv_clock := Some (60 * nanos) \<rparr>))) (now_secs (dv_clock demo_world))
      \<le> rc_latest_ttl_secs (dm_resolutions demo_daemon)"
    by (simp add: demo_world_def demo_daemon_def now_secs_def sat_sub_def)
  from cached_resolution_renames_latest [OF kind(1) none first this] show ?thesis using first kind(3) by auto
qed

section \<open>A second daemon\<close>

definition demo_running :: "(string, cache_entry) lru_map daemon" where
  "demo_running = demo_daemon\<lparr> dm_files := [(''/r/mounts.json'', ''ab'', 1), (''/r/pid'', ''42'', 1)] \<rparr>"

theorem second_daemon_unmounts_first_witness:
  "\<exists>s'. daemon_start demo_state_json (fine_env 9) (\<lambda>pid. pid = 42) 43 demo_running
       = (s', [''a'', ''b''], Err (''daemon already running with PID '' @ show_int 42))
     \<and> state_read demo_state_json (fine_env 9) ''/r/mounts.json'' (dm_files s') = []"
proof -
  have c: "pid_file (dm_config demo_running) = ''/r/pid''" by (simp add: demo_running_def demo_daemon_config_def)
  have parent: "path_parent ''/r/pid'' = Some ''/r''" by code_simp
  have json: "mounts_json (dm_config demo_running) = ''/r/mounts.json''"
    unfolding mounts_json_def c parent by code_simp
  have "leading_ws ''42'' = None" "trailing_ws ''42'' = None"
    by (simp_all add: leading_ws_def trailing_ws_def white_space_bytes starts_with_def ends_with_def)
  then have trimmed: "str_trim ''42'' = ''42''" by (rule str_trim_id)
  have number: "parse_i32 ''42'' = Some 42"
    by (simp add: parse_i32_def parse_uint_def digits_val_def digit_val_def is_digit_def char_le_iff_nat)
  have pid: "running_pid (fine_env 9) (\<lambda>pid. pid = 42) (pid_file (dm_config demo_running)) (dm_files demo_running) = Some 42"
  proof -
    have "map_of (dm_files demo_running) ''/r/pid'' = Some (''42'', 1)" by (simp add: demo_running_def)
    moreover have "fs_read_ok (fine_env 9) ''/r/pid''" by (simp add: fine_env_def)
    ultimately show ?thesis unfolding running_pid_def c by (simp only: option.case prod.case trimmed number refl if_True)
  qed
  have es: "state_read demo_state_json (fine_env 9) (mounts_json (dm_config demo_running)) (dm_files demo_running)
      = [demo_mount ''a'', demo_mount ''b'']"
    unfolding json by (simp add: demo_running_def state_read_def demo_state_json_def fine_env_def)
  have faithful: "faithful_json demo_state_json"
    by (auto simp: faithful_json_def demo_state_json_def split: if_splits)
  obtain s' vs r where start: "daemon_start demo_state_json (fine_env 9) (\<lambda>pid. pid = 42) 43 demo_running = (s', vs, r)"
    by (cases "daemon_start demo_state_json (fine_env 9) (\<lambda>pid. pid = 42) 43 demo_running") auto
  have cleared: "is_ok (snd (state_clear demo_state_json (fine_env 9) (mounts_json (dm_config demo_running)) (dm_files demo_running)))"
    unfolding json by (simp add: state_clear_def state_write_def demo_state_json_def fine_env_def store_replace_def
        store_write_def store_rename_def demo_running_def AList.update_conv')
  have "r = Err (''daemon already running with PID '' @ show_int 42)
    \<and> vs = map me_volume_path (filter (\<lambda>e. me_backend e = FsKit) [demo_mount ''a'', demo_mount ''b''])
    \<and> (is_ok (snd (state_clear demo_state_json (fine_env 9) (mounts_json (dm_config demo_running)) (dm_files demo_running))) \<longrightarrow>
         state_read demo_state_json (fine_env 9) (mounts_json (dm_config demo_running)) (dm_files s') = [])"
  proof (rule second_daemon_unmounts_first [OF pid _ _ _ es _ faithful _ start])
    show "Option.bind (path_parent (pid_file (dm_config demo_running))) (fs_mkdir_error (fine_env 9)) = None"
      by (simp add: c parent fine_env_def)
    have "with_extension ''json.tmp'' ''/r/mounts.json'' = ''/r/mounts.json.tmp''" by code_simp
    then show "pid_file (dm_config demo_running) \<noteq> with_extension ''json.tmp'' (mounts_json (dm_config demo_running))"
      by (simp add: c json)
  qed (simp_all add: c json fine_env_def)
  with start cleared show ?thesis by (simp add: json demo_mount_def)
qed

end
