(* ===== verification/Fskit_Handler.thy ===== *)
theory Fskit_Handler
  imports Fskit_Adapter Git_Reservations
begin

text \<open>
  The dispatch of FSKit requests: the messages of \<open>protocol.proto\<close> (constructors and fields are those of
  the generated types the handler reads), the trait \<open>Filesystem\<close> of \<open>crates/fskit-rs/src/lib.rs\<close> as a
  record of operations, \<open>Handler::handle\<close> of \<open>handler.rs\<close> over it, and the one implementation of the
  trait, \<open>FilesystemAdapter\<close> of \<open>crates/ctxfs-fskit/src/adapter.rs\<close>.
\<close>

section \<open>Enumerations on the wire\<close>

text \<open>\<open>try_from\<close> on the numbers of the protocol file; an unknown number is no value.\<close>

datatype sync_flags = Sync_None | Sync_Wait | Sync_NoWait | Sync_DWait
datatype set_xattr_policy = Xattr_AlwaysSet | Xattr_MustCreate | Xattr_MustReplace | Xattr_Delete
datatype open_mode = Open_Read | Open_Write
datatype preallocate_flag = Preallocate_Contiguous | Preallocate_All | Preallocate_Persist | Preallocate_FromEof
datatype access_mask =
    Access_ReadData | Access_ListDirectory | Access_WriteData | Access_AddFile | Access_Execute | Access_Search
  | Access_Delete | Access_AppendData | Access_AddSubdirectory | Access_DeleteChild | Access_ReadAttributes
  | Access_WriteAttributes | Access_ReadXattr | Access_WriteXattr | Access_ReadSecurity | Access_WriteSecurity
  | Access_TakeOwnership

definition enum_of :: "(u32 \<times> 'a) list \<Rightarrow> u32 \<Rightarrow> 'a option" where
  "enum_of table raw = map_of table raw"

definition sync_flags_table :: "(u32 \<times> sync_flags) list" where
  "sync_flags_table = [(0, Sync_None), (1, Sync_Wait), (2, Sync_NoWait), (4, Sync_DWait)]"

definition item_type_table :: "(u32 \<times> item_type) list" where
  "item_type_table =
     [(0, ItemType_Unknown), (1, ItemType_File), (2, ItemType_Directory), (3, ItemType_Symlink), (4, ItemType_Fifo),
      (5, ItemType_CharDevice), (6, ItemType_BlockDevice), (7, ItemType_Socket)]"

definition xattr_policy_table :: "(u32 \<times> set_xattr_policy) list" where
  "xattr_policy_table = [(0, Xattr_AlwaysSet), (1, Xattr_MustCreate), (2, Xattr_MustReplace), (3, Xattr_Delete)]"

definition open_mode_table :: "(u32 \<times> open_mode) list" where
  "open_mode_table = [(0, Open_Read), (1, Open_Write)]"

definition preallocate_table :: "(u32 \<times> preallocate_flag) list" where
  "preallocate_table =
     [(0, Preallocate_Contiguous), (1, Preallocate_All), (2, Preallocate_Persist), (3, Preallocate_FromEof)]"

definition access_table :: "(u32 \<times> access_mask) list" where
  "access_table =
     [(0, Access_ReadData), (1, Access_ListDirectory), (2, Access_WriteData), (3, Access_AddFile), (4, Access_Execute),
      (5, Access_Search), (6, Access_Delete), (7, Access_AppendData), (8, Access_AddSubdirectory),
      (9, Access_DeleteChild), (10, Access_ReadAttributes), (11, Access_WriteAttributes), (12, Access_ReadXattr),
      (13, Access_WriteXattr), (14, Access_ReadSecurity), (15, Access_WriteSecurity), (16, Access_TakeOwnership)]"

section \<open>Requests and responses\<close>

record path_conf_operations =
  maximum_link_count :: u64
  maximum_name_length :: u64
  restricts_ownership_changes :: bool
  truncates_long_names :: bool
  maximum_xattr_size :: "u64 option"
  maximum_xattr_size_in_bits :: "u64 option"
  maximum_file_size :: "u64 option"
  maximum_file_size_in_bits :: "u64 option"

type_synonym task_options = "string list"

datatype request_content =
    Request_GetResourceIdentifier
  | Request_GetVolumeIdentifier
  | Request_GetVolumeBehavior
  | Request_GetPathConfOperations
  | Request_GetVolumeCapabilities
  | Request_GetVolumeStatistics
  | Request_Mount "task_options option"
  | Request_Unmount
  | Request_Synchronize u32
  | Request_GetAttributes u64
  | Request_SetAttributes "item_attributes option" u64
  | Request_LookupItem bytes u64
  | Request_ReclaimItem u64
  | Request_ReadSymbolicLink u64
  | Request_CreateItem bytes u32 u64 "item_attributes option"
  | Request_CreateSymbolicLink bytes u64 "item_attributes option" bytes
  | Request_CreateLink u64 bytes u64
  | Request_RemoveItem u64 bytes u64
  | Request_RenameItem u64 u64 bytes bytes u64 "u64 option"
  | Request_EnumerateDirectory u64 u64 u64
  | Request_Activate "task_options option"
  | Request_Deactivate
  | Request_GetSupportedXattrNames u64
  | Request_GetXattr bytes u64
  | Request_SetXattr bytes "bytes option" u64 u32
  | Request_GetXattrs u64
  | Request_OpenItem u64 "u32 list"
  | Request_CloseItem u64 "u32 list"
  | Request_Read u64 u64 u64
  | Request_Write bytes u64 u64
  | Request_CheckAccess u64 "u32 list"
  | Request_SetVolumeName bytes
  | Request_PreallocateSpace u64 u64 u64 "u32 list"
  | Request_DeactivateItem u64
  | Request_Authenticate "byte list"

datatype response_content =
    Response_ResourceIdentifier "string \<times> string"
  | Response_VolumeIdentifier "string \<times> string"
  | Response_VolumeBehavior volume_behavior
  | Response_PathConfOperations path_conf_operations
  | Response_SupportedCapabilities supported_capabilities
  | Response_StatFsResult volume_statistics
  | Response_ItemAttributes item_attributes
  | Response_Item item
  | Response_DirectoryEntries "fskit_entry list \<times> u64"
  | Response_Xattrs "bytes list"
  | Response_Data bytes
  | Response_ByteCount u64
  | Response_Allow bool
  | Response_Success
  | Response_PosixError errno

section \<open>The trait \<open>Filesystem\<close>\<close>

record 's filesystem =
  op_get_resource_identifier :: "('s, string \<times> string, errno) task"
  op_get_volume_identifier :: "('s, string \<times> string, errno) task"
  op_get_volume_behavior :: "('s, volume_behavior, errno) task"
  op_get_path_conf_operations :: "('s, path_conf_operations, errno) task"
  op_get_volume_capabilities :: "('s, supported_capabilities, errno) task"
  op_get_volume_statistics :: "('s, volume_statistics, errno) task"
  op_mount :: "task_options \<Rightarrow> ('s, unit, errno) task"
  op_unmount :: "('s, unit, errno) task"
  op_synchronize :: "sync_flags \<Rightarrow> ('s, unit, errno) task"
  op_get_attributes :: "u64 \<Rightarrow> ('s, item_attributes, errno) task"
  op_set_attributes :: "u64 \<Rightarrow> item_attributes \<Rightarrow> ('s, item_attributes, errno) task"
  op_lookup_item :: "bytes \<Rightarrow> u64 \<Rightarrow> ('s, item, errno) task"
  op_reclaim_item :: "u64 \<Rightarrow> ('s, unit, errno) task"
  op_read_symbolic_link :: "u64 \<Rightarrow> ('s, bytes, errno) task"
  op_create_item :: "bytes \<Rightarrow> item_type \<Rightarrow> u64 \<Rightarrow> item_attributes \<Rightarrow> ('s, item, errno) task"
  op_create_symbolic_link :: "bytes \<Rightarrow> u64 \<Rightarrow> item_attributes \<Rightarrow> bytes \<Rightarrow> ('s, item, errno) task"
  op_create_link :: "u64 \<Rightarrow> bytes \<Rightarrow> u64 \<Rightarrow> ('s, bytes, errno) task"
  op_remove_item :: "u64 \<Rightarrow> bytes \<Rightarrow> u64 \<Rightarrow> ('s, unit, errno) task"
  op_rename_item :: "u64 \<Rightarrow> u64 \<Rightarrow> bytes \<Rightarrow> bytes \<Rightarrow> u64 \<Rightarrow> u64 option \<Rightarrow> ('s, bytes, errno) task"
  op_enumerate_directory :: "u64 \<Rightarrow> u64 \<Rightarrow> u64 \<Rightarrow> ('s, fskit_entry list \<times> u64, errno) task"
  op_activate :: "task_options \<Rightarrow> ('s, item, errno) task"
  op_deactivate :: "('s, unit, errno) task"
  op_get_supported_xattr_names :: "u64 \<Rightarrow> ('s, bytes list, errno) task"
  op_get_xattr :: "bytes \<Rightarrow> u64 \<Rightarrow> ('s, bytes, errno) task"
  op_set_xattr :: "bytes \<Rightarrow> bytes option \<Rightarrow> u64 \<Rightarrow> set_xattr_policy \<Rightarrow> ('s, unit, errno) task"
  op_get_xattrs :: "u64 \<Rightarrow> ('s, bytes list, errno) task"
  op_open_item :: "u64 \<Rightarrow> open_mode list \<Rightarrow> ('s, unit, errno) task"
  op_close_item :: "u64 \<Rightarrow> open_mode list \<Rightarrow> ('s, unit, errno) task"
  op_read :: "u64 \<Rightarrow> u64 \<Rightarrow> u64 \<Rightarrow> ('s, bytes, errno) task"
  op_write :: "bytes \<Rightarrow> u64 \<Rightarrow> u64 \<Rightarrow> ('s, u64, errno) task"
  op_check_access :: "u64 \<Rightarrow> access_mask list \<Rightarrow> ('s, bool, errno) task"
  op_set_volume_name :: "bytes \<Rightarrow> ('s, bytes, errno) task"
  op_preallocate_space :: "u64 \<Rightarrow> u64 \<Rightarrow> u64 \<Rightarrow> preallocate_flag list \<Rightarrow> ('s, u64, errno) task"
  op_deactivate_item :: "u64 \<Rightarrow> ('s, unit, errno) task"

section \<open>The handler\<close>

text \<open>The \<open>match\<close> on an operation's result: its value in the response for it, or the POSIX error.\<close>

definition replying :: "('a \<Rightarrow> response_content) \<Rightarrow> ('s, 'a, errno) task \<Rightarrow> ('s, response_content, errno) task" where
  "replying f m = prog_try m (\<lambda>r. prog_return (case r of Inl x \<Rightarrow> f x | Inr code \<Rightarrow> Response_PosixError code))"

abbreviation replying_success :: "('s, unit, errno) task \<Rightarrow> ('s, response_content, errno) task" where
  "replying_success \<equiv> replying (\<lambda>_. Response_Success)"

abbreviation invalid_request :: "('s, response_content, errno) task" where
  "invalid_request \<equiv> prog_return (Response_PosixError EINVAL)"

abbreviation known_values :: "(u32 \<times> 'a) list \<Rightarrow> u32 list \<Rightarrow> 'a list" where
  "known_values table raws \<equiv> List.map_filter (enum_of table) raws"

definition or_default :: "'a \<Rightarrow> 'a option \<Rightarrow> 'a" where
  "or_default d x = (case x of Some y \<Rightarrow> y | None \<Rightarrow> d)"

fun handle_request :: "'s filesystem \<Rightarrow> request_content \<Rightarrow> ('s, response_content, errno) task" where
  "handle_request F Request_GetResourceIdentifier = replying Response_ResourceIdentifier (op_get_resource_identifier F)"
| "handle_request F Request_GetVolumeIdentifier = replying Response_VolumeIdentifier (op_get_volume_identifier F)"
| "handle_request F Request_GetVolumeBehavior = replying Response_VolumeBehavior (op_get_volume_behavior F)"
| "handle_request F Request_GetPathConfOperations =
     replying Response_PathConfOperations (op_get_path_conf_operations F)"
| "handle_request F Request_GetVolumeCapabilities =
     replying Response_SupportedCapabilities (op_get_volume_capabilities F)"
| "handle_request F Request_GetVolumeStatistics = replying Response_StatFsResult (op_get_volume_statistics F)"
| "handle_request F (Request_Mount opts) =
     (case opts of None \<Rightarrow> invalid_request | Some o1 \<Rightarrow> replying_success (op_mount F o1))"
| "handle_request F Request_Unmount = replying_success (op_unmount F)"
| "handle_request F (Request_Synchronize flags) =
     replying_success (op_synchronize F (or_default Sync_None (enum_of sync_flags_table flags)))"
| "handle_request F (Request_GetAttributes i) = replying Response_ItemAttributes (op_get_attributes F i)"
| "handle_request F (Request_SetAttributes attrs i) =
     (case attrs of None \<Rightarrow> invalid_request | Some a \<Rightarrow> replying Response_ItemAttributes (op_set_attributes F i a))"
| "handle_request F (Request_LookupItem nm d) = replying Response_Item (op_lookup_item F nm d)"
| "handle_request F (Request_ReclaimItem i) = replying_success (op_reclaim_item F i)"
| "handle_request F (Request_ReadSymbolicLink i) = replying Response_Data (op_read_symbolic_link F i)"
| "handle_request F (Request_CreateItem nm t d attrs) =
     (case enum_of item_type_table t of
        None \<Rightarrow> invalid_request
      | Some ty \<Rightarrow>
          (case attrs of None \<Rightarrow> invalid_request | Some a \<Rightarrow> replying Response_Item (op_create_item F nm ty d a)))"
| "handle_request F (Request_CreateSymbolicLink nm d attrs contents) =
     (case attrs of
        None \<Rightarrow> invalid_request
      | Some a \<Rightarrow> replying Response_Item (op_create_symbolic_link F nm d a contents))"
| "handle_request F (Request_CreateLink i nm d) = replying Response_Data (op_create_link F i nm d)"
| "handle_request F (Request_RemoveItem i nm d) = replying_success (op_remove_item F i nm d)"
| "handle_request F (Request_RenameItem i d nm nm' d' over) =
     replying Response_Data (op_rename_item F i d nm nm' d' over)"
| "handle_request F (Request_EnumerateDirectory d cookie verifier) =
     replying Response_DirectoryEntries (op_enumerate_directory F d cookie verifier)"
| "handle_request F (Request_Activate opts) =
     (case opts of None \<Rightarrow> invalid_request | Some o1 \<Rightarrow> replying Response_Item (op_activate F o1))"
| "handle_request F Request_Deactivate = replying_success (op_deactivate F)"
| "handle_request F (Request_GetSupportedXattrNames i) = replying Response_Xattrs (op_get_supported_xattr_names F i)"
| "handle_request F (Request_GetXattr nm i) = replying Response_Data (op_get_xattr F nm i)"
| "handle_request F (Request_SetXattr nm v i policy) =
     replying_success (op_set_xattr F nm v i (or_default Xattr_AlwaysSet (enum_of xattr_policy_table policy)))"
| "handle_request F (Request_GetXattrs i) = replying Response_Xattrs (op_get_xattrs F i)"
| "handle_request F (Request_OpenItem i modes) =
     replying_success (op_open_item F i (known_values open_mode_table modes))"
| "handle_request F (Request_CloseItem i modes) =
     replying_success (op_close_item F i (known_values open_mode_table modes))"
| "handle_request F (Request_Read i offset len) = replying Response_Data (op_read F i offset len)"
| "handle_request F (Request_Write contents i offset) = replying Response_ByteCount (op_write F contents i offset)"
| "handle_request F (Request_CheckAccess i access) =
     replying Response_Allow (op_check_access F i (known_values access_table access))"
| "handle_request F (Request_SetVolumeName nm) = replying Response_Data (op_set_volume_name F nm)"
| "handle_request F (Request_PreallocateSpace i offset len flags) =
     replying Response_ByteCount (op_preallocate_space F i offset len (known_values preallocate_table flags))"
| "handle_request F (Request_DeactivateItem i) = replying_success (op_deactivate_item F i)"
| "handle_request F (Request_Authenticate token) = prog_return (Response_PosixError EACCES)"

end
