(* ===== verification/Fskit_Session.thy ===== *)
theory Fskit_Session
  imports Fskit_Handler
begin

text \<open>
  The listener that the FSKit extension talks to: \<open>handle_stream\<close> of \<open>crates/fskit-rs/src/socket.rs\<close>, with
  the token comparison of \<open>auth.rs\<close>, over the handler of \<open>Fskit_Handler\<close>; and the adapter as the
  filesystem behind it. The protobuf decoder is library code and an argument: from the front of a
  buffer it gives a request and the number of bytes that remain after it, or the text of its error.
\<close>

section \<open>The adapter as a \<open>Filesystem\<close>\<close>

record 'm bridge =
  br_adapter :: filesystem_adapter
  br_vfs :: vfs
  br_cache :: "'m blob_cache"

definition bridge_look :: "('m bridge \<Rightarrow> 'a fskit_result) \<Rightarrow> ('m bridge, 'a, errno) task" where
  "bridge_look f s = Some (s, f s)"

definition bridge_walk :: "(vfs \<Rightarrow> vfs \<times> 'a fskit_result) \<Rightarrow> ('m bridge, 'a, errno) task" where
  "bridge_walk f s = (let (v, r) = f (br_vfs s) in Some (s\<lparr> br_vfs := v \<rparr>, r))"

definition bridge_read ::
  "'m lru_ops \<Rightarrow> io_env \<Rightarrow> provider \<Rightarrow> u64 \<Rightarrow> u64 \<Rightarrow> u64 \<Rightarrow> ('m bridge, bytes, errno) task" where
  "bridge_read L io p i offset len s =
     map_option (\<lambda>(c, r). (s\<lparr> br_cache := c \<rparr>, r)) (fskit_read L io p i offset len (br_vfs s) (br_cache s))"

abbreviation refused :: "('s, 'a, errno) task" where "refused \<equiv> prog_lift (Err EROFS)"

definition default_path_conf :: path_conf_operations where
  "default_path_conf =
     \<lparr> maximum_link_count = 0, maximum_name_length = 0, restricts_ownership_changes = False,
       truncates_long_names = False, maximum_xattr_size = None, maximum_xattr_size_in_bits = None,
       maximum_file_size = None, maximum_file_size_in_bits = None \<rparr>"

definition adapter_fs ::
  "'m lru_ops \<Rightarrow> io_env \<Rightarrow> process_ids \<Rightarrow> provider \<Rightarrow> dir_parser \<Rightarrow> 'm bridge filesystem" where
  "adapter_fs L io ids p parse_dir =
     \<lparr> op_get_resource_identifier = bridge_look (\<lambda>s. Ok (get_resource_identifier (br_adapter s))),
       op_get_volume_identifier = bridge_look (\<lambda>s. Ok (get_volume_identifier (br_adapter s))),
       op_get_volume_behavior = prog_return get_volume_behavior,
       op_get_path_conf_operations = prog_return default_path_conf,
       op_get_volume_capabilities = prog_return get_volume_capabilities,
       op_get_volume_statistics = bridge_look (\<lambda>s. Ok (get_volume_statistics (br_vfs s))),
       op_mount = (\<lambda>_. prog_return ()),
       op_unmount = prog_change (\<lambda>s. s\<lparr> br_adapter := fskit_unmount (br_adapter s) \<rparr>),
       op_synchronize = (\<lambda>_. prog_return ()),
       op_get_attributes = (\<lambda>i. bridge_look (\<lambda>s. get_attributes ids i (br_vfs s))),
       op_set_attributes = (\<lambda>_ _. refused),
       op_lookup_item = (\<lambda>nm d. bridge_walk (lookup_item ids p parse_dir nm d)),
       op_reclaim_item = (\<lambda>_. prog_return ()),
       op_read_symbolic_link = (\<lambda>i. bridge_look (\<lambda>s. read_symbolic_link i (br_vfs s))),
       op_create_item = (\<lambda>_ _ _ _. refused),
       op_create_symbolic_link = (\<lambda>_ _ _ _. refused),
       op_create_link = (\<lambda>_ _ _. refused),
       op_remove_item = (\<lambda>_ _ _. refused),
       op_rename_item = (\<lambda>_ _ _ _ _ _. refused),
       op_enumerate_directory = (\<lambda>d cookie _.
         bridge_walk (\<lambda>v. map_prod id (omap (\<lambda>es. (es, 0))) (enumerate_directory ids p parse_dir d cookie v))),
       op_activate = (\<lambda>_. bridge_look (\<lambda>s. fskit_activate ids (br_vfs s))),
       op_deactivate = prog_return (),
       op_get_supported_xattr_names = (\<lambda>_. prog_return []),
       op_get_xattr = (\<lambda>nm i. prog_lift (get_xattr nm i)),
       op_set_xattr = (\<lambda>_ _ _ _. refused),
       op_get_xattrs = (\<lambda>_. prog_return []),
       op_open_item = (\<lambda>_ _. prog_return ()),
       op_close_item = (\<lambda>_ _. prog_return ()),
       op_read = bridge_read L io p,
       op_write = (\<lambda>_ _ _. refused),
       op_check_access = (\<lambda>i _. prog_lift (check_access i)),
       op_set_volume_name = (\<lambda>_. refused),
       op_preallocate_space = (\<lambda>_ _ _ _. refused),
       op_deactivate_item = (\<lambda>_. prog_return ()) \<rparr>"

section \<open>The token\<close>

definition verify_token_ct :: "byte list \<Rightarrow> byte list \<Rightarrow> bool" where
  "verify_token_ct expected candidate =
     (if length expected \<noteq> length candidate then False
      else foldl (\<lambda>diff (a, b). or diff (xor a b)) 0 (zip expected candidate) = 0)"

lemma verify_token_iff [simp]: "verify_token_ct expected candidate \<longleftrightarrow> candidate = expected"
  by (auto simp: verify_token_ct_def foldl_or_eq_0 list_all_zip_eq)

section \<open>One connection\<close>

record bridge_request =
  bq_id :: u64
  bq_content :: "request_content option"

record bridge_response =
  bs_request_id :: u64
  bs_content :: "response_content option"

type_synonym frame_decoder = "bytes \<Rightarrow> (bridge_request \<times> nat) + string"

text \<open>What the socket answers when the n-th response is to be written: an error of \<open>ready\<close>, of \<open>write_all\<close>.\<close>

record stream_env =
  se_ready_error :: "nat \<Rightarrow> string option"
  se_write_error :: "nat \<Rightarrow> string option"

record 's connection =
  cx_buf :: bytes
  cx_authenticated :: bool
  cx_fs :: 's
  cx_sent :: "bridge_response list"

datatype stream_status = Stream_Open | Stream_Closed | Stream_Failed string | Stream_Panicked

definition send_response :: "bridge_response \<Rightarrow> 's connection \<Rightarrow> 's connection" where
  "send_response r c = c\<lparr> cx_sent := cx_sent c @ [r] \<rparr>"

text \<open>A rejection: the error is sent if it can be, and the connection is closed in any case.\<close>

definition reject_request ::
  "stream_env \<Rightarrow> u64 \<Rightarrow> errno \<Rightarrow> 's connection \<Rightarrow> 's connection \<times> stream_status" where
  "reject_request E rid code c =
     (let n = length (cx_sent c) in
      case se_ready_error E n of
        Some e \<Rightarrow> (c, Stream_Failed e)
      | None \<Rightarrow>
          (case se_write_error E n of
             Some _ \<Rightarrow> c
           | None \<Rightarrow> send_response \<lparr> bs_request_id = rid, bs_content = Some (Response_PosixError code) \<rparr> c,
           Stream_Closed))"

definition answer_request ::
  "stream_env \<Rightarrow> u64 \<Rightarrow> response_content option \<Rightarrow> 's connection \<Rightarrow> 's connection \<times> stream_status" where
  "answer_request E rid content c =
     (let n = length (cx_sent c) in
      case se_ready_error E n of
        Some e \<Rightarrow> (c, Stream_Failed e)
      | None \<Rightarrow>
          (case se_write_error E n of
             Some e \<Rightarrow> (c, Stream_Failed e)
           | None \<Rightarrow> (send_response \<lparr> bs_request_id = rid, bs_content = content \<rparr> c, Stream_Open)))"

text \<open>The \<open>match (authenticated, request.content)\<close>.\<close>

definition serve_request ::
  "stream_env \<Rightarrow> byte list option \<Rightarrow> 's filesystem \<Rightarrow> bridge_request \<Rightarrow> 's connection \<Rightarrow>
     ('s connection \<times> stream_status) option" where
  "serve_request E expected_token F rq c =
     (case bq_content rq of
        None \<Rightarrow> Some (answer_request E (bq_id rq) (Some (Response_PosixError EINVAL)) c)
      | Some content \<Rightarrow>
          (case content of
             Request_Authenticate token \<Rightarrow>
               (if cx_authenticated c then Some (reject_request E (bq_id rq) EPROTO c)
                else case expected_token of
                  Some expected \<Rightarrow>
                    (if verify_token_ct expected token
                     then Some (answer_request E (bq_id rq) (Some Response_Success) (c\<lparr> cx_authenticated := True \<rparr>))
                     else Some (reject_request E (bq_id rq) EACCES c))
                | None \<Rightarrow> Some (reject_request E (bq_id rq) EACCES c))
           | _ \<Rightarrow>
               (if \<not> cx_authenticated c then Some (reject_request E (bq_id rq) EACCES c)
                else case handle_request F content (cx_fs c) of
                  None \<Rightarrow> None
                | Some (s, r) \<Rightarrow>
                    (case r of
                       Ok answer \<Rightarrow> Some (answer_request E (bq_id rq) (Some answer) (c\<lparr> cx_fs := s \<rparr>))
                     | Err _ \<Rightarrow> Some (answer_request E (bq_id rq) None (c\<lparr> cx_fs := s \<rparr>))
                     | Panic \<Rightarrow> Some (c\<lparr> cx_fs := s \<rparr>, Stream_Panicked)))))"

text \<open>An error of the decoder that more bytes may cure.\<close>

definition needs_more_bytes :: "string \<Rightarrow> bool" where
  "needs_more_bytes e \<longleftrightarrow> str_contains ''failed to decode length prefix'' e \<or> str_contains ''buffer underflow'' e"

text \<open>
  The inner loop: the requests at the front of the buffer, one after the other. It is a loop that need
  not end for an arbitrary decoder, which might consume nothing.
\<close>

partial_function (option) drain_buffer ::
  "stream_env \<Rightarrow> frame_decoder \<Rightarrow> byte list option \<Rightarrow> 's filesystem \<Rightarrow> 's connection \<Rightarrow>
     ('s connection \<times> stream_status) option" where
  "drain_buffer E decode expected_token F c =
     (if cx_buf c = [] then Some (c, Stream_Open)
      else (case decode (cx_buf c) of
        Inl (rq, remaining) \<Rightarrow>
          (case serve_request E expected_token F rq
                  (c\<lparr> cx_buf := drop (length (cx_buf c) - remaining) (cx_buf c) \<rparr>) of
             None \<Rightarrow> None
           | Some (c1, st) \<Rightarrow>
               (case st of
                  Stream_Open \<Rightarrow> drain_buffer E decode expected_token F c1
                | _ \<Rightarrow> Some (c1, st)))
      | Inr e \<Rightarrow> Some (c, if needs_more_bytes e then Stream_Open else Stream_Failed e)))"

text \<open>What the outer \<open>select!\<close> wakes up to. Reading no bytes is the peer's closing of the connection.\<close>

datatype stream_event =
    Event_Shutdown
  | Event_NotReady string
  | Event_WouldBlock
  | Event_ReadError string
  | Event_Data bytes

fun handle_stream ::
  "stream_env \<Rightarrow> frame_decoder \<Rightarrow> byte list option \<Rightarrow> 's filesystem \<Rightarrow> stream_event list \<Rightarrow> 's connection \<Rightarrow>
     ('s connection \<times> stream_status) option" where
  "handle_stream E decode expected_token F [] c = Some (c, Stream_Open)"
| "handle_stream E decode expected_token F (ev # evs) c =
     (case ev of
        Event_Shutdown \<Rightarrow> Some (c, Stream_Closed)
      | Event_NotReady e \<Rightarrow> Some (c, Stream_Failed e)
      | Event_WouldBlock \<Rightarrow> handle_stream E decode expected_token F evs c
      | Event_ReadError e \<Rightarrow> Some (c, Stream_Failed e)
      | Event_Data data \<Rightarrow>
          (if data = [] then Some (c, Stream_Closed)
           else (case drain_buffer E decode expected_token F (c\<lparr> cx_buf := cx_buf c @ data \<rparr>) of
             None \<Rightarrow> None
           | Some (c1, st) \<Rightarrow>
               (case st of
                  Stream_Open \<Rightarrow> handle_stream E decode expected_token F evs c1
                | _ \<Rightarrow> Some (c1, st)))))"

definition new_connection :: "byte list option \<Rightarrow> 's \<Rightarrow> 's connection" where
  "new_connection expected_token fs =
     \<lparr> cx_buf = [], cx_authenticated = (expected_token = None), cx_fs = fs, cx_sent = [] \<rparr>"

end
