(* ===== verification/Fskit_Framing.thy ===== *)
theory Fskit_Framing
  imports Fskit_Session
begin

text \<open>
  What a connection of the FSKit bridge promises whatever filesystem is behind it: nothing is served
  before the token was shown, and the pieces in which the bytes arrive make no difference.
\<close>

section \<open>Requests of one kind and the other\<close>

lemma serve_nothing:
  "bq_content rq = None \<Longrightarrow>
     serve_request E x F rq c = Some (answer_request E (bq_id rq) (Some (Response_PosixError EINVAL)) c)"
  by (simp add: serve_request_def)

lemma serve_authenticate:
  "bq_content rq = Some (Request_Authenticate token) \<Longrightarrow>
     serve_request E x F rq c =
       Some (if cx_authenticated c then reject_request E (bq_id rq) EPROTO c
         else if x = Some token
         then answer_request E (bq_id rq) (Some Response_Success) (c\<lparr> cx_authenticated := True \<rparr>)
         else reject_request E (bq_id rq) EACCES c)"
  by (simp add: serve_request_def split: option.split)

lemma serve_other:
  "bq_content rq = Some content \<Longrightarrow> \<nexists>token. content = Request_Authenticate token \<Longrightarrow>
     serve_request E x F rq c =
       (if \<not> cx_authenticated c then Some (reject_request E (bq_id rq) EACCES c)
        else map_option (\<lambda>(s, r).
               case r of
                 Ok answer \<Rightarrow> answer_request E (bq_id rq) (Some answer) (c\<lparr> cx_fs := s \<rparr>)
               | Err _ \<Rightarrow> answer_request E (bq_id rq) None (c\<lparr> cx_fs := s \<rparr>)
               | Panic \<Rightarrow> (c\<lparr> cx_fs := s \<rparr>, Stream_Panicked)) (handle_request F content (cx_fs c)))"
  by (cases content) (auto simp: serve_request_def split: option.split outcome.split)

lemma request_kinds:
  obtains "bq_content rq = None"
  | (authenticate) token where "bq_content rq = Some (Request_Authenticate token)"
  | (other) content where "bq_content rq = Some content" "\<nexists>token. content = Request_Authenticate token"
  by (cases "bq_content rq") blast+

text \<open>How the connection looks after a response, whichever it was.\<close>

lemma reject_shape:
  "reject_request E rid code c = (c', st) \<Longrightarrow>
     c' = c \<and> st \<noteq> Stream_Open
     \<or> c' = send_response \<lparr> bs_request_id = rid, bs_content = Some (Response_PosixError code) \<rparr> c \<and> st = Stream_Closed"
  by (auto simp: reject_request_def Let_def split: option.splits)

lemma answer_shape:
  "answer_request E rid content c = (c', st) \<Longrightarrow>
     c' = c \<and> (\<exists>e. st = Stream_Failed e)
     \<or> c' = send_response \<lparr> bs_request_id = rid, bs_content = content \<rparr> c \<and> st = Stream_Open"
  by (auto simp: answer_request_def Let_def split: option.splits)

lemma serve_shape:
  assumes "serve_request E x F rq c = Some (c', st)"
  shows "cx_buf c' = cx_buf c \<and>
    (st = Stream_Open \<longrightarrow> (\<exists>content. cx_sent c' = cx_sent c @ [\<lparr> bs_request_id = bq_id rq, bs_content = content \<rparr>]))"
proof (cases rq rule: request_kinds)
  case 1
  then show ?thesis using assms by (auto simp: serve_nothing send_response_def dest!: answer_shape)
next
  case (authenticate token)
  then show ?thesis
    using assms by (auto simp: serve_authenticate send_response_def dest!: answer_shape reject_shape split: if_splits)
next
  case (other content)
  show ?thesis
  proof (cases "cx_authenticated c")
    case True
    then obtain s r where "handle_request F content (cx_fs c) = Some (s, r)" and "(case r of
          Ok answer \<Rightarrow> answer_request E (bq_id rq) (Some answer) (c\<lparr> cx_fs := s \<rparr>)
        | Err _ \<Rightarrow> answer_request E (bq_id rq) None (c\<lparr> cx_fs := s \<rparr>)
        | Panic \<Rightarrow> (c\<lparr> cx_fs := s \<rparr>, Stream_Panicked)) = (c', st)"
      using assms other by (auto simp: serve_other)
    then show ?thesis by (cases r) (auto simp: send_response_def dest!: answer_shape)
  qed (use assms other in \<open>auto simp: serve_other send_response_def dest!: reject_shape\<close>)
qed

lemma reject_buf:
  "reject_request E rid code (c\<lparr> cx_buf := b \<rparr>) = map_prod (cx_buf_update (\<lambda>_. b)) id (reject_request E rid code c)"
  by (simp add: reject_request_def send_response_def Let_def split: option.split)

lemma answer_buf:
  "answer_request E rid content (c\<lparr> cx_buf := b \<rparr>)
     = map_prod (cx_buf_update (\<lambda>_. b)) id (answer_request E rid content c)"
  by (simp add: answer_request_def send_response_def Let_def split: option.split)

lemma answer_buf_more:
  "answer_request E rid content (c\<lparr> cx_buf := b, cx_authenticated := a \<rparr>)
     = map_prod (cx_buf_update (\<lambda>_. b)) id (answer_request E rid content (c\<lparr> cx_authenticated := a \<rparr>))"
  "answer_request E rid content (c\<lparr> cx_buf := b, cx_fs := s \<rparr>)
     = map_prod (cx_buf_update (\<lambda>_. b)) id (answer_request E rid content (c\<lparr> cx_fs := s \<rparr>))"
  by (simp_all add: answer_request_def send_response_def Let_def split: option.split)

lemma serve_buf:
  "serve_request E x F rq (c\<lparr> cx_buf := b \<rparr>) = map_option (map_prod (cx_buf_update (\<lambda>_. b)) id) (serve_request E x F rq c)"
proof (cases rq rule: request_kinds)
  case 1
  then show ?thesis by (simp add: serve_nothing answer_buf)
next
  case (authenticate token)
  then show ?thesis by (simp add: serve_authenticate answer_buf_more reject_buf)
next
  case (other content)
  then show ?thesis
    by (simp add: serve_other answer_buf_more reject_buf option.map_comp comp_def case_prod_beta
        split: outcome.split) (auto simp: map_option_case answer_buf_more split: option.split outcome.split)
qed

section \<open>Nothing is served before the token was shown\<close>

text \<open>What an unauthenticated connection may answer: that requests are empty, and once, at its end, that one is refused.\<close>

definition refusals :: "bridge_response list \<Rightarrow> stream_status \<Rightarrow> bool" where
  "refusals rs st \<longleftrightarrow>
     (\<exists>ids final. rs = map (\<lambda>i. \<lparr> bs_request_id = i, bs_content = Some (Response_PosixError EINVAL) \<rparr>) ids @ final
        \<and> (final = [] \<or> st = Stream_Closed
             \<and> (\<exists>i. final = [\<lparr> bs_request_id = i, bs_content = Some (Response_PosixError EACCES) \<rparr>])))"

lemma refusals_Nil [simp]: "refusals [] st"
  by (auto simp: refusals_def)

lemma refusals_Cons: "refusals rs st \<Longrightarrow> refusals (\<lparr> bs_request_id = i, bs_content = Some (Response_PosixError EINVAL) \<rparr> # rs) st"
  unfolding refusals_def
proof (elim exE conjE)
  fix ids final
  assume "rs = map (\<lambda>i. \<lparr> bs_request_id = i, bs_content = Some (Response_PosixError EINVAL) \<rparr>) ids @ final"
    and f: "final = [] \<or> st = Stream_Closed
      \<and> (\<exists>i. final = [\<lparr> bs_request_id = i, bs_content = Some (Response_PosixError EACCES) \<rparr>])"
  then show "\<exists>ids final. \<lparr> bs_request_id = i, bs_content = Some (Response_PosixError EINVAL) \<rparr> # rs
      = map (\<lambda>i. \<lparr> bs_request_id = i, bs_content = Some (Response_PosixError EINVAL) \<rparr>) ids @ final
      \<and> (final = [] \<or> st = Stream_Closed
           \<and> (\<exists>i. final = [\<lparr> bs_request_id = i, bs_content = Some (Response_PosixError EACCES) \<rparr>]))"
    by (intro exI [of _ "i # ids"] exI [of _ final]) simp
qed

lemma refusals_refused: "refusals [\<lparr> bs_request_id = i, bs_content = Some (Response_PosixError EACCES) \<rparr>] Stream_Closed"
  unfolding refusals_def by (rule exI [of _ "[]"]) auto

text \<open>The bytes hold the token at some place where the decoder finds an authentication request.\<close>

definition shows_token :: "frame_decoder \<Rightarrow> byte list \<Rightarrow> bytes \<Rightarrow> bool" where
  "shows_token decode token received \<longleftrightarrow>
     (\<exists>front part back rid n. received = front @ part @ back
        \<and> decode part = Inl (\<lparr> bq_id = rid, bq_content = Some (Request_Authenticate token) \<rparr>, n))"

lemma shows_token_within: "shows_token decode token mid \<Longrightarrow> shows_token decode token (front @ mid @ back)"
  unfolding shows_token_def by (metis append.assoc)

lemma shows_token_request:
  assumes "decode received = Inl (rq, n)" "bq_content rq = Some (Request_Authenticate token)"
  shows "shows_token decode token received"
proof -
  have "decode received = Inl (\<lparr> bq_id = bq_id rq, bq_content = Some (Request_Authenticate token) \<rparr>, n)"
    using assms by (cases rq) simp
  then show ?thesis unfolding shows_token_def by (metis append_Nil append_Nil2)
qed

definition unserved :: "'s connection \<Rightarrow> 's connection \<Rightarrow> stream_status \<Rightarrow> bool" where
  "unserved c c' st \<longleftrightarrow>
     \<not> cx_authenticated c' \<and> cx_fs c' = cx_fs c \<and> (\<exists>rs. cx_sent c' = cx_sent c @ rs \<and> refusals rs st)"

lemma unserved_trans:
  assumes "cx_fs c1 = cx_fs c" "cx_sent c1 = cx_sent c @ map (\<lambda>i. \<lparr> bs_request_id = i, bs_content = Some (Response_PosixError EINVAL) \<rparr>) ids"
    and "unserved c1 c' st"
  shows "unserved c c' st"
proof -
  obtain rs where "cx_sent c' = cx_sent c1 @ rs" "refusals rs st" using assms(3) by (auto simp: unserved_def)
  moreover have "refusals (map (\<lambda>i. \<lparr> bs_request_id = i, bs_content = Some (Response_PosixError EINVAL) \<rparr>) ids @ rs) st"
    using \<open>refusals rs st\<close> by (induction ids) (auto intro: refusals_Cons)
  ultimately show ?thesis using assms by (auto simp: unserved_def)
qed

lemma serve_unserved:
  assumes run: "serve_request E (Some token) F rq c = Some (c', st)" and closed: "\<not> cx_authenticated c"
    and other: "bq_content rq \<noteq> Some (Request_Authenticate token)"
  shows "unserved c c' st \<and> (st = Stream_Open \<longrightarrow>
    cx_sent c' = cx_sent c @ [\<lparr> bs_request_id = bq_id rq, bs_content = Some (Response_PosixError EINVAL) \<rparr>])"
proof (cases rq rule: request_kinds)
  case 1
  then show ?thesis
    using run closed by (auto simp: serve_nothing send_response_def unserved_def dest!: answer_shape
        intro: refusals_Cons [OF refusals_Nil])
next
  case (authenticate token')
  then show ?thesis
    using run closed other
    by (auto simp: serve_authenticate send_response_def unserved_def dest!: reject_shape intro: refusals_refused)
next
  case (other content)
  then show ?thesis
    using run closed by (auto simp: serve_other send_response_def unserved_def dest!: reject_shape intro: refusals_refused)
qed

text \<open>What holds of every run of the inner loop: a rule to reason about it.\<close>

lemma drain_rule [consumes 1, case_names stopped incomplete closed more]:
  assumes run: "drain_buffer E decode x F c = Some p"
    and stop: "\<And>c. cx_buf c = [] \<Longrightarrow> P c (c, Stream_Open)"
    and fail: "\<And>c e. cx_buf c \<noteq> [] \<Longrightarrow> decode (cx_buf c) = Inr e \<Longrightarrow>
      P c (c, if needs_more_bytes e then Stream_Open else Stream_Failed e)"
    and close: "\<And>c rq n c1 st. cx_buf c \<noteq> [] \<Longrightarrow> decode (cx_buf c) = Inl (rq, n) \<Longrightarrow>
      serve_request E x F rq (c\<lparr> cx_buf := drop (length (cx_buf c) - n) (cx_buf c) \<rparr>) = Some (c1, st) \<Longrightarrow>
      st \<noteq> Stream_Open \<Longrightarrow> P c (c1, st)"
    and more: "\<And>c rq n c1 p. cx_buf c \<noteq> [] \<Longrightarrow> decode (cx_buf c) = Inl (rq, n) \<Longrightarrow>
      serve_request E x F rq (c\<lparr> cx_buf := drop (length (cx_buf c) - n) (cx_buf c) \<rparr>) = Some (c1, Stream_Open) \<Longrightarrow>
      P c1 p \<Longrightarrow> P c p"
  shows "P c p"
proof -
  have "E = E \<and> decode = decode \<and> x = x \<and> F = F \<longrightarrow> P c p" if "drain_buffer E decode x F c = Some p" for c p
    using that
  proof (rule drain_buffer.raw_induct [where P = "\<lambda>E' decode' x' F' c p.
      E' = E \<and> decode' = decode \<and> x' = x \<and> F' = F \<longrightarrow> P c p", rotated], intro impI)
    fix loop E' decode' x' F' c p
    assume IH: "\<And>E' decode' x' F' c p. loop E' decode' x' F' c = Some p \<Longrightarrow>
        E' = E \<and> decode' = decode \<and> x' = x \<and> F' = F \<longrightarrow> P c p"
      and body: "(if cx_buf c = [] then Some (c, Stream_Open)
        else (case decode' (cx_buf c) of
          Inl (rq, remaining) \<Rightarrow>
            (case serve_request E' x' F' rq (c\<lparr> cx_buf := drop (length (cx_buf c) - remaining) (cx_buf c) \<rparr>) of
               None \<Rightarrow> None
             | Some (c1, st) \<Rightarrow> (case st of Stream_Open \<Rightarrow> loop E' decode' x' F' c1 | _ \<Rightarrow> Some (c1, st)))
        | Inr e \<Rightarrow> Some (c, if needs_more_bytes e then Stream_Open else Stream_Failed e))) = Some p"
      and eqs: "E' = E \<and> decode' = decode \<and> x' = x \<and> F' = F"
    show "P c p"
    proof (cases "cx_buf c = []")
      case False
      show ?thesis
      proof (cases "decode (cx_buf c)")
        case (Inl a)
        obtain rq n where a: "a = (rq, n)" by (cases a)
        then obtain c1 st where s: "serve_request E x F rq (c\<lparr> cx_buf := drop (length (cx_buf c) - n) (cx_buf c) \<rparr>)
            = Some (c1, st)" using body False Inl eqs by (auto split: option.splits)
        show ?thesis
        proof (cases "st = Stream_Open")
          case True
          then have "loop E decode x F c1 = Some p" using body False Inl eqs a s by simp
          then show ?thesis using more [OF False _ s [unfolded True]] Inl a IH by blast
        next
          case open_no: False
          then have "p = (c1, st)" using body False Inl eqs a s by (cases st) auto
          then show ?thesis using close [OF False _ s open_no] Inl a by blast
        qed
      next
        case (Inr e)
        then show ?thesis using fail [OF False Inr] body False eqs by auto
      qed
    qed (use body stop in auto)
  qed
  then show ?thesis using run by blast
qed

lemma drain_unserved:
  assumes "drain_buffer E decode (Some token) F c = Some p" "\<not> cx_authenticated c"
  shows "shows_token decode token (cx_buf c)
     \<or> unserved c (fst p) (snd p) \<and> (\<exists>used. cx_buf c = used @ cx_buf (fst p))"
  using assms
proof (induction c p rule: drain_rule)
  case (more c rq n c1 p)
  let ?c = "c\<lparr> cx_buf := drop (length (cx_buf c) - n) (cx_buf c) \<rparr>"
  show ?case
  proof (cases "bq_content rq = Some (Request_Authenticate token)")
    case False
    note U = serve_unserved [OF more(3) _ False]
    have open1: "\<not> cx_authenticated c1" and fs1: "cx_fs c1 = cx_fs c"
      and sent1: "cx_sent c1 = cx_sent c @ map (\<lambda>i. \<lparr> bs_request_id = i, bs_content = Some (Response_PosixError EINVAL) \<rparr>) [bq_id rq]"
      using U more(5) by (auto simp: unserved_def)
    have buf1: "cx_buf c = take (length (cx_buf c) - n) (cx_buf c) @ cx_buf c1"
      using serve_shape [OF more(3)] by simp
    from more(4) [OF open1] show ?thesis
    proof
      assume "shows_token decode token (cx_buf c1)"
      then show ?thesis using shows_token_within [of decode token "cx_buf c1" _ "[]"] buf1 by (metis append_Nil2)
    next
      assume *: "unserved c1 (fst p) (snd p) \<and> (\<exists>used. cx_buf c1 = used @ cx_buf (fst p))"
      then have "unserved c (fst p) (snd p)" using unserved_trans [OF fs1 sent1] by blast
      then show ?thesis using * buf1 by (metis append.assoc)
    qed
  next
    case True
    then show ?thesis using shows_token_request [of decode "cx_buf c" rq n token, OF more(2)] by blast
  qed
next
  case (closed c rq n c1 st)
  show ?case
  proof (cases "bq_content rq = Some (Request_Authenticate token)")
    case False
    have "unserved c c1 st" using serve_unserved [OF closed(3) _ False] closed(5) by (simp add: unserved_def)
    moreover have "cx_buf c = take (length (cx_buf c) - n) (cx_buf c) @ cx_buf c1"
      using serve_shape [OF closed(3)] by simp
    ultimately show ?thesis by auto
  next
    case True
    then show ?thesis using shows_token_request [of decode "cx_buf c" rq n token, OF closed(2)] by blast
  qed
qed (auto simp: unserved_def)

definition bytes_received :: "stream_event list \<Rightarrow> bytes" where
  "bytes_received evs = concat (map (\<lambda>ev. case ev of Event_Data d \<Rightarrow> d | _ \<Rightarrow> []) evs)"

lemma stream_unserved:
  assumes "handle_stream E decode (Some token) F evs c = Some (c', st)" "\<not> cx_authenticated c"
  shows "shows_token decode token (cx_buf c @ bytes_received evs) \<or> unserved c c' st"
  using assms
proof (induction evs arbitrary: c)
  case (Cons ev evs)
  show ?case
  proof (cases ev)
    case (Event_Data d)
    let ?c = "c\<lparr> cx_buf := cx_buf c @ d \<rparr>"
    have bytes: "cx_buf c @ bytes_received (ev # evs) = cx_buf ?c @ bytes_received evs"
      using Event_Data by (simp add: bytes_received_def)
    show ?thesis
    proof (cases "d = []")
      case False
      then obtain c1 st1 where drain: "drain_buffer E decode (Some token) F ?c = Some (c1, st1)"
        using Cons.prems Event_Data by (auto split: option.splits)
      from drain_unserved [OF drain] Cons.prems(2)
      have "shows_token decode token (cx_buf ?c) \<or> unserved ?c c1 st1 \<and> (\<exists>used. cx_buf ?c = used @ cx_buf c1)"
        by simp
      then show ?thesis
      proof
        assume "shows_token decode token (cx_buf ?c)"
        then show ?thesis using shows_token_within [of decode token "cx_buf ?c" "[]"] bytes by simp
      next
        assume u: "unserved ?c c1 st1 \<and> (\<exists>used. cx_buf ?c = used @ cx_buf c1)"
        show ?thesis
        proof (cases "st1 = Stream_Open")
          case True
          have fs1: "cx_fs c1 = cx_fs c" and off: "\<not> cx_authenticated c1" using u by (auto simp: unserved_def)
          obtain ids where sent1: "cx_sent c1 = cx_sent c
              @ map (\<lambda>i. \<lparr> bs_request_id = i, bs_content = Some (Response_PosixError EINVAL) \<rparr>) ids"
            using u True by (auto simp: unserved_def refusals_def)
          have "handle_stream E decode (Some token) F evs c1 = Some (c', st)"
            using Cons.prems(1) Event_Data False drain True by simp
          from Cons.IH [OF this off] show ?thesis
          proof
            assume *: "shows_token decode token (cx_buf c1 @ bytes_received evs)"
            obtain used where "cx_buf ?c = used @ cx_buf c1" using u by blast
            then have "cx_buf c @ bytes_received (ev # evs) = used @ (cx_buf c1 @ bytes_received evs) @ []"
              using bytes by simp
            then show ?thesis using shows_token_within [OF *] by metis
          qed (use unserved_trans [OF fs1 sent1] in blast)
        next
          case closed: False
          then have "c' = c1 \<and> st = st1"
            using Cons.prems(1) Event_Data False drain by (cases st1) auto
          then show ?thesis using u by (auto simp: unserved_def)
        qed
      qed
    qed (use Cons.prems Event_Data in \<open>auto simp: unserved_def\<close>)
  qed (use Cons in \<open>auto simp: unserved_def bytes_received_def\<close>)
qed (auto simp: unserved_def)

section \<open>The pieces in which the bytes arrive\<close>

text \<open>
  A message is what the peer sends: a varint length prefix and a body, which decode to a request with
  nothing left. A varint ends at its first byte below 128.
\<close>

definition is_message :: "frame_decoder \<Rightarrow> bytes \<times> bridge_request \<Rightarrow> bool" where
  "is_message decode m \<longleftrightarrow> decode (fst m) = Inl (snd m, 0)"

definition prefix_complete :: "bytes \<Rightarrow> bool" where
  "prefix_complete buf \<longleftrightarrow> (\<exists>c\<in>set buf. (of_char c :: nat) < 128)"

text \<open>
  \<open>prost\<close>'s \<open>decode_length_delimited\<close> on such a stream: a message at the front is read whatever follows it;
  a message of which only a part is there gives \<open>buffer underflow\<close>, which the loop waits on, when the
  length is complete, and \<open>invalid varint\<close>, which it does not, when the length itself is cut.
\<close>

definition framed_decoder :: "frame_decoder \<Rightarrow> bool" where
  "framed_decoder decode \<longleftrightarrow>
     (\<forall>w rq. decode w = Inl (rq, 0) \<longrightarrow> w \<noteq> [] \<and> (\<forall>later. decode (w @ later) = Inl (rq, length later))
        \<and> (\<forall>front back. w = front @ back \<longrightarrow> front \<noteq> [] \<longrightarrow> back \<noteq> [] \<longrightarrow>
             (\<exists>e. decode front = Inr e \<and> (needs_more_bytes e \<longleftrightarrow> prefix_complete front))))"

abbreviation wire :: "(bytes \<times> bridge_request) list \<Rightarrow> bytes" where
  "wire msgs \<equiv> concat (map fst msgs)"

text \<open>The requests that are complete in the first \<open>n\<close> bytes, and the bytes after them.\<close>

fun received :: "(bytes \<times> bridge_request) list \<Rightarrow> nat \<Rightarrow> bridge_request list \<times> bytes" where
  "received [] n = ([], [])"
| "received ((w, rq) # msgs) n =
     (if length w \<le> n then map_prod ((#) rq) id (received msgs (n - length w)) else ([], take n w))"

definition clean_cut :: "(bytes \<times> bridge_request) list \<Rightarrow> nat \<Rightarrow> bool" where
  "clean_cut msgs n \<longleftrightarrow> snd (received msgs n) = [] \<or> prefix_complete (snd (received msgs n))"

text \<open>The specification: the requests served one after the other, without bytes.\<close>

fun serve_all ::
  "stream_env \<Rightarrow> byte list option \<Rightarrow> 's filesystem \<Rightarrow> bridge_request list \<Rightarrow> 's connection \<Rightarrow>
     ('s connection \<times> stream_status) option" where
  "serve_all E x F [] c = Some (c, Stream_Open)"
| "serve_all E x F (rq # rqs) c =
     (case serve_request E x F rq c of
        None \<Rightarrow> None
      | Some (c1, st) \<Rightarrow> if st = Stream_Open then serve_all E x F rqs c1 else Some (c1, st))"

text \<open>A run on bytes against a run on requests: the same, up to what is left in the buffer of an ended connection.\<close>

definition runs_as :: "bytes \<Rightarrow> ('s connection \<times> stream_status) option \<Rightarrow> ('s connection \<times> stream_status) option \<Rightarrow> bool" where
  "runs_as left run spec \<longleftrightarrow>
     (case spec of
        None \<Rightarrow> run = None
      | Some (c, st) \<Rightarrow>
          if st = Stream_Open then run = Some (c\<lparr> cx_buf := left \<rparr>, Stream_Open) else (\<exists>b. run = Some (c\<lparr> cx_buf := b \<rparr>, st)))"

lemma serve_all_buf:
  "serve_all E x F rqs (c\<lparr> cx_buf := b \<rparr>) = map_option (map_prod (cx_buf_update (\<lambda>_. b)) id) (serve_all E x F rqs c)"
  by (induction rqs arbitrary: c) (auto simp: serve_buf split: option.split prod.split)

lemma runs_as_buf [simp]:
  "runs_as left run (map_option (map_prod (cx_buf_update (\<lambda>_. b)) id) spec) = runs_as left run spec"
  by (cases spec) (auto simp: runs_as_def split: prod.split)

lemma runs_as_open:
  assumes "runs_as left run spec" "run = Some (c, Stream_Open)"
  shows "\<exists>c0. spec = Some (c0, Stream_Open) \<and> c = c0\<lparr> cx_buf := left \<rparr>"
proof (cases spec)
  case (Some p)
  obtain c0 st where p: "p = (c0, st)" by (cases p)
  show ?thesis using assms Some p by (cases "st = Stream_Open") (auto simp: runs_as_def)
qed (use assms in \<open>simp add: runs_as_def\<close>)

lemma serve_all_append:
  "serve_all E x F (rqs @ rqs') c =
     (case serve_all E x F rqs c of
        None \<Rightarrow> None
      | Some (c1, st) \<Rightarrow> if st = Stream_Open then serve_all E x F rqs' c1 else Some (c1, st))"
  by (induction rqs arbitrary: c) (auto split: option.split)

lemma serve_all_answers:
  "serve_all E x F rqs c = Some (c', Stream_Open) \<Longrightarrow>
     map bs_request_id (cx_sent c') = map bs_request_id (cx_sent c) @ map bq_id rqs"
proof (induction rqs arbitrary: c)
  case (Cons rq rqs)
  obtain c1 where s: "serve_request E x F rq c = Some (c1, Stream_Open)" "serve_all E x F rqs c1 = Some (c', Stream_Open)"
    using Cons.prems by (auto split: option.splits if_splits)
  then show ?case using Cons.IH [OF s(2)] serve_shape [OF s(1)] by auto
qed simp

lemma serve_returns: "(\<And>content s. handle_request F content s \<noteq> None) \<Longrightarrow> serve_request E x F rq c \<noteq> None"
  by (cases rq rule: request_kinds) (simp_all add: serve_nothing serve_authenticate serve_other del: not_None_eq)

lemma serve_all_returns: "(\<And>content s. handle_request F content s \<noteq> None) \<Longrightarrow> serve_all E x F rqs c \<noteq> None"
proof (induction rqs arbitrary: c)
  case (Cons rq rqs)
  then show ?case using serve_returns [OF Cons.prems, of E x rq c] by (auto split: option.split)
qed simp

text \<open>The bytes of the first \<open>n\<close>, split at the last complete message, and how the rest goes on.\<close>

lemma received_split:
  "received msgs n = (rqs, left) \<Longrightarrow> n \<le> length (wire msgs) \<Longrightarrow>
     take n (wire msgs) = wire (take (length rqs) msgs) @ left
     \<and> (\<forall>k. received msgs (n + k) = map_prod ((@) rqs) id (received (drop (length rqs) msgs) (length left + k)))
     \<and> length left \<le> length (wire (drop (length rqs) msgs))"
proof (induction msgs n arbitrary: rqs rule: received.induct)
  case (2 w rq msgs n)
  show ?case
  proof (cases "length w \<le> n")
    case True
    obtain rqs' where r: "received msgs (n - length w) = (rqs', left)" "rqs = rq # rqs'"
      using 2(2) True by (cases "received msgs (n - length w)") auto
    have "n - length w \<le> length (wire msgs)" using 2(3) by simp
    note IH = 2(1) [OF True r(1) this]
    have "received ((w, rq) # msgs) (n + k) = map_prod ((@) rqs) id (received (drop (length rqs) ((w, rq) # msgs)) (length left + k))"
      for k
    proof -
      have "n + k - length w = n - length w + k" using True by simp
      then show ?thesis
        using True IH r(2) by (cases "received (drop (length rqs') msgs) (length left + k)") simp
    qed
    moreover have "take n (wire ((w, rq) # msgs)) = wire (take (length rqs) ((w, rq) # msgs)) @ left
        \<and> length left \<le> length (wire (drop (length rqs) ((w, rq) # msgs)))"
      using IH True r(2) by simp
    ultimately show ?thesis by blast
  qed (use 2(2) in \<open>auto simp: map_prod_def split: prod.split\<close>)
qed simp

lemma message_facts:
  assumes "framed_decoder decode" "is_message decode (w, rq)"
  shows "w \<noteq> []" "decode (w @ later) = Inl (rq, length later)"
    "n < length w \<Longrightarrow> n \<noteq> 0 \<Longrightarrow> \<exists>e. decode (take n w) = Inr e \<and> (needs_more_bytes e \<longleftrightarrow> prefix_complete (take n w))"
proof -
  have m: "decode w = Inl (rq, 0)" using assms(2) by (simp add: is_message_def)
  note D = assms(1) [unfolded framed_decoder_def, rule_format, OF m]
  show "w \<noteq> []" "decode (w @ later) = Inl (rq, length later)" using D by blast+
  assume "n < length w" "n \<noteq> 0"
  then have "w = take n w @ drop n w" "take n w \<noteq> []" "drop n w \<noteq> []" by auto
  then show "\<exists>e. decode (take n w) = Inr e \<and> (needs_more_bytes e \<longleftrightarrow> prefix_complete (take n w))" using D by blast
qed

text \<open>The inner loop on the first bytes of a stream of messages.\<close>

lemma drain_received:
  assumes dec: "framed_decoder decode"
  shows "list_all (is_message decode) msgs \<Longrightarrow> n \<le> length (wire msgs) \<Longrightarrow> cx_buf c = take n (wire msgs) \<Longrightarrow>
    (if clean_cut msgs n
     then runs_as (snd (received msgs n)) (drain_buffer E decode x F c) (serve_all E x F (fst (received msgs n)) c)
     else case serve_all E x F (fst (received msgs n)) c of
       None \<Rightarrow> drain_buffer E decode x F c = None
     | Some _ \<Rightarrow> \<exists>c2 st2. drain_buffer E decode x F c = Some (c2, st2) \<and> st2 \<noteq> Stream_Open)"
proof (induction msgs n arbitrary: c rule: received.induct)
  case (1 n)
  then have "c\<lparr> cx_buf := [] \<rparr> = c" by simp
  then show ?case using 1(3) by (simp add: drain_buffer.simps runs_as_def clean_cut_def)
next
  case (2 w rq msgs n)
  have msg: "is_message decode (w, rq)" and msgs: "list_all (is_message decode) msgs" using 2(2) by auto
  note M = message_facts [OF dec msg]
  show ?case
  proof (cases "length w \<le> n")
    case False
    then have buf: "cx_buf c = take n w" using 2(4) by simp
    show ?thesis
    proof (cases "n = 0")
      case True
      then have "cx_buf c = []" "c\<lparr> cx_buf := [] \<rparr> = c" using buf by simp_all
      then show ?thesis using True M(1) by (simp add: drain_buffer.simps runs_as_def clean_cut_def)
    next
      case nz: False
      obtain e where e: "decode (take n w) = Inr e" "needs_more_bytes e \<longleftrightarrow> prefix_complete (take n w)" using M(3) [of n] False nz by (auto simp: not_le)
      have "take n w \<noteq> []" using nz M(1) by simp
      then have "drain_buffer E decode x F c = Some (c, if prefix_complete (take n w) then Stream_Open else Stream_Failed e)"
        using buf e by (simp add: drain_buffer.simps)
      moreover have "c\<lparr> cx_buf := take n w \<rparr> = c" using buf by simp
      ultimately show ?thesis using False \<open>take n w \<noteq> []\<close> by (simp add: runs_as_def clean_cut_def)
    qed
  next
    case True
    let ?rest = "take (n - length w) (wire msgs)"
    have buf: "cx_buf c = w @ ?rest" using 2(4) True by simp
    have d: "decode (w @ ?rest) = Inl (rq, length ?rest)" by (rule M(2))
    have step: "drain_buffer E decode x F c = (case serve_request E x F rq (c\<lparr> cx_buf := ?rest \<rparr>) of
          None \<Rightarrow> None
        | Some (c1, st) \<Rightarrow> if st = Stream_Open then drain_buffer E decode x F c1 else Some (c1, st))"
      using d buf M(1) by (subst drain_buffer.simps) (auto split: option.split stream_status.split)
    have rcv: "received ((w, rq) # msgs) n = (rq # fst (received msgs (n - length w)), snd (received msgs (n - length w)))"
      using True by (cases "received msgs (n - length w)") simp
    show ?thesis
    proof (cases "serve_request E x F rq c")
      case None
      then show ?thesis unfolding rcv clean_cut_def step by (simp add: serve_buf runs_as_def)
    next
      case (Some p)
      obtain c1 st where p: "p = (c1, st)" by (cases p)
      have s: "serve_request E x F rq (c\<lparr> cx_buf := ?rest \<rparr>) = Some (c1\<lparr> cx_buf := ?rest \<rparr>, st)"
        using Some p by (simp add: serve_buf)
      show ?thesis
      proof (cases "st = Stream_Open")
        case False
        then show ?thesis unfolding rcv clean_cut_def step s using Some p by (auto simp: runs_as_def)
      next
        case open1: True
        have "n - length w \<le> length (wire msgs)" using 2(3) by simp
        then show ?thesis
          using 2(1) [OF True msgs, of "c1\<lparr> cx_buf := ?rest \<rparr>"] Some p open1
          unfolding rcv clean_cut_def step s
          by (simp add: serve_all_buf runs_as_def split: option.splits if_splits) auto
      qed
    qed
  qed
qed

abbreviation deliver :: "bytes list \<Rightarrow> stream_event list" where "deliver \<equiv> map Event_Data"

lemma handle_stream_append:
  "handle_stream E decode x F (evs @ [Event_Data d]) c =
     (case handle_stream E decode x F evs c of
        None \<Rightarrow> None
      | Some (c1, st) \<Rightarrow>
          if st = Stream_Open then handle_stream E decode x F [Event_Data d] c1 else Some (c1, st))"
proof (induction evs arbitrary: c)
  case (Cons ev evs)
  show ?case
  proof (cases ev)
    case (Event_Data e)
    show ?thesis
    proof (cases "e = [] \<or> drain_buffer E decode x F (c\<lparr> cx_buf := cx_buf c @ e \<rparr>) = None")
      case False
      then obtain c1 st where "e \<noteq> []" "drain_buffer E decode x F (c\<lparr> cx_buf := cx_buf c @ e \<rparr>) = Some (c1, st)" by auto
      then show ?thesis using Event_Data Cons by (cases st) (simp_all del: handle_stream.simps add: handle_stream.simps(2))
    qed (use Event_Data in auto)
  qed (simp_all del: handle_stream.simps add: handle_stream.simps(2) Cons)
qed simp

lemma deliver_one:
  "d \<noteq> [] \<Longrightarrow> handle_stream E decode x F [Event_Data d] c = drain_buffer E decode x F (c\<lparr> cx_buf := cx_buf c @ d \<rparr>)"
  by (auto split: option.split stream_status.split)

definition clean_cuts :: "(bytes \<times> bridge_request) list \<Rightarrow> bytes list \<Rightarrow> bool" where
  "clean_cuts msgs chunks \<longleftrightarrow> (\<forall>k\<le>length chunks. clean_cut msgs (length (concat (take k chunks))))"

lemma clean_cuts_snoc:
  "clean_cuts msgs (chunks @ [d]) \<longleftrightarrow> clean_cuts msgs chunks \<and> clean_cut msgs (length (concat chunks) + length d)"
  unfolding clean_cuts_def by (auto simp: le_Suc_eq)

text \<open>The listener on a stream of messages, cut into reads anywhere.\<close>

lemma stream_received:
  assumes dec: "framed_decoder decode" and msgs: "list_all (is_message decode) msgs"
    and start: "cx_buf c = []"
  shows "concat chunks @ rest = wire msgs \<Longrightarrow> [] \<notin> set chunks \<Longrightarrow>
    (if clean_cuts msgs chunks
     then runs_as (snd (received msgs (length (concat chunks)))) (handle_stream E decode x F (deliver chunks) c)
       (serve_all E x F (fst (received msgs (length (concat chunks)))) c)
     else \<forall>c'. handle_stream E decode x F (deliver chunks) c \<noteq> Some (c', Stream_Open))
    \<and> ((\<forall>content s. handle_request F content s \<noteq> None) \<longrightarrow> handle_stream E decode x F (deliver chunks) c \<noteq> None)"
proof (induction chunks arbitrary: rest rule: rev_induct)
  case Nil
  have none: "received msgs 0 = ([], [])" 
  proof (cases msgs)
    case (Cons m ms)
    then have "fst m \<noteq> []" using message_facts(1) [OF dec, of "fst m" "snd m"] msgs by simp
    then show ?thesis using Cons by (cases m) simp
  qed simp
  moreover have "c\<lparr> cx_buf := [] \<rparr> = c" using start by simp
  ultimately show ?case by (simp add: runs_as_def clean_cuts_def clean_cut_def)
next
  case (snoc d chunks)
  let ?run = "handle_stream E decode x F (deliver chunks) c"
  let ?n = "length (concat chunks)"
  have d: "d \<noteq> []" "[] \<notin> set chunks" and stream: "concat chunks @ (d @ rest) = wire msgs" using snoc.prems by auto
  note IH = snoc.IH [OF stream d(2)]
  have run: "handle_stream E decode x F (deliver (chunks @ [d])) c = (case ?run of
        None \<Rightarrow> None
      | Some (c1, st) \<Rightarrow> if st = Stream_Open then drain_buffer E decode x F (c1\<lparr> cx_buf := cx_buf c1 @ d \<rparr>) else Some (c1, st))"
    by (simp only: map_append list.map handle_stream_append deliver_one [OF d(1)])
  obtain rqs left where R: "received msgs ?n = (rqs, left)" by (cases "received msgs ?n")
  have len: "?n \<le> length (wire msgs)" "?n + length d \<le> length (wire msgs)" unfolding stream [symmetric] by simp_all
  note S = received_split [OF R len(1)]
  let ?msgs = "drop (length rqs) msgs"
  let ?m = "length left + length d"
  have onward: "received msgs (?n + length d) = map_prod ((@) rqs) id (received ?msgs ?m)" using S by blast
  have parts: "wire (take (length rqs) msgs) @ left @ d @ rest = wire (take (length rqs) msgs) @ wire ?msgs"
  proof -
    have "wire (take (length rqs) msgs) @ left = concat chunks" using S unfolding stream [symmetric] by simp
    then have "wire (take (length rqs) msgs) @ left @ d @ rest = wire msgs" using stream by (metis append.assoc)
    also have "\<dots> = wire (take (length rqs) msgs) @ wire ?msgs" by (metis append_take_drop_id concat_append map_append)
    finally show ?thesis .
  qed
  then have tail: "left @ d @ rest = wire ?msgs" by simp
  have fit: "?m \<le> length (wire ?msgs)" "left @ d = take ?m (wire ?msgs)" unfolding tail [symmetric] by simp_all
  have msgs': "list_all (is_message decode) ?msgs" using msgs by (auto simp: list_all_iff dest: in_set_dropD)
  have cut: "clean_cut msgs (?n + length d) \<longleftrightarrow> clean_cut ?msgs ?m" unfolding clean_cut_def onward by simp
  let ?clean = "clean_cuts msgs (chunks @ [d])"
  have spec: "serve_all E x F (fst (received msgs (?n + length d))) c = (case serve_all E x F rqs c of
        None \<Rightarrow> None
      | Some (c1, st) \<Rightarrow> if st = Stream_Open then serve_all E x F (fst (received ?msgs ?m)) c1 else Some (c1, st))"
    unfolding onward by (simp add: serve_all_append)
  have left: "snd (received msgs (?n + length d)) = snd (received ?msgs ?m)" unfolding onward by simp
  show ?case
  proof (cases "clean_cuts msgs chunks")
    case False
    then have "\<not> ?clean" by (simp add: clean_cuts_snoc)
    then show ?thesis using IH False unfolding run by (auto split: option.split)
  next
    case True
    then have clean: "?clean \<longleftrightarrow> clean_cut ?msgs ?m" by (simp add: clean_cuts_snoc cut)
    from IH True have so_far: "runs_as left ?run (serve_all E x F rqs c)" unfolding R by simp
    show ?thesis
    proof (cases "serve_all E x F rqs c")
      case None
      then have "?run = None" using so_far by (simp add: runs_as_def)
      moreover have "\<not> (\<forall>content s. handle_request F content s \<noteq> None)" using serve_all_returns None by metis
      ultimately show ?thesis using None spec left unfolding run by (simp add: runs_as_def)
    next
      case (Some p)
      obtain c1 st where p: "p = (c1, st)" by (cases p)
      show ?thesis
      proof (cases "st = Stream_Open")
        case False
        then show ?thesis using so_far Some p spec left unfolding run by (auto simp: runs_as_def)
      next
        case True
        have run1: "handle_stream E decode x F (deliver (chunks @ [d])) c = drain_buffer E decode x F (c1\<lparr> cx_buf := left @ d \<rparr>)"
          using so_far Some p True unfolding run by (simp add: runs_as_def)
        note D = drain_received [OF dec msgs' fit(1), of "c1\<lparr> cx_buf := left @ d \<rparr>" E x F]
        have "serve_all E x F (fst (received ?msgs ?m)) c1 \<noteq> None" if "\<forall>content s. handle_request F content s \<noteq> None"
          using serve_all_returns that by blast
        then show ?thesis
          using D fit(2) Some p True spec left clean unfolding run1 by (auto simp: serve_all_buf runs_as_def split: option.splits if_splits) blast+
      qed
    qed
  qed
qed

end
