(* ===== verification/Fskit_Correct.thy ===== *)
theory Fskit_Correct
  imports Fskit_Framing
begin

text \<open>
  The theorems of the FSKit bridge: the token comes first, the framing of the requests, and what a
  session over the adapter can change. Witnesses on a small decoder.
\<close>

section \<open>Framing\<close>

text \<open>
  C14. The framing of a connection that carries messages, cut into reads anywhere. When no read ends inside a
  length prefix, the run is that of serving the requests that have arrived completely, one after the other,
  whatever the cuts: while the connection is open each has been answered once, in order, under its own id,
  and only the part of the next message is left in the buffer. When a read ends inside a length prefix
  (after the first byte of a length above 127, say) the connection is no longer open afterwards, although
  the next bytes would complete the message. Over a filesystem whose operations return the listener
  returns in either case.
\<close>

theorem session_framing:
  fixes E :: stream_env and x :: "byte list option" and F :: "'s filesystem" and fs :: 's
  assumes "framed_decoder decode" "list_all (is_message decode) msgs"
    and "concat chunks @ rest = wire msgs" "[] \<notin> set chunks"
  defines "run \<equiv> handle_stream E decode x F (deliver chunks) (new_connection x fs)"
    and "arrived \<equiv> received msgs (length (concat chunks))"
  shows "(clean_cuts msgs chunks \<longrightarrow> runs_as (snd arrived) run (serve_all E x F (fst arrived) (new_connection x fs))
        \<and> (\<forall>c. run = Some (c, Stream_Open) \<longrightarrow>
            map bs_request_id (cx_sent c) = map bq_id (fst arrived) \<and> cx_buf c = snd arrived))
    \<and> (\<not> clean_cuts msgs chunks \<longrightarrow> (\<forall>c. run \<noteq> Some (c, Stream_Open)))
    \<and> ((\<forall>content s. handle_request F content s \<noteq> None) \<longrightarrow> run \<noteq> None)"
proof -
  have fresh: "cx_buf (new_connection x fs) = []" "cx_sent (new_connection x fs) = []" by (simp_all add: new_connection_def)
  note S = stream_received [OF assms(1,2) fresh(1) assms(3,4), of E x F]
  have "map bs_request_id (cx_sent c) = map bq_id (fst arrived) \<and> cx_buf c = snd arrived"
    if "runs_as (snd arrived) run (serve_all E x F (fst arrived) (new_connection x fs))" "run = Some (c, Stream_Open)" for c
  proof -
    note given = that
    obtain c0 where c0: "serve_all E x F (fst arrived) (new_connection x fs) = Some (c0, Stream_Open)"
      "c = c0\<lparr> cx_buf := snd arrived \<rparr>"
      using runs_as_open [OF given] by blast
    then show ?thesis using serve_all_answers [OF c0(1)] fresh(2) by simp
  qed
  then show ?thesis using S unfolding run_def arrived_def by (auto split: if_splits)
qed

section \<open>The token comes first\<close>

text \<open>
  C8. A connection with a token serves nothing before it was shown: whatever bytes arrive in whatever pieces,
  either they hold a request that decodes to the exact token, or the filesystem is untouched and all that
  was answered is that requests are empty and, once, at the end, that one is refused.
\<close>

theorem session_requires_token:
  assumes "handle_stream E decode (Some token) F evs (new_connection (Some token) fs) = Some (c, st)"
  shows "shows_token decode token (bytes_received evs)
    \<or> \<not> cx_authenticated c \<and> cx_fs c = fs \<and> refusals (cx_sent c) st"
  using stream_unserved [OF assms] by (auto simp: new_connection_def unserved_def)

section \<open>Relations along a session\<close>

text \<open>A relation that every operation of a filesystem keeps holds along every request and every session.\<close>

locale filesystem_relation = state_relation R for R :: "'s \<Rightarrow> 's \<Rightarrow> bool" +
  fixes F :: "'s filesystem"
  assumes volume_ops:
      "along R (op_get_resource_identifier F)" "along R (op_get_volume_identifier F)"
      "along R (op_get_volume_behavior F)" "along R (op_get_path_conf_operations F)"
      "along R (op_get_volume_capabilities F)" "along R (op_get_volume_statistics F)"
      "along R (op_mount F opts)" "along R (op_unmount F)" "along R (op_synchronize F flags)"
      "along R (op_activate F opts)" "along R (op_deactivate F)" "along R (op_set_volume_name F nm)"
    and item_ops:
      "along R (op_get_attributes F i)" "along R (op_set_attributes F i attrs)" "along R (op_lookup_item F nm d)"
      "along R (op_reclaim_item F i)" "along R (op_read_symbolic_link F i)" "along R (op_create_item F nm ty d attrs)"
      "along R (op_create_symbolic_link F nm d attrs contents)" "along R (op_create_link F i nm d)"
      "along R (op_remove_item F i nm d)" "along R (op_rename_item F i d nm nm' d' over)"
      "along R (op_enumerate_directory F d cookie verifier)" "along R (op_deactivate_item F i)"
    and file_ops:
      "along R (op_get_supported_xattr_names F i)" "along R (op_get_xattr F nm i)" "along R (op_set_xattr F nm v i policy)"
      "along R (op_get_xattrs F i)" "along R (op_open_item F i modes)" "along R (op_close_item F i modes)"
      "along R (op_read F i offset len)" "along R (op_write F contents i offset)" "along R (op_check_access F i access)"
      "along R (op_preallocate_space F i offset len pflags)"
begin

lemma along_replying: "along R m \<Longrightarrow> along R (replying f m)"
  unfolding replying_def by (rule along_try) (simp_all add: along_lift)

lemma along_handle: "along R (handle_request F content)"
  by (cases content) (auto intro!: along_replying volume_ops item_ops file_ops along_lift split: option.split)

lemma serve_related: "serve_request E x F rq c = Some (c', st) \<Longrightarrow> R (cx_fs c) (cx_fs c')"
proof (cases rq rule: request_kinds)
  case (other content)
  assume run: "serve_request E x F rq c = Some (c', st)"
  show ?thesis
  proof (cases "cx_authenticated c")
    case True
    then obtain s r where h: "handle_request F content (cx_fs c) = Some (s, r)" and "(case r of
          Ok answer \<Rightarrow> answer_request E (bq_id rq) (Some answer) (c\<lparr> cx_fs := s \<rparr>)
        | Err _ \<Rightarrow> answer_request E (bq_id rq) None (c\<lparr> cx_fs := s \<rparr>)
        | Panic \<Rightarrow> (c\<lparr> cx_fs := s \<rparr>, Stream_Panicked)) = (c', st)"
      using run other by (auto simp: serve_other)
    then have "cx_fs c' = s" by (cases r) (auto simp: send_response_def dest!: answer_shape)
    then show ?thesis using alongD [OF along_handle h] by simp
  qed (use run other in \<open>auto simp: serve_other send_response_def refl dest!: reject_shape\<close>)
qed (auto simp: serve_nothing serve_authenticate send_response_def refl dest!: answer_shape reject_shape split: if_splits)

lemma drain_related: "drain_buffer E decode x F c = Some p \<Longrightarrow> R (cx_fs c) (cx_fs (fst p))"
proof (induction c p rule: drain_rule)
  case (more c rq n c1 p)
  then show ?case using serve_related [OF more(3)] trans by auto
next
  case (closed c rq n c1 st)
  then show ?case using serve_related [OF closed(3)] by simp
qed (simp_all add: refl)

lemma stream_related: "handle_stream E decode x F evs c = Some (c', st) \<Longrightarrow> R (cx_fs c) (cx_fs c')"
proof (induction evs arbitrary: c)
  case (Cons ev evs)
  show ?case
  proof (cases ev)
    case (Event_Data d)
    show ?thesis
    proof (cases "d = []")
      case False
      then obtain c1 st1 where d: "drain_buffer E decode x F (c\<lparr> cx_buf := cx_buf c @ d \<rparr>) = Some (c1, st1)"
        using Cons.prems Event_Data by (auto split: option.splits)
      have "R (cx_fs c) (cx_fs c1)" using drain_related [OF d] by simp
      then show ?thesis
        using Cons Event_Data False d trans by (cases st1) auto
    qed (use Cons.prems Event_Data refl in auto)
  qed (use Cons refl in auto)
qed (simp add: refl)

end

section \<open>What a session over the adapter changes\<close>

text \<open>A lookup or a listing, whatever the provider answers.\<close>

inductive vfs_call :: "dir_parser \<Rightarrow> vfs \<Rightarrow> vfs \<Rightarrow> bool" for parse_dir where
  call_lookup: "vfs_lookup p parse_dir d nm s = (s', r) \<Longrightarrow> vfs_call parse_dir s s'"
| call_readdir: "vfs_readdir p parse_dir d s = (s', l) \<Longrightarrow> vfs_call parse_dir s s'"

definition bridge_reads :: "dir_parser \<Rightarrow> 'm bridge \<Rightarrow> 'm bridge \<Rightarrow> bool" where
  "bridge_reads parse_dir s s' \<longleftrightarrow>
     (vfs_call parse_dir)\<^sup>*\<^sup>* (br_vfs s) (br_vfs s') \<and> reserved (br_cache s') = reserved (br_cache s)
     \<and> (br_adapter s')\<lparr> unmount_notifier := None \<rparr> = (br_adapter s)\<lparr> unmount_notifier := None \<rparr>"

lemma bridge_reads_refl [simp]: "bridge_reads parse_dir s s"
  by (simp add: bridge_reads_def)

lemma vfs_read_reserved:
  assumes "vfs_read L io p i offset cnt v c = Some (c', r)"
  shows "reserved c' = reserved c"
proof -
  have "reserved c1 = reserved c" if "fetch_file_bytes L io p n c = Some (c1, r1)" for n c1 r1
    using that by (auto simp: fetch_file_bytes_def split: node_kind.splits option.splits prod.splits outcome.splits
        dest!: get_reserved put_reserved) (metis outcome.exhaust old.unit.exhaust)
  then show ?thesis using assms by (auto simp: vfs_read_def split: option.splits)
qed

lemma along_bridge_look: "along (bridge_reads parse_dir) (bridge_look f)"
  by (simp add: along_def bridge_look_def)

lemma along_bridge_lift: "along (bridge_reads parse_dir) (prog_lift r)"
  by (simp add: along_def prog_lift_def)

lemma along_bridge_walk:
  "(\<And>v v' r. f v = (v', r) \<Longrightarrow> vfs_call parse_dir v v' \<or> v' = v) \<Longrightarrow> along (bridge_reads parse_dir) (bridge_walk f)"
  by (fastforce simp: along_def bridge_walk_def bridge_reads_def split: prod.splits)

interpretation bridge: filesystem_relation "bridge_reads parse_dir" "adapter_fs L io ids p parse_dir" for parse_dir L io ids p
proof
  show "bridge_reads parse_dir a c" if "bridge_reads parse_dir a b" "bridge_reads parse_dir b c" for a b c
    using that unfolding bridge_reads_def by (auto intro: rtranclp_trans)
  show "along (bridge_reads parse_dir) (op_unmount (adapter_fs L io ids p parse_dir))"
    by (simp add: adapter_fs_def along_def prog_change_def bridge_reads_def fskit_unmount_def)
  show "along (bridge_reads parse_dir) (op_read (adapter_fs L io ids p parse_dir) i offset len)" for i offset len
    by (auto simp: adapter_fs_def along_def bridge_read_def fskit_read_def bridge_reads_def
        split: if_splits dest: vfs_read_reserved)
  show "along (bridge_reads parse_dir) (op_lookup_item (adapter_fs L io ids p parse_dir) nm d)" for nm d
    unfolding adapter_fs_def filesystem.simps
    by (rule along_bridge_walk) (auto simp: lookup_item_def split: if_splits prod.splits intro: call_lookup)
  show "along (bridge_reads parse_dir) (op_enumerate_directory (adapter_fs L io ids p parse_dir) d cookie verifier)"
    for d cookie verifier
    unfolding adapter_fs_def filesystem.simps
    by (rule along_bridge_walk) (auto simp: enumerate_directory_def split: prod.splits intro: call_readdir)
qed (simp_all add: adapter_fs_def along_bridge_look along_bridge_lift)

definition is_modification :: "request_content \<Rightarrow> bool" where
  "is_modification content \<longleftrightarrow>
     (case content of
        Request_SetAttributes _ _ \<Rightarrow> True | Request_CreateItem _ _ _ _ \<Rightarrow> True
      | Request_CreateSymbolicLink _ _ _ _ \<Rightarrow> True | Request_CreateLink _ _ _ \<Rightarrow> True
      | Request_RemoveItem _ _ _ \<Rightarrow> True | Request_RenameItem _ _ _ _ _ _ \<Rightarrow> True
      | Request_SetXattr _ _ _ _ \<Rightarrow> True | Request_Write _ _ _ \<Rightarrow> True
      | Request_SetVolumeName _ \<Rightarrow> True | Request_PreallocateSpace _ _ _ _ \<Rightarrow> True | _ \<Rightarrow> False)"

lemma replying_refused: "replying f refused s = Some (s, Ok (Response_PosixError EROFS))"
  by (simp add: replying_def prog_try_def prog_lift_def)

text \<open>
  C24. The bridge only reads: whatever bytes arrive on a connection, the mounted filesystem changes by lookups
  and listings alone, the cache keeps its reservations and the volume its names; and every request that
  would modify something is answered with an error of a read-only or an invalid call and changes nothing
  at all.
\<close>

theorem bridge_only_reads:
  assumes "handle_stream E decode x (adapter_fs L io ids p parse_dir) evs (new_connection x b) = Some (c, st)"
    and "is_modification content"
  shows "bridge_reads parse_dir b (cx_fs c)
    \<and> (\<exists>code\<in>{EROFS, EINVAL}. handle_request (adapter_fs L io ids p parse_dir) content (cx_fs c)
          = Some (cx_fs c, Ok (Response_PosixError code)))"
proof
  show "bridge_reads parse_dir b (cx_fs c)"
    using bridge.stream_related [OF assms(1)] by (simp add: new_connection_def)
  show "\<exists>code\<in>{EROFS, EINVAL}. handle_request (adapter_fs L io ids p parse_dir) content (cx_fs c)
          = Some (cx_fs c, Ok (Response_PosixError code))"
    using assms(2)
    by (cases content) (auto simp: is_modification_def adapter_fs_def replying_refused prog_lift_def split: option.split)
qed

end
