(* ===== verification/Fskit_Witness.thy ===== *)
theory Fskit_Witness
  imports Fskit_Correct Adapter_Correct
begin

text \<open>
  A connection to the bridge over the concrete mount of \<open>Vfs_Witness\<close>, with a decoder of small messages: a
  varint length, and a body of the letter A and a byte of token, the letter L for a listing of the root or
  the letter W for a write.
\<close>

fun varint :: "bytes \<Rightarrow> (nat \<times> bytes) option" where
  "varint [] = None"
| "varint (c # cs) =
     (let n = (of_char c :: nat) in
      if n < 128 then Some (n, cs) else map_option (\<lambda>(m, rest). (n - 128 + 128 * m, rest)) (varint cs))"

definition wire_body :: "bytes \<Rightarrow> bridge_request option" where
  "wire_body body =
     (case body of
        [c, t] \<Rightarrow>
          if c = CHR ''A'' then Some \<lparr> bq_id = 1, bq_content = Some (Request_Authenticate [of_char t]) \<rparr> else None
      | [c] \<Rightarrow>
          if c = CHR ''L'' then Some \<lparr> bq_id = 2, bq_content = Some (Request_EnumerateDirectory 2 0 0) \<rparr>
          else if c = CHR ''W'' then Some \<lparr> bq_id = 3, bq_content = Some (Request_Write ''x'' 4 0) \<rparr> else None
      | _ \<Rightarrow> None)"

definition wire_decode :: frame_decoder where
  "wire_decode buf =
     (case varint buf of
        None \<Rightarrow> Inr ''failed to decode Protobuf message: invalid varint''
      | Some (n, rest) \<Rightarrow>
          if length rest < n then Inr ''failed to decode Protobuf message: buffer underflow''
          else (case wire_body (take n rest) of
            Some rq \<Rightarrow> Inl (rq, length rest - n)
          | None \<Rightarrow> Inr ''failed to decode Protobuf message: invalid tag value''))"

lemma varint_None: "varint buf = None \<longleftrightarrow> \<not> prefix_complete buf"
  by (induction buf) (auto simp: prefix_complete_def Let_def)

lemma varint_append: "varint buf = Some (n, rest) \<Longrightarrow> varint (buf @ later) = Some (n, rest @ later)"
  by (induction buf arbitrary: n) (auto simp: Let_def split: if_splits)

lemma wire_framed: "framed_decoder wire_decode"
  unfolding framed_decoder_def
proof (intro allI impI)
  fix w rq assume w: "wire_decode w = Inl (rq, 0)"
  then obtain n rest where v: "varint w = Some (n, rest)" "length rest = n" "wire_body rest = Some rq"
    by (auto simp: wire_decode_def split: option.splits if_splits)
  have later: "wire_decode (w @ later) = Inl (rq, length later)" for later
    using v varint_append [OF v(1), of later] by (simp add: wire_decode_def)
  have errors: "\<not> needs_more_bytes ''failed to decode Protobuf message: invalid varint''"
    "needs_more_bytes ''failed to decode Protobuf message: buffer underflow''"
    by code_simp+
  have "\<exists>e. wire_decode front = Inr e \<and> (needs_more_bytes e \<longleftrightarrow> prefix_complete front)"
    if "w = front @ tail" "tail \<noteq> []" for front tail
  proof (cases "varint front")
    case None
    then show ?thesis using errors(1) varint_None [of front] by (simp add: wire_decode_def)
  next
    case (Some p)
    obtain m part where p: "p = (m, part)" by (cases p)
    then have "m = n" "rest = part @ tail" using varint_append [of front m part tail] Some v(1) that(1) by auto
    moreover have "0 < length tail" using that(2) by simp
    ultimately have "length part < m" using v(2) by (simp del: length_greater_0_conv)
    then show ?thesis using Some p errors(2) varint_None [of front] by (simp add: wire_decode_def)
  qed
  moreover have "w \<noteq> []" using v(1) by auto
  ultimately show "w \<noteq> [] \<and> (\<forall>later. wire_decode (w @ later) = Inl (rq, length later))
        \<and> (\<forall>front back. w = front @ back \<longrightarrow> front \<noteq> [] \<longrightarrow> back \<noteq> [] \<longrightarrow>
             (\<exists>e. wire_decode front = Inr e \<and> (needs_more_bytes e \<longleftrightarrow> prefix_complete front)))"
    using later by blast
qed

text \<open>A token, a listing, and a listing whose length takes two bytes.\<close>

abbreviation token_message :: bytes where "token_message \<equiv> [CHR 0x02, CHR ''A'', CHR ''k'']"
abbreviation list_message :: bytes where "list_message \<equiv> [CHR 0x01, CHR ''L'']"
abbreviation long_message :: bytes where "long_message \<equiv> [CHR 0x81, CHR 0x00, CHR ''L'']"

abbreviation token_request :: bridge_request where
  "token_request \<equiv> \<lparr> bq_id = 1, bq_content = Some (Request_Authenticate [of_char CHR ''k'']) \<rparr>"
abbreviation list_request :: bridge_request where
  "list_request \<equiv> \<lparr> bq_id = 2, bq_content = Some (Request_EnumerateDirectory 2 0 0) \<rparr>"

definition demo_messages :: "(bytes \<times> bridge_request) list" where
  "demo_messages = [(token_message, token_request), (list_message, list_request), (long_message, list_request)]"

lemma demo_messages_ok: "list_all (is_message wire_decode) demo_messages"
  by (simp add: demo_messages_def is_message_def wire_decode_def wire_body_def)

definition quiet_socket :: stream_env where
  "quiet_socket = \<lparr> se_ready_error = (\<lambda>_. None), se_write_error = (\<lambda>_. None) \<rparr>"

lemma quiet_socket [simp]: "se_ready_error quiet_socket n = None" "se_write_error quiet_socket n = None"
  by (simp_all add: quiet_socket_def)

definition demo_bridge :: "(string, cache_entry) lru_map bridge" where
  "demo_bridge = \<lparr> br_adapter = adapter_new ''r'' ''r'', br_vfs = demo_vfs, br_cache = demo_cache \<rparr>"

abbreviation demo_fs :: "(string, cache_entry) lru_map bridge filesystem" where
  "demo_fs \<equiv> adapter_fs list_lhm good_io \<lparr> proc_uid = 501, proc_gid = 20 \<rparr> demo_provider demo_parse"

abbreviation demo_token :: "byte list" where "demo_token \<equiv> [of_char CHR ''k'']"

text \<open>
  The same bytes cut twice: after the token's letter and after the first listing, which is served; and inside
  the length of the second listing, which ends the connection.
\<close>

theorem session_framing_witness:
  "runs_as []
     (handle_stream quiet_socket wire_decode (Some demo_token) demo_fs
        (deliver [[CHR 0x02, CHR ''A''], [CHR ''k'', CHR 0x01, CHR ''L'']]) (new_connection (Some demo_token) demo_bridge))
     (serve_all quiet_socket (Some demo_token) demo_fs [token_request, list_request] (new_connection (Some demo_token) demo_bridge))
   \<and> (\<forall>c. handle_stream quiet_socket wire_decode (Some demo_token) demo_fs
        (deliver [token_message @ list_message @ [CHR 0x81], [CHR 0x00, CHR ''L'']]) (new_connection (Some demo_token) demo_bridge)
        \<noteq> Some (c, Stream_Open))"
proof -
  let ?a = "[[CHR 0x02, CHR ''A''], [CHR ''k'', CHR 0x01, CHR ''L'']]"
  let ?b = "[token_message @ list_message @ [CHR 0x81], [CHR 0x00, CHR ''L'']]"
  have "clean_cuts demo_messages ?a"
    by (auto simp: clean_cuts_def clean_cut_def demo_messages_def prefix_complete_def le_Suc_eq numeral_2_eq_2)
  moreover have "\<not> clean_cuts demo_messages ?b"
    by (auto simp: clean_cuts_def clean_cut_def demo_messages_def prefix_complete_def intro!: exI [of _ 1])
  moreover have "received demo_messages (length (concat ?a)) = ([token_request, list_request], [])"
    by (simp add: demo_messages_def)
  ultimately show ?thesis
    using session_framing [OF wire_framed demo_messages_ok, of ?a long_message quiet_socket "Some demo_token" demo_fs demo_bridge]
      session_framing [OF wire_framed demo_messages_ok, of ?b "[]" quiet_socket "Some demo_token" demo_fs demo_bridge]
    by (simp add: demo_messages_def del: handle_stream.simps serve_all.simps)
qed

text \<open>A wrong token: the connection is closed, and the listing that follows is not served.\<close>

abbreviation refused_connection :: "(string, cache_entry) lru_map bridge connection" where
  "refused_connection \<equiv>
     \<lparr> cx_buf = list_message, cx_authenticated = False, cx_fs = demo_bridge,
       cx_sent = [\<lparr> bs_request_id = 1, bs_content = Some (Response_PosixError EACCES) \<rparr>] \<rparr>"

lemma wrong_token_run:
  "handle_stream quiet_socket wire_decode (Some demo_token) demo_fs [Event_Data ([CHR 0x02, CHR ''A'', CHR ''x''] @ list_message)]
     (new_connection (Some demo_token) demo_bridge) = Some (refused_connection, Stream_Closed)"
  by (simp add: new_connection_def drain_buffer.simps wire_decode_def wire_body_def serve_request_def reject_request_def send_response_def)

theorem session_requires_token_witness:
  "shows_token wire_decode demo_token ([CHR 0x02, CHR ''A'', CHR ''x''] @ list_message)
     \<or> \<not> cx_authenticated refused_connection \<and> cx_fs refused_connection = demo_bridge
       \<and> refusals (cx_sent refused_connection) Stream_Closed"
  using session_requires_token [OF wrong_token_run] by (simp add: bytes_received_def)

text \<open>Without a token: a listing, and then a write.\<close>

abbreviation listed_connection :: "(string, cache_entry) lru_map bridge connection" where
  "listed_connection \<equiv>
     fst (the (handle_stream quiet_socket wire_decode None demo_fs [Event_Data list_message] (new_connection None demo_bridge)))"

lemma drain_nothing: "cx_buf c = [] \<Longrightarrow> drain_buffer E decode x F c = Some (c, Stream_Open)"
  by (simp add: drain_buffer.simps)

lemma listing_run:
  "handle_stream quiet_socket wire_decode None demo_fs [Event_Data list_message] (new_connection None demo_bridge)
     = Some (listed_connection, Stream_Open)"
proof -
  have "map_of (nodes demo_listed) 2 \<noteq> None \<and> map_of (nodes demo_listed) 3 \<noteq> None" by code_simp
  then obtain v where v: "vfs_readdir demo_provider demo_parse 1 demo_vfs = (v, Ok demo_rows)"
    and nodes: "map_of (nodes v) 2 \<noteq> None \<and> map_of (nodes v) 3 \<noteq> None"
    using demo_readdir by blast
  have root: "fskit_to_vfs_inode 2 = 1" by (simp add: fskit_to_vfs_inode_def sat_sub_def)
  have "map_of (nodes v) (fst r) \<noteq> None" if "r \<in> set demo_rows" for r using that nodes by auto
  from enumerate_from_spec [OF this, where ids = "\<lparr> proc_uid = 501, proc_gid = 20 \<rparr>" and k = 0]
  obtain es where "enumerate_from \<lparr> proc_uid = 501, proc_gid = 20 \<rparr> v 0 demo_rows = Ok es" by blast
  then have E: "enumerate_directory \<lparr> proc_uid = 501, proc_gid = 20 \<rparr> demo_provider demo_parse 2 0 demo_vfs
      = (v, Ok es)"
    by (simp add: enumerate_directory_def root v del: enumerate_from.simps)
  have served: "handle_request demo_fs (Request_EnumerateDirectory 2 0 0) demo_bridge
      = Some (demo_bridge\<lparr> br_vfs := v \<rparr>, Ok (Response_DirectoryEntries (es, 0)))"
    using E by (simp add: adapter_fs_def replying_def prog_try_def bridge_walk_def prog_lift_def demo_bridge_def)
  let ?c = "\<lparr> cx_buf = [], cx_authenticated = True, cx_fs = demo_bridge, cx_sent = [] \<rparr>"
  have "serve_request quiet_socket None demo_fs \<lparr> bq_id = 2, bq_content = Some (Request_EnumerateDirectory 2 0 0) \<rparr> ?c
      = Some (answer_request quiet_socket 2 (Some (Response_DirectoryEntries (es, 0))) (?c\<lparr> cx_fs := demo_bridge\<lparr> br_vfs := v \<rparr> \<rparr>))"
    using served by (simp add: serve_request_def)
  then have "\<exists>c. handle_stream quiet_socket wire_decode None demo_fs [Event_Data list_message] (new_connection None demo_bridge)
      = Some (c, Stream_Open)"
    by (simp add: new_connection_def wire_decode_def wire_body_def drain_buffer.simps [of quiet_socket wire_decode None demo_fs "?c\<lparr> cx_buf := list_message \<rparr>", simplified]
        answer_request_def send_response_def drain_nothing)
  then show ?thesis by (metis fst_conv option.sel)
qed

theorem bridge_only_reads_witness:
  "bridge_reads demo_parse demo_bridge (cx_fs listed_connection)
    \<and> (\<exists>code\<in>{EROFS, EINVAL}. handle_request demo_fs (Request_Write ''x'' 4 0) (cx_fs listed_connection)
          = Some (cx_fs listed_connection, Ok (Response_PosixError code)))"
  by (rule bridge_only_reads [OF listing_run]) (simp add: is_modification_def)

end
