(* ===== verification/Deps.thy ===== *)
theory Deps
  imports Registry Fskit_Adapter Daemon_Mount
begin

text \<open>
  Mounting a project's dependencies, \<open>crates/ctxfs-cli/src/deps\<close>: the manifests' parsers (\<open>npm.rs\<close>,
  \<open>cargo_deps.rs\<close>, \<open>python.rs\<close>, \<open>mod.rs\<close>), the mount points (\<open>slug.rs\<close>), the batches of requests to the
  daemon (\<open>mount.rs\<close>), and the choice of the backend (\<open>backend.rs\<close>). Files, the JSON and TOML parsers and
  the daemon's answers are arguments.
\<close>

section \<open>Dependencies\<close>

datatype ecosystem = Eco_Npm | Eco_PyPI | Eco_Crate

fun ecosystem_display :: "ecosystem \<Rightarrow> string" where
  "ecosystem_display Eco_Npm = ''npm''"
| "ecosystem_display Eco_PyPI = ''pypi''"
| "ecosystem_display Eco_Crate = ''crate''"

record detected_dep =
  dep_name :: string
  dep_version :: string
  dep_ecosystem :: ecosystem
  dep_is_dev :: bool
  dep_source_spec :: string

definition new_dep :: "string \<Rightarrow> string \<Rightarrow> ecosystem \<Rightarrow> bool \<Rightarrow> detected_dep" where
  "new_dep nm v eco is_dev =
     \<lparr> dep_name = nm, dep_version = v, dep_ecosystem = eco, dep_is_dev = is_dev,
       dep_source_spec = ecosystem_display eco @ '':'' @ nm @ ''@'' @ v \<rparr>"

definition picker_label :: "detected_dep \<Rightarrow> string" where
  "picker_label d =
     ecosystem_display (dep_ecosystem d) @ '' '' @ dep_name d @ '' @'' @ dep_version d
       @ (if dep_is_dev d then '' [dev]'' else [])"

section \<open>Manifests\<close>

record project_env =
  pv_is_file :: "string \<Rightarrow> bool"
  pv_read :: "string \<Rightarrow> string option"

type_synonym dep_parser = "string \<Rightarrow> (detected_dep list, string) outcome"

definition read_manifest :: "project_env \<Rightarrow> string \<Rightarrow> (string, string) outcome" where
  "read_manifest V path = ok_or (''failed to read '' @ path) (pv_read V path)"

text \<open>npm: a range is reduced to the version it starts with, a compound one to \<open>latest\<close>.\<close>

definition strip_version_range :: "string \<Rightarrow> string" where
  "strip_version_range version =
     (let v = str_trim version in
      if str_contains ''||'' v \<or> CHR '' '' \<in> set v then ''latest''
      else if v = ''*'' then ''latest''
      else dropWhile (\<lambda>c. c \<in> set ''^~><='') v)"

definition npm_section :: "json \<Rightarrow> bool \<times> string \<Rightarrow> detected_dep list" where
  "npm_section j = (\<lambda>(is_dev, key).
     case Option.bind (json_get key j) json_members of
       None \<Rightarrow> []
     | Some ms \<Rightarrow> map (\<lambda>(nm, ver).
         new_dep nm (strip_version_range (case json_str ver of Some s \<Rightarrow> s | None \<Rightarrow> ''latest'')) Eco_Npm is_dev) ms)"

definition parse_package_json :: "project_env \<Rightarrow> (string \<Rightarrow> json option) \<Rightarrow> dep_parser" where
  "parse_package_json V parse_json path =
     obind (read_manifest V path) (\<lambda>content.
     omap (\<lambda>j. concat (map (npm_section j) [(False, ''dependencies''), (True, ''devDependencies'')]))
       (ok_or (''failed to parse JSON in '' @ path) (parse_json content)))"

datatype toml = Toml_String string | Toml_Table "(string \<times> toml) list" | Toml_Array "toml list" | Toml_Other string

fun toml_get :: "string \<Rightarrow> toml \<Rightarrow> toml option" where
  "toml_get k (Toml_Table ms) = map_of ms k"
| "toml_get k _ = None"

fun toml_table :: "toml \<Rightarrow> (string \<times> toml) list option" where
  "toml_table (Toml_Table ms) = Some ms"
| "toml_table _ = None"

fun toml_array :: "toml \<Rightarrow> toml list option" where
  "toml_array (Toml_Array vs) = Some vs"
| "toml_array _ = None"

fun toml_str :: "toml \<Rightarrow> string option" where
  "toml_str (Toml_String s) = Some s"
| "toml_str _ = None"

text \<open>Cargo: path and git dependencies are left out.\<close>

fun extract_version :: "toml \<Rightarrow> string option" where
  "extract_version (Toml_String v) = Some v"
| "extract_version (Toml_Table t) =
     (if map_of t ''path'' \<noteq> None \<or> map_of t ''git'' \<noteq> None then None
      else Option.bind (map_of t ''version'') toml_str)"
| "extract_version _ = None"

definition parse_dep_table :: "bool \<Rightarrow> (string \<times> toml) list \<Rightarrow> detected_dep list" where
  "parse_dep_table is_dev table =
     List.map_filter (\<lambda>(nm, v). map_option (\<lambda>ver. new_dep nm ver Eco_Crate is_dev) (extract_version v)) table"

definition cargo_section :: "toml \<Rightarrow> bool \<times> string \<Rightarrow> detected_dep list" where
  "cargo_section doc = (\<lambda>(is_dev, key).
     case Option.bind (toml_get key doc) toml_table of None \<Rightarrow> [] | Some t \<Rightarrow> parse_dep_table is_dev t)"

definition parse_cargo_toml :: "project_env \<Rightarrow> (string \<Rightarrow> toml option) \<Rightarrow> dep_parser" where
  "parse_cargo_toml V parse_toml path =
     obind (read_manifest V path) (\<lambda>content.
     omap (\<lambda>doc. concat (map (cargo_section doc) [(False, ''dependencies''), (True, ''dev-dependencies'')]))
       (ok_or (''failed to parse TOML in '' @ path) (parse_toml content)))"

text \<open>Python: \<open>str::find\<close>, and the operator found first, the longer one where two start together.\<close>

fun str_find :: "string \<Rightarrow> string \<Rightarrow> nat option" where
  "str_find p [] = (if p = [] then Some 0 else None)"
| "str_find p (x # xs) = (if starts_with p (x # xs) then Some 0 else map_option Suc (str_find p xs))"

definition VERSION_OPS :: "string list" where
  "VERSION_OPS = [''>='', ''<='', ''~='', ''=='', ''!='', ''<'', ''>'']"

fun first_min :: "(nat \<times> 'a) list \<Rightarrow> (nat \<times> 'a) option" where
  "first_min [] = None"
| "first_min (x # xs) =
     (case first_min xs of None \<Rightarrow> Some x | Some y \<Rightarrow> if fst y < fst x then Some y else Some x)"

definition strip_extras :: "string \<Rightarrow> string" where
  "strip_extras nm = takeWhile (\<lambda>c. c \<noteq> CHR ''['') nm"

definition parse_pep508 :: "string \<Rightarrow> string \<times> string" where
  "parse_pep508 text =
     (let spec = str_trim text in
      case first_min (List.map_filter (\<lambda>op. map_option (\<lambda>pos. (pos, op)) (str_find op spec)) VERSION_OPS) of
        Some (pos, op) \<Rightarrow>
          (let version = str_trim (takeWhile (\<lambda>c. c \<notin> set '',;'') (drop (pos + length op) spec))
           in (str_trim (strip_extras (take pos spec)), if version = [] then ''latest'' else version))
      | None \<Rightarrow> (str_trim (strip_extras (takeWhile (\<lambda>c. c \<noteq> CHR '';'') spec)), ''latest''))"

definition pypi_dep :: "bool \<Rightarrow> string \<Rightarrow> detected_dep option" where
  "pypi_dep is_dev spec =
     (let (nm, v) = parse_pep508 spec in if nm = [] then None else Some (new_dep nm v Eco_PyPI is_dev))"

definition requirement_line :: "string \<Rightarrow> detected_dep option" where
  "requirement_line raw =
     (let line = str_trim raw in
      if line = [] \<or> starts_with ''#'' line \<or> starts_with ''-'' line then None
      else (let text = str_trim (takeWhile (\<lambda>c. c \<noteq> CHR ''#'') line) in
            if text = [] then None else pypi_dep False text))"

definition parse_requirements_txt :: "project_env \<Rightarrow> dep_parser" where
  "parse_requirements_txt V path =
     omap (\<lambda>content. List.map_filter requirement_line (str_lines content)) (read_manifest V path)"

definition DEV_EXTRA_NAMES :: "string list" where
  "DEV_EXTRA_NAMES = [''dev'', ''test'', ''testing'']"

definition pypi_items :: "bool \<Rightarrow> toml list \<Rightarrow> detected_dep list" where
  "pypi_items is_dev items = List.map_filter (\<lambda>item. Option.bind (toml_str item) (pypi_dep is_dev)) items"

definition pypi_deps_of :: "toml \<Rightarrow> detected_dep list" where
  "pypi_deps_of doc =
     (case Option.bind (Option.bind (toml_get ''project'' doc) (toml_get ''dependencies'')) toml_array of
        None \<Rightarrow> [] | Some items \<Rightarrow> pypi_items False items)
     @ (case Option.bind (Option.bind (toml_get ''project'' doc) (toml_get ''optional-dependencies'')) toml_table of
          None \<Rightarrow> []
        | Some extras \<Rightarrow> concat (map (\<lambda>(extra, deps).
            case toml_array deps of
              None \<Rightarrow> []
            | Some items \<Rightarrow> pypi_items (to_ascii_lowercase extra \<in> set DEV_EXTRA_NAMES) items) extras))"

definition parse_pyproject_toml :: "project_env \<Rightarrow> (string \<Rightarrow> toml option) \<Rightarrow> dep_parser" where
  "parse_pyproject_toml V parse_toml path =
     obind (read_manifest V path) (\<lambda>content.
     omap pypi_deps_of (ok_or (''failed to parse TOML in '' @ path) (parse_toml content)))"

definition manifest_parsers ::
  "project_env \<Rightarrow> (string \<Rightarrow> json option) \<Rightarrow> (string \<Rightarrow> toml option) \<Rightarrow> (string \<times> dep_parser) list" where
  "manifest_parsers V parse_json parse_toml =
     [(''package.json'', parse_package_json V parse_json), (''Cargo.toml'', parse_cargo_toml V parse_toml),
      (''requirements.txt'', parse_requirements_txt V), (''pyproject.toml'', parse_pyproject_toml V parse_toml)]"

text \<open>A manifest that cannot be parsed is named but gives no dependencies.\<close>

definition detect_all ::
  "project_env \<Rightarrow> (string \<Rightarrow> json option) \<Rightarrow> (string \<Rightarrow> toml option) \<Rightarrow> string \<Rightarrow> string list \<times> detected_dep list" where
  "detect_all V parse_json parse_toml dir =
     (let found = filter (\<lambda>(nm, _). pv_is_file V (path_push dir nm)) (manifest_parsers V parse_json parse_toml)
      in (map fst found,
          concat (map (\<lambda>(nm, parser). case parser (path_push dir nm) of Ok ds \<Rightarrow> ds | _ \<Rightarrow> []) found)))"

section \<open>Mount points\<close>

definition source_to_slug :: "string \<Rightarrow> string" where
  "source_to_slug spec_text =
     (case parse spec_text of
        Ok spec \<Rightarrow>
          (case sp_provider spec of
             GitHub \<Rightarrow>
               (case split_once CHR ''/'' (sp_name spec) of Some (_, repo) \<Rightarrow> repo | None \<Rightarrow> sp_name spec)
                 @ ''-'' @ sp_version spec
           | _ \<Rightarrow> replace_char CHR ''/'' ''-'' (trim_start_at (sp_name spec)))
      | _ \<Rightarrow> map (\<lambda>c. if c \<in> set '':/@'' then CHR ''-'' else c) spec_text)"

abbreviation dep_slug :: "detected_dep \<Rightarrow> string" where
  "dep_slug d \<equiv> source_to_slug (dep_source_spec d)"

definition mount_dir_name :: "detected_dep list \<Rightarrow> detected_dep \<Rightarrow> string" where
  "mount_dir_name deps d =
     (if 1 < length (filter (\<lambda>e. dep_slug e = dep_slug d) deps)
      then ecosystem_display (dep_ecosystem d) @ ''-'' @ dep_slug d else dep_slug d)"

text \<open>Collected into a map from source specifications, in which a later dependency replaces an equal one.\<close>

definition compute_mount_paths :: "detected_dep list \<Rightarrow> string \<Rightarrow> (string \<times> string) list" where
  "compute_mount_paths deps mount_dir =
     foldl (\<lambda>m d. AList.update (dep_source_spec d) (path_push mount_dir (mount_dir_name deps d)) m) [] deps"

section \<open>Results of batches\<close>

text \<open>The batches themselves act on the machine and are in \<open>Cli\<close>.\<close>

record mount_result =
  mr_source :: string
  mr_mount_point :: string
  mr_success :: bool
  mr_error :: "string option"
  mr_note :: "string option"

record unmount_result =
  ur_mount_point :: string
  ur_success :: bool
  ur_error :: "string option"

definition unmount_prefix :: "string \<Rightarrow> string" where
  "unmount_prefix exact = (if ends_with ''/'' exact then exact else exact @ ''/'')"

definition unmount_targets :: "string \<Rightarrow> string list \<Rightarrow> string list" where
  "unmount_targets mount_dir points =
     filter (\<lambda>p. p = mount_dir \<or> starts_with (unmount_prefix mount_dir) p) points"

definition unmount_answer :: "string \<Rightarrow> string option \<Rightarrow> unmount_result" where
  "unmount_answer p e = \<lparr> ur_mount_point = p, ur_success = (e = None), ur_error = e \<rparr>"

section \<open>The backend\<close>

definition detect_backend_inner :: "bool \<Rightarrow> bool \<Rightarrow> backend option \<Rightarrow> backend option \<Rightarrow> string option \<Rightarrow> backend" where
  "detect_backend_inner macos_26 app_installed flag config_default env_value =
     (case flag of
        Some b \<Rightarrow> b
      | None \<Rightarrow>
          (case Option.bind env_value (\<lambda>v. case backend_from_str v of Ok b \<Rightarrow> Some b | _ \<Rightarrow> None) of
             Some b \<Rightarrow> b
           | None \<Rightarrow>
               (case config_default of
                  Some b \<Rightarrow> b
                | None \<Rightarrow> if macos_26 \<and> app_installed then FsKit else Nfs)))"

end
