(* ===== verification/Deps_Correct.thy ===== *)
theory Deps_Correct
  imports Deps
begin

text \<open>
  What becomes of a project's dependencies: whether the daemon reads back the package a manifest named, and
  which of them share a mount point.
\<close>

section \<open>Specifications of dependencies\<close>

fun eco_provider :: "ecosystem \<Rightarrow> provider_type" where
  "eco_provider Eco_Npm = Npm"
| "eco_provider Eco_PyPI = PyPI"
| "eco_provider Eco_Crate = Crate"

lemma eco_display [simp]: "ecosystem_display eco = provider_display (eco_provider eco)"
  by (cases eco) auto

lemma eco_not_github [simp]: "eco_provider eco \<noteq> GitHub"
  by (cases eco) auto

lemma parse_dep_spec:
  "parse (dep_source_spec (new_dep nm v eco is_dev))
     = parse_registry (eco_provider eco) (nm @ ''@'' @ v) (dep_source_spec (new_dep nm v eco is_dev))"
proof -
  have "provider_from_str (provider_display (eco_provider eco)) = Ok (eco_provider eco)"
    by (simp add: provider_from_str_Ok)
  then show ?thesis by (cases eco) (simp_all add: parse_def new_dep_def)
qed

text \<open>
  The daemon reads back the package and version of a dependency exactly when neither is empty and the
  version has no \<open>@\<close> and no \<open>:\<close>; an npm alias (\<open>npm:react@18\<close>), \<open>workspace:*\<close> or a URL as the
  version makes it another package or another version.
\<close>

theorem detected_dep_roundtrip:
  "parse (dep_source_spec (new_dep nm v eco is_dev))
       = Ok \<lparr> sp_provider = eco_provider eco, sp_name = nm, sp_version = v, sp_subpath = None \<rparr>
     \<longleftrightarrow> nm \<noteq> [] \<and> v \<noteq> [] \<and> CHR ''@'' \<notin> set v \<and> CHR '':'' \<notin> set v"
  unfolding parse_dep_spec parse_registry_Ok by (auto simp: registry_wf_def subpath_suffix_def)

section \<open>Mount points\<close>

lemma trim_replace_no_slash: "CHR ''/'' \<notin> set (replace_char CHR ''/'' ''-'' s)"
  by (induction s) auto

lemma slug_no_slash: "CHR ''/'' \<notin> set (dep_slug (new_dep nm v eco is_dev))"
proof -
  have "sp_provider spec = eco_provider eco" if "parse (dep_source_spec (new_dep nm v eco is_dev)) = Ok spec" for spec
    using that unfolding parse_dep_spec parse_registry_Ok by simp
  then have "sp_provider spec \<noteq> GitHub" if "parse (dep_source_spec (new_dep nm v eco is_dev)) = Ok spec" for spec
    using that by simp
  then show ?thesis
    by (auto simp: source_to_slug_def trim_replace_no_slash split: outcome.split provider_type.split)
qed

lemma path_push_flat_inject:
  assumes "CHR ''/'' \<notin> set a" "CHR ''/'' \<notin> set b" "path_push dir a = path_push dir b"
  shows "a = b"
proof -
  have "\<not> starts_with ''/'' x" if "CHR ''/'' \<notin> set x" for x using that by (cases x) (auto simp: starts_with_def)
  then have "\<not> starts_with ''/'' a" "\<not> starts_with ''/'' b" using assms(1,2) by blast+
  then have "path_push dir x = (if dir = [] \<or> ends_with ''/'' dir then dir else dir @ ''/'') @ x" if "x = a \<or> x = b" for x
    using that by (auto simp: path_push_def)
  then have "(if dir = [] \<or> ends_with ''/'' dir then dir else dir @ ''/'') @ a
      = (if dir = [] \<or> ends_with ''/'' dir then dir else dir @ ''/'') @ b" using assms(3) by metis
  then show ?thesis by (rule same_append_eq [THEN iffD1])
qed

lemma map_of_fold_update:
  assumes "\<And>a b. a \<in> set xs \<Longrightarrow> b \<in> set xs \<Longrightarrow> k a = k b \<Longrightarrow> v a = v b" and "x \<in> set xs"
  shows "map_of (foldl (\<lambda>m y. AList.update (k y) (v y) m) m0 xs) (k x) = Some (v x)"
  using assms
proof (induction xs rule: rev_induct)
  case (snoc y ys)
  show ?case
  proof (cases "k x = k y")
    case True
    have "v x = v y" by (rule snoc.prems(1)) (use snoc.prems(2) True in simp_all)
    then show ?thesis using True by (simp add: AList.update_conv')
  next
    case False
    then have "x \<in> set ys" using snoc.prems(2) by auto
    then have "map_of (foldl (\<lambda>m y. AList.update (k y) (v y) m) m0 ys) (k x) = Some (v x)"
      using snoc.IH snoc.prems(1) by simp
    then show ?thesis using False by (simp add: AList.update_conv')
  qed
qed simp

definition is_detected :: "detected_dep \<Rightarrow> bool" where
  "is_detected d \<longleftrightarrow> d = new_dep (dep_name d) (dep_version d) (dep_ecosystem d) (dep_is_dev d)"

lemma detected_ecosystem:
  assumes "is_detected a" "is_detected b" "dep_source_spec a = dep_source_spec b"
  shows "dep_ecosystem a = dep_ecosystem b"
proof -
  have head: "split_once CHR '':'' (dep_source_spec d) = Some (ecosystem_display (dep_ecosystem d), dep_name d @ ''@'' @ dep_version d)"
    if "is_detected d" for d
  proof -
    have "dep_source_spec d = ecosystem_display (dep_ecosystem d) @ CHR '':'' # (dep_name d @ ''@'' @ dep_version d)"
      using arg_cong [OF that [unfolded is_detected_def], of dep_source_spec] by (simp add: new_dep_def)
    then show ?thesis by simp
  qed
  have "ecosystem_display (dep_ecosystem a) = ecosystem_display (dep_ecosystem b)"
    using head [OF assms(1)] head [OF assms(2)] assms(3) by simp
  then show ?thesis by (cases "dep_ecosystem a"; cases "dep_ecosystem b") simp_all
qed

lemma mount_path_of:
  assumes "\<forall>d\<in>set deps. is_detected d" "a \<in> set deps"
  shows "map_of (compute_mount_paths deps dir) (dep_source_spec a) = Some (path_push dir (mount_dir_name deps a))"
  unfolding compute_mount_paths_def
proof (rule map_of_fold_update [OF _ assms(2)])
  fix x y assume xy: "x \<in> set deps" "y \<in> set deps" "dep_source_spec x = dep_source_spec y"
  then have "dep_ecosystem x = dep_ecosystem y" using detected_ecosystem assms(1) by blast
  then show "path_push dir (mount_dir_name deps x) = path_push dir (mount_dir_name deps y)"
    using xy(3) by (simp add: mount_dir_name_def)
qed

definition looks_prefixed :: "string \<Rightarrow> bool" where
  "looks_prefixed slug \<longleftrightarrow> list_ex (\<lambda>eco. starts_with (ecosystem_display eco @ ''-'') slug) [Eco_Npm, Eco_PyPI, Eco_Crate]"

lemma prefixed_looks: "looks_prefixed (ecosystem_display eco @ ''-'' @ s)"
  by (cases eco) (simp_all add: looks_prefixed_def starts_with_def)

lemma eco_display_inject: "ecosystem_display e = ecosystem_display f \<longleftrightarrow> e = f"
  by (cases e; cases f) auto

lemma prefixed_inject:
  "ecosystem_display e @ ''-'' @ s = ecosystem_display f @ ''-'' @ t \<longleftrightarrow> e = f \<and> s = t"
  by (cases e; cases f) auto

lemma two_with_slug:
  assumes "a \<in> set deps" "b \<in> set deps" "a \<noteq> b" "dep_slug a = dep_slug b"
  shows "1 < length (filter (\<lambda>e. dep_slug e = dep_slug a) deps)"
proof -
  have "{a, b} \<subseteq> set (filter (\<lambda>e. dep_slug e = dep_slug a) deps)" using assms by auto
  then have "card {a, b} \<le> length (filter (\<lambda>e. dep_slug e = dep_slug a) deps)"
    by (meson card_length card_mono finite_set order_trans)
  then show ?thesis using assms(3) by simp
qed

text \<open>A name that stands for an entry of the directory it is pushed onto.\<close>

definition entry_name :: "string \<Rightarrow> bool" where
  "entry_name nm \<longleftrightarrow> nm \<noteq> [] \<and> nm \<noteq> ''.'' \<and> nm \<noteq> ''..'' \<and> CHR ''/'' \<notin> set nm"

lemma prefixed_entry: "CHR ''/'' \<notin> set s \<Longrightarrow> entry_name (ecosystem_display eco @ ''-'' @ s)"
  by (cases eco) (simp_all add: entry_name_def)

text \<open>
  C39. Where the dependencies of a project are mounted, when no slug looks like a prefixed one: two different ones
  share their mount point exactly when they have the same slug and the same ecosystem, so the prefix
  separates ecosystems, but not the scoped and the unscoped package of one slug, nor two versions of one
  package. The name pushed onto the mount directory has no slash; it is an entry of the directory exactly
  unless the slug is empty or one of the names \<open>.\<close> and \<open>..\<close> and no other dependency has it: such a
  dependency is mounted on the mount directory itself or on its parent.
\<close>

theorem mount_points_collide:
  assumes "\<forall>d\<in>set deps. is_detected d \<and> \<not> looks_prefixed (dep_slug d)"
    and "a \<in> set deps" "b \<in> set deps" "dep_source_spec a \<noteq> dep_source_spec b"
  shows "(map_of (compute_mount_paths deps dir) (dep_source_spec a) = map_of (compute_mount_paths deps dir) (dep_source_spec b)
      \<longleftrightarrow> dep_slug a = dep_slug b \<and> dep_ecosystem a = dep_ecosystem b)
    \<and> (\<exists>nm. map_of (compute_mount_paths deps dir) (dep_source_spec a) = Some (path_push dir nm) \<and> CHR ''/'' \<notin> set nm
        \<and> (entry_name nm \<longleftrightarrow> 1 < length (filter (\<lambda>e. dep_slug e = dep_slug a) deps) \<or> dep_slug a \<notin> {[], ''.'', ''..''}))"
proof -
  have flat: "CHR ''/'' \<notin> set (mount_dir_name deps d)" if "d \<in> set deps" for d
  proof -
    have "is_detected d" using assms(1) that by blast
    then have "CHR ''/'' \<notin> set (dep_slug d)" using slug_no_slash by (metis is_detected_def)
    then show ?thesis by (cases "dep_ecosystem d") (auto simp: mount_dir_name_def)
  qed
  have paths: "map_of (compute_mount_paths deps dir) (dep_source_spec d) = Some (path_push dir (mount_dir_name deps d))"
    if "d \<in> set deps" for d using mount_path_of assms(1) that by blast
  have plain: "\<not> looks_prefixed (dep_slug a)" "\<not> looks_prefixed (dep_slug b)" using assms(1-3) by blast+
  have "mount_dir_name deps a = mount_dir_name deps b \<longleftrightarrow> dep_slug a = dep_slug b \<and> dep_ecosystem a = dep_ecosystem b"
  proof (cases "dep_slug a = dep_slug b")
    case True
    have "a \<noteq> b" using assms(4) by blast
    then have "1 < length (filter (\<lambda>e. dep_slug e = dep_slug a) deps)" using two_with_slug assms(2,3) True by blast
    then show ?thesis using True by (simp add: mount_dir_name_def eco_display_inject del: eco_display)
  next
    case False
    let ?p = "\<lambda>d. ecosystem_display (dep_ecosystem d) @ ''-'' @ dep_slug d"
    have "mount_dir_name deps a \<noteq> mount_dir_name deps b"
    proof
      assume "mount_dir_name deps a = mount_dir_name deps b"
      moreover have "mount_dir_name deps d = dep_slug d \<or> mount_dir_name deps d = ?p d" for d
        by (simp add: mount_dir_name_def)
      ultimately have "dep_slug a = dep_slug b \<or> dep_slug a = ?p b \<or> ?p a = dep_slug b \<or> ?p a = ?p b" by metis
      moreover have "dep_slug a \<noteq> ?p b" "?p a \<noteq> dep_slug b" using plain prefixed_looks by metis+
      ultimately show False using False prefixed_inject by blast
    qed
    then show ?thesis using False by blast
  qed
  then have same: "map_of (compute_mount_paths deps dir) (dep_source_spec a) = map_of (compute_mount_paths deps dir) (dep_source_spec b)
      \<longleftrightarrow> dep_slug a = dep_slug b \<and> dep_ecosystem a = dep_ecosystem b"
    using paths assms(2,3) flat path_push_flat_inject by (metis option.inject)
  have slug: "CHR ''/'' \<notin> set (dep_slug a)" using slug_no_slash assms(1,2) by (metis is_detected_def)
  have "entry_name (mount_dir_name deps a)
      \<longleftrightarrow> 1 < length (filter (\<lambda>e. dep_slug e = dep_slug a) deps) \<or> dep_slug a \<notin> {[], ''.'', ''..''}"
    using prefixed_entry [OF slug] slug by (auto simp: mount_dir_name_def entry_name_def simp del: eco_display)
  then show ?thesis using same paths [OF assms(2)] flat [OF assms(2)] by blast
qed

text \<open>The scoped package of the types of Node, an unscoped package of the same slug, and one named \<open>..\<close>.\<close>

definition demo_deps :: "detected_dep list" where
  "demo_deps = [new_dep ''@types/node'' ''20'' Eco_Npm False, new_dep ''types-node'' ''1'' Eco_Npm True,
     new_dep ''..'' ''1'' Eco_Npm False]"

theorem mount_points_collide_witness:
  "map_of (compute_mount_paths demo_deps ''/m'') ''npm:@types/node@20''
     = map_of (compute_mount_paths demo_deps ''/m'') ''npm:types-node@1''
   \<and> (\<exists>nm. map_of (compute_mount_paths demo_deps ''/m'') ''npm:..@1'' = Some (path_push ''/m'' nm) \<and> \<not> entry_name nm)
   \<and> map_of (compute_mount_paths demo_deps ''/m'') ''npm:..@1'' = Some ''/m/..''"
proof -
  have specs: "dep_source_spec (demo_deps ! 0) = ''npm:@types/node@20''" "dep_source_spec (demo_deps ! 1) = ''npm:types-node@1''"
    "dep_source_spec (demo_deps ! 2) = ''npm:..@1''"
    by (simp_all add: demo_deps_def new_dep_def)
  have slugs: "dep_slug (demo_deps ! 0) = ''types-node''" "dep_slug (demo_deps ! 1) = ''types-node''"
    "dep_slug (demo_deps ! 2) = ''..''" "\<not> looks_prefixed ''types-node''" "\<not> looks_prefixed ''..''"
    "length (filter (\<lambda>e. dep_slug e = ''..'') demo_deps) = 1"
    by code_simp+
  have all: "set demo_deps = {demo_deps ! 0, demo_deps ! 1, demo_deps ! 2}" by (simp add: demo_deps_def)
  have ok: "\<forall>d\<in>set demo_deps. is_detected d \<and> \<not> looks_prefixed (dep_slug d)"
    unfolding all using slugs by (auto simp: is_detected_def demo_deps_def new_dep_def)
  have eco: "dep_ecosystem (demo_deps ! 0) = Eco_Npm" "dep_ecosystem (demo_deps ! 1) = Eco_Npm"
    by (simp_all add: demo_deps_def new_dep_def)
  have "map_of (compute_mount_paths demo_deps ''/m'') ''npm:@types/node@20''
      = map_of (compute_mount_paths demo_deps ''/m'') ''npm:types-node@1''"
    using mount_points_collide [OF ok, of "demo_deps ! 0" "demo_deps ! 1" "''/m''"] specs slugs all eco by simp
  moreover have "\<exists>nm. map_of (compute_mount_paths demo_deps ''/m'') ''npm:..@1'' = Some (path_push ''/m'' nm) \<and> \<not> entry_name nm"
    using mount_points_collide [OF ok, of "demo_deps ! 2" "demo_deps ! 0" "''/m''"] specs slugs all by auto
  moreover have "map_of (compute_mount_paths demo_deps ''/m'') ''npm:..@1'' = Some ''/m/..''" by code_simp
  ultimately show ?thesis by blast
qed

end
