(* ===== verification/Remote_Call.thy ===== *)
theory Remote_Call
  imports Daemon
begin

text \<open>
  A call of the daemon over its socket, as the command line and the helper of the companion app make it
  through the client of \<open>crates/ctxfs-ipc/src/service.rs\<close>. What the transport does with a call is an
  argument: it is delivered and answered, it is lost before it arrives, or it is carried out and its answer
  is lost. A handler that panics answers nothing, and the call ends with the error of its deadline.
\<close>

datatype transport = Delivered | RequestLost string | ReplyLost string

datatype 'a answer = Answered 'a | Refused string | Lost string

definition remote_call ::
  "transport \<Rightarrow> string \<Rightarrow> ('m daemon, 'a, string) task \<Rightarrow> 'm daemon \<Rightarrow> ('m daemon \<times> 'a answer) option" where
  "remote_call tr deadline_error call d =
     (case tr of
        RequestLost e \<Rightarrow> Some (d, Lost e)
      | ReplyLost e \<Rightarrow> map_option (\<lambda>(d1, _). (d1, Lost e)) (call d)
      | Delivered \<Rightarrow>
          map_option (\<lambda>(d1, r). (d1, case r of Ok v \<Rightarrow> Answered v | Err e \<Rightarrow> Refused e | Panic \<Rightarrow> Lost deadline_error))
            (call d))"

lemma remote_call_Answered: "remote_call tr pe call d = Some (d1, Answered v) \<Longrightarrow> tr = Delivered \<and> call d = Some (d1, Ok v)"
  by (cases tr; cases "call d"; cases "snd (the (call d))") (auto simp: remote_call_def)

lemma remote_call_daemon: "remote_call tr pe call d = Some (d1, r) \<Longrightarrow> d1 = d \<or> (\<exists>q. call d = Some (d1, q))"
  by (auto simp: remote_call_def split: transport.splits)

end
