(* ===== verification/App_Helper.thy ===== *)
theory App_Helper
  imports Remote_Call Deps
begin

text \<open>
  The helper process of the companion app, \<open>crates/ctxfs-app-helper\<close>: the loop over the requests on its
  standard input (\<open>main.rs\<close>), the messages (\<open>rpc.rs\<close>) and the dispatch of a request to the daemon or to the
  configuration file (\<open>handler.rs\<close>), with the state of the FSKit extension
  (\<open>crates/ctxfs-core/src/ext_status.rs\<close>) and the check of a token
  (\<open>crates/ctxfs-provider-git/src/token.rs\<close>). The daemon at the other end of the socket is the one of \<open>Daemon\<close>;
  whether a call reaches it, and whether its answer comes back, is an argument.
\<close>

section \<open>The extension and the token\<close>

record extension_info =
  xi_bundle_id :: string
  xi_registered :: bool
  xi_enabled :: bool
  xi_version :: "string option"
  xi_platform_supported :: bool

text \<open>The value between the first occurrence of the key and the next quotation mark.\<close>

definition VERSION_KEY :: string where
  "VERSION_KEY = ''CFBundleShortVersionString = '' @ [CHR 0x22]"

definition parse_version_from_raw :: "string \<Rightarrow> string option" where
  "parse_version_from_raw raw =
     Option.bind (str_find VERSION_KEY raw) (\<lambda>i.
     let start = i + length VERSION_KEY in
     Option.bind (str_find [CHR 0x22] (drop start raw)) (\<lambda>n.
     let v = take n (drop start raw) in if v = [] then None else Some v))"

text \<open>
  \<open>macos\<close> is the platform the program is built for, \<open>pluginkit\<close> what the tool prints for the identifier,
  \<open>None\<close> when it cannot be run.
\<close>

definition query_fskit_extension_status :: "bool \<Rightarrow> (string \<Rightarrow> string option) \<Rightarrow> string \<Rightarrow> extension_info" where
  "query_fskit_extension_status macos pluginkit bundle_id =
     (if macos
      then (let (found, version) =
                (case pluginkit bundle_id of
                   Some out \<Rightarrow>
                     if str_contains (''CFBundleIdentifier = '' @ [CHR 0x22] @ bundle_id @ [CHR 0x22]) out
                     then (True, parse_version_from_raw out) else (False, None)
                 | None \<Rightarrow> (False, None))
            in \<lparr> xi_bundle_id = bundle_id, xi_registered = found, xi_enabled = found, xi_version = version,
                 xi_platform_supported = True \<rparr>)
      else \<lparr> xi_bundle_id = bundle_id, xi_registered = False, xi_enabled = False, xi_version = None,
             xi_platform_supported = False \<rparr>)"

record token_info =
  ti_valid :: bool
  ti_user :: "string option"
  ti_remaining :: "u64 option"
  ti_reset_at :: "string option"

record token_env =
  tk_header_value :: "string \<Rightarrow> string option"
  tk_get :: "string \<Rightarrow> string \<Rightarrow> json response + string"
  tk_status_text :: "u16 \<Rightarrow> string"
  tk_rfc3339 :: "64 word \<Rightarrow> string option"

fun json_u64 :: "json \<Rightarrow> u64 option" where
  "json_u64 (Json_Number (PosInt n)) = Some n"
| "json_u64 _ = None"

fun json_i64 :: "json \<Rightarrow> 64 word option" where
  "json_i64 (Json_Number (PosInt n)) = (if n < 2 ^ 63 then Some n else None)"
| "json_i64 (Json_Number (NegInt n)) = Some n"
| "json_i64 _ = None"

definition success_status :: "u16 \<Rightarrow> bool" where
  "success_status st \<longleftrightarrow> 200 \<le> st \<and> st < 300"

definition validate_github_token :: "token_env \<Rightarrow> string \<Rightarrow> (token_info, string) outcome" where
  "validate_github_token T token =
     (if token = [] then Err ''token is empty''
      else obind (ok_or ''invalid token encoding'' (bearer_header (tk_header_value T) token)) (\<lambda>auth.
        case tk_get T ''https://api.github.com/rate_limit'' auth of
          Inr e \<Rightarrow> Err (''request failed: '' @ e)
        | Inl r \<Rightarrow>
            if \<not> success_status (resp_status r) then Err (''GitHub returned '' @ tk_status_text T (resp_status r))
            else (case resp_json r of
                    Inr e \<Rightarrow> Err (''failed to parse rate_limit: '' @ e)
                  | Inl body \<Rightarrow>
                      (let core = json_index (json_index body ''resources'') ''core'' in
                       Ok \<lparr> ti_valid = True,
                            ti_user =
                              (case tk_get T ''https://api.github.com/user'' auth of
                                 Inl u \<Rightarrow>
                                   if success_status (resp_status u)
                                   then (case resp_json u of Inl b \<Rightarrow> json_str (json_index b ''login'') | Inr _ \<Rightarrow> None)
                                   else None
                               | Inr _ \<Rightarrow> None),
                            ti_remaining = json_u64 (json_index core ''remaining''),
                            ti_reset_at = Option.bind (json_i64 (json_index core ''reset'')) (tk_rfc3339 T) \<rparr>))))"

section \<open>Messages\<close>

record helper_request =
  hq_id :: u64
  hq_method :: string
  hq_params :: json

text \<open>The values that are serialised as the result of a response.\<close>

datatype helper_value =
    Pong
  | MountList "mount_info list"
  | OkTrue
  | Breakdown cache_breakdown
  | BytesFreed u64
  | Extension extension_info
  | TokenChecked token_info
  | ConfigFile string string string
  | KeySet string

record helper_response =
  hr_id :: u64
  hr_result :: "helper_value option"
  hr_error :: "string option"

definition response_ok :: "u64 \<Rightarrow> helper_value \<Rightarrow> helper_response" where
  "response_ok i v = \<lparr> hr_id = i, hr_result = Some v, hr_error = None \<rparr>"

definition response_err :: "u64 \<Rightarrow> string \<Rightarrow> helper_response" where
  "response_err i e = \<lparr> hr_id = i, hr_result = None, hr_error = Some e \<rparr>"

text \<open>
  The derived deserialisation of a parameter structure: an object with every field (others are ignored), or
  an array with the fields in their order.
\<close>

definition params_fields :: "string list \<Rightarrow> json \<Rightarrow> json list option" where
  "params_fields ks j =
     (case j of
        Json_Object ms \<Rightarrow> those (map (map_of ms) ks)
      | Json_Array vs \<Rightarrow> if length vs = length ks then Some vs else None
      | _ \<Rightarrow> None)"

definition string_param :: "string \<Rightarrow> json \<Rightarrow> string option" where
  "string_param k j =
     Option.bind (params_fields [k] j) (\<lambda>vs. json_str (vs ! 0))"

definition u64_param :: "string \<Rightarrow> json \<Rightarrow> u64 option" where
  "u64_param k j =
     Option.bind (params_fields [k] j) (\<lambda>vs. json_u64 (vs ! 0))"

definition config_set_params :: "json \<Rightarrow> (string \<times> string) option" where
  "config_set_params j =
     Option.bind (params_fields [''content'', ''snapshot_hash''] j) (\<lambda>vs.
     Option.bind (json_str (vs ! 0)) (\<lambda>content.
     Option.bind (json_str (vs ! 1)) (\<lambda>h. Some (content, h))))"

definition config_value_params :: "json \<Rightarrow> (string \<times> json) option" where
  "config_value_params j =
     Option.bind (params_fields [''key'', ''value''] j) (\<lambda>vs.
     Option.bind (json_str (vs ! 0)) (\<lambda>key. Some (key, vs ! 1)))"

section \<open>The helper and its surroundings\<close>

text \<open>
  The helper keeps a connection to the daemon, made when the first call needs it. Beside it stands what the
  helper acts on: the daemon, and the files among which the configuration is.
\<close>

record 'm helper =
  hp_connected :: bool
  hp_bundle_id :: string
  hp_daemon :: "'m daemon"
  hp_files :: "string \<rightharpoonup> bytes"

definition helper_new :: "config \<Rightarrow> 'm daemon \<Rightarrow> (string \<rightharpoonup> bytes) \<Rightarrow> 'm helper" where
  "helper_new c d fs =
     \<lparr> hp_connected = False,
       hp_bundle_id = (case fskit_bundle_id c of Some b \<Rightarrow> b | None \<Rightarrow> ''ai.ctxfs.companion.fskitext''),
       hp_daemon = d, hp_files = fs \<rparr>"

datatype toml_value = TomlString string | TomlBool bool | TomlInt "64 word" | TomlFloat string

record ('m, 'j) helper_env =
  he_daemon :: "('m, 'j) daemon_env"
  he_connect_error :: "string option"
  he_transport :: transport
  he_panic_error :: string
  he_parse_request :: "string \<Rightarrow> helper_request option"
  he_params_error :: "string \<Rightarrow> json \<Rightarrow> string"
  he_show_json :: "json \<Rightarrow> string"
  he_home :: "string option"
  he_read_error :: "string \<Rightarrow> string option"
  he_write :: write_env
  he_sha256 :: "bytes \<Rightarrow> string"
  he_lossy :: "bytes \<Rightarrow> string"
  he_readable :: bool
  he_set_key :: "string \<Rightarrow> string \<Rightarrow> toml_value \<Rightarrow> string + string"
  he_macos :: bool
  he_pluginkit :: "string \<Rightarrow> string option"
  he_query_joined :: bool
  he_token :: token_env
  he_stdout_error :: "string option"

section \<open>Calls of the daemon\<close>

definition helper_client :: "('m, 'j) helper_env \<Rightarrow> 'm helper \<Rightarrow> 'm helper \<times> (unit, string) outcome" where
  "helper_client E s =
     (if hp_connected s then (s, Ok ())
      else (case he_connect_error E of
              Some e \<Rightarrow> (s, Err (''daemon connect failed: '' @ e))
            | None \<Rightarrow> (s\<lparr> hp_connected := True \<rparr>, Ok ())))"

definition reset_client :: "'m helper \<Rightarrow> 'm helper" where
  "reset_client s = s\<lparr> hp_connected := False \<rparr>"

definition dispatch_rpc ::
  "('m, 'j) helper_env \<Rightarrow> u64 \<Rightarrow> string \<Rightarrow> ('m daemon, helper_value, string) task \<Rightarrow> 'm helper \<Rightarrow>
     ('m helper \<times> helper_response) option" where
  "dispatch_rpc E i rpc_name call s =
     (case helper_client E s of
        (s1, Ok _) \<Rightarrow>
          map_option
            (\<lambda>(d, answer). let s2 = s1\<lparr> hp_daemon := d \<rparr> in
               case answer of
                 Answered v \<Rightarrow> (s2, response_ok i v)
               | Refused e \<Rightarrow> (s2, response_err i e)
               | Lost e \<Rightarrow> (reset_client s2, response_err i (rpc_name @ '' rpc failed: '' @ e)))
            (remote_call (he_transport E) (he_panic_error E) call (hp_daemon s1))
      | (s1, Err e) \<Rightarrow> Some (s1, response_err i e)
      | (s1, Panic) \<Rightarrow> None)"

definition with_value :: "('a \<Rightarrow> helper_value) \<Rightarrow> ('s, 'a, string) task \<Rightarrow> ('s, helper_value, string) task" where
  "with_value f m = prog_bind m (\<lambda>x. prog_return (f x))"

definition answer_list :: "('m, 'j) helper_env \<Rightarrow> helper_request \<Rightarrow> 'm helper \<Rightarrow> ('m helper \<times> helper_response) option" where
  "answer_list E q = dispatch_rpc E (hq_id q) ''list'' (with_value MountList (prog_read (rpc_list (he_daemon E))))"

text \<open>A request whose parameters are not what the method takes is refused before anything is called.\<close>

definition with_params ::
  "('m, 'j) helper_env \<Rightarrow> helper_request \<Rightarrow> (json \<Rightarrow> 'p option) \<Rightarrow>
     ('p \<Rightarrow> 'm helper \<Rightarrow> ('m helper \<times> helper_response) option) \<Rightarrow> 'm helper \<Rightarrow> ('m helper \<times> helper_response) option" where
  "with_params E q read act s =
     (case read (hq_params q) of
        None \<Rightarrow> Some (s, response_err (hq_id q) (''invalid params for '' @ hq_method q @ '': ''
                          @ he_params_error E (hq_method q) (hq_params q)))
      | Some p \<Rightarrow> act p s)"

definition answer_unmount :: "('m, 'j) helper_env \<Rightarrow> helper_request \<Rightarrow> 'm helper \<Rightarrow> ('m helper \<times> helper_response) option" where
  "answer_unmount E q =
     with_params E q (string_param ''target'') (\<lambda>t.
       dispatch_rpc E (hq_id q) ''unmount'' (with_value (\<lambda>_. OkTrue) (rpc_unmount (he_daemon E) t)))"

definition answer_breakdown :: "('m, 'j) helper_env \<Rightarrow> helper_request \<Rightarrow> 'm helper \<Rightarrow> ('m helper \<times> helper_response) option" where
  "answer_breakdown E q =
     dispatch_rpc E (hq_id q) ''cache_breakdown'' (with_value Breakdown (rpc_cache_breakdown (he_daemon E)))"

definition answer_limits :: "('m, 'j) helper_env \<Rightarrow> helper_request \<Rightarrow> 'm helper \<Rightarrow> ('m helper \<times> helper_response) option" where
  "answer_limits E q =
     with_params E q (u64_param ''max_bytes'') (\<lambda>n.
       dispatch_rpc E (hq_id q) ''set_cache_limits'' (with_value Breakdown (rpc_set_cache_limits (he_daemon E) n)))"

definition answer_prune :: "('m, 'j) helper_env \<Rightarrow> helper_request \<Rightarrow> 'm helper \<Rightarrow> ('m helper \<times> helper_response) option" where
  "answer_prune E q =
     with_params E q (u64_param ''target_bytes'') (\<lambda>n.
       dispatch_rpc E (hq_id q) ''prune_blobs'' (with_value BytesFreed (rpc_prune_blobs (he_daemon E) n)))"

section \<open>The other requests\<close>

definition answer_extension :: "('m, 'j) helper_env \<Rightarrow> helper_request \<Rightarrow> 'm helper \<Rightarrow> ('m helper \<times> helper_response) option" where
  "answer_extension E q s =
     (let info = (if he_query_joined E then query_fskit_extension_status (he_macos E) (he_pluginkit E) (hp_bundle_id s)
                  else \<lparr> xi_bundle_id = hp_bundle_id s, xi_registered = False, xi_enabled = False, xi_version = None,
                         xi_platform_supported = he_macos E \<rparr>)
      in Some (s, response_ok (hq_id q) (Extension info)))"

definition answer_token :: "('m, 'j) helper_env \<Rightarrow> helper_request \<Rightarrow> 'm helper \<Rightarrow> ('m helper \<times> helper_response) option" where
  "answer_token E q =
     with_params E q (string_param ''token'') (\<lambda>token s.
       case validate_github_token (he_token E) token of
         Ok info \<Rightarrow> Some (s, response_ok (hq_id q) (TokenChecked info))
       | Err e \<Rightarrow> Some (s, response_err (hq_id q) e)
       | Panic \<Rightarrow> None)"

definition answer_config_read :: "('m, 'j) helper_env \<Rightarrow> helper_request \<Rightarrow> 'm helper \<Rightarrow> ('m helper \<times> helper_response) option" where
  "answer_config_read E q s =
     (let path = load_config_path (he_home E) in
      Some (s,
        case he_read_error E path of
          Some e \<Rightarrow> response_err (hq_id q) (''config_read failed: '' @ e)
        | None \<Rightarrow>
            (case hp_files s path of
               Some b \<Rightarrow> response_ok (hq_id q) (ConfigFile path (he_lossy E b) (he_sha256 E b))
             | None \<Rightarrow> response_ok (hq_id q) (ConfigFile path [] []))))"

definition answer_config_set :: "('m, 'j) helper_env \<Rightarrow> helper_request \<Rightarrow> 'm helper \<Rightarrow> ('m helper \<times> helper_response) option" where
  "answer_config_set E q =
     with_params E q config_set_params (\<lambda>(content, h) s.
       let path = load_config_path (he_home E);
           (fs, r) = write_back (he_sha256 E) (he_read_error E) (he_write E) (snapshot_from_hash h) path content (hp_files s);
           s1 = s\<lparr> hp_files := fs \<rparr>
       in case r of
            Ok _ \<Rightarrow> Some (s1, response_ok (hq_id q) OkTrue)
          | Err (ExternalEdit expected actual) \<Rightarrow>
              Some (s1, response_err (hq_id q)
                (''config modified externally (expected hash '' @ expected @ '', found '' @ actual @ '')''))
          | Err e \<Rightarrow> Some (s1, response_err (hq_id q) (''write failed: '' @ write_error_display e))
          | Panic \<Rightarrow> None)"

text \<open>The TOML value of a JSON value: an integer beyond 63 bits becomes the largest of them.\<close>

definition toml_value_of :: "json \<Rightarrow> toml_value option" where
  "toml_value_of j =
     (case j of
        Json_String t \<Rightarrow> Some (TomlString t)
      | Json_Bool b \<Rightarrow> Some (TomlBool b)
      | Json_Number n \<Rightarrow>
          Some (case n of
                  PosInt k \<Rightarrow> TomlInt (min k (2 ^ 63 - 1))
                | NegInt k \<Rightarrow> TomlInt k
                | Float f \<Rightarrow> TomlFloat f)
      | _ \<Rightarrow> None)"

definition answer_config_value :: "('m, 'j) helper_env \<Rightarrow> helper_request \<Rightarrow> 'm helper \<Rightarrow> ('m helper \<times> helper_response) option" where
  "answer_config_value E q =
     with_params E q config_value_params (\<lambda>(key, v) s.
       case toml_value_of v of
         None \<Rightarrow> Some (s, response_err (hq_id q) (''unsupported value type for '' @ key @ '': '' @ he_show_json E v))
       | Some tv \<Rightarrow>
           (let (fs, r) = update_config_key (he_set_key E) (he_readable E) (he_write E) (load_config_path (he_home E)) key tv
                            (hp_files s);
                s1 = s\<lparr> hp_files := fs \<rparr>
            in case r of
                 Ok _ \<Rightarrow> Some (s1, response_ok (hq_id q) (KeySet key))
               | Err e \<Rightarrow> Some (s1, response_err (hq_id q) (''write failed: '' @ write_error_display e))
               | Panic \<Rightarrow> None))"

definition dispatch :: "('m, 'j) helper_env \<Rightarrow> helper_request \<Rightarrow> 'm helper \<Rightarrow> ('m helper \<times> helper_response) option" where
  "dispatch E q s =
     (let m = hq_method q in
      if m = ''ping'' then Some (s, response_ok (hq_id q) Pong)
      else if m = ''list'' then answer_list E q s
      else if m = ''unmount'' then answer_unmount E q s
      else if m = ''cache_breakdown'' then answer_breakdown E q s
      else if m = ''set_cache_limits'' then answer_limits E q s
      else if m = ''prune_blobs'' then answer_prune E q s
      else if m = ''extension_status'' then answer_extension E q s
      else if m = ''test_github_token'' then answer_token E q s
      else if m = ''config_read'' then answer_config_read E q s
      else if m = ''config_set'' then answer_config_set E q s
      else if m = ''config_set_value'' then answer_config_value E q s
      else Some (s, response_err (hq_id q) (''unknown method: '' @ m)))"

section \<open>The loop\<close>

text \<open>
  One event is a line of the input, or an error of reading it, with the surroundings at that time; the input
  ends after the last event. The result is the responses written and how the loop ended.
\<close>

type_synonym ('m, 'j) helper_event = "('m, 'j) helper_env \<times> (string + string)"

fun helper_run ::
  "('m, 'j) helper_event list \<Rightarrow> 'm helper \<Rightarrow> ('m helper \<times> helper_response list \<times> (unit, string) outcome) option" where
  "helper_run [] s = Some (s, [], Ok ())"
| "helper_run ((E, Inr e) # evs) s = Some (s, [], Err e)"
| "helper_run ((E, Inl line) # evs) s =
     (case he_parse_request E (str_trim line) of
        None \<Rightarrow> helper_run evs s
      | Some q \<Rightarrow>
          (case dispatch E q s of
             None \<Rightarrow> None
           | Some (s1, resp) \<Rightarrow>
               (case he_stdout_error E of
                  Some e \<Rightarrow> Some (s1, [], Err e)
                | None \<Rightarrow> map_option (\<lambda>(s2, rs, r). (s2, resp # rs, r)) (helper_run evs s1))))"

end
