(* ===== verification/App_Helper_Correct.thy ===== *)
theory App_Helper_Correct
  imports App_Helper Daemon_Witness
begin

text \<open>
  The helper process: it answers every request it can read, once and in order, whatever the connection to
  the daemon does, and what its two requests on the configuration file promise each other.
\<close>

section \<open>Calls that return\<close>

text \<open>From a state with the invariant a reliable task returns, without a panic, to one with it.\<close>

definition reliable :: "('s \<Rightarrow> bool) \<Rightarrow> ('s, 'a, 'e) task \<Rightarrow> bool" where
  "reliable I m \<longleftrightarrow> (\<forall>s. I s \<longrightarrow> (\<exists>s' r. m s = Some (s', r) \<and> r \<noteq> Panic \<and> I s'))"

lemma reliableD: "reliable I m \<Longrightarrow> I s \<Longrightarrow> \<exists>s' r. m s = Some (s', r) \<and> r \<noteq> Panic \<and> I s'"
  by (simp add: reliable_def)

lemma reliable_lift: "r \<noteq> Panic \<Longrightarrow> reliable I (prog_lift r)"
  by (simp add: reliable_def prog_lift_def)

lemma reliable_read: "reliable I (prog_read f)"
  by (simp add: reliable_def prog_read_def)

lemma reliable_change: "(\<And>s. I s \<Longrightarrow> I (f s)) \<Longrightarrow> reliable I (prog_change f)"
  by (simp add: reliable_def prog_change_def)

lemma reliable_bind:
  assumes "reliable I m" "\<And>x. reliable I (f x)"
  shows "reliable I (prog_bind m f)"
  unfolding reliable_def
proof (intro allI impI)
  fix s assume "I s"
  then obtain s1 r where m: "m s = Some (s1, r)" "r \<noteq> Panic" "I s1" using reliableD [OF assms(1)] by blast
  then show "\<exists>s' r. prog_bind m f s = Some (s', r) \<and> r \<noteq> Panic \<and> I s'"
    using reliableD [OF assms(2) m(3)] by (cases r) (auto simp: prog_bind_def)
qed

lemma reliable_with_error: "reliable I m \<Longrightarrow> reliable I (with_error f m)"
  by (fastforce simp: reliable_def with_error_def elim!: map_err.elims)

lemma reliable_with_value: "reliable I m \<Longrightarrow> reliable I (with_value f m)"
  unfolding with_value_def by (intro reliable_bind reliable_lift) simp_all

lemmas reliable_intros = reliable_with_value reliable_with_error reliable_bind reliable_read reliable_lift

text \<open>The invariant of the daemon behind the helper: its blob cache's and its table's.\<close>

definition daemon_inv :: "'m lru_ops \<Rightarrow> 'm daemon \<Rightarrow> bool" where
  "daemon_inv L d \<longleftrightarrow> cache_inv L (gs_cache (dm_shared d)) \<and> table_ok d"

lemma daemon_inv_cache:
  assumes "daemon_inv L d" "cache_inv L c"
  shows "daemon_inv L (on_cache (\<lambda>_. c) d)"
  using assms by (auto simp: daemon_inv_def on_cache_def intro: table_ok_same)

lemma reliable_cache_task:
  assumes "\<And>c. cache_inv L c \<Longrightarrow> \<exists>c' r. m c = Some (c', r) \<and> r \<noteq> Panic \<and> cache_inv L c'"
  shows "reliable (daemon_inv L) (cache_task m)"
  unfolding reliable_def
proof (intro allI impI)
  fix d assume d: "daemon_inv L d"
  then have "cache_inv L (gs_cache (dm_shared d))" by (simp add: daemon_inv_def)
  from assms [OF this] obtain c' r where "m (gs_cache (dm_shared d)) = Some (c', r)" "r \<noteq> Panic" "cache_inv L c'"
    by blast
  then show "\<exists>s' q. cache_task m d = Some (s', q) \<and> q \<noteq> Panic \<and> daemon_inv L s'"
    using daemon_inv_cache [OF d] by (simp add: cache_task_def)
qed

lemma reliable_limits:
  assumes "linked_hash_map (ev_lru (dv_github D))"
  shows "reliable (daemon_inv (ev_lru (dv_github D))) (rpc_set_cache_limits D n)"
    "reliable (daemon_inv (ev_lru (dv_github D))) (rpc_prune_blobs D n)"
proof -
  note ix = lru_index_of [OF assms]
  have set_max: "\<exists>c' r. set_max_bytes (ev_lru (dv_github D)) (ev_io (dv_github D)) n c = Some (c', r) \<and> r \<noteq> Panic
      \<and> cache_inv (ev_lru (dv_github D)) c'" if "cache_inv (ev_lru (dv_github D)) c" for c
    by (rule lru_index.set_max_bytes_spec [OF ix that refl, where io = "ev_io (dv_github D)" and new_max = n]) blast
  have prune: "\<exists>c' r. prune_blobs (ev_lru (dv_github D)) (ev_io (dv_github D)) n c = Some (c', r) \<and> r \<noteq> Panic
      \<and> cache_inv (ev_lru (dv_github D)) c'" if "cache_inv (ev_lru (dv_github D)) c" for c
    by (rule lru_index.prune_blobs_spec [OF ix that refl, where io = "ev_io (dv_github D)" and target = n]) blast
  show "reliable (daemon_inv (ev_lru (dv_github D))) (rpc_set_cache_limits D n)"
    unfolding rpc_set_cache_limits_def rpc_cache_breakdown_def
    by (intro reliable_intros reliable_cache_task set_max)
  show "reliable (daemon_inv (ev_lru (dv_github D))) (rpc_prune_blobs D n)"
    unfolding rpc_prune_blobs_def by (intro reliable_intros reliable_cache_task prune)
qed

lemma unmount_cache:
  assumes "do_unmount_by_id D mount_id s = Some (s', r)"
  shows "r \<noteq> Panic \<and> (gs_cache (dm_shared s') = gs_cache (dm_shared s)
    \<or> (\<exists>key. gs_cache (dm_shared s') = unregister_mount key (gs_cache (dm_shared s))))"
  using assms
  by (auto simp: do_unmount_by_id_def prog_bind_def prog_read_def prog_lift_def prog_change_def on_cache_def
      change_files_def Let_def split: option.splits prod.splits)

lemma reliable_unmount: "reliable (daemon_inv L) (rpc_unmount D t)"
proof -
  have "reliable (daemon_inv L) (do_unmount_by_id D k)" for k
    unfolding reliable_def
  proof (intro allI impI)
    fix s assume s: "daemon_inv L s"
    obtain s' r where R: "do_unmount_by_id D k s = Some (s', r)" using unmount_returns by blast
    have "cache_inv L (gs_cache (dm_shared s'))"
      using unmount_cache [OF R] s cache_inv_unregister [where L = L]
      by (auto simp: daemon_inv_def)
    then have "daemon_inv L s'" using table_ok_unmount [OF R] s by (simp add: daemon_inv_def)
    then show "\<exists>s' r. do_unmount_by_id D k s = Some (s', r) \<and> r \<noteq> Panic \<and> daemon_inv L s'"
      using R unmount_cache [OF R] by blast
  qed
  then show ?thesis unfolding rpc_unmount_def
    by (intro reliable_bind reliable_read) (auto intro: reliable_lift split: option.splits)
qed

section \<open>One request\<close>

text \<open>A response to a request: its id, and exactly one of a result and an error.\<close>

definition answers :: "u64 \<Rightarrow> helper_response \<Rightarrow> bool" where
  "answers i p \<longleftrightarrow> hr_id p = i \<and> (hr_result p = None) \<noteq> (hr_error p = None)"

lemma answers_ok [simp]: "answers i (response_ok i v)"
  by (simp add: answers_def response_ok_def)

lemma answers_err [simp]: "answers i (response_err i e)"
  by (simp add: answers_def response_err_def)

definition answered :: "('m daemon \<Rightarrow> bool) \<Rightarrow> u64 \<Rightarrow> ('m helper \<times> helper_response) option \<Rightarrow> bool" where
  "answered I i x \<longleftrightarrow> (case x of Some (s', p) \<Rightarrow> I (hp_daemon s') \<and> answers i p | None \<Rightarrow> False)"

lemma answered_Some [simp]: "answered I i (Some (s', p)) \<longleftrightarrow> I (hp_daemon s') \<and> answers i p"
  by (simp add: answered_def)

lemma answered_if: "answered I i x \<Longrightarrow> answered I i y \<Longrightarrow> answered I i (if b then x else y)"
  by simp

lemma helper_client_cases:
  obtains (up) s1 where "helper_client E s = (s1, Ok ())" "hp_daemon s1 = hp_daemon s"
    | (down) e where "helper_client E s = (s, Err e)"
  by (cases "hp_connected s"; cases "he_connect_error E") (auto simp: helper_client_def)

lemma dispatch_rpc_answered:
  assumes "reliable I m" "I (hp_daemon s)"
  shows "answered I i (dispatch_rpc E i n m s)"
proof (cases rule: helper_client_cases [of E s])
  case (up s1)
  obtain d r where m: "m (hp_daemon s) = Some (d, r)" "r \<noteq> Panic" "I d" using reliableD [OF assms] by blast
  then show ?thesis using up assms(2)
    by (cases "he_transport E"; cases r) (simp_all add: dispatch_rpc_def remote_call_def reset_client_def Let_def)
next
  case (down e)
  then show ?thesis using assms(2) by (simp add: dispatch_rpc_def)
qed

lemma with_params_answered:
  assumes "I (hp_daemon s)" "\<And>p. answered I (hq_id q) (act p s)"
  shows "answered I (hq_id q) (with_params E q f act s)"
  using assms by (simp add: with_params_def split: option.splits)

lemma token_no_panic: "validate_github_token T token \<noteq> Panic"
  by (auto simp: validate_github_token_def Let_def outcome_simps split: sum.splits if_splits)

lemma write_no_panic:
  "atomic_write we path c fs \<noteq> (fs', Panic)"
  "write_back sha256 re we sn path c fs \<noteq> (fs', Panic)"
  "update_config_key ed readable we path k v fs \<noteq> (fs', Panic)"
proof -
  show a: "atomic_write we path c fs \<noteq> (fs', Panic)" for path c fs fs'
    using atomic_write_cases [of we path c fs] by auto
  show "write_back sha256 re we sn path c fs \<noteq> (fs', Panic)"
    using a [of path c fs fs'] by (simp add: write_back_def read_or_empty_def Let_def split: option.splits)
  show "update_config_key ed readable we path k v fs \<noteq> (fs', Panic)"
    using a by (simp add: update_config_key_def Let_def split: sum.splits)
qed

lemma config_answered:
  assumes "I (hp_daemon s)"
  shows "answered I (hq_id q) (answer_config_read E q s)" "answered I (hq_id q) (answer_config_set E q s)"
    "answered I (hq_id q) (answer_config_value E q s)" "answered I (hq_id q) (answer_token E q s)"
    "answered I (hq_id q) (answer_extension E q s)"
proof -
  show "answered I (hq_id q) (answer_config_read E q s)"
    using assms by (simp add: answer_config_read_def Let_def split: option.splits)
  show "answered I (hq_id q) (answer_config_set E q s)" unfolding answer_config_set_def Let_def
    by (rule with_params_answered [where I = I and s = s, OF assms])
      (use assms in \<open>auto simp: write_no_panic split: prod.split outcome.split config_write_error.split\<close>)
  show "answered I (hq_id q) (answer_config_value E q s)" unfolding answer_config_value_def Let_def
    by (rule with_params_answered [where I = I and s = s, OF assms])
      (use assms in \<open>auto simp: write_no_panic split: option.split prod.split outcome.split\<close>)
  show "answered I (hq_id q) (answer_token E q s)" unfolding answer_token_def
    by (rule with_params_answered [where I = I and s = s, OF assms]) (use assms token_no_panic in \<open>auto split: outcome.split\<close>)
  show "answered I (hq_id q) (answer_extension E q s)"
    using assms by (simp add: answer_extension_def Let_def)
qed

lemma dispatch_answered:
  assumes "linked_hash_map (ev_lru (dv_github (he_daemon E)))" "daemon_inv (ev_lru (dv_github (he_daemon E))) (hp_daemon s)"
  shows "answered (daemon_inv (ev_lru (dv_github (he_daemon E)))) (hq_id q) (dispatch E q s)"
proof -
  note rpc = dispatch_rpc_answered [where I = "daemon_inv (ev_lru (dv_github (he_daemon E)))" and s = s, OF _ assms(2)]
    and params = with_params_answered [where I = "daemon_inv (ev_lru (dv_github (he_daemon E)))" and s = s, OF assms(2)]
  have "answered (daemon_inv (ev_lru (dv_github (he_daemon E)))) (hq_id q) (answer_list E q s)"
    unfolding answer_list_def by (intro rpc reliable_intros)
  moreover have "answered (daemon_inv (ev_lru (dv_github (he_daemon E)))) (hq_id q) (answer_unmount E q s)"
    unfolding answer_unmount_def by (intro params rpc reliable_intros reliable_unmount)
  moreover have "answered (daemon_inv (ev_lru (dv_github (he_daemon E)))) (hq_id q) (answer_breakdown E q s)"
    unfolding answer_breakdown_def rpc_cache_breakdown_def by (intro rpc reliable_intros)
  moreover have "answered (daemon_inv (ev_lru (dv_github (he_daemon E)))) (hq_id q) (answer_limits E q s)"
    unfolding answer_limits_def by (intro params rpc reliable_with_value reliable_limits assms(1))
  moreover have "answered (daemon_inv (ev_lru (dv_github (he_daemon E)))) (hq_id q) (answer_prune E q s)"
    unfolding answer_prune_def by (intro params rpc reliable_with_value reliable_limits assms(1))
  moreover have "answered (daemon_inv (ev_lru (dv_github (he_daemon E)))) (hq_id q) (Some (s, p))"
    if "answers (hq_id q) p" for p using that assms(2) by simp
  ultimately show ?thesis unfolding dispatch_def Let_def
    by (intro answered_if config_answered [where I = "daemon_inv (ev_lru (dv_github (he_daemon E)))" and s = s, OF assms(2)])
      (use assms(2) in simp_all)
qed

section \<open>The loop\<close>

text \<open>The ids of the requests that can be read, up to an error of the input.\<close>

fun request_ids :: "('m, 'j) helper_event list \<Rightarrow> u64 list" where
  "request_ids [] = []"
| "request_ids ((E, Inr e) # evs) = []"
| "request_ids ((E, Inl line) # evs) =
     (case he_parse_request E (str_trim line) of Some q \<Rightarrow> hq_id q # request_ids evs | None \<Rightarrow> request_ids evs)"

text \<open>
  C40. Every line that holds a request is answered, in the order of the lines and each exactly once: the response
  has the request's id and either a result or an error. That the daemon cannot be reached, that a call or
  its answer is lost and that a file cannot be written are errors of one response and not the end of the
  loop, which ends only with the input (or an error of reading it). The daemon's cache and table stay
  consistent.
\<close>

theorem helper_answers_every_request:
  assumes "linked_hash_map L" "cache_inv L (gs_cache (dm_shared (hp_daemon s)))" "table_ok (hp_daemon s)"
    and "\<forall>(E, inp)\<in>set evs. ev_lru (dv_github (he_daemon E)) = L \<and> he_stdout_error E = None"
  shows "\<exists>s' rs r. helper_run evs s = Some (s', rs, r) \<and> list_all2 answers (request_ids evs) rs
     \<and> (r = Ok () \<longleftrightarrow> (\<forall>(E, inp)\<in>set evs. isl inp))
     \<and> cache_inv L (gs_cache (dm_shared (hp_daemon s'))) \<and> table_ok (hp_daemon s')"
proof -
  have "\<exists>s' rs r. helper_run evs s = Some (s', rs, r) \<and> list_all2 answers (request_ids evs) rs
      \<and> (r = Ok () \<longleftrightarrow> (\<forall>(E, inp)\<in>set evs. isl inp)) \<and> daemon_inv L (hp_daemon s')"
    if "daemon_inv L (hp_daemon s)" using that assms(4)
  proof (induction evs s rule: helper_run.induct)
    case (3 E line evs s)
    note IH = "3.IH" and inv = "3.prems"(1)
    have E: "ev_lru (dv_github (he_daemon E)) = L" "he_stdout_error E = None"
      and env: "\<forall>(E, inp)\<in>set evs. ev_lru (dv_github (he_daemon E)) = L \<and> he_stdout_error E = None"
      using "3.prems"(2) by simp_all
    show ?case
    proof (cases "he_parse_request E (str_trim line)")
      case None
      from IH(1) [OF None inv env] None show ?thesis by simp
    next
      case (Some q)
      obtain s1 p where D: "dispatch E q s = Some (s1, p)" "daemon_inv L (hp_daemon s1)" "answers (hq_id q) p"
        using dispatch_answered [of E s q] E(1) assms(1) inv by (auto simp: answered_def split: option.splits)
      from IH(2) [OF Some D(1) refl E(2) D(2) env] obtain s' rs r where
        "helper_run evs s1 = Some (s', rs, r)" "list_all2 answers (request_ids evs) rs"
        "r = Ok () \<longleftrightarrow> (\<forall>(E, inp)\<in>set evs. isl inp)" "daemon_inv L (hp_daemon s')" by blast
      then show ?thesis using Some D E(2) by simp
    qed
  qed auto
  then show ?thesis using assms(2,3) by (auto simp: daemon_inv_def)
qed

section \<open>The configuration file\<close>

lemma config_path_split: "\<exists>d. path_split (load_config_path home) = Some (d, ''config.toml'')"
proof -
  let ?h = "case home of Some h \<Rightarrow> h | None \<Rightarrow> ''/tmp''"
  have "path_push ?h ''.ctxfs'' = (if ?h = [] \<or> ends_with ''/'' ?h then ?h else ?h @ ''/'') @ ''.ctxfs''"
    by (simp add: path_push_def starts_with_def)
  then obtain b where b: "path_push ?h ''.ctxfs'' = b @ ''.ctxfs''" by blast
  have "path_push (b @ ''.ctxfs'') ''config.toml'' = (b @ ''.ctxfs'') @ CHR ''/'' # ''config.toml''"
    by (simp add: path_push_def starts_with_def ends_with_def)
  moreover have "rsplit_once CHR ''/'' ((b @ ''.ctxfs'') @ CHR ''/'' # ''config.toml'') = Some (b @ ''.ctxfs'', ''config.toml'')"
    by (rule rsplit_once_append) simp
  ultimately have "rsplit_once CHR ''/'' (load_config_path home) = Some (b @ ''.ctxfs'', ''config.toml'')"
    unfolding load_config_path_def b by simp
  then show ?thesis by (simp add: path_split_def)
qed

definition fine_write :: write_env where
  "fine_write = \<lparr> we_mkdir = None, we_create = None, we_write = None, we_rename = None \<rparr>"

text \<open>
  C28. What reading the configuration promises to writing it: where the file existed, the contents written with
  the hash that was read arrive, as long as nothing else wrote in between. Where it did not exist, the
  empty hash that was read is not the hash of an empty file, so that writing with it is always refused as
  a modification by someone else and no first configuration can be saved in this way.
\<close>

theorem config_saved_iff_existed:
  assumes "hq_method q = ''config_read''" "hq_method q' = ''config_set''"
    and "he_read_error E (load_config_path (he_home E)) = None" "he_write E = fine_write" "he_sha256 E [] \<noteq> []"
    and "dispatch E q s = Some (s1, p)" "hr_result p = Some (ConfigFile path text h)"
    and "hq_params q' = Json_Object [(''content'', Json_String new), (''snapshot_hash'', Json_String h)]"
    and "dispatch E q' s1 = Some (s2, p')"
  shows "(case hp_files s path of
      Some _ \<Rightarrow> p' = response_ok (hq_id q') OkTrue \<and> hp_files s2 path = Some new
    | None \<Rightarrow> p' = response_err (hq_id q')
          (''config modified externally (expected hash , found '' @ he_sha256 E [] @ '')'')
        \<and> hp_files s2 = hp_files s)"
proof -
  obtain d where path: "path_split (load_config_path (he_home E)) = Some (d, ''config.toml'')"
    using config_path_split by blast
  have read: "s1 = s" "path = load_config_path (he_home E)"
    "h = (case hp_files s path of Some b \<Rightarrow> he_sha256 E b | None \<Rightarrow> [])"
    using assms(1,3,6,7)
    by (auto simp: dispatch_def answer_config_read_def response_ok_def Let_def split: option.splits)
  have params: "config_set_params (hq_params q') = Some (new, h)"
    by (simp add: assms(8) config_set_params_def params_fields_def)
  have "answer_config_set E q' s = Some (s2, p')" using assms(2,9) read(1) by (simp add: dispatch_def)
  then show ?thesis using assms(3,4,5) read(3) path unfolding read(2)
    by (auto simp: answer_config_set_def with_params_def params write_back_def read_or_empty_def snapshot_from_hash_def
        atomic_write_def fine_write_def Let_def split: option.splits)
qed

section \<open>Runs\<close>

definition demo_helper_env :: "transport \<Rightarrow> helper_request option \<Rightarrow> ((string, cache_entry) lru_map, string) helper_env" where
  "demo_helper_env tr q =
     \<lparr> he_daemon = demo_world, he_connect_error = None, he_transport = tr, he_panic_error = [],
       he_parse_request = (\<lambda>_. q), he_params_error = (\<lambda>_ _. []), he_show_json = (\<lambda>_. []), he_home = Some ''/h'',
       he_read_error = (\<lambda>_. None), he_write = fine_write, he_sha256 = (\<lambda>b. ''h'' @ b), he_lossy = id,
       he_readable = True, he_set_key = (\<lambda>_ _ _. Inr []), he_macos = True, he_pluginkit = (\<lambda>_. None),
       he_query_joined = True,
       he_token = \<lparr> tk_header_value = Some, tk_get = (\<lambda>_ _. Inr ''no network''), tk_status_text = (\<lambda>_. []),
                    tk_rfc3339 = (\<lambda>_. None) \<rparr>,
       he_stdout_error = None \<rparr>"

lemma demo_helper_env_simps [simp]:
  "he_daemon (demo_helper_env tr q) = demo_world" "he_parse_request (demo_helper_env tr q) = (\<lambda>_. q)"
  "he_home (demo_helper_env tr q) = Some ''/h''" "he_read_error (demo_helper_env tr q) = (\<lambda>_. None)"
  "he_write (demo_helper_env tr q) = fine_write" "he_sha256 (demo_helper_env tr q) b = ''h'' @ b"
  "he_lossy (demo_helper_env tr q) = id" "he_stdout_error (demo_helper_env tr q) = None"
  by (simp_all add: demo_helper_env_def)

definition demo_call :: "u64 \<Rightarrow> string \<Rightarrow> json \<Rightarrow> helper_request" where
  "demo_call i m j = \<lparr> hq_id = i, hq_method = m, hq_params = j \<rparr>"

definition demo_helper :: "(string \<rightharpoonup> bytes) \<Rightarrow> (string, cache_entry) lru_map helper" where
  "demo_helper files = helper_new demo_daemon_config demo_daemon files"

lemma demo_helper_files [simp]: "hp_files (demo_helper files) = files"
  by (simp add: demo_helper_def helper_new_def)

text \<open>A blob request that is served, a line that holds no request, and a call whose connection breaks.\<close>

definition demo_events :: "((string, cache_entry) lru_map, string) helper_event list" where
  "demo_events =
     [(demo_helper_env Delivered (Some (demo_call 7 ''prune_blobs'' (Json_Object [(''target_bytes'', Json_Number (PosInt 0))]))),
         Inl ''first''),
      (demo_helper_env Delivered None, Inl ''no request''),
      (demo_helper_env (RequestLost ''closed'') (Some (demo_call 8 ''list'' Json_Null)), Inl ''second'')]"

theorem helper_answers_every_request_witness:
  "\<exists>s' rs. helper_run demo_events (demo_helper Map.empty) = Some (s', rs, Ok ()) \<and> map hr_id rs = [7, 8]"
proof -
  have d: "hp_daemon (demo_helper Map.empty) = demo_daemon" by (simp add: demo_helper_def helper_new_def)
  have cache: "cache_inv list_lhm (gs_cache (dm_shared demo_daemon))"
    by (simp add: demo_daemon_def cache_inv_def state_wf_def files_wf_def owners_wf_def list_lhm_simps)
  have table: "table_ok demo_daemon" by (simp add: table_ok_def)
  have env: "\<forall>(E, inp)\<in>set demo_events. ev_lru (dv_github (he_daemon E)) = list_lhm \<and> he_stdout_error E = None"
    by (simp add: demo_events_def demo_github_env_def)
  obtain s' rs r where run: "helper_run demo_events (demo_helper Map.empty) = Some (s', rs, r)"
      "list_all2 answers (request_ids demo_events) rs" "r = Ok () \<longleftrightarrow> (\<forall>(E, inp)\<in>set demo_events. isl inp)"
    using helper_answers_every_request [OF linked_hash_map_list, of "demo_helper Map.empty" demo_events, unfolded d,
        OF cache table env] by blast
  have "request_ids demo_events = [7, 8]" "r = Ok ()" using run(3) by (auto simp: demo_events_def demo_call_def)
  then show ?thesis using run(1,2) by (auto simp: list_all2_Cons1 answers_def)
qed

definition demo_save :: "string \<Rightarrow> helper_request" where
  "demo_save h = demo_call 2 ''config_set''
     (Json_Object [(''content'', Json_String ''new''), (''snapshot_hash'', Json_String h)])"

lemma demo_config_path: "load_config_path (Some ''/h'') = ''/h/.ctxfs/config.toml''"
  by code_simp

theorem config_saved_iff_existed_witness:
  "\<exists>s1 p s2 p'. dispatch (demo_helper_env Delivered None) (demo_call 1 ''config_read'' Json_Null) (demo_helper Map.empty)
       = Some (s1, p)
     \<and> hr_result p = Some (ConfigFile ''/h/.ctxfs/config.toml'' [] [])
     \<and> dispatch (demo_helper_env Delivered None) (demo_save []) s1 = Some (s2, p')
     \<and> hr_error p' \<noteq> None \<and> hp_files s2 = Map.empty"
proof -
  let ?E = "demo_helper_env Delivered None" and ?q = "demo_call 1 ''config_read'' Json_Null" and ?s = "demo_helper Map.empty"
  obtain p where read: "dispatch ?E ?q ?s = Some (?s, p)" "hr_result p = Some (ConfigFile ''/h/.ctxfs/config.toml'' [] [])"
    by (simp add: dispatch_def demo_call_def answer_config_read_def Let_def demo_config_path response_ok_def)
  have "answered (\<lambda>_. True) (hq_id (demo_save [])) (answer_config_set ?E (demo_save []) ?s)"
    by (rule config_answered) simp
  then obtain s2 p' where save: "dispatch ?E (demo_save []) ?s = Some (s2, p')"
    by (auto simp: dispatch_def demo_save_def demo_call_def answered_def split: option.splits)
  have "case hp_files ?s ''/h/.ctxfs/config.toml'' of
      Some _ \<Rightarrow> p' = response_ok (hq_id (demo_save [])) OkTrue \<and> hp_files s2 ''/h/.ctxfs/config.toml'' = Some ''new''
    | None \<Rightarrow> p' = response_err (hq_id (demo_save []))
          (''config modified externally (expected hash , found '' @ he_sha256 ?E [] @ '')'') \<and> hp_files s2 = hp_files ?s"
    by (rule config_saved_iff_existed [OF _ _ _ _ _ read _ save]) (simp_all add: demo_call_def demo_save_def)
  with read save show ?thesis by (auto simp: response_err_def)
qed

end
