(* ===== verification/Cli_Links.thy ===== *)
theory Cli_Links
  imports Config Utf8
begin

text \<open>
  The symbolic links the command line puts at a mount point, \<open>crates/ctxfs-cli/src/symlink.rs\<close>, and what
  it does with a path that is in the way of one (\<open>handle_existing_fskit_mount_point\<close> of \<open>main.rs\<close>). The
  files are a map from places to nodes; \<open>lk_at\<close> says which place a path names.
\<close>

datatype link_node = LinkTo string | Directory | OtherFile

type_synonym nodes = "string \<rightharpoonup> link_node"

datatype rmdir_answer = Removed | NotEmpty | RmdirFailed string

record link_env =
  lk_at :: "string \<Rightarrow> string"
  lk_stat_error :: "string \<Rightarrow> string option"
  lk_read_ok :: "string \<Rightarrow> bool"
  lk_missing :: "string \<Rightarrow> string list"
  lk_mkdir_error :: "string \<Rightarrow> string option"
  lk_canonical :: "string \<Rightarrow> string + string"
  lk_symlink_error :: "string \<Rightarrow> string option"
  lk_remove_error :: "string \<Rightarrow> string option"
  lk_rmdir :: "string \<Rightarrow> rmdir_answer"

definition CTXFS_VOLUMES_PREFIX :: string where
  "CTXFS_VOLUMES_PREFIX = ''/Volumes/ctxfs/''"

text \<open>\<open>create_dir_all\<close> makes the directories that are missing; it may fail after some of them.\<close>

definition make_dirs :: "link_env \<Rightarrow> string \<Rightarrow> nodes \<Rightarrow> nodes" where
  "make_dirs L p ns = (\<lambda>q. if ns q = None \<and> q \<in> set (lk_missing L p) then Some Directory else ns q)"

definition create_symlink :: "link_env \<Rightarrow> string \<Rightarrow> string \<Rightarrow> nodes \<Rightarrow> nodes \<times> (string, string) outcome" where
  "create_symlink L link target ns =
     (let (parent, file) = (case path_split link of Some pf \<Rightarrow> pf | None \<Rightarrow> (''.'', []));
          ns1 = make_dirs L parent ns
      in case lk_mkdir_error L parent of
           Some e \<Rightarrow> (ns1, Err e)
         | None \<Rightarrow>
             (case lk_canonical L parent of
                Inr e \<Rightarrow> (ns1, Err e)
              | Inl abs_parent \<Rightarrow>
                  (let abs_link = path_push abs_parent file in
                   if ns1 (lk_at L abs_link) \<noteq> None then (ns1, Err ''File exists'')
                   else (case lk_symlink_error L abs_link of
                           Some e \<Rightarrow> (ns1, Err e)
                         | None \<Rightarrow> (ns1(lk_at L abs_link \<mapsto> LinkTo target), Ok abs_link)))))"

definition is_ctxfs_symlink :: "link_env \<Rightarrow> string \<Rightarrow> nodes \<Rightarrow> bool" where
  "is_ctxfs_symlink L path ns \<longleftrightarrow>
     (case ns (lk_at L path) of
        Some (LinkTo target) \<Rightarrow> lk_read_ok L path \<and> utf8_ok target \<and> starts_with CTXFS_VOLUMES_PREFIX target
      | _ \<Rightarrow> False)"

definition resolve_ctxfs_path :: "link_env \<Rightarrow> string \<Rightarrow> nodes \<Rightarrow> string" where
  "resolve_ctxfs_path L path ns =
     (if is_ctxfs_symlink L path ns
      then (case ns (lk_at L path) of Some (LinkTo target) \<Rightarrow> target | _ \<Rightarrow> path) else path)"

definition safe_remove_symlink :: "link_env \<Rightarrow> string \<Rightarrow> nodes \<Rightarrow> nodes \<times> (bool, string) outcome" where
  "safe_remove_symlink L path ns =
     (case lk_stat_error L path of
        Some e \<Rightarrow> (ns, Err e)
      | None \<Rightarrow>
          (case ns (lk_at L path) of
             Some (LinkTo _) \<Rightarrow>
               if is_ctxfs_symlink L path ns
               then (case lk_remove_error L path of
                       Some e \<Rightarrow> (ns, Err e) | None \<Rightarrow> (ns(lk_at L path := None), Ok True))
               else (ns, Ok False)
           | _ \<Rightarrow> (ns, Ok False)))"

text \<open>The text of an error is that of its outermost context.\<close>

definition handle_existing_fskit_mount_point :: "link_env \<Rightarrow> string \<Rightarrow> nodes \<Rightarrow> nodes \<times> (unit, string) outcome" where
  "handle_existing_fskit_mount_point L path ns =
     (case lk_stat_error L path of
        Some e \<Rightarrow> (ns, Err (''failed to stat '' @ path))
      | None \<Rightarrow>
          (case ns (lk_at L path) of
             None \<Rightarrow> (ns, Err (''failed to stat '' @ path))
           | Some (LinkTo _) \<Rightarrow>
               (case safe_remove_symlink L path ns of
                  (ns1, Ok True) \<Rightarrow> (ns1, Ok ())
                | (ns1, Ok False) \<Rightarrow>
                    (ns1, Err (path @ '' is a symlink that does not point into '' @ CTXFS_VOLUMES_PREFIX
                       @ ''. Remove it manually if you want to reuse this path.''))
                | (ns1, Err e) \<Rightarrow> (ns1, Err (''failed to remove symlink '' @ path))
                | (ns1, Panic) \<Rightarrow> (ns1, Panic))
           | Some Directory \<Rightarrow>
               (case lk_rmdir L path of
                  Removed \<Rightarrow> (ns(lk_at L path := None), Ok ())
                | NotEmpty \<Rightarrow>
                    (ns, Err (path @ '' is a non-empty directory. Remove it manually if you want to use this path for an FSKit mount.''))
                | RmdirFailed e \<Rightarrow> (ns, Err (''failed to remove '' @ path)))
           | Some OtherFile \<Rightarrow>
               (ns, Err (path @ '' exists and is not a directory or ctxfs symlink. Remove it manually.''))))"

section \<open>What stays\<close>

text \<open>
  A node the command line may remove: a link into the directory of volumes, or a directory that the system
  lets it remove because nothing is in it.
\<close>

fun removable :: "link_env \<Rightarrow> string \<Rightarrow> link_node \<Rightarrow> bool" where
  "removable L q (LinkTo target) \<longleftrightarrow> starts_with CTXFS_VOLUMES_PREFIX target"
| "removable L q Directory \<longleftrightarrow> (\<exists>p. lk_at L p = q \<and> lk_rmdir L p = Removed)"
| "removable L q OtherFile \<longleftrightarrow> False"

definition user_nodes_kept :: "link_env \<Rightarrow> nodes \<Rightarrow> nodes \<Rightarrow> bool" where
  "user_nodes_kept L ns ns' \<longleftrightarrow> (\<forall>q n. ns q = Some n \<and> \<not> removable L q n \<longrightarrow> ns' q = Some n)"

lemma kept_refl [simp]: "user_nodes_kept L ns ns"
  by (simp add: user_nodes_kept_def)

lemma kept_trans: "user_nodes_kept L a b \<Longrightarrow> user_nodes_kept L b c \<Longrightarrow> user_nodes_kept L a c"
  by (simp add: user_nodes_kept_def)

lemma make_dirs_kept: "user_nodes_kept L ns (make_dirs L p ns)"
  by (simp add: user_nodes_kept_def make_dirs_def)

lemma create_symlink_kept: "user_nodes_kept L ns (fst (create_symlink L link target ns))"
  using make_dirs_kept [of L ns "fst (case path_split link of Some pf \<Rightarrow> pf | None \<Rightarrow> (''.'', []))"]
  by (auto simp: create_symlink_def user_nodes_kept_def Let_def split: prod.split option.splits sum.split)

lemma safe_remove_kept: "user_nodes_kept L ns (fst (safe_remove_symlink L path ns))"
  by (auto simp: safe_remove_symlink_def user_nodes_kept_def is_ctxfs_symlink_def split: option.splits link_node.splits)

lemma existing_kept: "user_nodes_kept L ns (fst (handle_existing_fskit_mount_point L path ns))"
proof (cases "safe_remove_symlink L path ns")
  case (Pair ns1 r)
  then have "user_nodes_kept L ns ns1" using safe_remove_kept [of L ns path] by simp
  moreover have "user_nodes_kept L ns (ns(lk_at L path := None))" if "ns (lk_at L path) = Some Directory" "lk_rmdir L path = Removed"
    using that by (auto simp: user_nodes_kept_def)
  ultimately show ?thesis using Pair
    by (auto simp: handle_existing_fskit_mount_point_def split: option.split link_node.split outcome.split rmdir_answer.split bool.split)
qed

text \<open>A link that was made is found, resolved and removed by the path the system gave it.\<close>

lemma created_link_resolves:
  assumes "create_symlink L link target ns = (ns1, Ok p)" "starts_with CTXFS_VOLUMES_PREFIX target" "utf8_ok target"
    and "lk_read_ok L link" "lk_stat_error L link = None" "lk_remove_error L link = None" "lk_at L link = lk_at L p"
  shows "is_ctxfs_symlink L link ns1" "resolve_ctxfs_path L link ns1 = target"
    "snd (safe_remove_symlink L link ns1) = Ok True" "fst (safe_remove_symlink L link ns1) (lk_at L link) = None"
proof -
  have at: "ns1 (lk_at L link) = Some (LinkTo target)" using assms(1,7)
    by (auto simp: create_symlink_def Let_def split: prod.splits option.splits sum.splits if_splits)
  show is_link: "is_ctxfs_symlink L link ns1" using at assms(2-4) by (simp add: is_ctxfs_symlink_def)
  show "resolve_ctxfs_path L link ns1 = target" using is_link at by (simp add: resolve_ctxfs_path_def)
  show "snd (safe_remove_symlink L link ns1) = Ok True" "fst (safe_remove_symlink L link ns1) (lk_at L link) = None"
    using is_link at assms(5,6) by (simp_all add: safe_remove_symlink_def)
qed

text \<open>A bare name has the empty path as its parent, which the system does not resolve: no link is made there.\<close>

lemma bare_name_not_linked:
  assumes "CHR ''/'' \<notin> set link" "link \<noteq> []" "lk_canonical L [] = Inr e"
  shows "\<exists>e'. snd (create_symlink L link target ns) = Err e'"
proof -
  have "rsplit_once CHR ''/'' link = None" using assms(1) by simp
  then have "path_split link = Some ([], link)" using assms(2) by (simp add: path_split_def del: rsplit_once_None)
  then show ?thesis using assms(3) by (auto simp: create_symlink_def Let_def split: option.split)
qed

end
