(* ===== verification/Cli.thy ===== *)
theory Cli
  imports Cli_Links Remote_Call Deps
begin

text \<open>
  The command line, \<open>crates/ctxfs-cli/src/main.rs\<close> and the batches of \<open>deps/mount.rs\<close>: mounting one source or
  several, unmounting, the choice of dependencies, sizes, and the configuration's template and default backend (\<open>setup.rs\<close>). The programs it
  runs through \<open>sudo\<close> are recorded with their arguments; whether they succeed is an argument. The text of an
  error is that of its outermost context, and what is only printed is left out.
\<close>

section \<open>Sizes\<close>

definition ascii_letter :: "char \<Rightarrow> bool" where
  "ascii_letter c \<longleftrightarrow> CHR ''a'' \<le> ascii_lower c \<and> ascii_lower c \<le> CHR ''z''"

definition ascii_upper :: "char \<Rightarrow> char" where
  "ascii_upper c = (if CHR ''a'' \<le> c \<and> c \<le> CHR ''z'' then char_of (of_char c - 32 :: nat) else c)"

text \<open>\<open>alphabetic\<close> is \<open>char::is_alphabetic\<close> on the characters beyond ASCII, given the bytes from there on.\<close>

fun letter_at :: "(string \<Rightarrow> bool) \<Rightarrow> string \<Rightarrow> nat" where
  "letter_at alphabetic [] = 0"
| "letter_at alphabetic (c # cs) =
     (if (if of_char c < (128 :: nat) then ascii_letter c else \<not> cont_byte c \<and> alphabetic (c # cs)) then 0
      else Suc (letter_at alphabetic cs))"

definition size_multiplier :: "string \<Rightarrow> nat option" where
  "size_multiplier suffix =
     (if suffix \<in> {[], ''B''} then Some 1
      else if suffix \<in> {''K'', ''KB'', ''KIB''} then Some 1024
      else if suffix \<in> {''M'', ''MB'', ''MIB''} then Some (1024 * 1024)
      else if suffix \<in> {''G'', ''GB'', ''GIB''} then Some (1024 * 1024 * 1024)
      else if suffix \<in> {''T'', ''TB'', ''TIB''} then Some (1024 * 1024 * 1024 * 1024)
      else None)"

definition quoted :: "string \<Rightarrow> string" where
  "quoted t = [CHR 0x27] @ t @ [CHR 0x27]"

definition parse_size_bytes :: "(string \<Rightarrow> bool) \<Rightarrow> string \<Rightarrow> (u64, string) outcome" where
  "parse_size_bytes alphabetic text =
     (let t = str_trim text in
      if t = [] then Err ''size string must not be empty''
      else (let i = letter_at alphabetic t; num = take i t; suffix = map ascii_upper (drop i t) in
            case parse_u64 num of
              None \<Rightarrow> Err (''could not parse '' @ quoted num @ '' as a number'')
            | Some v \<Rightarrow>
                (case size_multiplier suffix of
                   None \<Rightarrow> Err (''unrecognised size suffix: '' @ quoted suffix @ '' (expected K/M/G/T or KB/MB/GB)'')
                 | Some m \<Rightarrow>
                     if unat v * m < 2 ^ 64 then Ok (of_nat (unat v * m)) else Err (''size overflows u64: '' @ t))))"

section \<open>Commands\<close>

datatype command_status = Success | NotRun | Exited string

record 'm machine =
  mc_daemon :: "'m daemon"
  mc_nodes :: nodes
  mc_commands :: "string list list"

record ('m, 'j) cli_env =
  cl_daemon :: "('m, 'j) daemon_env"
  cl_links :: link_env
  cl_connect_error :: bool
  cl_mount_transport :: transport
  cl_unmount_transport :: transport
  cl_deadline_error :: string
  cl_macos :: bool
  cl_macos_26 :: bool
  cl_app_installed :: bool
  cl_backend_env :: "string option"
  cl_run :: "string list \<Rightarrow> command_status"
  cl_mount_table :: "string option"
  cl_volumes_exist :: bool
  cl_username :: string
  cl_debug :: "string \<Rightarrow> string"
  cl_list_transport :: transport
  cl_batch_mount_transport :: "string \<Rightarrow> transport"
  cl_batch_unmount_transport :: "string \<Rightarrow> transport"
  cl_completion :: "(string \<times> string) list \<Rightarrow> (string \<times> string) list"

definition detect_backend :: "('m, 'j) cli_env \<Rightarrow> backend option \<Rightarrow> backend option \<Rightarrow> backend" where
  "detect_backend E flag config_default =
     detect_backend_inner (cl_macos_26 E) (cl_app_installed E) flag config_default (cl_backend_env E)"

definition sudo :: "('m, 'j) cli_env \<Rightarrow> string list \<Rightarrow> ('m machine, command_status, string) task" where
  "sudo E args = prog_bind (prog_change (\<lambda>s. s\<lparr> mc_commands := mc_commands s @ [args] \<rparr>)) (\<lambda>_. prog_return (cl_run E args))"

definition run_mount_nfs :: "('m, 'j) cli_env \<Rightarrow> u16 \<Rightarrow> string \<Rightarrow> ('m machine, unit, string) task" where
  "run_mount_nfs E port mount_point =
     (let p = show_nat (unat port);
          opts = ''nolocks,vers=3,tcp,port='' @ p @ '',mountport='' @ p @ '',soft,actimeo=120,rsize=131072,wsize=131072'';
          args = (if cl_macos E then [''mount_nfs'', ''-o'', opts, ''127.0.0.1:/'', mount_point]
                  else [''mount'', ''-t'', ''nfs'', ''-o'', opts, ''127.0.0.1:/'', mount_point])
      in prog_bind (sudo E args) (\<lambda>st. prog_lift (
         case st of
           Success \<Rightarrow> Ok ()
         | NotRun \<Rightarrow> Err (''failed to invoke sudo '' @ hd args)
         | Exited t \<Rightarrow> Err (''mount command exited with '' @ t))))"

definition run_umount :: "('m, 'j) cli_env \<Rightarrow> string \<Rightarrow> ('m machine, unit, string) task" where
  "run_umount E mount_point =
     prog_bind (sudo E [''umount'', mount_point]) (\<lambda>st. prog_lift (
     case st of
       Success \<Rightarrow> Ok ()
     | NotRun \<Rightarrow> Err ''failed to invoke sudo umount''
     | Exited t \<Rightarrow> Err (''umount exited with '' @ t)))"

definition cli_connect :: "('m, 'j) cli_env \<Rightarrow> config \<Rightarrow> ('m machine, unit, string) task" where
  "cli_connect E c = prog_lift (
     if cl_connect_error E
     then Err (''failed to connect to daemon at '' @ socket_path c @ ''. Start with: ctxfs daemon start'') else Ok ())"

definition cli_call :: "('m, 'j) cli_env \<Rightarrow> transport \<Rightarrow> ('m daemon, 'a, string) task \<Rightarrow> ('m machine, 'a answer, string) task" where
  "cli_call E tr m s =
     map_option (\<lambda>(d, r). (s\<lparr> mc_daemon := d \<rparr>, Ok r)) (remote_call tr (cl_deadline_error E) m (mc_daemon s))"

text \<open>A change of the nodes with its result.\<close>

definition on_nodes :: "(nodes \<Rightarrow> nodes \<times> ('a, string) outcome) \<Rightarrow> ('m machine, 'a, string) task" where
  "on_nodes f s = (let (ns, r) = f (mc_nodes s) in Some (s\<lparr> mc_nodes := ns \<rparr>, r))"

section \<open>Batches\<close>

text \<open>
  \<open>deps/mount.rs\<close>: several mounts under one directory, and the unmounting of many. Up to sixteen requests run
  at a time; \<open>cl_completion\<close> is the order in which they are carried out and complete, each with its
  directory as one step.
\<close>

fun prog_each :: "('a \<Rightarrow> ('s, 'b, 'e) task) \<Rightarrow> 'a list \<Rightarrow> ('s, 'b list, 'e) task" where
  "prog_each f [] = prog_return []"
| "prog_each f (x # xs) = prog_bind (f x) (\<lambda>y. prog_bind (prog_each f xs) (\<lambda>ys. prog_return (y # ys)))"

definition active_mounts :: "('m, 'j) cli_env \<Rightarrow> ('m machine, mount_info list answer, string) task" where
  "active_mounts E = cli_call E (cl_list_transport E) (prog_read (rpc_list (cl_daemon E)))"

definition mount_request ::
  "('m, 'j) cli_env \<Rightarrow> prefetch_policy \<Rightarrow> string \<times> string \<Rightarrow> ('m machine, string \<times> string \<times> (mount_info + string), string) task" where
  "mount_request E prefetch = (\<lambda>(source, path).
     prog_bind (on_nodes (\<lambda>ns. (make_dirs (cl_links E) path ns, Ok ()))) (\<lambda>_.
     case lk_mkdir_error (cl_links E) path of
       Some e \<Rightarrow> prog_return (source, path, Inr (''create dir: '' @ e))
     | None \<Rightarrow>
         prog_bind (cli_call E (cl_batch_mount_transport E path)
             (rpc_mount (cl_daemon E) source path Nfs \<lparr> mo_prefetch = prefetch, mo_reservation = None \<rparr>)) (\<lambda>answer.
         prog_return (source, path,
           case answer of Answered info \<Rightarrow> Inl info | Refused e \<Rightarrow> Inr e | Lost e \<Rightarrow> Inr (''rpc: '' @ e)))))"

text \<open>The kernel's mount of one answer; when it fails the daemon is given its mount back.\<close>

definition finish_mount ::
  "('m, 'j) cli_env \<Rightarrow> bool \<Rightarrow> string \<times> string \<times> (mount_info + string) \<Rightarrow> ('m machine, mount_result, string) task" where
  "finish_mount E server_only = (\<lambda>(source, path, r).
     let res = (\<lambda>e. \<lparr> mr_source = source, mr_mount_point = path, mr_success = (e = None), mr_error = e, mr_note = None \<rparr>) in
     case r of
       Inl info \<Rightarrow>
         (if server_only then prog_return (res None)
          else case mi_nfs_port info of
            None \<Rightarrow> prog_return (res (Some ''mount did not return an NFS port''))
          | Some port \<Rightarrow>
              prog_try (run_mount_nfs E port path) (\<lambda>mounted.
              case mounted of
                Inl _ \<Rightarrow> prog_return (res None)
              | Inr e \<Rightarrow>
                  prog_bind (cli_call E (cl_batch_unmount_transport E path) (rpc_unmount (cl_daemon E) path)) (\<lambda>_.
                  prog_return (res (Some (''kernel mount: '' @ e))))))
     | Inr e \<Rightarrow> prog_return (res (Some e)))"

definition batch_mount ::
  "('m, 'j) cli_env \<Rightarrow> (string \<times> string) list \<Rightarrow> bool \<Rightarrow> prefetch_policy \<Rightarrow> ('m machine, mount_result list, string) task" where
  "batch_mount E pairs server_only prefetch =
     prog_bind (active_mounts E) (\<lambda>listed.
     let entries = sort_key fst pairs;
         active = (case listed of Answered ms \<Rightarrow> map mi_mount_point ms | _ \<Rightarrow> []);
         skipped = map (\<lambda>(source, path). \<lparr> mr_source = source, mr_mount_point = path, mr_success = True, mr_error = None,
                     mr_note = Some ''already mounted'' \<rparr>) (filter (\<lambda>(_, path). path \<in> set active) entries)
     in prog_bind (prog_each (mount_request E prefetch) (cl_completion E (filter (\<lambda>(_, path). path \<notin> set active) entries))) (\<lambda>answers.
        prog_bind (prog_each (finish_mount E server_only) answers) (\<lambda>finished. prog_return (skipped @ finished))))"

text \<open>One target: the kernel first, whose failure is only a warning, then the daemon.\<close>

definition unmount_one :: "('m, 'j) cli_env \<Rightarrow> string \<Rightarrow> ('m machine, unmount_result, string) task" where
  "unmount_one E t =
     prog_try (run_umount E t) (\<lambda>_.
     prog_bind (cli_call E (cl_batch_unmount_transport E t) (rpc_unmount (cl_daemon E) t)) (\<lambda>answer.
     prog_return (unmount_answer t (case answer of
         Answered _ \<Rightarrow> None | Refused e \<Rightarrow> Some e | Lost e \<Rightarrow> Some (''rpc: '' @ e)))))"

definition unmount_each :: "('m, 'j) cli_env \<Rightarrow> string list \<Rightarrow> ('m machine, unmount_result list, string) task" where
  "unmount_each E targets = prog_each (unmount_one E) targets"

text \<open>Listing has no errors of its own; when the call is lost, that is the only result.\<close>

definition batch_unmount ::
  "('m, 'j) cli_env \<Rightarrow> string \<Rightarrow> (string list \<Rightarrow> string list) \<Rightarrow> ('m machine, unmount_result list, string) task" where
  "batch_unmount E what select =
     prog_bind (active_mounts E) (\<lambda>listed.
     case listed of
       Answered ms \<Rightarrow> unmount_each E (select (map mi_mount_point ms))
     | Refused e \<Rightarrow> prog_return [unmount_answer what (Some (''failed to list mounts: '' @ e))]
     | Lost e \<Rightarrow> prog_return [unmount_answer what (Some (''failed to list mounts: '' @ e))])"

definition batch_unmount_dir :: "('m, 'j) cli_env \<Rightarrow> string \<Rightarrow> ('m machine, unmount_result list, string) task" where
  "batch_unmount_dir E mount_dir = batch_unmount E mount_dir (unmount_targets mount_dir)"

definition batch_unmount_all :: "('m, 'j) cli_env \<Rightarrow> ('m machine, unmount_result list, string) task" where
  "batch_unmount_all E = batch_unmount E ''(all)'' id"

section \<open>Mounting\<close>

definition safe_user_char :: "char \<Rightarrow> bool" where
  "safe_user_char c \<longleftrightarrow> of_char c < (128 :: nat) \<and> (ascii_letter c \<or> is_digit c \<or> c \<in> set ''_-.'')"

definition ensure_volumes_ctxfs_exists :: "('m, 'j) cli_env \<Rightarrow> ('m machine, unit, string) task" where
  "ensure_volumes_ctxfs_exists E =
     (let u = cl_username E in
      if cl_volumes_exist E then prog_return ()
      else if u = [] \<or> \<not> list_all safe_user_char u
      then prog_lift (Err (''refusing to chown /Volumes/ctxfs to unsafe username '' @ cl_debug E u))
      else prog_bind (sudo E [''sh'', ''-c'',
               ''mkdir -p /Volumes/ctxfs && chown '' @ [CHR 0x22] @ ''$1'' @ [CHR 0x22] @ '':staff /Volumes/ctxfs'', ''--'', u]) (\<lambda>st.
           prog_lift (case st of
             Success \<Rightarrow> Ok ()
           | NotRun \<Rightarrow> Err ''failed to invoke sudo for /Volumes/ctxfs setup''
           | Exited t \<Rightarrow> Err (''sudo failed to create /Volumes/ctxfs (exit status '' @ t
               @ ''). Run manually: sudo mkdir -p /Volumes/ctxfs && sudo chown '' @ u @ '':staff /Volumes/ctxfs''))))"

definition dirs_step :: "link_env \<Rightarrow> string \<Rightarrow> string \<Rightarrow> ('m machine, unit, string) task" where
  "dirs_step L p what =
     on_nodes (\<lambda>ns. (make_dirs L p ns, case lk_mkdir_error L p of Some e \<Rightarrow> Err (''failed to create mount point '' @ what) | None \<Rightarrow> Ok ()))"

text \<open>FSKit wants the place free for a link; NFS mounts on a directory.\<close>

definition prepare_mount_point :: "link_env \<Rightarrow> backend \<Rightarrow> string \<Rightarrow> ('m machine, unit, string) task" where
  "prepare_mount_point L b mp =
     (case b of
        FsKit \<Rightarrow>
          prog_bind (case path_split mp of
              Some (parent, _) \<Rightarrow> if parent = [] then prog_return () else dirs_step L parent ''parent directory''
            | None \<Rightarrow> prog_return ()) (\<lambda>_.
          on_nodes (\<lambda>ns. if lk_stat_error L mp = None \<and> ns (lk_at L mp) \<noteq> None
                         then handle_existing_fskit_mount_point L mp ns else (ns, Ok ())))
      | Nfs \<Rightarrow> dirs_step L mp ''directory'')"

text \<open>After the daemon's answer: the link of a volume, or the kernel's mount, given back when that fails.\<close>

definition finish_single_mount :: "('m, 'j) cli_env \<Rightarrow> string \<Rightarrow> mount_info \<Rightarrow> ('m machine, unit, string) task" where
  "finish_single_mount E mp info =
     (if mi_backend info = FsKit
      then (case mi_volume_path info of
              Some volume \<Rightarrow>
                if mp = volume then prog_return ()
                else on_nodes (\<lambda>ns. (fst (create_symlink (cl_links E) mp volume ns), Ok ()))
            | None \<Rightarrow> prog_return ())
      else prog_bind (prog_lift (ok_or ''mount did not return an NFS port'' (mi_nfs_port info))) (\<lambda>port.
           prog_try (run_mount_nfs E port mp) (\<lambda>mounted.
           case mounted of
             Inl _ \<Rightarrow> prog_return ()
           | Inr e \<Rightarrow>
               prog_bind (cli_call E (cl_unmount_transport E) (rpc_unmount (cl_daemon E) mp)) (\<lambda>_.
               prog_lift (Err (''kernel mount failed: '' @ e))))))"

definition mount_single ::
  "('m, 'j) cli_env \<Rightarrow> config \<Rightarrow> string \<Rightarrow> string \<Rightarrow> bool \<Rightarrow> backend \<Rightarrow> mount_options \<Rightarrow> ('m machine, unit, string) task" where
  "mount_single E c source mp server_only b opts =
     prog_bind (if b = FsKit then ensure_volumes_ctxfs_exists E else prog_return ()) (\<lambda>_.
     prog_bind (cli_connect E c) (\<lambda>_.
     prog_bind (prog_lift (if utf8_ok mp then Ok () else Err ''invalid mount point path'')) (\<lambda>_.
     prog_bind (prepare_mount_point (cl_links E) b mp) (\<lambda>_.
     prog_bind (cli_call E (cl_mount_transport E) (rpc_mount (cl_daemon E) source mp b opts)) (\<lambda>answer.
     case answer of
       Lost e \<Rightarrow> prog_lift (Err e)
     | Refused e \<Rightarrow> prog_lift (Err e)
     | Answered info \<Rightarrow> if server_only then prog_return () else finish_single_mount E mp info)))))"

definition failures_error :: "mount_result list \<Rightarrow> (unit, string) outcome" where
  "failures_error rs =
     (let n = length (filter (\<lambda>r. \<not> mr_success r) rs)
      in if 0 < n then Err (show_nat n @ '' mount(s) failed'') else Ok ())"

text \<open>Several sources under one directory.\<close>

definition mount_under ::
  "('m, 'j) cli_env \<Rightarrow> config \<Rightarrow> string list \<Rightarrow> string \<Rightarrow> bool \<Rightarrow> backend \<Rightarrow> prefetch_policy \<Rightarrow> ('m machine, unit, string) task" where
  "mount_under E c sources dir server_only b prefetch =
     prog_bind (if b = FsKit then ensure_volumes_ctxfs_exists E else prog_return ()) (\<lambda>_.
     prog_bind (cli_connect E c) (\<lambda>_.
     prog_bind (batch_mount E
       (foldl (\<lambda>m src. AList.update src (path_push dir (source_to_slug src)) m) [] sources) server_only prefetch) (\<lambda>results.
     prog_lift (failures_error results))))"

definition handle_mount ::
  "('m, 'j) cli_env \<Rightarrow> config \<Rightarrow> string list \<Rightarrow> string option \<Rightarrow> string option \<Rightarrow> bool \<Rightarrow> backend option \<Rightarrow> mount_options \<Rightarrow>
     ('m machine, unit, string) task" where
  "handle_mount E c sources mount_point mount_dir server_only flag opts =
     (let b = detect_backend E flag None in
      case (mount_point, mount_dir) of
        (Some _, Some _) \<Rightarrow> prog_lift (Err ''--mount-point and --mount-dir are mutually exclusive'')
      | (Some mp, None) \<Rightarrow>
          (case sources of
             [source] \<Rightarrow> mount_single E c source mp server_only b opts
           | [] \<Rightarrow>
               prog_bind (if b = FsKit then ensure_volumes_ctxfs_exists E else prog_return ()) (\<lambda>_.
               prog_bind (cli_connect E c) (\<lambda>_. prog_lift Panic))
           | _ \<Rightarrow> prog_lift (Err ''--mount-point can only be used with a single source''))
      | (None, None) \<Rightarrow> prog_lift (Err ''either --mount-point or --mount-dir is required'')
      | (None, Some dir) \<Rightarrow> mount_under E c sources dir server_only b (mo_prefetch opts))"

section \<open>Unmounting\<close>

definition volume_still_mounted :: "('m, 'j) cli_env \<Rightarrow> string \<Rightarrow> bool" where
  "volume_still_mounted E path =
     (case cl_mount_table E of
        Some out \<Rightarrow> list_ex (str_contains ('' on '' @ path @ '' '')) (str_lines out) | None \<Rightarrow> False)"

definition unmount_single :: "('m, 'j) cli_env \<Rightarrow> config \<Rightarrow> string \<Rightarrow> ('m machine, unit, string) task" where
  "unmount_single E c target =
     prog_bind (prog_read (\<lambda>s. (is_ctxfs_symlink (cl_links E) target (mc_nodes s),
                                resolve_ctxfs_path (cl_links E) target (mc_nodes s)))) (\<lambda>(is_link, daemon_target).
     (let is_fskit = starts_with CTXFS_VOLUMES_PREFIX daemon_target in
      prog_bind (if is_fskit then prog_return () else prog_try (run_umount E daemon_target) (\<lambda>_. prog_return ())) (\<lambda>_.
      prog_bind (cli_connect E c) (\<lambda>_.
      prog_bind (cli_call E (cl_unmount_transport E) (rpc_unmount (cl_daemon E) daemon_target)) (\<lambda>answer.
      prog_bind (if is_link then on_nodes (\<lambda>ns. (fst (safe_remove_symlink (cl_links E) target ns), Ok ())) else prog_return ()) (\<lambda>_.
      prog_lift (case answer of
          Answered _ \<Rightarrow> Ok ()
        | Refused e \<Rightarrow> Err e
        | Lost e \<Rightarrow> if is_fskit \<and> \<not> volume_still_mounted E daemon_target then Ok () else Err e)))))))"

definition handle_unmount :: "('m, 'j) cli_env \<Rightarrow> config \<Rightarrow> string option \<Rightarrow> bool \<Rightarrow>
     ('m machine, unmount_result list, string) task" where
  "handle_unmount E c target everything =
     (if everything then prog_bind (cli_connect E c) (\<lambda>_. batch_unmount_all E)
      else prog_bind (prog_lift (ok_or ''target is required unless --all is specified'' target)) (\<lambda>t.
           prog_bind (unmount_single E c t) (\<lambda>_. prog_return [])))"

section \<open>Dependencies\<close>

definition filter_dev :: "detected_dep list \<Rightarrow> bool \<Rightarrow> detected_dep list" where
  "filter_dev deps include_dev = (if include_dev then deps else filter (\<lambda>d. \<not> dep_is_dev d) deps)"

definition select_one :: "detected_dep list \<Rightarrow> string \<Rightarrow> (detected_dep, string) outcome" where
  "select_one deps nm =
     (case split_once CHR '':'' nm of
        Some (eco, bare) \<Rightarrow>
          (case filter (\<lambda>d. to_ascii_lowercase (ecosystem_display (dep_ecosystem d)) = to_ascii_lowercase eco \<and> dep_name d = bare) deps of
             [] \<Rightarrow> Err (''no dependency matching '' @ quoted nm @ '' found'')
           | [d] \<Rightarrow> Ok d
           | _ \<Rightarrow> Err (''multiple dependencies matching '' @ quoted nm @ '' '' @ [CHR 0xE2, CHR 0x80, CHR 0x94]
                    @ '' this is unexpected''))
      | None \<Rightarrow>
          (let found = filter (\<lambda>d. dep_name d = nm) deps; ecos = map (\<lambda>d. ecosystem_display (dep_ecosystem d)) found in
           case found of
             [] \<Rightarrow> Err (''no dependency named '' @ quoted nm @ '' found'')
           | [d] \<Rightarrow> Ok d
           | _ \<Rightarrow> Err (''ambiguous name '' @ quoted nm @ '' '' @ [CHR 0xE2, CHR 0x80, CHR 0x94] @ '' found in: ''
                    @ concat (hd ecos # map (\<lambda>e. '', '' @ e) (tl ecos))
                    @ ''. Qualify with ecosystem prefix (e.g., '' @ hd ecos @ '':'' @ nm @ '').'')))"

fun select_by_name :: "detected_dep list \<Rightarrow> string list \<Rightarrow> (detected_dep list, string) outcome" where
  "select_by_name deps [] = Ok []"
| "select_by_name deps (nm # nms) = obind (select_one deps nm) (\<lambda>d. omap ((#) d) (select_by_name deps nms))"

text \<open>\<open>picked\<close> is what the user picks in the dialogue, \<open>None\<close> when it is cancelled.\<close>

definition interactive_select :: "bool \<Rightarrow> nat list option \<Rightarrow> detected_dep list \<Rightarrow> (detected_dep list, string) outcome" where
  "interactive_select terminal picked deps =
     (if \<not> terminal
      then Err (''non-interactive terminal '' @ [CHR 0xE2, CHR 0x80, CHR 0x94] @ '' use --all or --select to choose dependencies'')
      else (case picked of
              None \<Rightarrow> Err ''interactive selection cancelled''
            | Some ixs \<Rightarrow> if list_all (\<lambda>i. i < length deps) ixs then Ok (map ((!) deps) ixs) else Panic))"

definition deps_mount ::
  "('m, 'j) cli_env \<Rightarrow> config \<Rightarrow> string \<Rightarrow> detected_dep list \<Rightarrow> bool \<Rightarrow> string list option \<Rightarrow> bool \<Rightarrow> string \<Rightarrow> bool \<Rightarrow>
     bool \<times> nat list option \<Rightarrow> ('m machine, unit, string) task" where
  "deps_mount E c project_dir detected take_all select include_dev mount_dir server_only dialogue =
     (let filtered = filter_dev detected include_dev in
      if filtered = [] then prog_lift (Err (''no dependencies detected in '' @ project_dir))
      else prog_bind (prog_lift (if take_all then Ok filtered
                                 else (case select of
                                         Some names \<Rightarrow> select_by_name filtered names
                                       | None \<Rightarrow> interactive_select (fst dialogue) (snd dialogue) filtered))) (\<lambda>selected.
           if selected = [] then prog_return ()
           else prog_bind (cli_connect E c) (\<lambda>_.
                prog_bind (batch_mount E (compute_mount_paths selected mount_dir) server_only PrefetchAuto) (\<lambda>results.
                prog_lift (failures_error results)))))"

definition deps_unmount :: "('m, 'j) cli_env \<Rightarrow> config \<Rightarrow> string \<Rightarrow> ('m machine, unmount_result list, string) task" where
  "deps_unmount E c mount_dir = prog_bind (cli_connect E c) (\<lambda>_. batch_unmount_dir E mount_dir)"

section \<open>The configuration\<close>

definition set_default_backend ::
  "(string \<Rightarrow> string \<Rightarrow> string \<Rightarrow> string + string) \<Rightarrow> (string \<Rightarrow> string) \<Rightarrow> bool \<Rightarrow> write_env \<Rightarrow> string \<Rightarrow> string \<Rightarrow>
     (string \<rightharpoonup> bytes) \<Rightarrow> (string \<rightharpoonup> bytes) \<times> (unit, string) outcome" where
  "set_default_backend set_key debug readable we b path fs =
     (if b \<noteq> ''nfs'' \<and> b \<noteq> ''fskit''
      then (fs, Err (''invalid backend: '' @ debug b @ ''. Use '' @ quoted ''nfs'' @ '' or '' @ quoted ''fskit''))
      else (case update_config_key set_key readable we path ''backend'' b fs of
              (fs1, Ok _) \<Rightarrow> (fs1, Ok ())
            | (fs1, Err e) \<Rightarrow> (fs1, Err (''failed to write config: '' @ write_error_display e))
            | (fs1, Panic) \<Rightarrow> (fs1, Panic)))"

end
