(* ===== verification/Cli_Correct.thy ===== *)
theory Cli_Correct
  imports Cli Daemon_Witness
begin

text \<open>
  The command line's promises: nothing of the user is removed or overwritten by any sequence of mounts and
  unmounts; the kernel is asked to unmount what the daemon drops only when the target is the mount point;
  sizes are exact.
\<close>

section \<open>Sizes\<close>

text \<open>A size that is read is the number times its unit, and no product is cut off at 64 bits.\<close>

lemma parse_size_exact:
  assumes "parse_size_bytes alphabetic text = Ok w"
  shows "\<exists>v m i. parse_u64 (take i (str_trim text)) = Some v
    \<and> size_multiplier (map ascii_upper (drop i (str_trim text))) = Some m \<and> unat w = unat v * m"
proof -
  let ?t = "str_trim text" and ?i = "letter_at alphabetic (str_trim text)"
  obtain v where v: "parse_u64 (take ?i ?t) = Some v" using assms
    by (auto simp: parse_size_bytes_def Let_def split: if_splits option.splits)
  obtain m where m: "size_multiplier (map ascii_upper (drop ?i ?t)) = Some m" "unat v * m < 2 ^ 64" "w = of_nat (unat v * m)"
    using assms v by (auto simp: parse_size_bytes_def Let_def split: if_splits option.splits)
  then have "unat w = unat v * m" unfolding m(3) unat_of_nat by simp
  then show ?thesis using v m(1) by blast
qed

section \<open>The user's files\<close>

definition machine_kept :: "link_env \<Rightarrow> 'm machine \<Rightarrow> 'm machine \<Rightarrow> bool" where
  "machine_kept L s s' \<longleftrightarrow> user_nodes_kept L (mc_nodes s) (mc_nodes s')"

interpretation kept: state_relation "machine_kept L" for L
  by unfold_locales (auto simp: machine_kept_def intro: kept_trans)

lemma along_on_nodes: "(\<And>ns. user_nodes_kept L ns (fst (f ns))) \<Longrightarrow> along (machine_kept L) (on_nodes f)"
  by (auto simp: along_def on_nodes_def machine_kept_def Let_def split: prod.splits) (metis fst_conv)

lemma along_sudo: "along (machine_kept L) (sudo E args)"
  unfolding sudo_def by (intro kept.along_bind kept.along_change kept.along_lift) (simp add: machine_kept_def)

lemma along_call: "along (machine_kept L) (cli_call E tr m)"
  by (auto simp: along_def cli_call_def machine_kept_def)

lemma along_answer:
  "(\<And>x. along R (f x)) \<Longrightarrow> (\<And>e. along R (g e)) \<Longrightarrow> (\<And>e. along R (h e)) \<Longrightarrow>
     along R (case a of Answered x \<Rightarrow> f x | Refused e \<Rightarrow> g e | Lost e \<Rightarrow> h e)"
  by (cases a) simp_all

lemmas kept_intros = kept.along_bind kept.along_try kept.along_if kept.along_sum kept.along_option kept.along_pair
  kept.along_lift kept.along_read along_sudo along_call along_answer along_on_nodes

lemma along_each: "(\<And>x. along (machine_kept L) (f x)) \<Longrightarrow> along (machine_kept L) (prog_each f xs)"
  by (induction xs) (auto intro!: kept.along_bind kept.along_lift)

lemma mount_nfs_kept: "along (machine_kept L) (run_mount_nfs E port mp)"
  unfolding run_mount_nfs_def Let_def by (intro kept_intros)

lemma umount_kept: "along (machine_kept L) (run_umount E p)"
  unfolding run_umount_def by (intro kept_intros)

lemma active_kept: "along (machine_kept L) (active_mounts E)"
  unfolding active_mounts_def by (rule along_call)

lemma batch_mount_kept: "along (machine_kept (cl_links E)) (batch_mount E pairs server_only prefetch)"
proof -
  have request: "along (machine_kept (cl_links E)) (mount_request E prefetch x)" for x
    unfolding mount_request_def by (intro kept_intros) (simp_all add: make_dirs_kept)
  have finish: "along (machine_kept (cl_links E)) (finish_mount E server_only x)" for x
    unfolding finish_mount_def Let_def by (intro kept_intros mount_nfs_kept)
  show ?thesis unfolding batch_mount_def Let_def by (intro kept_intros along_each active_kept request finish)
qed

lemma batch_unmount_kept: "along (machine_kept L) (batch_unmount E what select)"
proof -
  have one: "along (machine_kept L) (unmount_one E t)" for t
    unfolding unmount_one_def by (intro kept_intros umount_kept)
  show ?thesis unfolding batch_unmount_def unmount_each_def by (intro kept_intros along_each active_kept one)
qed

lemma mount_single_kept: "along (machine_kept (cl_links E)) (mount_single E c source mp server_only b opts)"
proof -
  have volumes: "along (machine_kept (cl_links E)) (ensure_volumes_ctxfs_exists E)"
    unfolding ensure_volumes_ctxfs_exists_def Let_def by (intro kept_intros)
  have connect: "along (machine_kept (cl_links E)) (cli_connect E c)" unfolding cli_connect_def by (rule kept.along_lift)
  have dirs: "along (machine_kept (cl_links E)) (dirs_step (cl_links E) p what)" for p what
    unfolding dirs_step_def by (intro along_on_nodes) (simp add: make_dirs_kept)
  have place: "along (machine_kept (cl_links E)) (prepare_mount_point (cl_links E) b mp)"
    unfolding prepare_mount_point_def by (cases b) (auto intro!: kept_intros dirs simp: existing_kept)
  have finish: "along (machine_kept (cl_links E)) (finish_single_mount E mp info)" for info
    unfolding finish_single_mount_def by (intro kept_intros mount_nfs_kept) (simp add: create_symlink_kept)
  show ?thesis unfolding mount_single_def by (intro kept_intros volumes connect place finish)
qed

lemma handle_mount_kept: "along (machine_kept (cl_links E)) (handle_mount E c sources mp md server_only flag opts)"
proof -
  have volumes: "along (machine_kept (cl_links E)) (ensure_volumes_ctxfs_exists E)"
    unfolding ensure_volumes_ctxfs_exists_def Let_def by (intro kept_intros)
  have connect: "along (machine_kept (cl_links E)) (cli_connect E c)" unfolding cli_connect_def by (rule kept.along_lift)
  have many: "along (machine_kept (cl_links E)) (mount_under E c sources dir server_only b prefetch)" for dir b prefetch
    unfolding mount_under_def by (intro kept_intros volumes connect batch_mount_kept)
  show ?thesis unfolding handle_mount_def Let_def
    by (auto intro!: kept_intros volumes connect many mount_single_kept split: option.split list.split)
qed

lemma handle_unmount_kept: "along (machine_kept (cl_links E)) (handle_unmount E c target everything)"
proof -
  have connect: "along (machine_kept (cl_links E)) (cli_connect E c)" unfolding cli_connect_def by (rule kept.along_lift)
  have single: "along (machine_kept (cl_links E)) (unmount_single E c t)" for t
    unfolding unmount_single_def Let_def by (intro kept_intros connect umount_kept) (simp add: safe_remove_kept)
  show ?thesis unfolding handle_unmount_def batch_unmount_all_def by (intro kept_intros connect single batch_unmount_kept)
qed

text \<open>The commands that act on files, with what the world answers them taken from a set.\<close>

inductive cli_step :: "('m, 'j) cli_env set \<Rightarrow> 'm machine \<Rightarrow> 'm machine \<Rightarrow> bool" for W where
  cli_mount: "E \<in> W \<Longrightarrow> handle_mount E c sources mp md server_only flag opts s = Some (s', r) \<Longrightarrow> cli_step W s s'"
| cli_unmount: "E \<in> W \<Longrightarrow> handle_unmount E c target everything s = Some (s', r2) \<Longrightarrow> cli_step W s s'"

text \<open>
  C37. Whatever is mounted and unmounted, and whatever fails on the way, a node of the user stays as it is: a
  file, a directory with something in it, and a link that does not lead into the directory of volumes are
  never removed or replaced.
\<close>

theorem cli_keeps_user_nodes:
  assumes "(cli_step W)\<^sup>*\<^sup>* s s'" "mc_nodes s q = Some n" "\<forall>E\<in>W. \<not> removable (cl_links E) q n"
  shows "mc_nodes s' q = Some n"
  using assms(1)
proof (induction rule: rtranclp_induct)
  case base
  show ?case by (rule assms(2))
next
  case (step s1 s2)
  from step(2) obtain E where "E \<in> W" "machine_kept (cl_links E) s1 s2"
    by (cases rule: cli_step.cases) (use alongD [OF handle_mount_kept] alongD [OF handle_unmount_kept] in blast)+
  then show ?case using step(3) assms(3) by (simp add: machine_kept_def user_nodes_kept_def)
qed

section \<open>What the kernel is asked\<close>

text \<open>
  C34. Unmounting an NFS mount always takes it from the daemon's table, and so stops its server. The kernel is
  asked to unmount its mount point exactly when the target was given as the mount point: with the mount's
  id, which the command takes as well, the kernel's mount of the stopped server stays.
\<close>

theorem kernel_unmounted_iff_mount_point:
  assumes "List.find (\<lambda>(_, h). is_target t (mh_info h)) (dv_mount_order (cl_daemon E) (dm_mounts (mc_daemon s))) = Some (k, h)"
    and "k \<in> set (keys_of (dm_mounts (mc_daemon s)))"
    and "mc_nodes s (lk_at (cl_links E) t) \<notin> Some ` range LinkTo" "\<not> starts_with CTXFS_VOLUMES_PREFIX t"
    and "\<not> cl_connect_error E" "cl_unmount_transport E = Delivered"
  shows "\<exists>s' commands. unmount_single E c t s = Some (s', Ok ())
     \<and> dm_mounts (mc_daemon s') = AList.delete k (dm_mounts (mc_daemon s))
     \<and> mc_commands s' = mc_commands s @ commands
     \<and> ([''umount'', mi_mount_point (mh_info h)] \<in> set commands \<longleftrightarrow> t = mi_mount_point (mh_info h))"
proof -
  let ?cmd = "[''umount'', t]"
  let ?s1 = "s\<lparr> mc_commands := mc_commands s @ [?cmd] \<rparr>"
  have link: "\<not> is_ctxfs_symlink (cl_links E) t (mc_nodes s)" "resolve_ctxfs_path (cl_links E) t (mc_nodes s) = t"
    using assms(3) by (auto simp: is_ctxfs_symlink_def resolve_ctxfs_path_def split: option.splits link_node.splits)
  have umount: "prog_try (run_umount E t) (\<lambda>_. prog_return ()) s = Some (?s1, Ok () :: (unit, string) outcome)"
    by (cases "cl_run E ?cmd")
      (simp_all add: run_umount_def sudo_def prog_try_def prog_bind_def prog_change_def prog_lift_def)
  obtain d r where D: "do_unmount_by_id (cl_daemon E) k (mc_daemon s) = Some (d, r)" using unmount_returns by blast
  obtain h0 where "map_of (dm_mounts (mc_daemon s)) k = Some h0"
    using assms(2) by (metis map_of_eq_None_iff not_None_eq image_set)
  with unmount_effect [OF D] have d: "r = Ok ()" "dm_mounts d = AList.delete k (dm_mounts (mc_daemon s))" by auto
  have rpc: "rpc_unmount (cl_daemon E) t (mc_daemon s) = Some (d, Ok ())"
    using assms(1) D d(1) by (simp add: rpc_unmount_def prog_bind_def prog_read_def)
  have "unmount_single E c t s = Some (?s1\<lparr> mc_daemon := d \<rparr>, Ok ())"
    using umount assms(4-6) rpc
    by (auto simp: unmount_single_def prog_read_def link Let_def prog_bind_def cli_connect_def prog_lift_def cli_call_def
        remote_call_def)
  then show ?thesis using d(2) by auto
qed

section \<open>Batches\<close>

lemma run_each:
  assumes "\<And>x s s' r. f x s = Some (s', r) \<Longrightarrow> \<exists>y. r = Ok y \<and> g x y" and "prog_each f xs s = Some (s', r)"
  shows "\<exists>ys. r = Ok ys \<and> list_all2 g xs ys"
  using assms(2)
proof (induction xs arbitrary: s r)
  case (Cons x xs)
  obtain s1 r1 where x: "f x s = Some (s1, r1)" using Cons.prems by (cases "f x s") (auto simp: prog_bind_def)
  obtain y where y: "r1 = Ok y" "g x y" using assms(1) [OF x] by blast
  obtain r2 where xs: "prog_each f xs s1 = Some (s', r2)" "r = omap ((#) y) r2"
    using Cons.prems x y(1)
    by (auto simp: prog_bind_def prog_lift_def split: option.splits outcome.splits)
  show ?case using Cons.IH [OF xs(1)] xs(2) y(2) by auto
qed (simp add: prog_lift_def)

lemma request_source: "mount_request E prefetch x s = Some (s', r) \<Longrightarrow> \<exists>y. r = Ok y \<and> fst y = fst x"
  by (auto simp: mount_request_def on_nodes_def cli_call_def prog_bind_def prog_lift_def Let_def
      split: prod.splits option.splits)

lemma run_mount_nfs_answers: "run_mount_nfs E port path s = Some (s', r) \<Longrightarrow> r \<noteq> Panic"
  by (auto simp: run_mount_nfs_def sudo_def prog_bind_def prog_change_def prog_lift_def Let_def split: command_status.splits)

lemma finish_source: "finish_mount E server_only x s = Some (s', r) \<Longrightarrow> \<exists>y. r = Ok y \<and> mr_source y = fst x"
  by (auto simp: finish_mount_def cli_call_def prog_bind_def prog_try_def prog_lift_def Let_def
      split: prod.splits option.splits sum.splits if_splits outcome.splits dest: run_mount_nfs_answers)

lemma mset_map_partition: "mset (map f (filter P xs)) + mset (map f (filter (\<lambda>x. \<not> P x) xs)) = mset (map f xs)"
  by (induction xs) auto

text \<open>
  A batch that returns reports every mount it was asked for once, whatever the daemon and the kernel answer
  and whatever the order in which the requests complete.
\<close>

theorem batch_reports_each_once:
  assumes "\<And>xs. mset (cl_completion E xs) = mset xs" and "batch_mount E pairs server_only prefetch s = Some (s', r)"
  shows "\<exists>results. r = Ok results \<and> mset (map mr_source results) = mset (map fst pairs)"
proof -
  obtain s1 listed where listed: "active_mounts E s = Some (s1, Ok listed)"
    using assms(2) by (auto simp: batch_mount_def active_mounts_def cli_call_def prog_bind_def split: option.splits)
  define active where "active = (case listed of Answered ms \<Rightarrow> map mi_mount_point ms | _ \<Rightarrow> [])"
  let ?es = "sort_key fst pairs"
  let ?todo = "cl_completion E (filter (\<lambda>(_, path). path \<notin> set active) ?es)"
  have run: "prog_bind (prog_each (mount_request E prefetch) ?todo) (\<lambda>answers.
      prog_bind (prog_each (finish_mount E server_only) answers) (\<lambda>finished. prog_return
        (map (\<lambda>(source, path). \<lparr> mr_source = source, mr_mount_point = path, mr_success = True, mr_error = None,
           mr_note = Some ''already mounted'' \<rparr>) (filter (\<lambda>(_, path). path \<in> set active) ?es) @ finished))) s1 = Some (s', r)"
    using assms(2) listed by (simp add: batch_mount_def prog_bind_def Let_def active_def)
  then obtain s2 r2 where todo: "prog_each (mount_request E prefetch) ?todo s1 = Some (s2, r2)"
    by (auto simp: prog_bind_def split: option.splits)
  obtain answers where a: "r2 = Ok answers" "list_all2 (\<lambda>x y. fst y = fst x) ?todo answers"
    using run_each [where g = "\<lambda>x y. fst y = fst x", OF _ todo] request_source by blast
  obtain s3 r3 where fin: "prog_each (finish_mount E server_only) answers s2 = Some (s3, r3)"
    using run todo a(1) by (auto simp: prog_bind_def split: option.splits)
  obtain finished where f: "r3 = Ok finished" "list_all2 (\<lambda>x y. mr_source y = fst x) answers finished"
    using run_each [where g = "\<lambda>x y. mr_source y = fst x", OF _ fin] finish_source by blast
  have same: "map h ys = map k xs" if "list_all2 (\<lambda>x y. h y = k x) xs ys" for h :: "'x \<Rightarrow> string" and k :: "'y \<Rightarrow> string" and xs ys
    using that by (induction rule: list_all2_induct) auto
  have "map mr_source finished = map fst ?todo" using same [OF f(2)] same [OF a(2)] by simp
  moreover have "mset (map fst ?todo) = mset (map fst (filter (\<lambda>x. \<not> snd x \<in> set active) ?es))"
    using assms(1) by (simp add: case_prod_beta)
  ultimately have sum: "mset (map mr_source finished) + mset (map fst (filter (\<lambda>x. snd x \<in> set active) ?es)) = mset (map fst ?es)"
    using mset_map_partition [of fst "\<lambda>x. snd x \<in> set active" ?es] by (simp add: add.commute)
  let ?already = "map (\<lambda>(source, path). \<lparr> mr_source = source, mr_mount_point = path, mr_success = True, mr_error = None,
      mr_note = Some ''already mounted'' \<rparr>) (filter (\<lambda>(_, path). path \<in> set active) ?es)"
  have r: "r = Ok (?already @ finished)"
    using run todo a(1) fin f(1) by (auto simp: prog_bind_def prog_lift_def)
  have sources: "map mr_source ?already = map fst (filter (\<lambda>x. snd x \<in> set active) ?es)"
    by (simp add: split_def comp_def)
  have "mset (map mr_source (?already @ finished)) = mset (map fst ?es)"
    using sum by (simp only: map_append mset_append sources add.commute)
  also have "\<dots> = mset (map fst pairs)" by simp
  finally show ?thesis using r by blast
qed

text \<open>Every target of an unmounting batch is unmounted by the kernel, once and in order, whatever the daemon says.\<close>

theorem batch_unmounts_kernel:
  assumes "unmount_each E targets s = Some (s', r)"
  shows "mc_commands s' = mc_commands s @ map (\<lambda>t. [''umount'', t]) targets"
  using assms unfolding unmount_each_def
proof (induction targets arbitrary: s r)
  case (Cons t targets)
  obtain s1 r1 where x: "unmount_one E t s = Some (s1, r1)"
    using Cons.prems by (cases "unmount_one E t s") (auto simp: prog_bind_def)
  have one: "mc_commands s1 = mc_commands s @ [[''umount'', t]] \<and> (\<exists>y. r1 = Ok y)"
    using x by (cases "cl_run E [''umount'', t]")
      (auto simp: unmount_one_def run_umount_def sudo_def cli_call_def prog_bind_def prog_try_def prog_change_def prog_lift_def
        split: option.splits)
  then obtain r2 where "prog_each (unmount_one E) targets s1 = Some (s', r2)"
    using Cons.prems x by (auto simp: prog_bind_def prog_lift_def split: option.splits outcome.splits)
  then show ?case using Cons.IH one by fastforce
qed (simp add: prog_lift_def)

section \<open>Runs\<close>

definition demo_links :: link_env where
  "demo_links =
     \<lparr> lk_at = id, lk_stat_error = (\<lambda>_. None), lk_read_ok = (\<lambda>_. True), lk_missing = (\<lambda>_. []), lk_mkdir_error = (\<lambda>_. None),
       lk_canonical = Inl, lk_symlink_error = (\<lambda>_. None), lk_remove_error = (\<lambda>_. None), lk_rmdir = (\<lambda>_. NotEmpty) \<rparr>"

definition demo_cli :: "((string, cache_entry) lru_map, string) cli_env" where
  "demo_cli =
     \<lparr> cl_daemon = demo_world, cl_links = demo_links, cl_connect_error = False, cl_mount_transport = Delivered,
       cl_unmount_transport = Delivered, cl_deadline_error = [], cl_macos = True, cl_macos_26 = True, cl_app_installed = True,
       cl_backend_env = None, cl_run = (\<lambda>_. Success), cl_mount_table = None, cl_volumes_exist = True, cl_username = ''u'',
       cl_debug = id, cl_list_transport = Delivered, cl_batch_mount_transport = (\<lambda>_. Delivered),
       cl_batch_unmount_transport = (\<lambda>_. Delivered), cl_completion = id \<rparr>"

definition demo_machine :: "(string \<times> mount_handle) list \<Rightarrow> (string, cache_entry) lru_map machine" where
  "demo_machine ms = \<lparr> mc_daemon = demo_daemon\<lparr> dm_mounts := ms \<rparr>, mc_nodes = [''/u/f'' \<mapsto> OtherFile], mc_commands = [] \<rparr>"

text \<open>A mount on the user's file is refused, and the file stays.\<close>

theorem cli_keeps_user_nodes_witness:
  "\<exists>s'. handle_mount demo_cli demo_daemon_config [''x''] (Some ''/u/f'') None False (Some FsKit) demo_options (demo_machine [])
       = Some (s', Err ''/u/f exists and is not a directory or ctxfs symlink. Remove it manually.'')
     \<and> mc_nodes s' ''/u/f'' = Some OtherFile"
proof -
  have place: "path_split ''/u/f'' = Some (''/u'', ''f'')" "utf8_ok ''/u/f''" by code_simp+
  have "\<exists>s'. handle_mount demo_cli demo_daemon_config [''x''] (Some ''/u/f'') None False (Some FsKit) demo_options (demo_machine [])
      = Some (s', Err ''/u/f exists and is not a directory or ctxfs symlink. Remove it manually.'')"
    by (simp add: handle_mount_def detect_backend_def detect_backend_inner_def mount_single_def ensure_volumes_ctxfs_exists_def
        prepare_mount_point_def place dirs_step_def on_nodes_def make_dirs_def handle_existing_fskit_mount_point_def
        cli_connect_def prog_bind_def prog_lift_def demo_cli_def demo_links_def demo_machine_def Let_def)
  then obtain s' where run: "handle_mount demo_cli demo_daemon_config [''x''] (Some ''/u/f'') None False (Some FsKit) demo_options
      (demo_machine []) = Some (s', Err ''/u/f exists and is not a directory or ctxfs symlink. Remove it manually.'')" by blast
  have "cli_step {demo_cli} (demo_machine []) s'" by (rule cli_mount [OF _ run]) simp
  then have steps: "(cli_step {demo_cli})\<^sup>*\<^sup>* (demo_machine []) s'" by (rule r_into_rtranclp)
  have before: "mc_nodes (demo_machine []) ''/u/f'' = Some OtherFile" by (simp add: demo_machine_def)
  have "mc_nodes s' ''/u/f'' = Some OtherFile" by (rule cli_keeps_user_nodes [OF steps before]) simp
  with run show ?thesis by blast
qed

definition demo_nfs_mount :: mount_handle where
  "demo_nfs_mount =
     \<lparr> mh_info = \<lparr> mi_id = ''i'', mi_source = ''github:o/r@m'', mi_mount_point = ''/m'', mi_commit_sha = ''a'', mi_status = Ready,
                    mi_mounted_at = [], mi_nfs_port = Some 2049, mi_backend = Nfs, mi_volume_path = None, mi_symlink_paths = [] \<rparr>,
       mh_backend = Nfs, mh_nfs = None, mh_fskit = None, mh_repo_key = None, mh_counter_mount_id = ''i'' \<rparr>"

text \<open>Unmounted by its id, the mount leaves the table and its mount point stays mounted.\<close>

theorem kernel_unmounted_iff_mount_point_witness:
  "\<exists>s'. unmount_single demo_cli demo_daemon_config ''i'' (demo_machine [(''i'', demo_nfs_mount)]) = Some (s', Ok ())
     \<and> dm_mounts (mc_daemon s') = [] \<and> [''umount'', ''/m''] \<notin> set (mc_commands s')"
proof -
  let ?s = "demo_machine [(''i'', demo_nfs_mount)]"
  have found: "List.find (\<lambda>(_, h). is_target ''i'' (mh_info h)) (dv_mount_order (cl_daemon demo_cli) (dm_mounts (mc_daemon ?s)))
      = Some (''i'', demo_nfs_mount)"
    by (simp add: demo_cli_def demo_machine_def demo_nfs_mount_def is_target_def)
  obtain s' commands where R: "unmount_single demo_cli demo_daemon_config ''i'' ?s = Some (s', Ok ())"
    "dm_mounts (mc_daemon s') = AList.delete ''i'' (dm_mounts (mc_daemon ?s))" "mc_commands s' = mc_commands ?s @ commands"
    "[''umount'', mi_mount_point (mh_info demo_nfs_mount)] \<in> set commands \<longleftrightarrow> ''i'' = mi_mount_point (mh_info demo_nfs_mount)"
    using kernel_unmounted_iff_mount_point [OF found, of demo_daemon_config]
    by (auto simp: demo_cli_def demo_links_def demo_machine_def CTXFS_VOLUMES_PREFIX_def starts_with_def)
  then show ?thesis by (auto simp: demo_machine_def demo_nfs_mount_def)
qed

end
