(* ===== verification/Redis_Tree.thy ===== *)
theory Redis_Tree
  imports Tree_Cache
begin

text \<open>
  The tree cache shared over a Redis server, \<open>crates/ctxfs-cache-redis/src/lib.rs\<close>: the key of a tree, the
  version prefix of a payload, and the two operations, which turn every failure into a miss. The server is a
  map from keys to values with the errors it answers; zstd is an argument.
\<close>

record redis_env =
  rd_get_error :: "string \<Rightarrow> bool"
  rd_set_error :: "string \<Rightarrow> bool"
  rd_encode :: "bytes \<Rightarrow> bytes option"
  rd_decode :: "bytes \<Rightarrow> bytes option"

definition VERSION_PREFIX_LEN :: nat where
  "VERSION_PREFIX_LEN = 4"

definition cache_key :: "string \<Rightarrow> string \<Rightarrow> string \<Rightarrow> string" where
  "cache_key owner repo commit_sha = ''ctxfs:tree:'' @ owner @ ''/'' @ repo @ ''@'' @ commit_sha"

text \<open>\<open>u32::to_le_bytes\<close> and \<open>u32::from_le_bytes\<close>.\<close>

definition to_le_bytes :: "u32 \<Rightarrow> bytes" where
  "to_le_bytes w = map (\<lambda>i. char_of (unat w div 256 ^ i mod 256)) [0, 1, 2, 3]"

fun le_value :: "bytes \<Rightarrow> nat" where
  "le_value [] = 0"
| "le_value (c # cs) = of_char c + 256 * le_value cs"

definition wrap_with_version :: "bytes \<Rightarrow> bytes" where
  "wrap_with_version compressed = to_le_bytes SCHEMA_VERSION @ compressed"

definition unwrap_versioned :: "bytes \<Rightarrow> bytes option" where
  "unwrap_versioned blob =
     (if length blob < VERSION_PREFIX_LEN then None
      else if (of_nat (le_value (take VERSION_PREFIX_LEN blob)) :: u32) \<noteq> SCHEMA_VERSION then None
      else Some (drop VERSION_PREFIX_LEN blob))"

text \<open>A key that is missing is read as the empty value.\<close>

definition redis_get_tree :: "redis_env \<Rightarrow> (string \<rightharpoonup> bytes) \<Rightarrow> string \<Rightarrow> string \<Rightarrow> string \<Rightarrow> bytes option" where
  "redis_get_tree R server owner repo commit_sha =
     (let key = cache_key owner repo commit_sha in
      if rd_get_error R key then None
      else (let blob = (case server key of Some b \<Rightarrow> b | None \<Rightarrow> []) in
            if blob = [] then None else Option.bind (unwrap_versioned blob) (rd_decode R)))"

definition redis_put_tree ::
  "redis_env \<Rightarrow> string \<Rightarrow> string \<Rightarrow> string \<Rightarrow> bytes \<Rightarrow> (string \<rightharpoonup> bytes) \<Rightarrow> (string \<rightharpoonup> bytes)" where
  "redis_put_tree R owner repo commit_sha data server =
     (let key = cache_key owner repo commit_sha in
      case rd_encode R data of
        None \<Rightarrow> server
      | Some compressed \<Rightarrow> if rd_set_error R key then server else server(key \<mapsto> wrap_with_version compressed))"

lemma four_digits:
  fixes n :: nat
  shows "n mod 256 + 256 * (n div 256 mod 256 + 256 * (n div 256 div 256 mod 256 + 256 * (n div 256 div 256 div 256))) = n"
  by (simp only: mod_mult_div_eq)

lemma le_value_to_le_bytes: "le_value (to_le_bytes w) = unat w"
proof -
  have "unat w < 256 * (256 * (256 * 256))" using unsigned_less [of w] by simp
  with four_digits [of "unat w"] show ?thesis
    by (simp add: to_le_bytes_def of_char_of div_mult2_eq [symmetric] power_numeral_reduce)
qed

lemma length_to_le_bytes [simp]: "length (to_le_bytes w) = 4"
  by (simp add: to_le_bytes_def)

text \<open>A payload is read back exactly when its prefix is the current version.\<close>

lemma unwrap_prefixed: "unwrap_versioned (to_le_bytes v @ b) = (if v = SCHEMA_VERSION then Some b else None)"
proof -
  have "take 4 (to_le_bytes v @ b) = to_le_bytes v" "drop 4 (to_le_bytes v @ b) = b" for v by simp_all
  then show ?thesis
    by (simp add: unwrap_versioned_def VERSION_PREFIX_LEN_def le_value_to_le_bytes del: take_append drop_append)
qed

text \<open>What was put is got, when the server keeps it and zstd inverts itself.\<close>

lemma redis_get_after_put:
  assumes "rd_encode R data = Some z" "rd_decode R z = Some data" "\<not> rd_set_error R (cache_key owner repo sha)"
    and "\<not> rd_get_error R (cache_key owner repo sha)"
  shows "redis_get_tree R (redis_put_tree R owner repo sha data server) owner repo sha = Some data"
proof -
  have "wrap_with_version z \<noteq> []" by (simp add: wrap_with_version_def to_le_bytes_def)
  then show ?thesis using assms
    by (simp add: redis_get_tree_def redis_put_tree_def Let_def) (simp add: wrap_with_version_def unwrap_prefixed)
qed

end
