(* ===== verification/Spec2Isabelle.thy ===== *)
theory Spec2Isabelle
  imports Source_Spec Cache_Budget Cache_Race Config Vfs_Witness Adapter_Correct Observability Singleflight
    Git_Directories Tree_Cache Resolution_Cache Git_Witness Registry Mount_State Daemon_Witness Fskit_Witness Deps_Correct
    App_Helper_Correct Cli_Correct Redis_Tree
begin

text \<open>
  A verification library for ctxfs, a read-only filesystem over GitHub repositories and packages of npm,
  PyPI and crates.io. This theory imports the whole development; the properties are theorems of the theories
  named below, each after a text that numbers it (C1 to C40) and says in words what it states.

  \<^bold>\<open>The program and its parts.\<close> A daemon (\<open>ctxfs-daemon\<close>) answers RPC requests to mount a source. It parses
  the source (\<open>ctxfs-core\<close>), resolves a package to a repository (\<open>ctxfs-provider-npm\<close>, \<open>-pypi\<close>,
  \<open>-crate\<close>, remembered in \<open>ctxfs-cache/src/resolution.rs\<close>), registers a reservation for the repository in
  the blob cache (\<open>ctxfs-cache/src/lib.rs\<close>), and fetches a snapshot through \<open>GitHubProvider\<close>
  (\<open>ctxfs-provider-git\<close>), which keeps trees in \<open>ctxfs-cache/src/tree.rs\<close> and blobs and directories in the
  blob cache. A \<open>VfsState\<close> (\<open>ctxfs-vfs\<close>) over the snapshot is served by one of two adapters: an NFSv3
  server (\<open>ctxfs-nfs\<close>), or FSKit (\<open>ctxfs-fskit\<close>) behind a local socket (\<open>fskit-rs\<close>). The command line
  (\<open>ctxfs-cli\<close>) mounts and unmounts through the daemon, links volumes to mount points, and mounts the
  dependencies of a project in a batch (\<open>deps\<close>). A helper process (\<open>ctxfs-app-helper\<close>) passes the
  companion app's requests to the daemon and edits the configuration.

  \<^bold>\<open>Theories and sources.\<close>
  \<^item> \<open>Prelude\<close>: results with errors and panics, Rust's string functions, decimal numbers, paths,
    association lists, machine words. \<open>Utf8\<close>: \<open>str::from_utf8\<close>.
  \<^item> \<open>Core_Types\<close>, \<open>Source_Spec\<close>, \<open>Config\<close>: \<open>ctxfs-core\<close> (\<open>error.rs\<close>, \<open>digest.rs\<close>,
    \<open>backend.rs\<close>; \<open>source.rs\<close>; \<open>config.rs\<close>).
  \<^item> \<open>Linked_Hash_Map\<close>: the interface of the crate \<open>linked-hash-map\<close>. \<open>Cache_State\<close> (the state behind
    the cache's mutex), \<open>Cache_Eviction\<close> (the loops that shrink the LRU index) and \<open>Blob_Cache\<close> (every
    operation of \<open>BlobCache\<close>, \<open>BlobTempWriter\<close>, \<open>MountCacheView\<close>): \<open>ctxfs-cache/src/lib.rs\<close> and
    \<open>reservation.rs\<close>. \<open>Cache_Invariants\<close>, \<open>Cache_Files\<close>, \<open>Cache_Steps\<close>, \<open>Cache_Kept\<close>,
    \<open>Cache_Rebuild\<close>, \<open>Cache_Budget\<close>, \<open>Cache_Race\<close> and \<open>Cache_Correct\<close> hold its lemmas and properties.
  \<^item> \<open>Manifest_Snapshot\<close>: \<open>ctxfs-manifest\<close>. \<open>Vfs\<close>: \<open>VfsState\<close> of \<open>ctxfs-vfs\<close>, with
    \<open>Vfs_Correct\<close>, \<open>Vfs_Listing\<close>, \<open>Vfs_Subpath\<close>, \<open>Vfs_Read\<close>, \<open>Vfs_Witness\<close>.
  \<^item> \<open>Nfs_Adapter\<close>: \<open>CtxfsNfs\<close> of \<open>ctxfs-nfs/src/fs.rs\<close>. \<open>Fskit_Adapter\<close>: \<open>FilesystemAdapter\<close>, slugs and
    tokens of \<open>ctxfs-fskit\<close>. \<open>Adapter_Correct\<close>: the two compared.
  \<^item> \<open>Fskit_Handler\<close>: the messages of \<open>protocol.proto\<close>, the trait \<open>Filesystem\<close> as a record of operations and
    \<open>Handler::handle\<close>. \<open>Fskit_Session\<close>: the adapter as that record, and one connection (\<open>handle_stream\<close> of
    \<open>fskit-rs/src/socket.rs\<close>). \<open>Fskit_Framing\<close>, \<open>Fskit_Correct\<close>, \<open>Fskit_Witness\<close>.
  \<^item> \<open>Rate_Limit\<close>, \<open>Provider_Common\<close>, \<open>Observability\<close>, \<open>Singleflight\<close>: \<open>ctxfs-provider-common\<close>
    (\<open>rate_limit.rs\<close>, \<open>http.rs\<close>; \<open>lfs.rs\<close>, \<open>repo_url.rs\<close>, \<open>fetcher.rs\<close>; \<open>counters.rs\<close>,
    \<open>observability.rs\<close>, \<open>status.rs\<close>; the slots of \<open>fetcher.rs\<close> as \<open>github.rs\<close> uses them).
  \<^item> \<open>Tree_Cache\<close>, \<open>Resolution_Cache\<close>: \<open>ctxfs-cache/src/tree.rs\<close> and \<open>resolution.rs\<close>.
  \<^item> \<open>Git_Tree\<close>, \<open>Git_Directories\<close>, \<open>Git_Tarball\<close>, \<open>Git_Extract\<close>, \<open>Git_Api\<close>, \<open>Git_Provider\<close>:
    \<open>ctxfs-provider-git/src/github.rs\<close> (the tree of a commit; directories named by content; the redirect
    chain and the streaming hash; the extraction of an archive; the REST calls; the operations of the
    provider). \<open>Git_Relations\<close>, \<open>Git_Requests\<close>, \<open>Git_Reservations\<close>, \<open>Git_Witness\<close>.
  \<^item> \<open>Registry\<close>: the three package resolvers.
  \<^item> \<open>Mount_State\<close>: \<open>mounts.json\<close> (\<open>ctxfs-daemon/src/mount_state.rs\<close>). \<open>Daemon_Mount\<close>: the RPC records
    (\<open>ctxfs-ipc/src/service.rs\<close>), the mount handles, \<open>fskit_mount.rs\<close>. \<open>Daemon\<close>: every operation and
    handler of \<open>daemon.rs\<close>. \<open>Daemon_Correct\<close>, \<open>Daemon_Table\<close>, \<open>Daemon_Lifecycle\<close>, \<open>Daemon_Witness\<close>.
  \<^item> \<open>Remote_Call\<close>: a call of the daemon over its socket, which may be lost on either way. \<open>App_Helper\<close>,
    \<open>App_Helper_Correct\<close>: \<open>ctxfs-app-helper\<close>, with \<open>ctxfs-core/src/ext_status.rs\<close> and
    \<open>ctxfs-provider-git/src/token.rs\<close>.
  \<^item> \<open>Deps\<close>, \<open>Deps_Correct\<close>: \<open>ctxfs-cli/src/deps\<close> and \<open>backend.rs\<close>. \<open>Cli_Links\<close>: \<open>symlink.rs\<close>.
    \<open>Cli\<close>, \<open>Cli_Correct\<close>: the handlers of \<open>main.rs\<close>, the batches of \<open>deps/mount.rs\<close> and the default backend
    of \<open>setup.rs\<close>, as tasks on the machine (the daemon, the nodes of the files, the commands given to \<open>sudo\<close>).
  \<^item> \<open>Redis_Tree\<close>: \<open>ctxfs-cache-redis\<close>.

  \<^bold>\<open>How state and effects are modelled.\<close> A struct is a record with the source's fields, an enum a datatype, a
  \<open>HashMap\<close> or \<open>DashMap\<close> an association list (its iteration order is an argument where it shows), an integer a
  word of its width. Arithmetic wraps as in a release build; an index, slice or division that panics, and a
  \<open>panic!\<close>, is the outcome \<open>Panic\<close> beside \<open>Ok\<close> and \<open>Err\<close>. A stateful operation returns the new state
  with its result; the provider and the daemon use the type \<open>task\<close> (\<open>Git_Api\<close>: \<open>prog_bind\<close>, \<open>prog_try\<close>)
  for \<open>?\<close> and \<open>match\<close> on a result. An asynchronous handler is one step, except where interleaving is the
  point: \<open>put\<close> is cut at its lock (\<open>Cache_Race\<close>) and a tarball task at its claims and its waits
  (\<open>Singleflight\<close>). What the operating system, a server or a library answers is a record of functions given
  to the definitions (\<open>io_env\<close>, \<open>fs_env\<close>, \<open>stream_env\<close>, \<open>github_env\<close>, \<open>daemon_env\<close>, \<open>project_env\<close>,
  \<open>helper_env\<close>, \<open>link_env\<close>, \<open>cli_env\<close>, \<open>redis_env\<close>); so are SHA-1
  and SHA-256, JSON, TOML, base64, the URL parser, the archive reader, protobuf, the clock and Unicode's lower casing.

  \<^bold>\<open>Loops.\<close> A loop whose end depends on data is a \<open>partial_function (option)\<close> with \<open>None\<close> for not returning,
  and that it returns is proved: the eviction loops from the laws of the index (C1, and the lemmas of
  \<open>Cache_Eviction\<close>), the walk of a truncated tree from the finiteness of the tree (C12), the loop of a
  connection from a decoder that consumes what it reads and a filesystem that returns (C14), and the
  requests of the helper that shrink the cache from the laws of the index (C40). The loops that write a buffer piece by piece
  and the redirect chain are functions with a measure. The NFS client of C22 has fuel; the theorem says that
  one more than the number of entries is enough.

  \<^bold>\<open>Interfaces.\<close> \<open>linked_hash_map\<close> states the laws of the LRU index's crate; \<open>lru_index\<close> extends it with the
  cache's lemmas, and both are interpreted on the association list (\<open>lru\<close>, \<open>lru_ix\<close>), on which the witnesses
  run; the cache's properties hold of every index with the laws. \<open>state_relation\<close> is a reflexive and
  transitive relation between states, carried along \<open>prog_bind\<close> and \<open>prog_try\<close>; \<open>provider_relation\<close>
  extends it over the provider's operations (\<open>kept\<close> is the relation of the command line; interpreted for
  the requests sent, \<open>requests\<close>, and for the reservations, \<open>reservations\<close>; \<open>caches\<close>, \<open>keeps\<close> and \<open>same_table\<close> are relations of the provider and the
  daemon), and \<open>filesystem_relation\<close> over every FSKit request and session (\<open>bridge\<close>, on the adapter).
  \<open>registry_resolver\<close> is what the daemon expects of a resolver, interpreted on all three.

  \<^bold>\<open>What is shown.\<close>
  \<^item> The blob cache: an insertion ends within the limit or with protected blobs only, evicts oldest first and
    nothing needlessly, and never a protected blob (C1, C2, C4); the index, its total, the owner tables and the
    files agree after opening and any sequence of operations under any I/O failure (C3, C17); commits
    are all or nothing (C16); what was put is read back (C27); budgets are shared fairly (\<open>rebalance_fair\<close>). Two
    concurrent puts can lose a file (C29).
  \<^item> Sources and configuration: the parser accepts exactly the printed forms (C18); a write-back loses no
    update (C32), and the hash that is read for a missing file never lets the first one be saved (C28).
  \<^item> The filesystem: inode numbers are stable (C6); listings, lookups and subpaths agree with the provider's
    directories (C10, C19, C20); a read is served from the cache
    after any reads, writes and prunes, until the cache drops its blob (C21), and returns the bytes asked for (C31).
  \<^item> The adapters: an NFS listing is complete page by page (C22); both adapters show the same files, apart
    from the owner (C23); a bridge connection serves nothing before the token (C8) and only reads (C24). Its
    requests are served in order wherever the reads end, except inside a length prefix, where the connection
    closes (C14).
  \<^item> The provider: directories form a Merkle tree (C11); a truncated tree is walked to its recursive listing
    (C12); only blobs with the manifest's hash are committed (C7); the token goes to the API host alone (C9);
    the registry gives every claim of a commit one slot, and \<open>OnceCell\<close>, whose documented exclusion is the premise of
    \<open>flight_step\<close>, runs one download in a slot, so downloads of a commit never run together (C13); a slot that a
    cancelled leader leaves behind is never replaced (C30); a cached tree can outlive its directories and is then
    answered for ever, without a request (C38).
  \<^item> The daemon: reservations cover the table of mounts over any sequence of requests (C5); preparing, mounting and
    unmounting balance (C15, C25); the table is well formed (C26); \<open>mounts.json\<close> refines a list,
    the one in the file or, when it cannot be read, the empty one (C33). Three
    runs in which it does not keep its intentions: a backend that fails (C35), a second daemon (C36), a moving
    version from the cache (\<open>cached_resolution_renames_latest\<close>).
  \<^item> The command line: nothing of the user's files is removed or replaced (C37); the kernel's mount goes only
    with the mount point as the target (C34); which mount points of dependencies coincide or
    leave the mount directory (C39), which specifications are read back (\<open>detected_dep_roundtrip\<close>), and that a
    batch reports every mount once and unmounts every target (\<open>batch_reports_each_once\<close>, \<open>batch_unmounts_kernel\<close>).
  \<^item> The helper: every request is answered once and in order, whatever the connection does (C40).

  Hypotheses say what is assumed of library code (the laws of the index, a decoder that reads what it
  wrote and calls a message with missing bytes a buffer underflow or an invalid
  length, iteration orders that are permutations) or of sizes (fewer than \<open>2 ^ 32\<close>
  requests for the 32-bit counts of mounts, fewer directory entries than inode numbers are left). Every
  property with a hypothesis has a witness that applies it to a concrete run.

  \<^bold>\<open>Not modelled.\<close> Argument parsing and printing of the command line, its installation of sudoers and of the
  FSKit application (\<open>setup.rs\<close>), \<open>update.rs\<close>, \<open>diag.rs\<close> and \<open>install_path.rs\<close>, and in \<open>fskit-rs\<close>
  \<open>mounter.rs\<close>, \<open>session.rs\<close>, \<open>installer.rs\<close> and \<open>info.rs\<close>: they consist of calls of external programs
  whose meaning is outside the repository. The concurrent requests of a batch of mounts run one after
  another, in an order that is an argument. The sockets of \<open>ctxfs-ipc\<close> and tarpc's framing are
  library code. The accept loops, signals, logging, the
  poisoning of mutexes and memory exhaustion are not in the model, and neither are test support
  (\<open>mock.rs\<close>) and the experiment under \<open>docs/poc\<close>.
\<close>

end
